(* ===== verification/Prelude.thy ===== *)
theory Prelude
  imports Main "HOL-Library.Word"
begin

text \<open>
  Shared vocabulary of the XAI OS development: the C integer types as words, the
  kernel status code, the page arithmetic that several C files repeat as static
  helpers, the array scans (first index that satisfies a test), and the generic
  lemmas on words and lists that the component proofs use.
\<close>

unbundle bit_operations_syntax

section \<open>C types\<close>

type_synonym u8 = "8 word"
type_synonym u16 = "16 word"
type_synonym u32 = "32 word"
type_synonym u64 = "64 word"

text \<open>A C string: \<open>None\<close> is the null pointer, the list is the text before the NUL.\<close>

type_synonym cstr = "string option"

text \<open>The status code of \<^verbatim>\<open>kernel/include/xaios/status.h\<close>.\<close>

datatype xaios_status =
    XAIOS_OK
  | XAIOS_ERR_INVALID
  | XAIOS_ERR_NO_MEMORY
  | XAIOS_ERR_NOT_FOUND
  | XAIOS_ERR_IO
  | XAIOS_ERR_BUSY

definition UINT32_MAX :: u32 where
  "UINT32_MAX = 0xffffffff"

text \<open>Facts that unfold the component invariants and that the scans supply.\<close>

named_theorems inv_simps
named_theorems scan_simps

section \<open>Alignment\<close>

definition PAGE_SIZE :: u64 where
  "PAGE_SIZE = 4096"

definition align_up :: "u64 \<Rightarrow> u64 \<Rightarrow> u64" where
  "align_up value align = (value + align - 1) AND NOT (align - 1)"

definition align_down :: "u64 \<Rightarrow> u64 \<Rightarrow> u64" where
  "align_down value align = value AND NOT (align - 1)"

section \<open>Array scans\<close>

text \<open>
  The recurring C loop \<^verbatim>\<open>for (i = 0; i < N; ++i) if (P(a[i])) ...; break;\<close>: the first
  index of the array whose element passes the test.
\<close>

fun find_slot :: "('a \<Rightarrow> bool) \<Rightarrow> 'a list \<Rightarrow> nat option" where
  "find_slot P [] = None"
| "find_slot P (x # xs) = (if P x then Some 0 else map_option Suc (find_slot P xs))"

lemma find_slot_None_iff [scan_simps]:
  "find_slot P xs = None \<longleftrightarrow> (\<forall>x \<in> set xs. \<not> P x)"
  by (induction xs) auto

lemma find_slot_cong: "(\<And>x. x \<in> set xs \<Longrightarrow> P x = Q x) \<Longrightarrow> find_slot P xs = find_slot Q xs"
  by (induction xs) auto

lemma find_slot_SomeD:
  "find_slot P xs = Some i \<Longrightarrow> i < length xs \<and> P (xs ! i) \<and> (\<forall>j < i. \<not> P (xs ! j))"
proof (induction xs arbitrary: i)
  case Nil
  then show ?case by simp
next
  case (Cons x xs)
  then show ?case
    by (cases i) (auto split: if_splits simp: less_Suc_eq_0_disj)
qed

lemma find_slot_bound: "find_slot P xs = Some i \<Longrightarrow> i < length xs"
  and find_slot_holds: "find_slot P xs = Some i \<Longrightarrow> P (xs ! i)"
  and find_slot_first: "find_slot P xs = Some i \<Longrightarrow> j < i \<Longrightarrow> \<not> P (xs ! j)"
  using find_slot_SomeD by blast+

lemma find_slot_SomeI:
  assumes "i < length xs" and "P (xs ! i)" and "\<And>j. j < i \<Longrightarrow> \<not> P (xs ! j)"
  shows "find_slot P xs = Some i"
proof (cases "find_slot P xs")
  case None
  with assms(1,2) show ?thesis
    by (auto simp: find_slot_None_iff)
next
  case (Some k)
  then have k: "k < length xs" "P (xs ! k)" "\<And>j. j < k \<Longrightarrow> \<not> P (xs ! j)"
    using find_slot_SomeD [of P xs k] by auto
  have "\<not> k < i" using assms(3) k(2) by blast
  moreover have "\<not> i < k" using k(3) assms(2) by blast
  ultimately show ?thesis using Some by simp
qed

lemma find_slot_replicate:
  "find_slot P (replicate n x) = (if n > 0 \<and> P x then Some 0 else None)"
  by (cases n) (auto simp: find_slot_None_iff)

lemma find_slot_update_same:
  assumes "find_slot P xs = Some i" and "P y"
  shows "find_slot P (xs[i := y]) = Some i"
  using assms find_slot_SomeD [OF assms(1)]
  by (intro find_slot_SomeI) (auto simp: nth_list_update)

section \<open>Words\<close>

lemma unat_inc [simp]: "unat x < 2 ^ LENGTH('a) - 1 \<Longrightarrow> unat (x + 1 :: 'a::len word) = unat x + 1"
  by (simp add: unat_word_ariths)

lemma unat_inc_less: "x < y \<Longrightarrow> unat (x + 1 :: 'a::len word) = unat x + 1"
proof -
  assume "x < y"
  then have "unat x < unat y" by (simp add: word_less_nat_alt)
  moreover have "unat y < 2 ^ LENGTH('a)" by (rule unsigned_less)
  ultimately have "unat x < 2 ^ LENGTH('a) - 1" by linarith
  then show ?thesis by (rule unat_inc)
qed

lemma unat_plus_bound: "unat ((x :: 'a::len word) + y) \<le> unat x + unat y"
  by (simp add: unat_word_ariths)

lemma unat_uminus: "(x :: 'a::len word) \<noteq> 0 \<Longrightarrow> unat (- x) = 2 ^ LENGTH('a) - unat x"
proof -
  assume x: "x \<noteq> 0"
  have lt: "unat x < 2 ^ LENGTH('a)" by (rule unsigned_less)
  have "- x = of_nat (2 ^ LENGTH('a) - unat x)"
    using lt by (simp add: of_nat_diff less_imp_le)
  then have "unat (- x) = unat (of_nat (2 ^ LENGTH('a) - unat x) :: 'a word)" by (rule arg_cong)
  also have "\<dots> = 2 ^ LENGTH('a) - unat x"
    unfolding unat_of_nat using x lt by (simp add: take_bit_nat_eq_self unat_gt_0)
  finally show ?thesis .
qed

lemma unat_ucast_small:
  "unat (x :: 'a::len word) < 2 ^ LENGTH('b) \<Longrightarrow> unat (ucast x :: 'b::len word) = unat x"
  by (simp add: unsigned_ucast_eq take_bit_nat_eq_self)

lemma unat_add_le:
  "unat x + unat y < 2 ^ LENGTH('a) \<Longrightarrow> unat (x + y :: 'a::len word) = unat x + unat y"
  by (simp add: unat_word_ariths)

lemma unat_sub_le:
  "y \<le> x \<Longrightarrow> unat (x - y :: 'a::len word) = unat x - unat y"
  by (rule unat_sub)

lemma unat_of_nat_small:
  "n < 2 ^ LENGTH('a) \<Longrightarrow> unat (of_nat n :: 'a::len word) = n"
  by (simp add: unat_of_nat take_bit_nat_eq_self)

lemma word_eq_unat: "(x = y) = (unat x = unat (y :: 'a::len word))"
  by (simp add: word_unat_eq_iff)

section \<open>Lists\<close>

definition keep_last :: "nat \<Rightarrow> 'a list \<Rightarrow> 'a list" where
  "keep_last n xs = drop (length xs - n) xs"

lemma length_keep_last [simp]: "length (keep_last n xs) = min n (length xs)"
  by (auto simp: keep_last_def)

lemma keep_last_short [simp]: "length xs \<le> n \<Longrightarrow> keep_last n xs = xs"
  by (simp add: keep_last_def)

lemma keep_last_snoc:
  "keep_last n (keep_last n xs @ ys) = keep_last n (xs @ ys)"
proof (cases "length xs \<le> n")
  case True
  then show ?thesis by simp
next
  case False
  then show ?thesis
    by (simp add: keep_last_def add.commute)
qed

text \<open>Copying \<open>xs\<close> into a buffer at a position, as the byte loops of the C code do.\<close>

definition write_at :: "nat \<Rightarrow> 'a list \<Rightarrow> 'a list \<Rightarrow> 'a list" where
  "write_at pos xs buf = take pos buf @ xs @ drop (pos + length xs) buf"

lemma write_at_facts:
  assumes "pos + length xs \<le> length buf"
  shows "length (write_at pos xs buf) = length buf" "take (pos + length xs) (write_at pos xs buf) = take pos buf @ xs"
  using assms by (simp_all add: write_at_def)

section \<open>Bit masks built by a loop\<close>

text \<open>The C loop \<^verbatim>\<open>if (P(k)) mask |= 1 << k\<close> over a list of bit numbers.\<close>

lemma bit_two_power: "bit (2 ^ k :: 'a::len word) n \<longleftrightarrow> n = k \<and> n < LENGTH('a)"
  by (auto simp: bit_exp_iff dest: bit_imp_le_length)

lemma bit_fold_or:
  "bit (fold (\<lambda>k m. if P k then m OR push_bit k 1 else m) ks (m0 :: 'a::len word)) n \<longleftrightarrow>
     bit m0 n \<or> (n < LENGTH('a) \<and> n \<in> set ks \<and> P n)"
proof (induction ks arbitrary: m0)
  case (Cons k ks)
  with Cons.IH [of "m0 OR push_bit k 1"] Cons.IH [of m0] show ?case
    by (auto simp: bit_or_iff bit_two_power)
qed simp

lemma word_0_iff: "(a :: 'a::len word) = 0 \<longleftrightarrow> (\<forall>k. \<not> bit a k)"
  by (auto simp: bit_eq_iff dest: bit_imp_le_length)

lemma word_and_0_iff: "(a :: 'a::len word) AND b = 0 \<longleftrightarrow> (\<forall>k. \<not> (bit a k \<and> bit b k))"
  by (simp add: word_0_iff bit_and_iff)

lemma and_bit_iff:
  "k < LENGTH('a) \<Longrightarrow> (m AND push_bit k 1) \<noteq> (0 :: 'a::len word) \<longleftrightarrow> bit m k"
  by (auto simp: word_and_0_iff bit_two_power)

section \<open>Page arithmetic\<close>

lemma clear_low_bits: "(v :: u64) AND NOT (mask 12) = push_bit 12 (drop_bit 12 v)"
  by (rule bit_word_eqI) (auto simp: bit_and_iff bit_not_iff bit_mask_iff bit_push_bit_iff bit_drop_bit_eq)

lemma page_mask: "PAGE_SIZE - 1 = mask 12"
  by (simp add: PAGE_SIZE_def mask_eq_exp_minus_1)

lemma unat_align_down: "unat (align_down v PAGE_SIZE) = unat v div 4096 * 4096"
proof -
  have "unat (drop_bit 12 v) = unat v div 4096" by (simp add: drop_bit_eq_div unat_div)
  moreover have "unat v div 4096 * 4096 \<le> unat v" by simp
  moreover have "unat v < 2 ^ LENGTH(64)" by (rule unsigned_less)
  ultimately have "unat (push_bit 12 (drop_bit 12 v)) = unat v div 4096 * 4096"
    by (simp add: push_bit_eq_mult unat_word_ariths div_less_iff_less_mult)
  then show ?thesis by (simp only: align_down_def page_mask clear_low_bits)
qed

lemma align_up_down: "align_up v PAGE_SIZE = align_down (v + 4095) PAGE_SIZE"
  by (simp add: align_up_def align_down_def PAGE_SIZE_def add.commute add.left_commute diff_add_eq)

lemma unat_align_up:
  "unat v + 4095 < 2 ^ 64 \<Longrightarrow> unat (align_up v PAGE_SIZE) = (unat v + 4095) div 4096 * 4096"
  using unat_add_le [of v 4095] by (simp add: align_up_down unat_align_down)

lemma nth_update_if: "xs[i := v] ! j = (if i = j \<and> j < length xs then v else xs ! j)"
  by (cases "i < length xs") (auto simp: nth_list_update list_update_beyond)

end
