(* ===== verification/Fifo.thy ===== *)
theory Fifo
  imports Prelude
begin

text \<open>
  The byte-queue interfaces. \<open>bounded_fifo\<close> is the contract of a socket buffer: a write
  takes as many elements as fit and a read delivers from the front. \<open>lossy_fifo\<close> is the
  contract of the kernel log ring: a write is always taken whole and the oldest elements
  make room. The stream lemmas are proved once per interface; the providers interpret
  it. The last section relates a circular array to the list it stores.
\<close>

section \<open>Runs of queue operations\<close>

datatype 'a fifo_op = Enq "'a list" | Deq nat

text \<open>A run returns what the writes accepted, what the reads delivered and the last state.\<close>

fun fifo_run ::
  "('s \<Rightarrow> 'a list \<Rightarrow> nat \<times> 's) \<Rightarrow> ('s \<Rightarrow> nat \<Rightarrow> 'a list \<times> 's) \<Rightarrow> 's \<Rightarrow> 'a fifo_op list
   \<Rightarrow> 'a list \<times> 'a list \<times> 's" where
  "fifo_run enq deq s [] = ([], [], s)"
| "fifo_run enq deq s (Enq xs # ops) =
     (let (n, s1) = enq s xs; (acc, del, s') = fifo_run enq deq s1 ops
      in (take n xs @ acc, del, s'))"
| "fifo_run enq deq s (Deq n # ops) =
     (let (ys, s1) = deq s n; (acc, del, s') = fifo_run enq deq s1 ops
      in (acc, ys @ del, s'))"

fun fifo_op_ok :: "nat \<Rightarrow> 'a fifo_op \<Rightarrow> bool" where
  "fifo_op_ok m (Enq xs) = (length xs \<le> m)"
| "fifo_op_ok m (Deq n) = (n \<le> m)"

section \<open>The bounded queue\<close>

locale bounded_fifo =
  fixes invar :: "'s \<Rightarrow> bool"
    and contents :: "'s \<Rightarrow> 'a list"
    and cap :: nat
    and maxlen :: nat
    and enq :: "'s \<Rightarrow> 'a list \<Rightarrow> nat \<times> 's"
    and deq :: "'s \<Rightarrow> nat \<Rightarrow> 'a list \<times> 's"
  assumes contents_bound: "invar s \<Longrightarrow> length (contents s) \<le> cap"
    and enq_len: "invar s \<Longrightarrow> length xs \<le> maxlen \<Longrightarrow>
      fst (enq s xs) = min (length xs) (cap - length (contents s))"
    and enq_contents: "invar s \<Longrightarrow> length xs \<le> maxlen \<Longrightarrow>
      contents (snd (enq s xs)) = contents s @ take (fst (enq s xs)) xs"
    and enq_invar: "invar s \<Longrightarrow> length xs \<le> maxlen \<Longrightarrow> invar (snd (enq s xs))"
    and deq_out: "invar s \<Longrightarrow> n \<le> maxlen \<Longrightarrow> fst (deq s n) = take n (contents s)"
    and deq_contents: "invar s \<Longrightarrow> n \<le> maxlen \<Longrightarrow> contents (snd (deq s n)) = drop n (contents s)"
    and deq_invar: "invar s \<Longrightarrow> n \<le> maxlen \<Longrightarrow> invar (snd (deq s n))"
begin

lemma enq_all: "invar s \<Longrightarrow> length xs \<le> maxlen \<Longrightarrow> length (contents s) + length xs \<le> cap \<Longrightarrow>
    contents (snd (enq s xs)) = contents s @ xs"
  by (simp add: enq_len enq_contents)

lemma run_stream:
  assumes "invar s" and "list_all (fifo_op_ok maxlen) ops"
    and "fifo_run enq deq s ops = (acc, del, s')"
  shows "invar s' \<and> contents s @ acc = del @ contents s'"
  using assms
proof (induction ops arbitrary: s acc del s')
  case Nil
  then show ?case by simp
next
  case (Cons op ops)
  show ?case
  proof (cases op)
    case (Enq xs)
    obtain n s1 where e: "enq s xs = (n, s1)" by (cases "enq s xs")
    obtain acc1 where r: "fifo_run enq deq s1 ops = (acc1, del, s')" "acc = take n xs @ acc1"
      using Cons.prems(3) Enq e by (auto split: prod.splits)
    have s1: "invar s1" "contents s1 = contents s @ take n xs"
      using Cons.prems(1,2) Enq e enq_invar [of s xs] enq_contents [of s xs] by auto
    from Cons.IH [OF s1(1) _ r(1)] Cons.prems(2) show ?thesis
      by (simp add: r(2) s1(2))
  next
    case (Deq n)
    obtain ys s1 where e: "deq s n = (ys, s1)" by (cases "deq s n")
    obtain del1 where r: "fifo_run enq deq s1 ops = (acc, del1, s')" "del = ys @ del1"
      using Cons.prems(3) Deq e by (auto split: prod.splits)
    have s1: "invar s1" "ys = take n (contents s)" "contents s1 = drop n (contents s)"
      using Cons.prems(1,2) Deq e deq_invar [of s n] deq_contents [of s n] deq_out [of s n] by auto
    from Cons.IH [OF s1(1) _ r(1)] Cons.prems(2)
    have ih: "invar s' \<and> drop n (contents s) @ acc = del1 @ contents s'"
      by (simp add: s1(3))
    then have "take n (contents s) @ drop n (contents s) @ acc = ys @ del1 @ contents s'"
      by (simp add: s1(2))
    then have "contents s @ acc = ys @ del1 @ contents s'"
      by (metis append.assoc append_take_drop_id)
    with ih show ?thesis
      by (simp add: r(2))
  qed
qed

end

section \<open>The lossy queue\<close>

locale lossy_fifo =
  fixes invar :: "'s \<Rightarrow> bool"
    and contents :: "'s \<Rightarrow> 'a list"
    and cap :: nat
    and maxlen :: nat
    and push :: "'s \<Rightarrow> 'a list \<Rightarrow> 's"
  assumes contents_cap: "invar s \<Longrightarrow> length (contents s) \<le> cap"
    and push_contents: "invar s \<Longrightarrow> length xs \<le> maxlen \<Longrightarrow>
      contents (push s xs) = keep_last cap (contents s @ xs)"
    and push_invar: "invar s \<Longrightarrow> length xs \<le> maxlen \<Longrightarrow> invar (push s xs)"
begin

lemma push_stream:
  "invar s \<Longrightarrow> \<forall>xs\<in>set xss. length xs \<le> maxlen \<Longrightarrow>
    invar (fold (\<lambda>xs t. push t xs) xss s) \<and>
    contents (fold (\<lambda>xs t. push t xs) xss s) = keep_last cap (contents s @ concat xss)"
proof (induction xss arbitrary: s)
  case Nil
  then show ?case by (simp add: contents_cap)
next
  case (Cons xs xss)
  then have "invar (push s xs)" by (simp add: push_invar)
  from Cons.IH [OF this] Cons.prems show ?case
    by (simp add: push_contents keep_last_snoc)
qed

end

section \<open>A circular array as a list\<close>

definition ring_contents :: "'a list \<Rightarrow> nat \<Rightarrow> nat \<Rightarrow> 'a list" where
  "ring_contents data tail cnt = map (\<lambda>i. data ! ((tail + i) mod length data)) [0..<cnt]"

lemma length_ring_contents [simp]: "length (ring_contents data tail cnt) = cnt"
  by (simp add: ring_contents_def)

lemma ring_contents_0 [simp]: "ring_contents data tail 0 = []"
  by (simp add: ring_contents_def)

lemma ring_slot_le:
  assumes "(t + i) mod n = (t + j) mod n" and "i \<le> j" and "j < (n::nat)"
  shows "i = j"
proof -
  have "n dvd (t + j) - (t + i)"
    using assms by (subst mod_eq_dvd_iff_nat [symmetric]) auto
  then have "n dvd j - i" by simp
  with assms(2,3) show ?thesis
    using dvd_imp_le [of n "j - i"] by (cases "i < j") auto
qed

lemma ring_slot_inj:
  "i < n \<Longrightarrow> j < n \<Longrightarrow> ((t + i) mod n = (t + j) mod n) = (i = (j::nat))"
  using ring_slot_le [of t i n j] ring_slot_le [of t j n i] by (cases "i \<le> j") auto

lemma ring_contents_push:
  assumes "cnt < length data"
  shows "ring_contents (data[(tail + cnt) mod length data := x]) tail (Suc cnt)
    = ring_contents data tail cnt @ [x]"
proof -
  have "(tail + cnt) mod length data \<noteq> (tail + i) mod length data" if "i < cnt" for i
    using ring_slot_inj [of i "length data" cnt tail] that assms by simp
  moreover have "(tail + cnt) mod length data < length data"
    using assms by (intro mod_less_divisor) linarith
  ultimately show ?thesis
    by (auto simp: ring_contents_def nth_list_update)
qed

lemma ring_contents_pop:
  assumes "0 < length data"
  shows "ring_contents data tail (Suc cnt)
    = data ! (tail mod length data) # ring_contents data ((tail + 1) mod length data) cnt"
  by (simp add: ring_contents_def upt_conv_Cons map_Suc_upt [symmetric] mod_add_left_eq
      del: upt_Suc)

end
