(* ===== verification/Socket_Buffer.thy ===== *)
theory Socket_Buffer
  imports Fifo
begin

text \<open>
  \<^verbatim>\<open>kernel/net/socket_buffer.c\<close>: the circular buffer behind every socket and the pool the
  buffers come from. A pointer argument is an \<open>option\<close> (\<open>None\<close> is null); the destination
  of a read is the byte list it points to, returned overwritten.
\<close>

section \<open>Model\<close>

definition SOCKET_BUFFER_SIZE :: u32 where
  "SOCKET_BUFFER_SIZE = 4096"

definition SOCKET_BUFFER_COUNT :: nat where
  "SOCKET_BUFFER_COUNT = 32"

record socket_buffer =
  sb_data :: "u8 list"
  sb_head :: u32
  sb_tail :: u32
  sb_count :: u32

definition sockbuf_reset :: "socket_buffer \<Rightarrow> socket_buffer" where
  "sockbuf_reset buf = buf\<lparr>sb_head := 0, sb_tail := 0, sb_count := 0\<rparr>"

definition sockbuf_init :: "socket_buffer option \<Rightarrow> socket_buffer option" where
  "sockbuf_init buf = (case buf of None \<Rightarrow> None | Some b \<Rightarrow> Some (sockbuf_reset b))"

text \<open>The copy loop of a write: one byte at the head, then the head moves on.\<close>

fun sockbuf_put :: "socket_buffer \<Rightarrow> u8 list \<Rightarrow> socket_buffer" where
  "sockbuf_put buf [] = buf"
| "sockbuf_put buf (x # xs) =
     sockbuf_put (buf\<lparr>sb_data := (sb_data buf)[unat (sb_head buf) := x],
                      sb_head := (sb_head buf + 1) mod SOCKET_BUFFER_SIZE\<rparr>) xs"

fun sockbuf_write ::
  "socket_buffer option \<Rightarrow> u8 list option \<Rightarrow> u32 \<Rightarrow> u32 \<times> socket_buffer option" where
  "sockbuf_write (Some buf) (Some data) len =
     (if len = 0 then (0, Some buf)
      else let space = SOCKET_BUFFER_SIZE - sb_count buf;
               to_write = (if len < space then len else space);
               buf' = sockbuf_put buf (take (unat to_write) data)
           in (to_write, Some (buf'\<lparr>sb_count := sb_count buf' + to_write\<rparr>)))"
| "sockbuf_write buf data len = (0, buf)"

text \<open>The copy loop of a read, collecting the bytes it stores in the destination.\<close>

fun sockbuf_get :: "socket_buffer \<Rightarrow> nat \<Rightarrow> u8 list \<times> socket_buffer" where
  "sockbuf_get buf 0 = ([], buf)"
| "sockbuf_get buf (Suc n) =
     (let (ys, buf') = sockbuf_get
            (buf\<lparr>sb_tail := (sb_tail buf + 1) mod SOCKET_BUFFER_SIZE\<rparr>) n
      in (sb_data buf ! unat (sb_tail buf) # ys, buf'))"

fun sockbuf_read ::
  "socket_buffer option \<Rightarrow> u8 list option \<Rightarrow> u32 \<Rightarrow> u32 \<times> u8 list option \<times> socket_buffer option"
where
  "sockbuf_read (Some buf) (Some data) len =
     (if len = 0 then (0, Some data, Some buf)
      else let to_read = (if len < sb_count buf then len else sb_count buf);
               (ys, buf') = sockbuf_get buf (unat to_read)
           in (to_read, Some (ys @ drop (unat to_read) data),
               Some (buf'\<lparr>sb_count := sb_count buf' - to_read\<rparr>)))"
| "sockbuf_read buf data len = (0, data, buf)"

definition sockbuf_available :: "socket_buffer option \<Rightarrow> u32" where
  "sockbuf_available buf = (case buf of None \<Rightarrow> 0 | Some b \<Rightarrow> SOCKET_BUFFER_SIZE - sb_count b)"

definition sockbuf_used :: "socket_buffer option \<Rightarrow> u32" where
  "sockbuf_used buf = (case buf of None \<Rightarrow> 0 | Some b \<Rightarrow> sb_count b)"

text \<open>
  The pool: \<^verbatim>\<open>g_pool\<close> is a list of entries; a pointer to a pooled buffer is its index.
\<close>

record sockbuf_pool_entry =
  pe_buf :: socket_buffer
  pe_in_use :: u32

definition sockbuf_pool_init :: "sockbuf_pool_entry list \<Rightarrow> sockbuf_pool_entry list" where
  "sockbuf_pool_init pool = map (\<lambda>e. e\<lparr>pe_in_use := 0, pe_buf := sockbuf_reset (pe_buf e)\<rparr>) pool"

definition sockbuf_alloc ::
  "sockbuf_pool_entry list \<Rightarrow> nat option \<times> sockbuf_pool_entry list" where
  "sockbuf_alloc pool =
     (case find_slot (\<lambda>e. pe_in_use e = 0) pool of
        Some i \<Rightarrow> (Some i, pool[i := (pool ! i)\<lparr>pe_in_use := 1,
                                       pe_buf := sockbuf_reset (pe_buf (pool ! i))\<rparr>])
      | None \<Rightarrow> (None, pool))"

text \<open>A pointer that is not the address of a pooled buffer leaves the pool as it is.\<close>

definition sockbuf_free ::
  "nat option \<Rightarrow> sockbuf_pool_entry list \<Rightarrow> sockbuf_pool_entry list" where
  "sockbuf_free buf pool =
     (case buf of
        None \<Rightarrow> pool
      | Some i \<Rightarrow> if i < length pool
          then pool[i := (pool ! i)\<lparr>pe_in_use := 0, pe_buf := sockbuf_reset (pe_buf (pool ! i))\<rparr>]
          else pool)"

section \<open>Invariant and abstraction\<close>

definition sockbuf_inv :: "socket_buffer \<Rightarrow> bool" where
  "sockbuf_inv b \<longleftrightarrow> length (sb_data b) = 4096 \<and> unat (sb_head b) < 4096 \<and>
     unat (sb_tail b) < 4096 \<and> unat (sb_count b) \<le> 4096 \<and>
     unat (sb_head b) = (unat (sb_tail b) + unat (sb_count b)) mod 4096"

definition sockbuf_list :: "socket_buffer \<Rightarrow> u8 list" where
  "sockbuf_list b = ring_contents (sb_data b) (unat (sb_tail b)) (unat (sb_count b))"

text \<open>The interface operations, with the pointers dereferenced.\<close>

definition sockbuf_enq :: "socket_buffer \<Rightarrow> u8 list \<Rightarrow> nat \<times> socket_buffer" where
  "sockbuf_enq b xs =
     (let (n, b') = sockbuf_write (Some b) (Some xs) (of_nat (length xs)) in (unat n, the b'))"

definition sockbuf_deq :: "socket_buffer \<Rightarrow> nat \<Rightarrow> u8 list \<times> socket_buffer" where
  "sockbuf_deq b n =
     (let (k, ys, b') = sockbuf_read (Some b) (Some []) (of_nat n) in (the ys, the b'))"

section \<open>The copy loops\<close>

lemma ring_step [simp]: "unat ((x + 1) mod SOCKET_BUFFER_SIZE) = (unat x + 1) mod 4096"
  if "unat x < 4096"
  using that by (simp add: SOCKET_BUFFER_SIZE_def unat_mod)

lemma sockbuf_put_spec:
  assumes "length (sb_data b) = 4096" and "unat (sb_tail b) < 4096"
    and "unat (sb_head b) = (unat (sb_tail b) + k) mod 4096" and "k + length xs \<le> 4096"
  shows "length (sb_data (sockbuf_put b xs)) = 4096 \<and> sb_tail (sockbuf_put b xs) = sb_tail b \<and>
    sb_count (sockbuf_put b xs) = sb_count b \<and>
    unat (sb_head (sockbuf_put b xs)) = (unat (sb_tail b) + (k + length xs)) mod 4096 \<and>
    ring_contents (sb_data (sockbuf_put b xs)) (unat (sb_tail b)) (k + length xs)
      = ring_contents (sb_data b) (unat (sb_tail b)) k @ xs"
  using assms
proof (induction xs arbitrary: b k)
  case Nil
  then show ?case by simp
next
  case (Cons x xs)
  let ?b = "b\<lparr>sb_data := (sb_data b)[unat (sb_head b) := x],
              sb_head := (sb_head b + 1) mod SOCKET_BUFFER_SIZE\<rparr>"
  have hd: "unat (sb_head ?b) = (unat (sb_tail ?b) + Suc k) mod 4096"
    using Cons.prems(3) by (simp add: mod_Suc_eq)
  have push: "ring_contents (sb_data ?b) (unat (sb_tail b)) (Suc k)
      = ring_contents (sb_data b) (unat (sb_tail b)) k @ [x]"
    using ring_contents_push [of k "sb_data b" "unat (sb_tail b)" x] Cons.prems by simp
  have "sockbuf_put b (x # xs) = sockbuf_put ?b xs" by simp
  with Cons.IH [of ?b "Suc k"] Cons.prems hd push show ?case
    by simp
qed

lemma sockbuf_get_spec:
  assumes "length (sb_data b) = 4096" and "unat (sb_tail b) < 4096" and "n \<le> c"
    and "sockbuf_get b n = (ys, b')"
  shows "sb_data b' = sb_data b \<and> sb_head b' = sb_head b \<and> sb_count b' = sb_count b \<and>
    unat (sb_tail b') = (unat (sb_tail b) + n) mod 4096 \<and>
    ring_contents (sb_data b) (unat (sb_tail b)) c
      = ys @ ring_contents (sb_data b') (unat (sb_tail b')) (c - n) \<and> length ys = n"
  using assms
proof (induction n arbitrary: b c ys b')
  case 0
  then show ?case by simp
next
  case (Suc n)
  let ?b = "b\<lparr>sb_tail := (sb_tail b + 1) mod SOCKET_BUFFER_SIZE\<rparr>"
  obtain zs where g: "sockbuf_get ?b n = (zs, b')" "ys = sb_data b ! unat (sb_tail b) # zs"
    using Suc.prems(4) by (auto split: prod.splits)
  obtain c' where c: "c = Suc c'" "n \<le> c'" using Suc.prems(3) by (cases c) auto
  have "ring_contents (sb_data b) (unat (sb_tail b)) c
      = sb_data b ! unat (sb_tail b) # ring_contents (sb_data ?b) (unat (sb_tail ?b)) c'"
    using ring_contents_pop [of "sb_data b" "unat (sb_tail b)" c'] Suc.prems(1,2) c by simp
  with Suc.IH [of ?b c' zs b'] Suc.prems(1,2) c g show ?case
    by (simp add: mod_add_left_eq)
qed

section \<open>The operations refine list operations\<close>

lemma sockbuf_write_refines:
  assumes inv: "sockbuf_inv b" and len: "unat len \<le> length data"
    and w: "sockbuf_write (Some b) (Some data) len = (n, r)"
  shows "\<exists>b'. r = Some b' \<and> sockbuf_inv b' \<and> unat n = min (unat len) (4096 - length (sockbuf_list b)) \<and>
    sockbuf_list b' = sockbuf_list b @ take (unat n) data"
proof (cases "len = 0")
  case True
  with assms show ?thesis by auto
next
  case False
  let ?space = "SOCKET_BUFFER_SIZE - sb_count b"
  let ?n = "if len < ?space then len else ?space"
  let ?p = "sockbuf_put b (take (unat ?n) data)"
  from inv have i: "length (sb_data b) = 4096" "unat (sb_tail b) < 4096" "unat (sb_count b) \<le> 4096"
    "unat (sb_head b) = (unat (sb_tail b) + unat (sb_count b)) mod 4096"
    by (auto simp: sockbuf_inv_def)
  have sp: "unat ?space = 4096 - unat (sb_count b)"
    using i(3) by (subst unat_sub_le) (auto simp: SOCKET_BUFFER_SIZE_def word_le_nat_alt)
  have n: "unat ?n = min (unat len) (4096 - unat (sb_count b))"
    using sp by (auto simp: word_less_nat_alt)
  have tk: "length (take (unat ?n) data) = unat ?n" using n len by simp
  have put: "length (sb_data ?p) = 4096 \<and> sb_tail ?p = sb_tail b \<and> sb_count ?p = sb_count b \<and>
    unat (sb_head ?p) = (unat (sb_tail b) + (unat (sb_count b) + unat ?n)) mod 4096 \<and>
    ring_contents (sb_data ?p) (unat (sb_tail b)) (unat (sb_count b) + unat ?n)
      = ring_contents (sb_data b) (unat (sb_tail b)) (unat (sb_count b)) @ take (unat ?n) data"
    using sockbuf_put_spec [OF i(1,2,4), of "take (unat ?n) data"] tk n i(3) by auto
  have cnt: "unat (sb_count b + ?n) = unat (sb_count b) + unat ?n"
    by (rule unat_add_le) (use n i(3) in auto)
  have "n = ?n \<and> r = Some (?p\<lparr>sb_count := sb_count ?p + ?n\<rparr>)"
    using w False by (auto simp: Let_def)
  with put cnt n i(2,3) show ?thesis
    by (auto simp: sockbuf_inv_def sockbuf_list_def)
qed

lemma sockbuf_read_refines:
  assumes inv: "sockbuf_inv b"
    and r: "sockbuf_read (Some b) (Some data) len = (n, out, r)"
  shows "\<exists>b'. r = Some b' \<and> sockbuf_inv b' \<and> unat n = min (unat len) (length (sockbuf_list b)) \<and>
    out = Some (take (unat n) (sockbuf_list b) @ drop (unat n) data) \<and>
    sockbuf_list b' = drop (unat n) (sockbuf_list b)"
proof (cases "len = 0")
  case True
  with assms show ?thesis by auto
next
  case False
  define k where "k = (if len < sb_count b then len else sb_count b)"
  from inv have i: "length (sb_data b) = 4096" "unat (sb_tail b) < 4096" "unat (sb_count b) \<le> 4096"
    "unat (sb_head b) = (unat (sb_tail b) + unat (sb_count b)) mod 4096"
    by (auto simp: sockbuf_inv_def)
  have k: "unat k = min (unat len) (length (sockbuf_list b))" "unat k \<le> unat (sb_count b)"
    by (auto simp: k_def word_less_nat_alt sockbuf_list_def)
  obtain ys b1 where g: "sockbuf_get b (unat k) = (ys, b1)" by (cases "sockbuf_get b (unat k)")
  note get = sockbuf_get_spec [OF i(1,2) k(2) g]
  have cnt: "unat (sb_count b - k) = unat (sb_count b) - unat k"
    by (rule unat_sub_le) (simp add: word_le_nat_alt k(2))
  have hd: "unat (sb_head b) = (unat (sb_tail b1) + (unat (sb_count b) - unat k)) mod 4096"
    using get i(4) k(2) mod_add_left_eq [of "unat (sb_tail b) + unat k" 4096 "unat (sb_count b) - unat k"]
    by simp
  have res: "n = k" "out = Some (ys @ drop (unat k) data)" "r = Some (b1\<lparr>sb_count := sb_count b1 - k\<rparr>)"
    using r False g by (auto simp: Let_def k_def [symmetric])
  have "sockbuf_inv (b1\<lparr>sb_count := sb_count b1 - k\<rparr>)"
    using get cnt i(1,2,3) hd by (simp add: sockbuf_inv_def)
  moreover have "sockbuf_list b = ys @ sockbuf_list (b1\<lparr>sb_count := sb_count b1 - k\<rparr>)"
    using get cnt by (simp add: sockbuf_list_def)
  moreover have "length ys = unat k" using get by simp
  ultimately show ?thesis
    using res k(1) by simp
qed

lemma sockbuf_enqE:
  assumes "sockbuf_inv b" and "length xs \<le> 2 ^ 32 - 1"
  obtains n b' where "sockbuf_enq b xs = (n, b')" "sockbuf_inv b'"
    "n = min (length xs) (4096 - length (sockbuf_list b))"
    "sockbuf_list b' = sockbuf_list b @ take n xs"
proof -
  obtain n r where w: "sockbuf_write (Some b) (Some xs) (of_nat (length xs)) = (n, r)"
    by (cases "sockbuf_write (Some b) (Some xs) (of_nat (length xs))")
  have l: "unat (of_nat (length xs) :: u32) = length xs"
    using assms(2) by (intro unat_of_nat_small) simp
  obtain b' where "r = Some b'" "sockbuf_inv b'"
    "unat n = min (length xs) (4096 - length (sockbuf_list b))"
    "sockbuf_list b' = sockbuf_list b @ take (unat n) xs"
    using sockbuf_write_refines [OF assms(1) _ w] l by auto
  with w that [of "unat n" b'] show ?thesis
    by (simp add: sockbuf_enq_def)
qed

lemma sockbuf_deqE:
  assumes "sockbuf_inv b" and "n \<le> 2 ^ 32 - 1"
  obtains b' where "sockbuf_deq b n = (take n (sockbuf_list b), b')" "sockbuf_inv b'"
    "sockbuf_list b' = drop n (sockbuf_list b)"
proof -
  obtain k ys r where w: "sockbuf_read (Some b) (Some []) (of_nat n) = (k, ys, r)"
    by (cases "sockbuf_read (Some b) (Some []) (of_nat n)")
  have l: "unat (of_nat n :: u32) = n"
    using assms(2) by (intro unat_of_nat_small) simp
  obtain b' where "r = Some b'" "sockbuf_inv b'" "unat k = min n (length (sockbuf_list b))"
    "ys = Some (take (unat k) (sockbuf_list b))" "sockbuf_list b' = drop (unat k) (sockbuf_list b)"
    using sockbuf_read_refines [OF assms(1) w] l by auto
  with w that [of b'] show ?thesis
    by (simp add: sockbuf_deq_def min_def split: if_splits)
qed

interpretation sockbuf: bounded_fifo sockbuf_inv sockbuf_list 4096 "2 ^ 32 - 1" sockbuf_enq sockbuf_deq
proof
  fix s :: socket_buffer and xs :: "u8 list" and n :: nat
  assume inv: "sockbuf_inv s"
  show "length (sockbuf_list s) \<le> 4096"
    using inv by (simp add: sockbuf_inv_def sockbuf_list_def)
  show "fst (sockbuf_enq s xs) = min (length xs) (4096 - length (sockbuf_list s))"
    "sockbuf_list (snd (sockbuf_enq s xs)) = sockbuf_list s @ take (fst (sockbuf_enq s xs)) xs"
    "sockbuf_inv (snd (sockbuf_enq s xs))" if "length xs \<le> 2 ^ 32 - 1"
    using sockbuf_enqE [OF inv that] by force+
  show "fst (sockbuf_deq s n) = take n (sockbuf_list s)"
    "sockbuf_list (snd (sockbuf_deq s n)) = drop n (sockbuf_list s)"
    "sockbuf_inv (snd (sockbuf_deq s n))" if "n \<le> 2 ^ 32 - 1"
    using sockbuf_deqE [OF inv that] by force+
qed

section \<open>Properties of the buffer\<close>

definition empty_sockbuf :: socket_buffer where
  "empty_sockbuf = \<lparr>sb_data = replicate 4096 0, sb_head = 0, sb_tail = 0, sb_count = 0\<rparr>"

lemma empty_sockbuf_inv [simp]: "sockbuf_inv empty_sockbuf"
  by (simp add: sockbuf_inv_def empty_sockbuf_def)

lemma empty_sockbuf_list [simp]: "sockbuf_list empty_sockbuf = []"
  by (simp add: sockbuf_list_def empty_sockbuf_def)

text \<open>
  C9: Stream integrity of a socket buffer. Over any sequence of writes and reads, the bytes
  stored before followed by the bytes the writes accepted are exactly the bytes the reads
  delivered followed by the bytes still stored, in order: nothing is lost, duplicated or
  reordered, whatever the wrap-around of the ring, and the ring invariant survives.
\<close>

theorem sockbuf_stream_integrity:
  assumes "sockbuf_inv s"
    and "list_all (fifo_op_ok (2 ^ 32 - 1)) ops"
    and "fifo_run sockbuf_enq sockbuf_deq s ops = (acc, del, s')"
  shows "sockbuf_inv s' \<and> sockbuf_list s @ acc = del @ sockbuf_list s'"
  using assms by (rule sockbuf.run_stream)

theorem sockbuf_stream_integrity_witness:
  "\<exists>acc del s'. fifo_run sockbuf_enq sockbuf_deq empty_sockbuf [Enq [1, 2, 3], Deq 2, Enq [4], Deq 9]
     = (acc, del, s') \<and> sockbuf_inv s' \<and> acc = del @ sockbuf_list s'"
proof -
  obtain acc del s' where r: "fifo_run sockbuf_enq sockbuf_deq empty_sockbuf
      [Enq [1, 2, 3], Deq 2, Enq [4], Deq 9] = (acc, del, s')"
    by (metis prod_cases3)
  from sockbuf_stream_integrity [OF _ _ r] r show ?thesis
    by auto
qed

section \<open>The pool\<close>

lemma sockbuf_reset_idem [simp]: "sockbuf_reset (sockbuf_reset b) = sockbuf_reset b"
  by (simp add: sockbuf_reset_def)

lemma sockbuf_list_reset [simp]: "sockbuf_list (sockbuf_reset b) = []"
  by (simp add: sockbuf_list_def sockbuf_reset_def)

lemma sockbuf_inv_reset: "length (sb_data b) = 4096 \<Longrightarrow> sockbuf_inv (sockbuf_reset b)"
  by (simp add: sockbuf_inv_def sockbuf_reset_def)

text \<open>
  C28: Pool discipline. \<^verbatim>\<open>sockbuf_alloc\<close> hands out a slot that was not in use, marks it used,
  empties its buffer and leaves every other slot alone, so a live buffer is never handed
  out twice; freeing that slot makes exactly it the next one handed out, and the pool
  returns to the same state.
\<close>

theorem sockbuf_pool_exclusive:
  assumes "sockbuf_alloc pool = (Some i, pool')"
  shows "i < length pool \<and> pe_in_use (pool ! i) = 0 \<and> pe_in_use (pool' ! i) = 1 \<and>
    sockbuf_list (pe_buf (pool' ! i)) = [] \<and> (\<forall>j. j \<noteq> i \<longrightarrow> pool' ! j = pool ! j) \<and>
    sockbuf_alloc (sockbuf_free (Some i) pool') = (Some i, pool')"
proof -
  let ?e = "(pool ! i)\<lparr>pe_in_use := 1, pe_buf := sockbuf_reset (pe_buf (pool ! i))\<rparr>"
  from assms have f: "find_slot (\<lambda>e. pe_in_use e = 0) pool = Some i" and p: "pool' = pool[i := ?e]"
    by (auto simp: sockbuf_alloc_def split: option.splits)
  note b = find_slot_SomeD [OF f]
  let ?e0 = "(pool ! i)\<lparr>pe_in_use := 0, pe_buf := sockbuf_reset (pe_buf (pool ! i))\<rparr>"
  have free: "sockbuf_free (Some i) pool' = pool[i := ?e0]"
    using b by (simp add: sockbuf_free_def p)
  have "find_slot (\<lambda>e. pe_in_use e = 0) (pool[i := ?e0]) = Some i"
    by (rule find_slot_update_same [OF f]) simp
  then have "sockbuf_alloc (pool[i := ?e0]) = (Some i, pool')"
    using b by (simp add: sockbuf_alloc_def p)
  then show ?thesis
    using b p free by (auto simp: nth_list_update)
qed

theorem sockbuf_pool_exclusive_witness:
  "\<exists>pool i pool'. length pool = SOCKET_BUFFER_COUNT \<and> sockbuf_alloc pool = (Some i, pool') \<and>
     i < length pool \<and> pe_in_use (pool' ! i) = 1 \<and>
     sockbuf_alloc (sockbuf_free (Some i) pool') = (Some i, pool')"
proof -
  let ?pool = "replicate SOCKET_BUFFER_COUNT \<lparr>pe_buf = empty_sockbuf, pe_in_use = 0\<rparr>"
  obtain pool' where a: "sockbuf_alloc ?pool = (Some 0, pool')"
    by (simp add: sockbuf_alloc_def find_slot_replicate SOCKET_BUFFER_COUNT_def)
  from sockbuf_pool_exclusive [OF a] a show ?thesis
    by (intro exI [of _ ?pool] exI [of _ 0] exI [of _ pool']) simp
qed

end
