(* ===== verification/Klog_Ring.thy ===== *)
theory Klog_Ring
  imports Fifo
begin

text \<open>
  \<^verbatim>\<open>kernel/core/klog_ring.c\<close>: the kernel log ring. A write is never refused; when the ring is
  full the oldest byte is dropped and the overflow counter moves. The ring state is
  \<^verbatim>\<open>g_ring\<close> with the flag \<^verbatim>\<open>g_ring_initialized\<close>.
\<close>

section \<open>Model\<close>

definition XAIOS_KLOG_RING_SIZE :: u32 where
  "XAIOS_KLOG_RING_SIZE = 65536"

record xaios_klog_ring =
  kr_buffer :: "u8 list"
  kr_write_pos :: u32
  kr_read_pos :: u32
  kr_count :: u32
  kr_overflow :: u32
  kr_initialized :: u32

text \<open>One turn of the write loop.\<close>

definition klog_ring_put :: "xaios_klog_ring \<Rightarrow> u8 \<Rightarrow> xaios_klog_ring" where
  "klog_ring_put r x =
     (let r1 = (if kr_count r \<ge> XAIOS_KLOG_RING_SIZE
                then r\<lparr>kr_read_pos := (kr_read_pos r + 1) mod XAIOS_KLOG_RING_SIZE,
                       kr_count := kr_count r - 1,
                       kr_overflow := kr_overflow r + 1\<rparr>
                else r)
      in r1\<lparr>kr_buffer := (kr_buffer r1)[unat (kr_write_pos r1) := x],
            kr_write_pos := (kr_write_pos r1 + 1) mod XAIOS_KLOG_RING_SIZE,
            kr_count := kr_count r1 + 1\<rparr>)"

definition klog_ring_write :: "xaios_klog_ring \<Rightarrow> u8 list option \<Rightarrow> u32 \<Rightarrow> xaios_klog_ring" where
  "klog_ring_write r data len =
     (case data of
        None \<Rightarrow> r
      | Some bs \<Rightarrow> if kr_initialized r = 0 \<or> len = 0 then r
                   else fold (\<lambda>x t. klog_ring_put t x) (take (unat len) bs) r)"

fun klog_ring_take :: "xaios_klog_ring \<Rightarrow> nat \<Rightarrow> u8 list \<times> xaios_klog_ring" where
  "klog_ring_take r 0 = ([], r)"
| "klog_ring_take r (Suc n) =
     (let (ys, r') = klog_ring_take
            (r\<lparr>kr_read_pos := (kr_read_pos r + 1) mod XAIOS_KLOG_RING_SIZE\<rparr>) n
      in (kr_buffer r ! unat (kr_read_pos r) # ys, r'))"

definition klog_ring_read ::
  "xaios_klog_ring \<Rightarrow> u8 list option \<Rightarrow> u32 \<Rightarrow> u32 \<times> u8 list option \<times> xaios_klog_ring" where
  "klog_ring_read r out max_len =
     (case out of
        None \<Rightarrow> (0, None, r)
      | Some dst \<Rightarrow>
          if kr_initialized r = 0 \<or> max_len = 0 then (0, out, r)
          else let to_read = (if kr_count r < max_len then kr_count r else max_len);
                   (ys, r') = klog_ring_take r (unat to_read)
               in (to_read, Some (ys @ drop (unat to_read) dst),
                   r'\<lparr>kr_count := kr_count r' - to_read\<rparr>))"

definition klog_ring_clear :: "xaios_klog_ring \<Rightarrow> xaios_klog_ring" where
  "klog_ring_clear r = r\<lparr>kr_write_pos := 0, kr_read_pos := 0, kr_count := 0\<rparr>"

definition klog_ring_count :: "xaios_klog_ring \<Rightarrow> u32" where
  "klog_ring_count r = kr_count r"

definition klog_ring_overflow_count :: "xaios_klog_ring \<Rightarrow> u32" where
  "klog_ring_overflow_count r = kr_overflow r"

section \<open>Invariant and abstraction\<close>

definition klog_inv :: "xaios_klog_ring \<Rightarrow> bool" where
  "klog_inv r \<longleftrightarrow> length (kr_buffer r) = 65536 \<and> unat (kr_read_pos r) < 65536 \<and>
     unat (kr_count r) \<le> 65536 \<and>
     unat (kr_write_pos r) = (unat (kr_read_pos r) + unat (kr_count r)) mod 65536"

definition klog_list :: "xaios_klog_ring \<Rightarrow> u8 list" where
  "klog_list r = ring_contents (kr_buffer r) (unat (kr_read_pos r)) (unat (kr_count r))"

lemma klog_ring_step [simp]: "unat ((x + 1) mod XAIOS_KLOG_RING_SIZE) = (unat x + 1) mod 65536"
  if "unat x < 65536"
  using that by (simp add: XAIOS_KLOG_RING_SIZE_def unat_mod)

lemma klog_inv_wpos: "klog_inv r \<Longrightarrow> unat (kr_write_pos r) < 65536"
  by (simp add: klog_inv_def)

lemma klog_put_room:
  assumes "klog_inv r" and "unat (kr_count r) < 65536"
  shows "klog_inv (klog_ring_put r x) \<and> klog_list (klog_ring_put r x) = klog_list r @ [x] \<and>
    kr_overflow (klog_ring_put r x) = kr_overflow r \<and>
    kr_initialized (klog_ring_put r x) = kr_initialized r"
proof -
  have nf: "\<not> kr_count r \<ge> XAIOS_KLOG_RING_SIZE"
    using assms(2) by (simp add: XAIOS_KLOG_RING_SIZE_def word_le_nat_alt)
  have w: "unat (kr_write_pos r) < 65536" using assms(1) by (rule klog_inv_wpos)
  have i: "length (kr_buffer r) = 65536"
    "unat (kr_write_pos r) = (unat (kr_read_pos r) + unat (kr_count r)) mod 65536"
    using assms(1) by (auto simp: klog_inv_def)
  have push: "ring_contents ((kr_buffer r)[unat (kr_write_pos r) := x]) (unat (kr_read_pos r))
      (Suc (unat (kr_count r))) = klog_list r @ [x]"
    using ring_contents_push [of "unat (kr_count r)" "kr_buffer r" "unat (kr_read_pos r)" x]
      assms(2) i by (simp add: klog_list_def)
  show ?thesis
    using assms nf w push by (simp add: klog_ring_put_def klog_inv_def klog_list_def mod_Suc_eq)
qed

lemma klog_put_full:
  assumes inv: "klog_inv r" and full: "unat (kr_count r) = 65536"
  shows "klog_inv (klog_ring_put r x) \<and> klog_list (klog_ring_put r x) = tl (klog_list r) @ [x] \<and>
    kr_overflow (klog_ring_put r x) = kr_overflow r + 1 \<and>
    kr_initialized (klog_ring_put r x) = kr_initialized r"
proof -
  define r1 where "r1 = r\<lparr>kr_read_pos := (kr_read_pos r + 1) mod XAIOS_KLOG_RING_SIZE,
    kr_count := kr_count r - 1, kr_overflow := kr_overflow r + 1\<rparr>"
  have ge: "kr_count r \<ge> XAIOS_KLOG_RING_SIZE"
    using full by (simp add: XAIOS_KLOG_RING_SIZE_def word_le_nat_alt)
  have c1: "unat (kr_count r - 1) = 65535"
    using full unat_sub_le [of 1 "kr_count r"] by (simp add: word_le_nat_alt)
  have rp: "unat (kr_read_pos r) < 65536" "length (kr_buffer r) = 65536"
    using inv by (auto simp: klog_inv_def)
  have "(unat (kr_read_pos r) + 65536) mod 65536 = ((unat (kr_read_pos r) + 1) mod 65536 + 65535) mod 65536"
    using mod_add_left_eq [of "unat (kr_read_pos r) + 1" 65536 65535] by simp
  with inv full c1 rp have inv1: "klog_inv r1"
    by (simp add: klog_inv_def r1_def)
  have l1: "klog_list r1 = tl (klog_list r)"
    using ring_contents_pop [of "kr_buffer r" "unat (kr_read_pos r)" 65535] rp c1 full
    by (simp add: klog_list_def r1_def)
  have "klog_ring_put r x = klog_ring_put r1 x"
    using ge c1 by (simp add: klog_ring_put_def r1_def XAIOS_KLOG_RING_SIZE_def word_le_nat_alt)
  with klog_put_room [OF inv1, of x] c1 l1 show ?thesis
    by (simp add: r1_def)
qed

lemma klog_put_spec:
  assumes "klog_inv r"
  shows "klog_inv (klog_ring_put r x) \<and>
    klog_list (klog_ring_put r x) = keep_last 65536 (klog_list r @ [x]) \<and>
    kr_initialized (klog_ring_put r x) = kr_initialized r"
proof (cases "unat (kr_count r) < 65536")
  case True
  with klog_put_room [OF assms True, of x] show ?thesis
    by (simp add: klog_list_def)
next
  case False
  with assms have f: "unat (kr_count r) = 65536" by (simp add: klog_inv_def)
  have len: "length (klog_list r) = 65536" by (simp add: klog_list_def f)
  have "tl (klog_list r) @ [x] = keep_last 65536 (klog_list r @ [x])"
    using len by (cases "klog_list r") (auto simp: keep_last_def)
  with klog_put_full [OF assms f, of x] show ?thesis by simp
qed

lemma klog_fold_put:
  "klog_inv r \<Longrightarrow> klog_inv (fold (\<lambda>x t. klog_ring_put t x) xs r) \<and>
    klog_list (fold (\<lambda>x t. klog_ring_put t x) xs r) = keep_last 65536 (klog_list r @ xs) \<and>
    kr_initialized (fold (\<lambda>x t. klog_ring_put t x) xs r) = kr_initialized r"
proof (induction xs arbitrary: r)
  case Nil
  then show ?case by (simp add: klog_list_def klog_inv_def)
next
  case (Cons x xs)
  note p = klog_put_spec [OF Cons.prems, of x]
  from Cons.IH [of "klog_ring_put r x"] p show ?case
    using keep_last_snoc [of 65536 "klog_list r @ [x]" xs] by simp
qed

lemma length_klog_list [simp]: "length (klog_list r) = unat (kr_count r)"
  by (simp add: klog_list_def)

lemma klog_put_overflow:
  assumes "klog_inv r"
  shows "kr_overflow (klog_ring_put r x) = kr_overflow r + of_nat (unat (kr_count r) + 1 - 65536)"
proof (cases "unat (kr_count r) < 65536")
  case True
  with klog_put_room [OF assms True] show ?thesis by simp
next
  case False
  with assms have f: "unat (kr_count r) = 65536" by (simp add: klog_inv_def)
  with klog_put_full [OF assms f] show ?thesis by simp
qed

lemma klog_fold_overflow:
  "klog_inv r \<Longrightarrow> kr_overflow (fold (\<lambda>x t. klog_ring_put t x) xs r)
     = kr_overflow r + of_nat (unat (kr_count r) + length xs - 65536)"
proof (induction xs arbitrary: r)
  case Nil
  then show ?case by (simp add: klog_inv_def)
next
  case (Cons x xs)
  let ?r = "klog_ring_put r x"
  have p: "klog_inv ?r" "length (klog_list ?r) = min 65536 (unat (kr_count r) + 1)"
    using klog_put_spec [OF Cons.prems, of x] by (auto simp del: length_klog_list simp: length_klog_list [of r])
  have c: "unat (kr_count r) \<le> 65536" using Cons.prems by (simp add: klog_inv_def)
  have "(unat (kr_count r) + 1 - 65536) + (unat (kr_count ?r) + length xs - 65536)
      = unat (kr_count r) + length (x # xs) - 65536"
    using p(2) c by (simp add: min_def split: if_splits)
  then have "(of_nat (unat (kr_count r) + 1 - 65536) :: u32) + of_nat (unat (kr_count ?r) + length xs - 65536)
      = of_nat (unat (kr_count r) + length (x # xs) - 65536)"
    by (metis of_nat_add)
  then show ?case
    using Cons.IH [OF p(1)] klog_put_overflow [OF Cons.prems, of x]
    by (simp only: fold_simps add.assoc)
qed

section \<open>The ring as a lossy queue\<close>

text \<open>The callers pass a buffer with its exact length.\<close>

definition klog_push :: "xaios_klog_ring \<Rightarrow> u8 list \<Rightarrow> xaios_klog_ring" where
  "klog_push r bs = klog_ring_write r (Some bs) (of_nat (length bs))"

definition klog_live :: "xaios_klog_ring \<Rightarrow> bool" where
  "klog_live r \<longleftrightarrow> klog_inv r \<and> kr_initialized r \<noteq> 0"

lemma klog_push_fold:
  assumes "klog_live r" and "length bs \<le> 2 ^ 32 - 1"
  shows "klog_push r bs = fold (\<lambda>x t. klog_ring_put t x) bs r"
proof (cases "bs = []")
  case False
  have l: "unat (of_nat (length bs) :: u32) = length bs"
    using assms(2) by (intro unat_of_nat_small) simp
  with False have "(of_nat (length bs) :: u32) \<noteq> 0"
    by (metis length_0_conv unat_0)
  with l assms(1) show ?thesis
    by (simp add: klog_push_def klog_ring_write_def klog_live_def)
qed (simp add: klog_push_def klog_ring_write_def)

interpretation klogq: lossy_fifo klog_live klog_list 65536 "2 ^ 32 - 1" klog_push
proof
  fix r :: xaios_klog_ring and xs :: "u8 list"
  assume r: "klog_live r"
  then show "length (klog_list r) \<le> 65536" by (simp add: klog_live_def klog_inv_def)
  assume xs: "length xs \<le> 2 ^ 32 - 1"
  note f = klog_fold_put [of r xs]
  show "klog_list (klog_push r xs) = keep_last 65536 (klog_list r @ xs)"
    using f r by (simp add: klog_push_fold [OF r xs] klog_live_def)
  show "klog_live (klog_push r xs)"
    using f r by (simp add: klog_push_fold [OF r xs] klog_live_def)
qed

lemma klog_take_spec:
  "unat (kr_read_pos r) < 65536 \<Longrightarrow> length (kr_buffer r) = 65536 \<Longrightarrow>
   fst (klog_ring_take r n) = ring_contents (kr_buffer r) (unat (kr_read_pos r)) n \<and>
   (\<exists>p. snd (klog_ring_take r n) = r\<lparr>kr_read_pos := p\<rparr> \<and>
        unat p = (unat (kr_read_pos r) + n) mod 65536)"
proof (induction n arbitrary: r)
  case 0
  then show ?case by (intro conjI exI [of _ "kr_read_pos r"]) (simp_all add: ring_contents_def)
next
  case (Suc n)
  let ?p = "(kr_read_pos r + 1) mod XAIOS_KLOG_RING_SIZE"
  let ?r = "r\<lparr>kr_read_pos := ?p\<rparr>"
  have p: "unat ?p = (unat (kr_read_pos r) + 1) mod 65536"
    using Suc.prems by simp
  then have ih: "fst (klog_ring_take ?r n) = ring_contents (kr_buffer r) (unat ?p) n"
    "\<exists>q. snd (klog_ring_take ?r n) = r\<lparr>kr_read_pos := q\<rparr> \<and> unat q = (unat ?p + n) mod 65536"
    using Suc.IH [of ?r] Suc.prems by simp_all
  have c: "ring_contents (kr_buffer r) (unat (kr_read_pos r)) (Suc n)
      = kr_buffer r ! unat (kr_read_pos r) # ring_contents (kr_buffer r) (unat ?p) n"
    using ring_contents_pop [of "kr_buffer r" "unat (kr_read_pos r)" n] Suc.prems p by simp
  have "(unat ?p + n) mod 65536 = (unat (kr_read_pos r) + Suc n) mod 65536"
    unfolding p using mod_add_left_eq [of "unat (kr_read_pos r) + 1" 65536 n] by simp
  with ih c show ?case by (simp add: Let_def split_beta)
qed

lemma ring_contents_split:
  assumes "n \<le> m" and "data \<noteq> []"
  shows "ring_contents data t n = take n (ring_contents data t m)"
    and "ring_contents data ((t + n) mod length data) (m - n) = drop n (ring_contents data t m)"
  using assms by (auto intro!: nth_equalityI simp: ring_contents_def mod_add_left_eq add.assoc)

lemma klog_read_spec:
  assumes "klog_live r" and "n \<noteq> 0"
  shows "klog_ring_read r (Some dst) n = (rn, out, r') \<Longrightarrow>
    unat rn = min (unat n) (length (klog_list r)) \<and>
    out = Some (take (unat rn) (klog_list r) @ drop (unat rn) dst) \<and>
    klog_list r' = drop (unat rn) (klog_list r) \<and> klog_live r' \<and> kr_overflow r' = kr_overflow r"
proof -
  assume rd: "klog_ring_read r (Some dst) n = (rn, out, r')"
  have inv: "klog_inv r" "kr_initialized r \<noteq> 0" using assms(1) by (auto simp: klog_live_def)
  have b: "unat (kr_read_pos r) < 65536" "length (kr_buffer r) = 65536" "unat (kr_count r) \<le> 65536"
    using inv(1) by (auto simp: klog_inv_def)
  define k where "k = (if kr_count r < n then kr_count r else n)"
  have k: "unat k = min (unat n) (unat (kr_count r))" "k \<le> kr_count r"
    by (auto simp: k_def min_def word_less_nat_alt word_le_nat_alt)
  obtain p where t: "klog_ring_take r (unat k)
      = (ring_contents (kr_buffer r) (unat (kr_read_pos r)) (unat k), r\<lparr>kr_read_pos := p\<rparr>)"
    and p: "unat p = (unat (kr_read_pos r) + unat k) mod 65536"
    using klog_take_spec [OF b(1,2), of "unat k"] by (metis prod.collapse)
  have r': "r' = r\<lparr>kr_read_pos := p, kr_count := kr_count r - k\<rparr>" and rn: "rn = k"
    and out: "out = Some (ring_contents (kr_buffer r) (unat (kr_read_pos r)) (unat k) @ drop (unat k) dst)"
    using rd inv(2) assms(2) t by (auto simp: klog_ring_read_def k_def [symmetric] Let_def)
  have km: "unat k \<le> unat (kr_count r)" "unat (kr_count r - k) = unat (kr_count r) - unat k"
    using k unat_sub_le [of k "kr_count r"] by simp_all
  have ne: "kr_buffer r \<noteq> []" using b(2) by auto
  note sp = ring_contents_split [OF km(1) ne, of "unat (kr_read_pos r)"]
  have "((unat (kr_read_pos r) + unat k) mod 65536 + (unat (kr_count r) - unat k)) mod 65536
      = (unat (kr_read_pos r) + unat (kr_count r)) mod 65536"
    using km(1) mod_add_left_eq [of "unat (kr_read_pos r) + unat k" 65536 "unat (kr_count r) - unat k"] by simp
  then have "klog_inv r'"
    using inv(1) km b p by (simp add: r' klog_inv_def)
  with sp k(1) km(2) p b inv(2) show ?thesis
    by (simp add: r' rn out klog_live_def klog_list_def)
qed

lemma klog_push_concat:
  "klog_live r \<Longrightarrow> \<forall>bs\<in>set bss. length bs \<le> 2 ^ 32 - 1 \<Longrightarrow>
    fold (\<lambda>bs t. klog_push t bs) bss r = fold (\<lambda>x t. klog_ring_put t x) (concat bss) r"
proof (induction bss arbitrary: r)
  case (Cons bs bss)
  then have b: "length bs \<le> 2 ^ 32 - 1" by simp
  have "klog_live (klog_push r bs)" using Cons.prems b by (intro klogq.push_invar)
  with Cons.IH [of "klog_push r bs"] Cons.prems klog_push_fold [OF Cons.prems(1) b] show ?case
    by simp
qed simp

lemma klog_clear_live: "klog_live r \<Longrightarrow> klog_live (klog_ring_clear r) \<and> klog_list (klog_ring_clear r) = []"
  by (simp add: klog_live_def klog_inv_def klog_ring_clear_def klog_list_def)

definition empty_klog :: xaios_klog_ring where
  "empty_klog = \<lparr>kr_buffer = replicate 65536 0, kr_write_pos = 0, kr_read_pos = 0, kr_count = 0,
     kr_overflow = 0, kr_initialized = 1\<rparr>"

lemma empty_klog_live: "klog_live empty_klog" and empty_klog_list: "klog_list empty_klog = []"
  by (simp_all add: empty_klog_def klog_live_def klog_inv_def klog_list_def)

text \<open>
  C29: The log keeps the newest bytes. After any sequence of writes to an initialised
  ring, a read of \<^verbatim>\<open>n\<close> bytes delivers, in order, the first bytes of the last 65536 written
  (and still unread) ones; what it does not deliver stays in the ring; and the overflow
  counter has moved by exactly the number of bytes that were dropped, modulo \<^verbatim>\<open>2^32\<close>.
\<close>

theorem klog_ring_keeps_latest:
  assumes live: "klog_live r" and len: "\<forall>bs\<in>set bss. length bs \<le> 2 ^ 32 - 1" and n: "n \<noteq> 0"
    and wr: "fold (\<lambda>bs t. klog_ring_write t (Some bs) (of_nat (length bs))) bss r = r1"
    and rd: "klog_ring_read r1 (Some dst) n = (rn, out, r2)"
    and L: "L = keep_last 65536 (klog_list r @ concat bss)"
  shows "unat rn = min (unat n) (length L) \<and>
    out = Some (take (unat rn) L @ drop (unat rn) dst) \<and>
    klog_list r2 = drop (unat rn) L \<and> klog_live r2 \<and>
    klog_ring_overflow_count r2 = klog_ring_overflow_count r
      + of_nat (length (klog_list r @ concat bss) - 65536)"
proof -
  have r1: "r1 = fold (\<lambda>bs t. klog_push t bs) bss r"
    using wr by (simp add: klog_push_def)
  from klogq.push_stream [OF live len] have l1: "klog_live r1" "klog_list r1 = L"
    by (simp_all add: r1 L)
  have "kr_overflow r1 = kr_overflow r + of_nat (unat (kr_count r) + length (concat bss) - 65536)"
    unfolding r1 klog_push_concat [OF live len]
    by (rule klog_fold_overflow) (use live in \<open>simp add: klog_live_def\<close>)
  with klog_read_spec [OF l1(1) n rd] l1(2) show ?thesis
    by (simp add: klog_ring_overflow_count_def)
qed

theorem klog_ring_keeps_latest_witness:
  "\<exists>r2. klog_ring_read (klog_ring_write empty_klog (Some [7, 8, 9]) 3) (Some [0, 0]) 2
      = (2, Some [7, 8], r2) \<and> klog_list r2 = [9] \<and> klog_ring_overflow_count r2 = 0"
proof -
  obtain rn out r2 where rd: "klog_ring_read (klog_ring_write empty_klog (Some [7, 8, 9]) 3) (Some [0, 0]) 2
      = (rn, out, r2)"
    by (metis prod_cases3)
  have "unat rn = 2 \<and> out = Some [7, 8] \<and> klog_list r2 = [9] \<and> klog_ring_overflow_count r2 = 0"
    using klog_ring_keeps_latest [OF empty_klog_live, of "[[7, 8, 9]]" 2 _ "[0, 0]" rn out r2, OF _ _ refl _ refl] rd
    by (simp add: empty_klog_list klog_ring_overflow_count_def) (simp add: empty_klog_def)
  moreover from this have "rn = 2" by (simp add: word_eq_unat)
  ultimately show ?thesis using rd by simp
qed

end
