(* ===== verification/Routing.thy ===== *)
theory Routing
  imports Prelude
begin

text \<open>
  \<^verbatim>\<open>kernel/net/routing.c\<close>: the IPv4 routing table. The table \<^verbatim>\<open>g_routing_table\<close> is a list of
  32 entries; a lookup chooses, among the active entries whose masked destination
  matches, the first one with the longest prefix.
\<close>

section \<open>Model\<close>

definition ROUTING_TABLE_SIZE :: nat where
  "ROUTING_TABLE_SIZE = 32"

definition XAIOS_IPV4_GATEWAY :: u32 where
  "XAIOS_IPV4_GATEWAY = 0x0a000202"

record routing_entry =
  rt_dest_network :: u32
  rt_netmask :: u32
  rt_gateway :: u32
  rt_active :: u32

definition routing_clear :: "routing_entry list \<Rightarrow> routing_entry list" where
  "routing_clear t = map (\<lambda>e. e\<lparr>rt_active := 0, rt_dest_network := 0, rt_netmask := 0,
     rt_gateway := 0\<rparr>) t"

definition routing_add ::
  "routing_entry list \<Rightarrow> u32 \<Rightarrow> u32 \<Rightarrow> u32 \<Rightarrow> xaios_status \<times> routing_entry list" where
  "routing_add t dest_network netmask gateway =
     (case find_slot (\<lambda>e. rt_active e = 0) t of
        Some i \<Rightarrow> (XAIOS_OK,
          t[i := (t ! i)\<lparr>rt_dest_network := dest_network AND netmask, rt_netmask := netmask,
                         rt_gateway := gateway, rt_active := 1\<rparr>])
      | None \<Rightarrow> (XAIOS_ERR_NO_MEMORY, t))"

definition routing_init :: "routing_entry list \<Rightarrow> routing_entry list" where
  "routing_init t =
     (let t0 = map (\<lambda>e. e\<lparr>rt_active := 0, rt_dest_network := 0, rt_netmask := 0,
                 rt_gateway := 0\<rparr>) t;
          t1 = snd (routing_add t0 0x0a000200 0xffffff00 0)
      in snd (routing_add t1 0 0 XAIOS_IPV4_GATEWAY))"

text \<open>The test \<^verbatim>\<open>(dest_ip & netmask) == dest_network\<close> on an active entry.\<close>

definition routing_match :: "routing_entry \<Rightarrow> u32 \<Rightarrow> bool" where
  "routing_match e ip \<longleftrightarrow> rt_active e \<noteq> 0 \<and> ip AND rt_netmask e = rt_dest_network e"

definition routing_remove ::
  "routing_entry list \<Rightarrow> u32 \<Rightarrow> xaios_status \<times> routing_entry list" where
  "routing_remove t ip =
     (case find_slot (\<lambda>e. routing_match e ip) t of
        Some i \<Rightarrow> (XAIOS_OK, t[i := (t ! i)\<lparr>rt_active := 0\<rparr>])
      | None \<Rightarrow> (XAIOS_ERR_NOT_FOUND, t))"

text \<open>The bit-counting loop of the lookup.\<close>

function prefix_loop :: "u32 \<Rightarrow> u32 \<Rightarrow> u32" where
  "prefix_loop msk prefix_len =
     (if msk = 0 then prefix_len
      else prefix_loop (drop_bit 1 msk) (prefix_len + (msk AND 1)))"
  by auto
termination
proof (relation "measure (\<lambda>(m, _). unat m)")
  fix msk prefix_len :: u32
  assume "msk \<noteq> 0"
  then have "0 < unat msk" by (simp add: unat_gt_0)
  then show "((drop_bit 1 msk, prefix_len + (msk AND 1)), msk, prefix_len)
      \<in> measure (\<lambda>(m, _). unat m)"
    by (simp add: drop_bit_eq_div unat_div)
qed simp

declare prefix_loop.simps [simp del]

text \<open>The scan: \<^verbatim>\<open>best_match\<close>, \<^verbatim>\<open>best_prefix_len\<close>, \<^verbatim>\<open>found\<close>.\<close>

definition routing_scan_step ::
  "routing_entry list \<Rightarrow> u32 \<Rightarrow> nat \<Rightarrow> nat \<times> u32 \<times> bool \<Rightarrow> nat \<times> u32 \<times> bool" where
  "routing_scan_step t ip i st =
     (case st of (best_match, best_prefix_len, found) \<Rightarrow>
        if routing_match (t ! i) ip
        then let prefix_len = prefix_loop (rt_netmask (t ! i)) 0
             in if prefix_len > best_prefix_len \<or> \<not> found then (i, prefix_len, True) else st
        else st)"

definition routing_lookup :: "routing_entry list \<Rightarrow> u32 \<Rightarrow> u32" where
  "routing_lookup t ip =
     (case fold (routing_scan_step t ip) [0 ..< ROUTING_TABLE_SIZE] (unat UINT32_MAX, 0, False) of
        (best_match, _, found) \<Rightarrow>
          if \<not> found then 0
          else if rt_gateway (t ! best_match) = 0 then ip
          else rt_gateway (t ! best_match))"

section \<open>The prefix length is the number of mask bits\<close>

definition mask_bits :: "u32 \<Rightarrow> nat" where
  "mask_bits m = card {k. bit m k}"

lemma finite_word_bits [simp]: "finite {k. bit (m :: 'a::len word) k}"
  by (rule finite_subset [of _ "{..<LENGTH('a)}"]) (auto dest: bit_imp_le_length)

lemma mask_bits_shift:
  "mask_bits m = mask_bits (drop_bit 1 m) + (if bit m 0 then 1 else 0)"
proof -
  have e: "{k. bit m k} = Suc ` {k. bit (drop_bit 1 m) k} \<union> (if bit m 0 then {0} else {})"
    (is "_ = Suc ` ?A \<union> ?B")
  proof (rule set_eqI)
    fix k
    show "k \<in> {k. bit m k} \<longleftrightarrow> k \<in> Suc ` ?A \<union> ?B"
      by (cases k) (auto simp: bit_drop_bit_eq)
  qed
  have "card (Suc ` ?A \<union> ?B) = card (Suc ` ?A) + card ?B"
    by (rule card_Un_disjoint) (auto simp: finite_word_bits)
  then show ?thesis
    by (simp add: mask_bits_def e card_image)
qed

lemma prefix_loop_count: "prefix_loop m n = n + of_nat (mask_bits m)"
proof (induction m n rule: prefix_loop.induct)
  case (1 msk prefix_len)
  show ?case
  proof (cases "msk = 0")
    case True
    then show ?thesis by (simp add: prefix_loop.simps mask_bits_def)
  next
    case False
    have "msk AND 1 = (if bit msk 0 then 1 else 0)"
      by (simp add: and_one_eq mod_2_eq_odd bit_0)
    with 1 [OF False] False mask_bits_shift [of msk] show ?thesis
      by (subst prefix_loop.simps) simp
  qed
qed

lemma mask_bits_le: "mask_bits m \<le> 32"
proof -
  have "{k. bit m k} \<subseteq> {..<32}" by (auto dest: bit_imp_le_length)
  then have "card {k. bit m k} \<le> card {..<32::nat}" by (rule card_mono [rotated]) simp
  then show ?thesis by (simp add: mask_bits_def)
qed

lemma unat_prefix [simp]: "unat (prefix_loop m 0) = mask_bits m"
  using mask_bits_le [of m] by (simp add: prefix_loop_count unat_of_nat_small)

section \<open>Longest prefix match\<close>

text \<open>What the scan promises about the entries before \<open>n\<close>.\<close>

definition best_route :: "routing_entry list \<Rightarrow> u32 \<Rightarrow> nat \<Rightarrow> nat \<Rightarrow> bool" where
  "best_route t ip n b \<longleftrightarrow> b < n \<and> routing_match (t ! b) ip \<and>
     (\<forall>i<n. routing_match (t ! i) ip \<longrightarrow>
        mask_bits (rt_netmask (t ! i)) \<le> mask_bits (rt_netmask (t ! b)) \<and>
        (i < b \<longrightarrow> mask_bits (rt_netmask (t ! i)) < mask_bits (rt_netmask (t ! b))))"

lemma best_route_unique: "best_route t ip n b \<Longrightarrow> best_route t ip n b' \<Longrightarrow> b = b'"
  unfolding best_route_def by (meson leD linorder_neqE_nat)

lemma routing_scan_inv:
  "case fold (routing_scan_step t ip) [0 ..< n] (b0, 0, False) of (b, len, found) \<Rightarrow>
     if found then best_route t ip n b \<and> unat len = mask_bits (rt_netmask (t ! b))
     else (\<forall>i<n. \<not> routing_match (t ! i) ip)"
proof (induction n)
  case (Suc n)
  obtain b len found where st: "fold (routing_scan_step t ip) [0 ..< n] (b0, 0, False) = (b, len, found)"
    by (metis prod_cases3)
  show ?case
  proof (cases "routing_match (t ! n) ip")
    case True
    with Suc.IH show ?thesis
      by (auto simp: st routing_scan_step_def Let_def best_route_def less_Suc_eq word_less_nat_alt
          split: if_splits)
  next
    case False
    with Suc.IH show ?thesis
      by (auto simp: st routing_scan_step_def best_route_def less_Suc_eq split: if_splits)
  qed
qed simp

lemma routing_lookup_none:
  "\<forall>i<ROUTING_TABLE_SIZE. \<not> routing_match (t ! i) ip \<Longrightarrow> routing_lookup t ip = 0"
  using routing_scan_inv [of t ip ROUTING_TABLE_SIZE "unat UINT32_MAX"]
  by (auto simp: routing_lookup_def best_route_def split: prod.splits if_splits)

lemma routing_lookup_best:
  assumes "best_route t ip ROUTING_TABLE_SIZE b"
  shows "routing_lookup t ip = (if rt_gateway (t ! b) = 0 then ip else rt_gateway (t ! b))"
proof -
  have "\<exists>i<ROUTING_TABLE_SIZE. routing_match (t ! i) ip"
    using assms by (auto simp: best_route_def)
  with routing_scan_inv [of t ip ROUTING_TABLE_SIZE "unat UINT32_MAX"]
  show ?thesis
    by (auto simp: routing_lookup_def split: prod.splits if_splits dest: best_route_unique [OF assms])
qed

lemma best_route_exists:
  assumes "i < n" and "routing_match (t ! i) ip"
  shows "\<exists>b. best_route t ip n b"
  using routing_scan_inv [of t ip n 0] assms by (auto split: prod.splits if_splits)

text \<open>
  C17: Longest prefix match. The lookup returns 0 exactly when no active entry matches the
  address; otherwise it answers with the entry that has the most mask bits among all the
  matching ones, the first such entry on a tie: the address itself for a direct route,
  the gateway for an indirect one. (A gateway is never 0, so 0 means no route unless the
  address looked up is 0 itself.)
\<close>

theorem routing_lookup_longest_prefix:
  shows "if \<exists>i<ROUTING_TABLE_SIZE. routing_match (t ! i) ip
    then \<exists>b. best_route t ip ROUTING_TABLE_SIZE b \<and>
           routing_lookup t ip = (if rt_gateway (t ! b) = 0 then ip else rt_gateway (t ! b))
    else routing_lookup t ip = 0"
proof (cases "\<exists>i<ROUTING_TABLE_SIZE. routing_match (t ! i) ip")
  case True
  then obtain b where "best_route t ip ROUTING_TABLE_SIZE b"
    using best_route_exists by blast
  with True routing_lookup_best [of t ip b] show ?thesis by metis
qed (auto simp: routing_lookup_none)

lemma routing_add_cases:
  assumes "routing_add t net msk gw = (XAIOS_OK, t')"
  obtains i where "i < length t" "rt_active (t ! i) = 0"
    "t' = t[i := (t ! i)\<lparr>rt_dest_network := net AND msk, rt_netmask := msk, rt_gateway := gw, rt_active := 1\<rparr>]"
  using assms by (auto simp: routing_add_def split: option.splits dest: find_slot_bound find_slot_holds)


definition blank_route :: routing_entry where
  "blank_route = \<lparr>rt_dest_network = 0, rt_netmask = 0, rt_gateway = 0, rt_active = 0\<rparr>"

lemma mask_bits_24 [simp]: "mask_bits 0xffffff00 = 24"
proof -
  have "prefix_loop 0xffffff00 0 = 24"
    by (simp add: prefix_loop.simps)
  then show ?thesis using unat_prefix [of "0xffffff00"] by simp
qed

lemma mask_bits_0 [simp]: "mask_bits 0 = 0"
  by (simp add: mask_bits_def)


theorem routing_lookup_longest_prefix_witness:
  "routing_lookup (replicate 32 blank_route) 0x08080808 = 0"
  using routing_lookup_longest_prefix [of "replicate 32 blank_route" "0x08080808"]
  by (simp add: ROUTING_TABLE_SIZE_def blank_route_def routing_match_def split: if_splits)

section \<open>Removal and the default route\<close>

lemma routing_init_table:
  assumes "length t = ROUTING_TABLE_SIZE"
  shows "\<exists>e0 e1 rest. routing_init t = e0 # e1 # rest \<and> length rest = 30 \<and>
    rt_dest_network e0 = 0x0a000200 \<and> rt_netmask e0 = 0xffffff00 \<and> rt_gateway e0 = 0 \<and> rt_active e0 = 1 \<and>
    rt_dest_network e1 = 0 \<and> rt_netmask e1 = 0 \<and> rt_gateway e1 = XAIOS_IPV4_GATEWAY \<and> rt_active e1 = 1 \<and>
    (\<forall>e\<in>set rest. rt_active e = 0)"
proof -
  from assms obtain a b rest where t: "t = a # b # rest" and l: "length rest = 30"
    by (auto simp: ROUTING_TABLE_SIZE_def length_Suc_conv eval_nat_numeral)
  then show ?thesis
    by (auto simp: routing_init_def routing_add_def Let_def find_slot.simps t)
qed

text \<open>
  \<^verbatim>\<open>routing_remove\<close> deletes the first entry that covers the address, not the entry of
  that destination network. On the boot table, removing any address outside the local
  /24 therefore succeeds by deleting the default route, and every other non-local
  address, routed through the gateway before, has no route afterwards.
\<close>

theorem routing_remove_drops_default:
  assumes len: "length t = ROUTING_TABLE_SIZE"
    and ip: "ip AND 0xffffff00 \<noteq> 0x0a000200" and other: "other AND 0xffffff00 \<noteq> 0x0a000200"
  shows "routing_lookup (routing_init t) other = XAIOS_IPV4_GATEWAY \<and>
    (\<exists>t'. routing_remove (routing_init t) ip = (XAIOS_OK, t') \<and> routing_lookup t' other = 0)"
proof -
  obtain e0 e1 rest where init: "routing_init t = e0 # e1 # rest" and l: "length rest = 30"
    and e0: "rt_dest_network e0 = 0x0a000200" "rt_netmask e0 = 0xffffff00" "rt_active e0 = 1"
    and e1: "rt_dest_network e1 = 0" "rt_netmask e1 = 0" "rt_gateway e1 = XAIOS_IPV4_GATEWAY" "rt_active e1 = 1"
    and r: "\<forall>e\<in>set rest. rt_active e = 0"
    using routing_init_table [OF len] by auto
  have m: "\<not> routing_match e0 other" "\<not> routing_match e0 ip" "routing_match e1 other" "routing_match e1 ip"
    "\<forall>e\<in>set rest. \<not> routing_match e other"
    using e0 e1 ip other r by (auto simp: routing_match_def)
  have nr: "\<not> routing_match (rest ! i) other" if "i < 30" for i
    using m(5) l that by simp
  have "best_route (e0 # e1 # rest) other ROUTING_TABLE_SIZE 1"
    using m nr by (auto simp: best_route_def ROUTING_TABLE_SIZE_def nth_Cons split: nat.splits)
  then have "routing_lookup (routing_init t) other = XAIOS_IPV4_GATEWAY"
    using e1 by (simp add: init routing_lookup_best XAIOS_IPV4_GATEWAY_def)
  moreover have "routing_remove (routing_init t) ip = (XAIOS_OK, e0 # e1\<lparr>rt_active := 0\<rparr> # rest)"
    using m by (simp add: init routing_remove_def)
  moreover have "routing_lookup (e0 # e1\<lparr>rt_active := 0\<rparr> # rest) other = 0"
    using m nr by (intro routing_lookup_none)
      (auto simp: ROUTING_TABLE_SIZE_def nth_Cons routing_match_def split: nat.splits)
  ultimately show ?thesis by simp
qed

theorem routing_remove_drops_default_witness:
  "routing_lookup (routing_init (replicate 32 blank_route)) 0x08080808 = XAIOS_IPV4_GATEWAY \<and>
   (\<exists>t'. routing_remove (routing_init (replicate 32 blank_route)) 0x01010101 = (XAIOS_OK, t') \<and>
         routing_lookup t' 0x08080808 = 0)"
  by (rule routing_remove_drops_default) (simp_all add: ROUTING_TABLE_SIZE_def)

end
