(* ===== verification/Rate_Limit.thy ===== *)
theory Rate_Limit
  imports Prelude
begin

text \<open>
  \<^verbatim>\<open>kernel/runtime/rate_limit.c\<close>: per-cell token buckets for CPU and network and a memory
  cap. Each call of \<^verbatim>\<open>timer_now_ns\<close> is an argument of the operation. The state is the
  array \<^verbatim>\<open>g_rate_limits\<close> with the global throttle counter.
\<close>

section \<open>Model\<close>

definition XAIOS_RATE_LIMIT_MAX_CELLS :: u32 where
  "XAIOS_RATE_LIMIT_MAX_CELLS = 8"

record xaios_token_bucket =
  tb_capacity :: u64
  tb_tokens :: u64
  tb_refill_rate :: u64
  tb_last_refill_ns :: u64

record xaios_rate_limit =
  rl_cell_id :: u32
  rl_active :: u32
  rl_cpu_bucket :: xaios_token_bucket
  rl_net_rx_bucket :: xaios_token_bucket
  rl_net_tx_bucket :: xaios_token_bucket
  rl_memory_cap_bytes :: u64
  rl_memory_used_bytes :: u64
  rl_cpu_violations :: u64
  rl_net_violations :: u64
  rl_memory_violations :: u64
  rl_total_throttle_events :: u64

record rate_state =
  g_rate_limits :: "xaios_rate_limit list"
  g_total_throttle_events :: u64

definition bucket_init :: "u64 \<Rightarrow> u64 \<Rightarrow> u64 \<Rightarrow> xaios_token_bucket" where
  "bucket_init capacity refill_rate now =
     \<lparr>tb_capacity = capacity, tb_tokens = capacity, tb_refill_rate = refill_rate,
      tb_last_refill_ns = now\<rparr>"

definition bucket_refill :: "xaios_token_bucket \<Rightarrow> u64 \<Rightarrow> xaios_token_bucket" where
  "bucket_refill b now =
     (if now \<le> tb_last_refill_ns b then b
      else let elapsed_ns = now - tb_last_refill_ns b;
               new_tokens = (elapsed_ns * tb_refill_rate b) div 1000000000
           in if new_tokens > 0
              then let t = tb_tokens b + new_tokens
                   in b\<lparr>tb_tokens := (if t > tb_capacity b then tb_capacity b else t),
                        tb_last_refill_ns := now\<rparr>
              else b)"

definition bucket_consume ::
  "xaios_token_bucket \<Rightarrow> u64 \<Rightarrow> u64 \<Rightarrow> xaios_status \<times> xaios_token_bucket" where
  "bucket_consume b count now =
     (let b1 = bucket_refill b now
      in if tb_tokens b1 < count then (XAIOS_ERR_BUSY, b1)
         else (XAIOS_OK, b1\<lparr>tb_tokens := tb_tokens b1 - count\<rparr>))"

definition rate_limit_init :: "rate_state \<Rightarrow> rate_state" where
  "rate_limit_init s =
     \<lparr>g_rate_limits = map (\<lambda>i. (g_rate_limits s ! i)\<lparr>rl_cell_id := of_nat i, rl_active := 0,
          rl_memory_cap_bytes := 0, rl_memory_used_bytes := 0, rl_cpu_violations := 0,
          rl_net_violations := 0, rl_memory_violations := 0, rl_total_throttle_events := 0\<rparr>)
        [0 ..< unat XAIOS_RATE_LIMIT_MAX_CELLS],
      g_total_throttle_events = 0\<rparr>"

text \<open>The guard \<^verbatim>\<open>cell_id < MAX && g_rate_limits[cell_id].active\<close> and the update of one cell.\<close>

definition rl_valid :: "rate_state \<Rightarrow> u32 \<Rightarrow> bool" where
  "rl_valid s c \<longleftrightarrow> c < XAIOS_RATE_LIMIT_MAX_CELLS \<and> rl_active (g_rate_limits s ! unat c) \<noteq> 0"

definition rl_cell :: "rate_state \<Rightarrow> u32 \<Rightarrow> xaios_rate_limit" where
  "rl_cell s c = g_rate_limits s ! unat c"

definition rl_put :: "rate_state \<Rightarrow> u32 \<Rightarrow> xaios_rate_limit \<Rightarrow> rate_state" where
  "rl_put s c r = s\<lparr>g_rate_limits := (g_rate_limits s)[unat c := r]\<rparr>"

definition rate_limit_create ::
  "rate_state \<Rightarrow> u32 \<Rightarrow> u64 \<Rightarrow> u64 \<Rightarrow> u64 \<Rightarrow> u64 \<Rightarrow> u64 \<Rightarrow> u64 \<times> u64 \<times> u64 \<Rightarrow> xaios_status \<times> rate_state"
where
  "rate_limit_create s cell_id cpu_capacity cpu_refill net_capacity net_refill memory_cap nows =
     (if cell_id \<ge> XAIOS_RATE_LIMIT_MAX_CELLS then (XAIOS_ERR_INVALID, s)
      else case nows of (t1, t2, t3) \<Rightarrow>
        (XAIOS_OK, rl_put s cell_id
          \<lparr>rl_cell_id = cell_id, rl_active = 1,
           rl_cpu_bucket = bucket_init cpu_capacity cpu_refill t1,
           rl_net_rx_bucket = bucket_init net_capacity net_refill t2,
           rl_net_tx_bucket = bucket_init net_capacity net_refill t3,
           rl_memory_cap_bytes = memory_cap, rl_memory_used_bytes = 0,
           rl_cpu_violations = 0, rl_net_violations = 0, rl_memory_violations = 0,
           rl_total_throttle_events = 0\<rparr>))"

definition rate_limit_destroy :: "rate_state \<Rightarrow> u32 \<Rightarrow> xaios_status \<times> rate_state" where
  "rate_limit_destroy s cell_id =
     (if cell_id \<ge> XAIOS_RATE_LIMIT_MAX_CELLS then (XAIOS_ERR_INVALID, s)
      else (XAIOS_OK, rl_put s cell_id
              ((rl_cell s cell_id)\<lparr>rl_active := 0, rl_memory_used_bytes := 0\<rparr>)))"

definition throttle :: "xaios_status \<Rightarrow> rate_state \<Rightarrow> rate_state" where
  "throttle st s = (if st \<noteq> XAIOS_OK
     then s\<lparr>g_total_throttle_events := g_total_throttle_events s + 1\<rparr> else s)"

definition rate_limit_cpu_consume ::
  "rate_state \<Rightarrow> u32 \<Rightarrow> u64 \<Rightarrow> u64 \<Rightarrow> xaios_status \<times> rate_state" where
  "rate_limit_cpu_consume s cell_id tokens now =
     (if \<not> rl_valid s cell_id then (XAIOS_ERR_INVALID, s)
      else let rl = rl_cell s cell_id;
               (status, b) = bucket_consume (rl_cpu_bucket rl) tokens now;
               rl1 = rl\<lparr>rl_cpu_bucket := b\<rparr>;
               rl2 = (if status \<noteq> XAIOS_OK
                      then rl1\<lparr>rl_cpu_violations := rl_cpu_violations rl1 + 1,
                               rl_total_throttle_events := rl_total_throttle_events rl1 + 1\<rparr>
                      else rl1)
           in (status, throttle status (rl_put s cell_id rl2)))"

definition rate_limit_check_memory ::
  "rate_state \<Rightarrow> u32 \<Rightarrow> u64 \<Rightarrow> xaios_status \<times> rate_state" where
  "rate_limit_check_memory s cell_id bytes =
     (if \<not> rl_valid s cell_id then (XAIOS_ERR_INVALID, s)
      else let rl = rl_cell s cell_id
           in if rl_memory_used_bytes rl + bytes > rl_memory_cap_bytes rl
              then (XAIOS_ERR_NO_MEMORY, throttle XAIOS_ERR_NO_MEMORY (rl_put s cell_id
                     (rl\<lparr>rl_memory_violations := rl_memory_violations rl + 1,
                         rl_total_throttle_events := rl_total_throttle_events rl + 1\<rparr>)))
              else (XAIOS_OK, s))"

definition rate_limit_memory_commit ::
  "rate_state \<Rightarrow> u32 \<Rightarrow> u64 \<Rightarrow> xaios_status \<times> rate_state" where
  "rate_limit_memory_commit s cell_id bytes =
     (case rate_limit_check_memory s cell_id bytes of (status, s1) \<Rightarrow>
        if status \<noteq> XAIOS_OK then (status, s1)
        else (XAIOS_OK, rl_put s1 cell_id ((rl_cell s1 cell_id)
               \<lparr>rl_memory_used_bytes := rl_memory_used_bytes (rl_cell s1 cell_id) + bytes\<rparr>)))"

definition rate_limit_memory_release :: "rate_state \<Rightarrow> u32 \<Rightarrow> u64 \<Rightarrow> rate_state" where
  "rate_limit_memory_release s cell_id bytes =
     (if \<not> rl_valid s cell_id then s
      else let rl = rl_cell s cell_id
           in rl_put s cell_id (rl\<lparr>rl_memory_used_bytes :=
                (if bytes > rl_memory_used_bytes rl then 0 else rl_memory_used_bytes rl - bytes)\<rparr>))"

definition rate_limit_check_network ::
  "rate_state \<Rightarrow> u32 \<Rightarrow> u64 \<Rightarrow> u32 \<Rightarrow> u64 \<Rightarrow> xaios_status \<times> rate_state" where
  "rate_limit_check_network s cell_id bytes is_tx now =
     (if \<not> rl_valid s cell_id then (XAIOS_ERR_INVALID, s)
      else let rl = rl_cell s cell_id;
               (status, b) = bucket_consume
                 (if is_tx \<noteq> 0 then rl_net_tx_bucket rl else rl_net_rx_bucket rl) bytes now;
               rl1 = (if is_tx \<noteq> 0 then rl\<lparr>rl_net_tx_bucket := b\<rparr> else rl\<lparr>rl_net_rx_bucket := b\<rparr>);
               rl2 = (if status \<noteq> XAIOS_OK
                      then rl1\<lparr>rl_net_violations := rl_net_violations rl1 + 1,
                               rl_total_throttle_events := rl_total_throttle_events rl1 + 1\<rparr>
                      else rl1)
           in (status, throttle status (rl_put s cell_id rl2)))"

definition rate_limit_cpu_violations :: "rate_state \<Rightarrow> u32 \<Rightarrow> u64" where
  "rate_limit_cpu_violations s c =
     (if c \<ge> XAIOS_RATE_LIMIT_MAX_CELLS then 0 else rl_cpu_violations (rl_cell s c))"

definition rate_limit_net_violations :: "rate_state \<Rightarrow> u32 \<Rightarrow> u64" where
  "rate_limit_net_violations s c =
     (if c \<ge> XAIOS_RATE_LIMIT_MAX_CELLS then 0 else rl_net_violations (rl_cell s c))"

definition rate_limit_memory_violations :: "rate_state \<Rightarrow> u32 \<Rightarrow> u64" where
  "rate_limit_memory_violations s c =
     (if c \<ge> XAIOS_RATE_LIMIT_MAX_CELLS then 0 else rl_memory_violations (rl_cell s c))"

definition rate_limit_total_throttle_events :: "rate_state \<Rightarrow> u64" where
  "rate_limit_total_throttle_events s = g_total_throttle_events s"

section \<open>Buckets\<close>

definition bucket_inv :: "xaios_token_bucket \<Rightarrow> bool" where
  "bucket_inv b \<longleftrightarrow> tb_tokens b \<le> tb_capacity b"

lemma unat_mult_div_le:
  "unat ((x * y) div (1000000000 :: u64)) * 1000000000 \<le> unat x * unat y"
proof -
  have "unat ((x * y) div (1000000000 :: u64)) * 1000000000 \<le> unat (x * y)"
    by (simp add: unat_div)
  also have "\<dots> \<le> unat x * unat y"
    by (simp add: unat_word_ariths)
  finally show ?thesis .
qed

text \<open>What a refill may add, in billionths of a token: at most rate times elapsed time.\<close>

lemma bucket_refill_budget:
  fixes b now
  defines "b' \<equiv> bucket_refill b now"
  shows "unat (tb_tokens b') * 1000000000
      \<le> unat (tb_tokens b) * 1000000000
        + unat (tb_refill_rate b) * (unat (tb_last_refill_ns b') - unat (tb_last_refill_ns b))"
    and "tb_last_refill_ns b \<le> tb_last_refill_ns b'" and "tb_last_refill_ns b' \<in> {tb_last_refill_ns b, now}"
    and "tb_refill_rate b' = tb_refill_rate b" and "tb_capacity b' = tb_capacity b"
    and "bucket_inv b \<Longrightarrow> bucket_inv b'"
proof -
  let ?n = "((now - tb_last_refill_ns b) * tb_refill_rate b) div 1000000000 :: u64"
  have b': "b' = b \<or> \<not> now \<le> tb_last_refill_ns b \<and>
      b' = b\<lparr>tb_tokens := (if tb_tokens b + ?n > tb_capacity b then tb_capacity b else tb_tokens b + ?n),
             tb_last_refill_ns := now\<rparr>"
    by (simp add: b'_def bucket_refill_def Let_def)
  show "tb_last_refill_ns b \<le> tb_last_refill_ns b'" "tb_last_refill_ns b' \<in> {tb_last_refill_ns b, now}"
    "tb_refill_rate b' = tb_refill_rate b" "tb_capacity b' = tb_capacity b"
    "bucket_inv b \<Longrightarrow> bucket_inv b'"
    using b' by (auto simp: bucket_inv_def)
  show "unat (tb_tokens b') * 1000000000
      \<le> unat (tb_tokens b) * 1000000000
        + unat (tb_refill_rate b) * (unat (tb_last_refill_ns b') - unat (tb_last_refill_ns b))"
  proof (cases "b' = b")
    case False
    with b' have late: "\<not> now \<le> tb_last_refill_ns b" and l': "tb_last_refill_ns b' = now"
      and t': "tb_tokens b' = (if tb_tokens b + ?n > tb_capacity b then tb_capacity b else tb_tokens b + ?n)"
      by auto
    have "unat (tb_tokens b') \<le> unat (tb_tokens b + ?n)"
      by (simp add: t' word_less_nat_alt)
    also have "\<dots> \<le> unat (tb_tokens b) + unat ?n" by (rule unat_plus_bound)
    finally have "unat (tb_tokens b') * 1000000000 \<le> unat (tb_tokens b) * 1000000000 + unat ?n * 1000000000"
      by simp
    also have "unat ?n * 1000000000 \<le> unat (now - tb_last_refill_ns b) * unat (tb_refill_rate b)"
      by (rule unat_mult_div_le)
    also have "unat (now - tb_last_refill_ns b) = unat now - unat (tb_last_refill_ns b)"
      using late by (intro unat_sub_le) simp
    finally show ?thesis by (simp add: l' mult.commute)
  qed simp
qed

lemma bucket_consume_budget:
  assumes "bucket_consume b count now = (st, b')"
  shows "((if st = XAIOS_OK then unat count else 0) + unat (tb_tokens b')) * 1000000000
      \<le> unat (tb_tokens b) * 1000000000
        + unat (tb_refill_rate b) * (unat (tb_last_refill_ns b') - unat (tb_last_refill_ns b))"
    and "tb_last_refill_ns b \<le> tb_last_refill_ns b'" and "tb_last_refill_ns b' \<in> {tb_last_refill_ns b, now}"
    and "tb_refill_rate b' = tb_refill_rate b" and "tb_capacity b' = tb_capacity b"
    and "bucket_inv b \<Longrightarrow> bucket_inv b'"
proof -
  let ?b = "bucket_refill b now"
  note r = bucket_refill_budget [of b now]
  have *: "unat (tb_tokens ?b - count) = unat (tb_tokens ?b) - unat count \<and> unat count \<le> unat (tb_tokens ?b)"
    if "\<not> tb_tokens ?b < count"
    using that unat_sub_le [of count "tb_tokens ?b"] by (simp add: word_le_nat_alt not_less)
  show "((if st = XAIOS_OK then unat count else 0) + unat (tb_tokens b')) * 1000000000
      \<le> unat (tb_tokens b) * 1000000000
        + unat (tb_refill_rate b) * (unat (tb_last_refill_ns b') - unat (tb_last_refill_ns b))"
    using assms r(1) * by (auto simp: bucket_consume_def Let_def split: if_splits)
  show "tb_last_refill_ns b \<le> tb_last_refill_ns b'" "tb_last_refill_ns b' \<in> {tb_last_refill_ns b, now}"
    "tb_refill_rate b' = tb_refill_rate b" "tb_capacity b' = tb_capacity b"
    using assms r(2-5) by (auto simp: bucket_consume_def Let_def split: if_splits)
  show "bucket_inv b \<Longrightarrow> bucket_inv b'"
    using assms r(6) * by (auto simp: bucket_consume_def bucket_inv_def Let_def word_le_nat_alt split: if_splits)
qed

section \<open>Runs\<close>

text \<open>The operations between two creations of a cell, and a run with its status codes.\<close>

datatype rate_op =
    Cpu_Consume u32 u64 u64
  | Check_Network u32 u64 u32 u64
  | Check_Memory u32 u64
  | Memory_Commit u32 u64
  | Memory_Release u32 u64

fun rate_step :: "rate_state \<Rightarrow> rate_op \<Rightarrow> xaios_status \<times> rate_state" where
  "rate_step s (Cpu_Consume c n t) = rate_limit_cpu_consume s c n t"
| "rate_step s (Check_Network c n tx t) = rate_limit_check_network s c n tx t"
| "rate_step s (Check_Memory c n) = rate_limit_check_memory s c n"
| "rate_step s (Memory_Commit c n) = rate_limit_memory_commit s c n"
| "rate_step s (Memory_Release c n) = (XAIOS_OK, rate_limit_memory_release s c n)"

text \<open>The CPU tokens granted to cell \<open>c\<close>, and the last timestamp the cell has seen.\<close>

fun cpu_granted :: "u32 \<Rightarrow> rate_op \<Rightarrow> xaios_status \<Rightarrow> nat" where
  "cpu_granted c (Cpu_Consume c' n t) st = (if c' = c \<and> st = XAIOS_OK then unat n else 0)"
| "cpu_granted c _ st = 0"

fun rate_run :: "u32 \<Rightarrow> rate_state \<Rightarrow> rate_op list \<Rightarrow> nat \<times> rate_state" where
  "rate_run c s [] = (0, s)"
| "rate_run c s (x # xs) =
     (case rate_step s x of (st, s1) \<Rightarrow>
        case rate_run c s1 xs of (n, s2) \<Rightarrow> (cpu_granted c x st + n, s2))"

definition cell_inv :: "xaios_rate_limit \<Rightarrow> bool" where
  "cell_inv r \<longleftrightarrow> bucket_inv (rl_cpu_bucket r) \<and> bucket_inv (rl_net_rx_bucket r) \<and>
     bucket_inv (rl_net_tx_bucket r) \<and> rl_memory_used_bytes r \<le> rl_memory_cap_bytes r"

definition rate_inv :: "rate_state \<Rightarrow> bool" where
  "rate_inv s \<longleftrightarrow> length (g_rate_limits s) = 8 \<and> (\<forall>r\<in>set (g_rate_limits s). cell_inv r)"

lemma rate_inv_put: "rate_inv s \<Longrightarrow> cell_inv r \<Longrightarrow> rate_inv (rl_put s c r)"
  by (auto simp: rate_inv_def rl_put_def dest!: set_update_subset_insert [THEN subsetD])

lemma throttle_cells [simp]:
  "rate_inv (throttle st s) = rate_inv s" "rl_cell (throttle st s) = rl_cell s"
  by (auto simp: rate_inv_def throttle_def rl_cell_def)

lemma rl_valid_lt: "rl_valid s c \<Longrightarrow> unat c < 8"
  by (simp add: rl_valid_def XAIOS_RATE_LIMIT_MAX_CELLS_def word_less_nat_alt)

lemma rate_inv_cell: "rate_inv s \<Longrightarrow> unat c < 8 \<Longrightarrow> cell_inv (rl_cell s c)"
  by (simp add: rate_inv_def rl_cell_def)

lemma rl_cell_put [simp]:
  "length (g_rate_limits s) = 8 \<Longrightarrow> unat c < 8 \<Longrightarrow> rl_cell (rl_put s c r) c = r"
  "c' \<noteq> c \<Longrightarrow> rl_cell (rl_put s c' r) c = rl_cell s c"
  by (auto simp: rl_cell_def rl_put_def nth_list_update word_eq_unat)

lemma rate_inv_len: "rate_inv s \<Longrightarrow> length (g_rate_limits s) = 8"
  by (simp add: rate_inv_def)

text \<open>How one operation may change the CPU bucket of cell \<open>c\<close> while granting \<open>g\<close> tokens.\<close>

definition bucket_spends :: "xaios_token_bucket \<Rightarrow> nat \<Rightarrow> xaios_token_bucket \<Rightarrow> bool" where
  "bucket_spends b g b' \<longleftrightarrow>
     (g + unat (tb_tokens b')) * 1000000000 \<le> unat (tb_tokens b) * 1000000000
        + unat (tb_refill_rate b) * (unat (tb_last_refill_ns b') - unat (tb_last_refill_ns b)) \<and>
     tb_last_refill_ns b \<le> tb_last_refill_ns b' \<and>
     tb_refill_rate b' = tb_refill_rate b \<and> tb_capacity b' = tb_capacity b"

lemma bucket_spends_refl: "bucket_spends b 0 b"
  by (simp add: bucket_spends_def)

lemma bucket_spends_trans:
  assumes "bucket_spends b g b1" and "bucket_spends b1 h b2"
  shows "bucket_spends b (g + h) b2"
proof -
  let ?t = "\<lambda>b. unat (tb_last_refill_ns b)"
  have o: "?t b \<le> ?t b1" "?t b1 \<le> ?t b2"
    using assms by (auto simp: bucket_spends_def word_le_nat_alt)
  then have "unat (tb_refill_rate b) * (?t b2 - ?t b)
      = unat (tb_refill_rate b) * (?t b1 - ?t b) + unat (tb_refill_rate b) * (?t b2 - ?t b1)"
    by (simp add: add_mult_distrib2 [symmetric])
  moreover have "(g + unat (tb_tokens b1)) * 1000000000
      \<le> unat (tb_tokens b) * 1000000000 + unat (tb_refill_rate b) * (?t b1 - ?t b)"
    "(h + unat (tb_tokens b2)) * 1000000000
      \<le> unat (tb_tokens b1) * 1000000000 + unat (tb_refill_rate b) * (?t b2 - ?t b1)"
    using assms by (auto simp: bucket_spends_def)
  ultimately have "(g + h + unat (tb_tokens b2)) * 1000000000
      \<le> unat (tb_tokens b) * 1000000000 + unat (tb_refill_rate b) * (?t b2 - ?t b)"
    by (simp only: add_mult_distrib)
  with assms show ?thesis by (auto simp: bucket_spends_def)
qed

lemma bucket_consume_spends:
  "bucket_consume b n now = (st, b') \<Longrightarrow> bucket_spends b (if st = XAIOS_OK then unat n else 0) b'"
  using bucket_consume_budget [of b n now st b'] by (simp add: bucket_spends_def)

lemma cpu_consume_step:
  assumes inv: "rate_inv s" and st: "rate_limit_cpu_consume s c' n t = (st, s')"
  shows "rate_inv s' \<and> bucket_spends (rl_cpu_bucket (rl_cell s c))
    (if c' = c \<and> st = XAIOS_OK then unat n else 0) (rl_cpu_bucket (rl_cell s' c))"
proof (cases "rl_valid s c'")
  case False
  with inv st show ?thesis by (auto simp: rate_limit_cpu_consume_def bucket_spends_refl)
next
  case True
  obtain b where b: "bucket_consume (rl_cpu_bucket (rl_cell s c')) n t = (st, b)"
    using True st by (auto simp: rate_limit_cpu_consume_def Let_def split: prod.splits)
  have ci: "cell_inv (rl_cell s c')" using inv rl_valid_lt [OF True] by (rule rate_inv_cell)
  then have bi: "bucket_inv b" using bucket_consume_budget(6) [OF b] by (simp add: cell_inv_def)
  show ?thesis
    using True st b ci bi inv rl_valid_lt [OF True] bucket_consume_spends [OF b] rate_inv_len [OF inv]
    by (cases "c' = c")
      (auto simp: rate_limit_cpu_consume_def Let_def cell_inv_def bucket_spends_refl intro!: rate_inv_put)
qed

lemma check_network_step:
  assumes inv: "rate_inv s" and st: "rate_limit_check_network s c' n tx t = (st, s')"
  shows "rate_inv s' \<and> rl_cpu_bucket (rl_cell s' c) = rl_cpu_bucket (rl_cell s c)"
proof (cases "rl_valid s c'")
  case False
  with inv st show ?thesis by (auto simp: rate_limit_check_network_def)
next
  case True
  let ?b = "if tx \<noteq> 0 then rl_net_tx_bucket (rl_cell s c') else rl_net_rx_bucket (rl_cell s c')"
  obtain b where b: "bucket_consume ?b n t = (st, b)"
    using True st by (auto simp: rate_limit_check_network_def Let_def split: prod.splits)
  have ci: "cell_inv (rl_cell s c')" using inv rl_valid_lt [OF True] by (rule rate_inv_cell)
  then have bi: "bucket_inv b" using bucket_consume_budget(6) [OF b] by (auto simp: cell_inv_def)
  show ?thesis
    using True st b ci bi inv rl_valid_lt [OF True] rate_inv_len [OF inv]
    by (cases "c' = c"; cases "tx = 0")
      (auto simp: rate_limit_check_network_def Let_def cell_inv_def intro!: rate_inv_put)
qed

lemma check_memory_step:
  assumes inv: "rate_inv s" and st: "rate_limit_check_memory s c' n = (st, s')"
  shows "rate_inv s' \<and> rl_cpu_bucket (rl_cell s' c) = rl_cpu_bucket (rl_cell s c) \<and>
    (st = XAIOS_OK \<longrightarrow> s' = s \<and> rl_valid s c' \<and>
       rl_memory_used_bytes (rl_cell s c') + n \<le> rl_memory_cap_bytes (rl_cell s c'))"
  using assms rl_valid_lt [of s c'] rate_inv_cell [OF inv, of c'] rate_inv_len [OF inv]
  by (cases "c' = c")
    (auto simp: rate_limit_check_memory_def Let_def cell_inv_def split: if_splits intro!: rate_inv_put)

lemma memory_commit_step:
  assumes inv: "rate_inv s" and st: "rate_limit_memory_commit s c' n = (st, s')"
  shows "rate_inv s' \<and> rl_cpu_bucket (rl_cell s' c) = rl_cpu_bucket (rl_cell s c)"
proof -
  obtain st1 s1 where c: "rate_limit_check_memory s c' n = (st1, s1)" by fastforce
  note m = check_memory_step [OF inv c, of c]
  show ?thesis
  proof (cases "st1 = XAIOS_OK")
    case True
    with st c m rate_inv_cell [OF inv, of c'] rl_valid_lt [of s c'] inv rate_inv_len [OF inv] show ?thesis
      by (cases "c' = c") (auto simp: rate_limit_memory_commit_def cell_inv_def intro!: rate_inv_put)
  next
    case False
    with st c m show ?thesis by (auto simp: rate_limit_memory_commit_def)
  qed
qed

lemma memory_release_step:
  assumes inv: "rate_inv s"
  shows "rate_inv (rate_limit_memory_release s c' n) \<and>
    rl_cpu_bucket (rl_cell (rate_limit_memory_release s c' n) c) = rl_cpu_bucket (rl_cell s c)"
proof -
  have "rl_memory_used_bytes r - n \<le> rl_memory_cap_bytes r"
    if "\<not> rl_memory_used_bytes r < n" "rl_memory_used_bytes r \<le> rl_memory_cap_bytes r" for r
    using that unat_sub_le [of n "rl_memory_used_bytes r"] by (simp add: word_le_nat_alt not_less)
  with inv rl_valid_lt [of s c'] rate_inv_cell [OF inv, of c'] rate_inv_len [OF inv] show ?thesis
    by (cases "c' = c") (auto simp: rate_limit_memory_release_def Let_def cell_inv_def intro!: rate_inv_put)
qed

lemma rate_step_spends:
  assumes "rate_inv s" and "rate_step s x = (st, s')"
  shows "rate_inv s' \<and> bucket_spends (rl_cpu_bucket (rl_cell s c)) (cpu_granted c x st) (rl_cpu_bucket (rl_cell s' c))"
  using assms
  by (cases x)
    (auto dest: cpu_consume_step [where c = c] check_network_step [where c = c]
      check_memory_step [where c = c] memory_commit_step [where c = c]
      simp: memory_release_step [where c = c] bucket_spends_refl)

lemma rate_run_spends:
  "rate_inv s \<Longrightarrow> rate_run c s xs = (g, s') \<Longrightarrow>
     rate_inv s' \<and> bucket_spends (rl_cpu_bucket (rl_cell s c)) g (rl_cpu_bucket (rl_cell s' c))"
proof (induction xs arbitrary: s g)
  case Nil
  then show ?case by (simp add: bucket_spends_refl)
next
  case (Cons x xs)
  obtain st s1 where s1: "rate_step s x = (st, s1)" by fastforce
  obtain n where n: "rate_run c s1 xs = (n, s')" and g: "g = cpu_granted c x st + n"
    using Cons.prems(2) s1 by (auto split: prod.splits)
  note step = rate_step_spends [OF Cons.prems(1) s1, of c]
  with Cons.IH [OF _ n] show ?case by (auto simp: g intro: bucket_spends_trans)
qed

text \<open>
  C24: The rate limit holds over every run. In any sequence of operations on any cells,
  with clock readings in any order, the CPU tokens granted to a cell are at most what its
  bucket held at the start plus the refill rate times the time its refill stamp has moved
  (in seconds); hence at most the capacity plus rate times that time. No wrap-around of
  the 64-bit products or sums can exceed this bound. The run also keeps every bucket at
  or below its capacity and the memory charge at or below its cap.
\<close>

theorem rate_limit_bound:
  assumes inv: "rate_inv s" and c: "unat c < 8" and run: "rate_run c s xs = (granted, s')"
  defines "b \<equiv> rl_cpu_bucket (rl_cell s c)" and "b' \<equiv> rl_cpu_bucket (rl_cell s' c)"
  shows "rate_inv s' \<and> tb_last_refill_ns b \<le> tb_last_refill_ns b' \<and>
    granted * 10 ^ 9 \<le> unat (tb_tokens b) * 10 ^ 9
      + unat (tb_refill_rate b) * (unat (tb_last_refill_ns b') - unat (tb_last_refill_ns b)) \<and>
    granted * 10 ^ 9 \<le> unat (tb_capacity b) * 10 ^ 9
      + unat (tb_refill_rate b) * (unat (tb_last_refill_ns b') - unat (tb_last_refill_ns b))"
proof -
  note r = rate_run_spends [OF inv run]
  have "unat (tb_tokens b) \<le> unat (tb_capacity b)"
    using rate_inv_cell [OF inv c] by (simp add: b_def cell_inv_def bucket_inv_def word_le_nat_alt)
  with r show ?thesis
    by (simp add: bucket_spends_def b_def b'_def)
qed


text \<open>
  The overflow hole of the memory cap. \<^verbatim>\<open>used + bytes\<close> is a 64-bit sum that wraps: for
  every active cell with a non-zero charge, a commit of \<open>2^64 - used\<close> bytes, far above any
  cap, is accepted and resets the charge to 0.
\<close>

theorem memory_commit_wraps:
  assumes inv: "rate_inv s" and v: "rl_valid s c" and used: "rl_memory_used_bytes (rl_cell s c) \<noteq> 0"
  shows "\<exists>s'. rate_limit_memory_commit s c (- rl_memory_used_bytes (rl_cell s c)) = (XAIOS_OK, s') \<and>
    rl_memory_used_bytes (rl_cell s' c) = 0 \<and>
    unat (- rl_memory_used_bytes (rl_cell s c)) = 2 ^ 64 - unat (rl_memory_used_bytes (rl_cell s c))"
proof -
  have "unat (- rl_memory_used_bytes (rl_cell s c)) = 2 ^ 64 - unat (rl_memory_used_bytes (rl_cell s c))"
    using used by (simp add: unat_uminus)
  then show ?thesis
    using v rl_valid_lt [OF v] rate_inv_len [OF inv]
    by (simp add: rate_limit_memory_commit_def rate_limit_check_memory_def Let_def)
qed

section \<open>A concrete cell\<close>

definition demo_bucket :: xaios_token_bucket where
  "demo_bucket = bucket_init 100 1 0"

definition demo_rate :: rate_state where
  "demo_rate = \<lparr>g_rate_limits = replicate 8
     \<lparr>rl_cell_id = 0, rl_active = 1, rl_cpu_bucket = demo_bucket, rl_net_rx_bucket = demo_bucket,
      rl_net_tx_bucket = demo_bucket, rl_memory_cap_bytes = 4096, rl_memory_used_bytes = 1024,
      rl_cpu_violations = 0, rl_net_violations = 0, rl_memory_violations = 0,
      rl_total_throttle_events = 0\<rparr>, g_total_throttle_events = 0\<rparr>"

lemma demo_rate_inv: "rate_inv demo_rate"
  by (simp add: rate_inv_def demo_rate_def cell_inv_def bucket_inv_def demo_bucket_def bucket_init_def)

lemma demo_rate_valid: "rl_valid demo_rate 3"
  by (simp add: rl_valid_def demo_rate_def XAIOS_RATE_LIMIT_MAX_CELLS_def nth_Cons')

lemma demo_rate_cell:
  "rl_memory_used_bytes (rl_cell demo_rate 3) = 1024" "rl_memory_cap_bytes (rl_cell demo_rate 3) = 4096"
  "rl_cpu_bucket (rl_cell demo_rate 3) = demo_bucket"
  by (simp_all add: rl_cell_def demo_rate_def)

theorem rate_limit_bound_witness:
  "\<exists>g s'. rate_run 3 demo_rate [Cpu_Consume 3 60 0, Cpu_Consume 3 60 2000000000] = (g, s') \<and> rate_inv s' \<and>
     g * 10 ^ 9 \<le> 100 * 10 ^ 9 + unat (tb_last_refill_ns (rl_cpu_bucket (rl_cell s' 3)))"
proof -
  obtain g s' where r: "rate_run 3 demo_rate [Cpu_Consume 3 60 0, Cpu_Consume 3 60 2000000000] = (g, s')"
    by (metis surj_pair)
  show ?thesis
    using rate_limit_bound [OF demo_rate_inv _ r] r
    by (simp add: demo_rate_cell demo_bucket_def bucket_init_def)
qed


theorem memory_commit_wraps_witness:
  "\<exists>s'. rate_limit_memory_commit demo_rate 3 (- 1024) = (XAIOS_OK, s') \<and>
     rl_memory_used_bytes (rl_cell s' 3) = 0"
  using memory_commit_wraps [OF demo_rate_inv demo_rate_valid] by (auto simp: demo_rate_cell)

end
