(* ===== verification/Smp.thy ===== *)
theory Smp
  imports Prelude
begin

text \<open>
  \<^verbatim>\<open>kernel/arch/aarch64/smp.c\<close>: the per-core registry. The array \<^verbatim>\<open>g_cpu_states\<close> is a list of
  256 records; \<^verbatim>\<open>g_online_count\<close> is the cached counter. The spin lock makes every operation
  one atomic step, so it is not part of the state. Register reads (\<^verbatim>\<open>MPIDR_EL1\<close>, the GIC
  type register) are arguments; a secondary core coming up is its own step.
\<close>

section \<open>Model\<close>

definition XAIOS_MAX_CPUS :: u32 where
  "XAIOS_MAX_CPUS = 256"

datatype xaios_cpu_role =
    XAIOS_CPU_ROLE_OFFLINE
  | XAIOS_CPU_ROLE_HOUSEKEEPING
  | XAIOS_CPU_ROLE_SCHEDULING
  | XAIOS_CPU_ROLE_AI_HOT

record xaios_cpu_state =
  cs_cpu_id :: u32
  cs_online :: u32
  cs_mpidr :: u64
  cs_role :: xaios_cpu_role
  cs_lease_owner_id :: u32
  cs_irq_routed_away :: u32
  cs_tick_suppressed :: u32
  cs_migration_count :: u64
  cs_involuntary_context_switch_count :: u64
  cs_scheduling_enabled :: u32
  cs_steal_count :: u32

record smp_state =
  g_cpu_states :: "xaios_cpu_state list"
  g_online_count :: u32

definition cpu_at :: "smp_state \<Rightarrow> u32 \<Rightarrow> xaios_cpu_state" where
  "cpu_at s cpu = g_cpu_states s ! unat cpu"

definition cpu_put :: "smp_state \<Rightarrow> u32 \<Rightarrow> xaios_cpu_state \<Rightarrow> smp_state" where
  "cpu_put s cpu c = s\<lparr>g_cpu_states := (g_cpu_states s)[unat cpu := c]\<rparr>"

definition bump_online :: "smp_state \<Rightarrow> smp_state" where
  "bump_online s = s\<lparr>g_online_count := g_online_count s + 1\<rparr>"

definition detect_cpu_count :: "u32 \<Rightarrow> u32" where
  "detect_cpu_count typer =
     (let cpu_hint = (drop_bit 5 typer AND 7) + 1
      in if cpu_hint > XAIOS_MAX_CPUS then XAIOS_MAX_CPUS else cpu_hint)"

text \<open>\<^verbatim>\<open>smp_secondary_main\<close> up to its idle loop; the GIC and timer set-up has no effect here.\<close>

definition smp_secondary_main :: "smp_state \<Rightarrow> u64 \<Rightarrow> u64 \<Rightarrow> smp_state" where
  "smp_secondary_main s cpu_id mpidr =
     (if unat cpu_id < unat XAIOS_MAX_CPUS
      then let cpu = ucast cpu_id;
               s1 = bump_online (cpu_put s cpu ((cpu_at s cpu)
                 \<lparr>cs_cpu_id := cpu, cs_mpidr := mpidr, cs_role := XAIOS_CPU_ROLE_SCHEDULING,
                  cs_lease_owner_id := 0, cs_irq_routed_away := 0, cs_tick_suppressed := 0,
                  cs_online := 1, cs_scheduling_enabled := 0, cs_steal_count := 0\<rparr>))
           in cpu_put s1 cpu ((cpu_at s1 cpu)\<lparr>cs_scheduling_enabled := 1\<rparr>)
      else s)"

text \<open>\<^verbatim>\<open>smp_init_qemu_virt\<close> up to the PSCI calls that start the secondary cores.\<close>

definition cpu_reset :: "nat \<Rightarrow> xaios_cpu_state \<Rightarrow> xaios_cpu_state" where
  "cpu_reset i c = c\<lparr>cs_cpu_id := of_nat i, cs_online := 0, cs_mpidr := of_nat i,
     cs_role := XAIOS_CPU_ROLE_OFFLINE, cs_lease_owner_id := 0, cs_irq_routed_away := 0,
     cs_tick_suppressed := 0, cs_migration_count := 0,
     cs_involuntary_context_switch_count := 0, cs_scheduling_enabled := 0, cs_steal_count := 0\<rparr>"

definition smp_init_qemu_virt :: "smp_state \<Rightarrow> u32 \<Rightarrow> u64 \<Rightarrow> smp_state" where
  "smp_init_qemu_virt s typer mpidr =
     (let hw_cpu_count = detect_cpu_count typer;
          init_limit = (if hw_cpu_count < XAIOS_MAX_CPUS then hw_cpu_count else XAIOS_MAX_CPUS);
          cpus = map (\<lambda>i. if i < unat init_limit then cpu_reset i (g_cpu_states s ! i)
                          else g_cpu_states s ! i) [0 ..< length (g_cpu_states s)];
          boot = (cpus ! 0)\<lparr>cs_online := 1, cs_mpidr := mpidr, cs_role := XAIOS_CPU_ROLE_HOUSEKEEPING,
                            cs_irq_routed_away := 0, cs_tick_suppressed := 0\<rparr>
      in bump_online \<lparr>g_cpu_states = cpus[0 := boot], g_online_count = 0\<rparr>)"

definition smp_cpu_state :: "smp_state \<Rightarrow> u32 \<Rightarrow> xaios_cpu_state option" where
  "smp_cpu_state s cpu_id = (if cpu_id \<ge> XAIOS_MAX_CPUS then None else Some (cpu_at s cpu_id))"

definition smp_mark_core_leased :: "smp_state \<Rightarrow> u32 \<Rightarrow> u32 \<Rightarrow> xaios_status \<times> smp_state" where
  "smp_mark_core_leased s cpu_id owner_id =
     (let c = cpu_at s cpu_id in
      if cpu_id = 0 \<or> cpu_id \<ge> XAIOS_MAX_CPUS \<or> owner_id = UINT32_MAX \<or> cs_online c = 0 \<or>
         cs_role c \<noteq> XAIOS_CPU_ROLE_SCHEDULING
      then (XAIOS_ERR_INVALID, s)
      else if cs_lease_owner_id c \<noteq> 0 \<and> cs_lease_owner_id c \<noteq> owner_id + 1
      then (XAIOS_ERR_BUSY, cpu_put s cpu_id (c\<lparr>cs_migration_count := cs_migration_count c + 1\<rparr>))
      else (XAIOS_OK, cpu_put s cpu_id
             (c\<lparr>cs_role := XAIOS_CPU_ROLE_AI_HOT, cs_lease_owner_id := owner_id + 1,
                cs_irq_routed_away := 1, cs_tick_suppressed := 1, cs_scheduling_enabled := 0\<rparr>)))"

definition smp_release_core_lease :: "smp_state \<Rightarrow> u32 \<Rightarrow> u32 \<Rightarrow> xaios_status \<times> smp_state" where
  "smp_release_core_lease s cpu_id owner_id =
     (let c = cpu_at s cpu_id in
      if cpu_id = 0 \<or> cpu_id \<ge> XAIOS_MAX_CPUS \<or> cs_online c = 0 \<or>
         cs_role c \<noteq> XAIOS_CPU_ROLE_AI_HOT \<or> cs_lease_owner_id c \<noteq> owner_id + 1
      then (XAIOS_ERR_INVALID, s)
      else (XAIOS_OK, cpu_put s cpu_id
             (c\<lparr>cs_role := XAIOS_CPU_ROLE_SCHEDULING, cs_lease_owner_id := 0,
                cs_irq_routed_away := 0, cs_tick_suppressed := 0, cs_scheduling_enabled := 1\<rparr>)))"

definition smp_hot_core_mask :: "smp_state \<Rightarrow> u32" where
  "smp_hot_core_mask s = fold (\<lambda>cpu m. if cs_role (g_cpu_states s ! cpu) = XAIOS_CPU_ROLE_AI_HOT
     then m OR push_bit cpu 1 else m) [0 ..< 32] 0"

definition smp_irq_isolated_mask :: "smp_state \<Rightarrow> u32" where
  "smp_irq_isolated_mask s = fold (\<lambda>cpu m. if cs_irq_routed_away (g_cpu_states s ! cpu) \<noteq> 0
     then m OR push_bit cpu 1 else m) [0 ..< 32] 0"

definition smp_total_migration_count :: "smp_state \<Rightarrow> u64" where
  "smp_total_migration_count s =
     (let limit = (if g_online_count s > 32 then 32 else g_online_count s)
      in fold (\<lambda>cpu t. t + cs_migration_count (g_cpu_states s ! cpu)) [0 ..< unat limit] 0)"

definition smp_total_involuntary_context_switch_count :: "smp_state \<Rightarrow> u64" where
  "smp_total_involuntary_context_switch_count s =
     (let limit = (if g_online_count s > 32 then 32 else g_online_count s)
      in fold (\<lambda>cpu t. t + cs_involuntary_context_switch_count (g_cpu_states s ! cpu))
           [0 ..< unat limit] 0)"

definition smp_online_count :: "smp_state \<Rightarrow> u32" where
  "smp_online_count s = g_online_count s"

end
