(* ===== verification/Core_Lease.thy ===== *)
theory Core_Lease
  imports Smp
begin

text \<open>
  \<^verbatim>\<open>kernel/runtime/core_lease.c\<close>: exclusive leases of cores to AI cells, on top of the
  per-core registry. The state is the lease table \<^verbatim>\<open>g_leases\<close> together with the registry.
  A failed \<^verbatim>\<open>kassert\<close> stops the kernel: the operations return \<open>None\<close> there. The file takes no lock;
  a call is one step of the model, so nothing is said of calls that overlap.
\<close>

section \<open>Model\<close>

definition MAX_CORE_LEASES :: nat where
  "MAX_CORE_LEASES = 4096"

record core_lease =
  cl_owner_id :: u32
  cl_core_mask :: u32
  cl_irq_isolated_mask :: u32
  cl_active :: u32

record lease_state =
  g_leases :: "core_lease list"
  lease_smp :: smp_state

definition core_lease_init :: "lease_state \<Rightarrow> lease_state" where
  "core_lease_init s = s\<lparr>g_leases := replicate MAX_CORE_LEASES
     \<lparr>cl_owner_id = 0, cl_core_mask = 0, cl_irq_isolated_mask = 0, cl_active = 0\<rparr>\<rparr>"

definition core_lease_used_mask :: "lease_state \<Rightarrow> u32" where
  "core_lease_used_mask s =
     fold (\<lambda>l m. if cl_active l \<noteq> 0 then m OR cl_core_mask l else m) (g_leases s) 0"

definition core_lease_irq_isolated_mask :: "lease_state \<Rightarrow> u32" where
  "core_lease_irq_isolated_mask s =
     fold (\<lambda>l m. if cl_active l \<noteq> 0 then m OR cl_irq_isolated_mask l else m) (g_leases s) 0"

definition mask_has :: "u32 \<Rightarrow> nat \<Rightarrow> bool" where
  "mask_has m cpu \<longleftrightarrow> (m AND push_bit cpu 1) \<noteq> 0"

definition validate_core_mask :: "smp_state \<Rightarrow> u32 \<Rightarrow> xaios_status" where
  "validate_core_mask s core_mask =
     (if core_mask = 0 \<or> (core_mask AND 1) \<noteq> 0 then XAIOS_ERR_INVALID
      else if list_all (\<lambda>cpu. mask_has core_mask cpu \<longrightarrow>
                (case smp_cpu_state s (of_nat cpu) of
                   None \<Rightarrow> False
                 | Some c \<Rightarrow> cs_online c \<noteq> 0 \<and> cs_role c = XAIOS_CPU_ROLE_SCHEDULING)) [0 ..< 32]
      then XAIOS_OK else XAIOS_ERR_INVALID)"

text \<open>The loop that releases the cores of a mask, with its assertion.\<close>

fun release_cores :: "smp_state \<Rightarrow> u32 \<Rightarrow> u32 \<Rightarrow> nat list \<Rightarrow> smp_state option" where
  "release_cores s owner_id m [] = Some s"
| "release_cores s owner_id m (cpu # cpus) =
     (if mask_has m cpu
      then (case smp_release_core_lease s (of_nat cpu) owner_id of (status, s1) \<Rightarrow>
              if status = XAIOS_OK then release_cores s1 owner_id m cpus else None)
      else release_cores s owner_id m cpus)"

definition release_marked_cores :: "smp_state \<Rightarrow> u32 \<Rightarrow> u32 \<Rightarrow> smp_state option" where
  "release_marked_cores s owner_id marked_mask = release_cores s owner_id marked_mask [1 ..< 32]"

text \<open>The marking loop: whether every core was marked, the mask marked so far, the registry.\<close>

fun mark_cores :: "smp_state \<Rightarrow> u32 \<Rightarrow> u32 \<Rightarrow> nat list \<Rightarrow> u32 \<Rightarrow> bool \<times> u32 \<times> smp_state" where
  "mark_cores s owner_id m [] marked = (True, marked, s)"
| "mark_cores s owner_id m (cpu # cpus) marked =
     (if mask_has m cpu
      then (case smp_mark_core_leased s (of_nat cpu) owner_id of (status, s1) \<Rightarrow>
              if status \<noteq> XAIOS_OK then (False, marked, s1)
              else mark_cores s1 owner_id m cpus (marked OR push_bit cpu 1))
      else mark_cores s owner_id m cpus marked)"

definition core_lease_acquire ::
  "lease_state \<Rightarrow> u32 \<Rightarrow> u32 \<Rightarrow> (xaios_status \<times> lease_state) option" where
  "core_lease_acquire s owner_id core_mask =
     (if validate_core_mask (lease_smp s) core_mask \<noteq> XAIOS_OK \<or>
         (core_lease_used_mask s AND core_mask) \<noteq> 0
      then Some (XAIOS_ERR_INVALID, s)
      else case find_slot (\<lambda>l. cl_active l = 0) (g_leases s) of
        None \<Rightarrow> Some (XAIOS_ERR_NO_MEMORY, s)
      | Some i \<Rightarrow>
          (case mark_cores (lease_smp s) owner_id core_mask [1 ..< 32] 0 of (ok, marked, smp) \<Rightarrow>
             if \<not> ok
             then map_option (\<lambda>smp'. (XAIOS_ERR_INVALID, s\<lparr>lease_smp := smp'\<rparr>))
                    (release_marked_cores smp owner_id marked)
             else Some (XAIOS_OK,
               s\<lparr>g_leases := (g_leases s)[i := \<lparr>cl_owner_id = owner_id, cl_core_mask = core_mask,
                    cl_irq_isolated_mask = marked, cl_active = 1\<rparr>],
                 lease_smp := smp\<rparr>)))"

text \<open>The release loop over the table; \<^verbatim>\<open>found\<close> tells whether some lease was dropped.\<close>

fun release_leases ::
  "lease_state \<Rightarrow> u32 \<Rightarrow> nat list \<Rightarrow> bool \<Rightarrow> (bool \<times> lease_state) option" where
  "release_leases s owner_id [] found = Some (found, s)"
| "release_leases s owner_id (i # ixs) found =
     (let l = g_leases s ! i in
      if cl_active l \<noteq> 0 \<and> cl_owner_id l = owner_id
      then (case release_cores (lease_smp s) owner_id (cl_core_mask l) [1 ..< 32] of
              None \<Rightarrow> None
            | Some smp \<Rightarrow> release_leases
                (s\<lparr>g_leases := (g_leases s)[i := l\<lparr>cl_active := 0, cl_core_mask := 0,
                     cl_irq_isolated_mask := 0\<rparr>], lease_smp := smp\<rparr>) owner_id ixs True)
      else release_leases s owner_id ixs found)"

definition core_lease_release :: "lease_state \<Rightarrow> u32 \<Rightarrow> (xaios_status \<times> lease_state) option" where
  "core_lease_release s owner_id =
     map_option (\<lambda>(found, s'). (if found then XAIOS_OK else XAIOS_ERR_INVALID, s'))
       (release_leases s owner_id [0 ..< MAX_CORE_LEASES] False)"

definition core_lease_migration_count :: "lease_state \<Rightarrow> u64" where
  "core_lease_migration_count s = smp_total_migration_count (lease_smp s)"

definition core_lease_involuntary_context_switch_count :: "lease_state \<Rightarrow> u64" where
  "core_lease_involuntary_context_switch_count s =
     smp_total_involuntary_context_switch_count (lease_smp s)"

section \<open>The loops over the registry\<close>

abbreviation cpu_of :: "smp_state \<Rightarrow> nat \<Rightarrow> xaios_cpu_state" where
  "cpu_of s k \<equiv> g_cpu_states s ! k"

definition hot_cpu :: "u32 \<Rightarrow> xaios_cpu_state \<Rightarrow> xaios_cpu_state" where
  "hot_cpu owner c = c\<lparr>cs_role := XAIOS_CPU_ROLE_AI_HOT, cs_lease_owner_id := owner + 1,
     cs_irq_routed_away := 1, cs_tick_suppressed := 1, cs_scheduling_enabled := 0\<rparr>"

definition cool_cpu :: "xaios_cpu_state \<Rightarrow> xaios_cpu_state" where
  "cool_cpu c = c\<lparr>cs_role := XAIOS_CPU_ROLE_SCHEDULING, cs_lease_owner_id := 0,
     cs_irq_routed_away := 0, cs_tick_suppressed := 0, cs_scheduling_enabled := 1\<rparr>"

text \<open>A core that may be leased, and a core held by an owner.\<close>

definition cpu_free :: "xaios_cpu_state \<Rightarrow> bool" where
  "cpu_free c \<longleftrightarrow> cs_online c \<noteq> 0 \<and> cs_role c = XAIOS_CPU_ROLE_SCHEDULING \<and> cs_lease_owner_id c = 0"

definition cpu_held :: "u32 \<Rightarrow> xaios_cpu_state \<Rightarrow> bool" where
  "cpu_held owner c \<longleftrightarrow> cs_online c \<noteq> 0 \<and> cs_role c = XAIOS_CPU_ROLE_AI_HOT \<and>
     cs_lease_owner_id c = owner + 1"

lemma mask_has_bit: "k < 32 \<Longrightarrow> mask_has m k \<longleftrightarrow> bit m k"
  unfolding mask_has_def by (rule and_bit_iff) simp

lemma small_cpu: "0 < k \<Longrightarrow> k < 32 \<Longrightarrow> unat (of_nat k :: u32) = k \<and> (of_nat k :: u32) \<noteq> 0 \<and>
    \<not> (of_nat k :: u32) \<ge> XAIOS_MAX_CPUS"
  by (simp add: XAIOS_MAX_CPUS_def word_le_nat_alt word_eq_unat unat_of_nat_small)

lemma mark_one:
  assumes "0 < k" "k < 32" "cpu_free (cpu_of s k)" "owner \<noteq> UINT32_MAX"
  shows "smp_mark_core_leased s (of_nat k) owner
    = (XAIOS_OK, s\<lparr>g_cpu_states := (g_cpu_states s)[k := hot_cpu owner (cpu_of s k)]\<rparr>)"
  using assms small_cpu [OF assms(1,2)]
  by (simp add: smp_mark_core_leased_def cpu_at_def cpu_put_def cpu_free_def hot_cpu_def Let_def)

lemma mark_max_owner: "smp_mark_core_leased s cpu UINT32_MAX = (XAIOS_ERR_INVALID, s)"
  by (simp add: smp_mark_core_leased_def Let_def)

lemma release_one:
  assumes "0 < k" "k < 32" "cpu_held owner (cpu_of s k)"
  shows "smp_release_core_lease s (of_nat k) owner
    = (XAIOS_OK, s\<lparr>g_cpu_states := (g_cpu_states s)[k := cool_cpu (cpu_of s k)]\<rparr>)"
  using assms small_cpu [OF assms(1,2)]
  by (simp add: smp_release_core_lease_def cpu_at_def cpu_put_def cpu_held_def cool_cpu_def Let_def)

text \<open>Updating a set of cores at once.\<close>

definition on_cpus :: "(xaios_cpu_state \<Rightarrow> xaios_cpu_state) \<Rightarrow> nat set \<Rightarrow> smp_state \<Rightarrow> smp_state" where
  "on_cpus f K s = s\<lparr>g_cpu_states :=
     map (\<lambda>k. if k \<in> K then f (cpu_of s k) else cpu_of s k) [0 ..< length (g_cpu_states s)]\<rparr>"

lemma on_cpus_simps [simp]:
  "length (g_cpu_states (on_cpus f K s)) = length (g_cpu_states s)"
  "k < length (g_cpu_states s) \<Longrightarrow>
     cpu_of (on_cpus f K s) k = (if k \<in> K then f (cpu_of s k) else cpu_of s k)"
  "g_online_count (on_cpus f K s) = g_online_count s"
  by (simp_all add: on_cpus_def)

lemma on_cpus_empty [simp]: "on_cpus f {} s = s"
  by (simp add: on_cpus_def map_nth)

lemma on_cpus_insert:
  assumes "k < length (g_cpu_states s)" "k \<notin> K"
  shows "on_cpus f K (s\<lparr>g_cpu_states := (g_cpu_states s)[k := f (cpu_of s k)]\<rparr>) = on_cpus f (insert k K) s"
  using assms by (auto simp: on_cpus_def nth_list_update intro!: arg_cong [where f = "\<lambda>x. g_cpu_states_update (\<lambda>_. x) s"])

lemma mark_cores_ok:
  "distinct ks \<Longrightarrow> \<forall>k\<in>set ks. 0 < k \<and> k < 32 \<and> (bit m k \<longrightarrow> cpu_free (cpu_of s k)) \<Longrightarrow>
   owner \<noteq> UINT32_MAX \<Longrightarrow> 32 \<le> length (g_cpu_states s) \<Longrightarrow>
   mark_cores s owner m ks marked =
     (True, fold (\<lambda>k w. if bit m k then w OR push_bit k 1 else w) ks marked,
      on_cpus (hot_cpu owner) {k \<in> set ks. bit m k} s)"
proof (induction ks arbitrary: s marked)
  case (Cons k ks)
  show ?case
  proof (cases "bit m k")
    case True
    let ?s = "s\<lparr>g_cpu_states := (g_cpu_states s)[k := hot_cpu owner (cpu_of s k)]\<rparr>"
    have k: "0 < k" "k < 32" "cpu_free (cpu_of s k)" using Cons.prems True by auto
    have "mark_cores ?s owner m ks (marked OR push_bit k 1) = (True,
        fold (\<lambda>k w. if bit m k then w OR push_bit k 1 else w) ks (marked OR push_bit k 1),
        on_cpus (hot_cpu owner) {j \<in> set ks. bit m j} ?s)"
      using Cons.prems by (intro Cons.IH) (auto simp: nth_list_update)
    moreover have "{j \<in> set (k # ks). bit m j} = insert k {j \<in> set ks. bit m j}"
      using True by auto
    moreover have "on_cpus (hot_cpu owner) {j \<in> set ks. bit m j} ?s
        = on_cpus (hot_cpu owner) (insert k {j \<in> set ks. bit m j}) s"
      using Cons.prems by (intro on_cpus_insert) auto
    ultimately show ?thesis
      using True k mark_one [OF k Cons.prems(3)] by (simp add: mask_has_bit)
  next
    case False
    then have "{j \<in> set (k # ks). bit m j} = {j \<in> set ks. bit m j}" by auto
    with Cons False show ?thesis by (simp add: mask_has_bit)
  qed
qed simp

lemma release_cores_ok:
  "distinct ks \<Longrightarrow> \<forall>k\<in>set ks. 0 < k \<and> k < 32 \<and> (bit m k \<longrightarrow> cpu_held owner (cpu_of s k)) \<Longrightarrow>
   32 \<le> length (g_cpu_states s) \<Longrightarrow>
   release_cores s owner m ks = Some (on_cpus cool_cpu {k \<in> set ks. bit m k} s)"
proof (induction ks arbitrary: s)
  case (Cons k ks)
  show ?case
  proof (cases "bit m k")
    case True
    let ?s = "s\<lparr>g_cpu_states := (g_cpu_states s)[k := cool_cpu (cpu_of s k)]\<rparr>"
    have k: "0 < k" "k < 32" "cpu_held owner (cpu_of s k)" using Cons.prems True by auto
    have "release_cores ?s owner m ks = Some (on_cpus cool_cpu {j \<in> set ks. bit m j} ?s)"
      using Cons.prems by (intro Cons.IH) (auto simp: nth_list_update)
    moreover have "{j \<in> set (k # ks). bit m j} = insert k {j \<in> set ks. bit m j}"
      using True by auto
    moreover have "on_cpus cool_cpu {j \<in> set ks. bit m j} ?s
        = on_cpus cool_cpu (insert k {j \<in> set ks. bit m j}) s"
      using Cons.prems by (intro on_cpus_insert) auto
    ultimately show ?thesis
      using True k release_one [OF k] by (simp add: mask_has_bit)
  next
    case False
    then have "{j \<in> set (k # ks). bit m j} = {j \<in> set ks. bit m j}" by auto
    with Cons False show ?thesis by (simp add: mask_has_bit)
  qed
qed simp

lemma mark_cores_max_owner:
  "\<exists>ok. mark_cores s UINT32_MAX m ks marked = (ok, marked, s) \<and>
     (ok \<longleftrightarrow> (\<forall>k\<in>set ks. \<not> mask_has m k))"
  by (induction ks) (auto simp: mark_max_owner)

section \<open>Invariant\<close>

text \<open>
  Cores: core 0 is housekeeping; a scheduling core has no owner; interrupts are routed away
  from exactly the leased cores, which run without tick and scheduler. Leases: no active
  lease is empty or has core 0, its cores are held by its owner and are all isolated; two
  active leases share no core; every leased core belongs to an active lease.
\<close>

definition cpu_wf :: "xaios_cpu_state \<Rightarrow> bool" where
  "cpu_wf c \<longleftrightarrow> (cs_role c = XAIOS_CPU_ROLE_SCHEDULING \<longrightarrow> cs_lease_owner_id c = 0) \<and>
     (cs_irq_routed_away c \<noteq> 0 \<longleftrightarrow> cs_role c = XAIOS_CPU_ROLE_AI_HOT) \<and>
     (cs_role c = XAIOS_CPU_ROLE_AI_HOT \<longrightarrow> cs_tick_suppressed c \<noteq> 0 \<and> cs_scheduling_enabled c = 0) \<and>
     (cs_role c = XAIOS_CPU_ROLE_OFFLINE \<longleftrightarrow> cs_online c = 0)"

definition lease_at :: "lease_state \<Rightarrow> nat \<Rightarrow> u32 \<Rightarrow> bool" where
  "lease_at s i owner \<longleftrightarrow> i < length (g_leases s) \<and> cl_active (g_leases s ! i) \<noteq> 0 \<and>
     cl_owner_id (g_leases s ! i) = owner"

abbreviation lease_mask :: "lease_state \<Rightarrow> nat \<Rightarrow> u32" where
  "lease_mask s i \<equiv> cl_core_mask (g_leases s ! i)"

definition lease_inv :: "lease_state \<Rightarrow> bool" where
  "lease_inv s \<longleftrightarrow> length (g_leases s) = 4096 \<and> length (g_cpu_states (lease_smp s)) = 256 \<and>
     cs_role (cpu_of (lease_smp s) 0) = XAIOS_CPU_ROLE_HOUSEKEEPING \<and>
     (\<forall>k<256. cpu_wf (cpu_of (lease_smp s) k)) \<and>
     (\<forall>i owner. lease_at s i owner \<longrightarrow> lease_mask s i \<noteq> 0 \<and> \<not> bit (lease_mask s i) 0 \<and>
        cl_irq_isolated_mask (g_leases s ! i) = lease_mask s i \<and>
        (\<forall>k. bit (lease_mask s i) k \<longrightarrow> cpu_held owner (cpu_of (lease_smp s) k))) \<and>
     (\<forall>i j oi oj. lease_at s i oi \<and> lease_at s j oj \<and> i \<noteq> j \<longrightarrow> lease_mask s i AND lease_mask s j = 0) \<and>
     (\<forall>k<256. cs_role (cpu_of (lease_smp s) k) = XAIOS_CPU_ROLE_AI_HOT \<longrightarrow>
        (\<exists>i owner. lease_at s i owner \<and> bit (lease_mask s i) k))"

lemma lease_invD:
  assumes "lease_inv s"
  shows "length (g_leases s) = 4096" "length (g_cpu_states (lease_smp s)) = 256"
    "cs_role (cpu_of (lease_smp s) 0) = XAIOS_CPU_ROLE_HOUSEKEEPING"
    "k < 256 \<Longrightarrow> cpu_wf (cpu_of (lease_smp s) k)"
    "lease_at s i owner \<Longrightarrow> lease_mask s i \<noteq> 0"
    "lease_at s i owner \<Longrightarrow> \<not> bit (lease_mask s i) 0"
    "lease_at s i owner \<Longrightarrow> cl_irq_isolated_mask (g_leases s ! i) = lease_mask s i"
    "lease_at s i owner \<Longrightarrow> bit (lease_mask s i) k \<Longrightarrow> cpu_held owner (cpu_of (lease_smp s) k)"
    "lease_at s i owner \<Longrightarrow> lease_at s j owner' \<Longrightarrow> i \<noteq> j \<Longrightarrow> bit (lease_mask s i) k \<Longrightarrow> \<not> bit (lease_mask s j) k"
    "k < 256 \<Longrightarrow> cs_role (cpu_of (lease_smp s) k) = XAIOS_CPU_ROLE_AI_HOT \<Longrightarrow>
      \<exists>i owner. lease_at s i owner \<and> bit (lease_mask s i) k"
  using assms unfolding lease_inv_def word_and_0_iff by blast+

lemma bit_u32_lt: "bit (m :: u32) k \<Longrightarrow> k < 32"
  using bit_imp_le_length [of m k] by simp

lemma bit_used_fold:
  "bit (fold (\<lambda>l m. if cl_active l \<noteq> 0 then m OR f l else m) ls (m0 :: u32)) k \<longleftrightarrow>
     bit m0 k \<or> (\<exists>l\<in>set ls. cl_active l \<noteq> 0 \<and> bit (f l) k)"
  by (induction ls arbitrary: m0) (auto simp: bit_or_iff)

lemma bit_used_mask:
  "bit (core_lease_used_mask s) k \<longleftrightarrow> (\<exists>i owner. lease_at s i owner \<and> bit (lease_mask s i) k)"
  unfolding core_lease_used_mask_def bit_used_fold lease_at_def by (auto simp: in_set_conv_nth) (metis nth_mem)

lemma bit_isolated_mask:
  "bit (core_lease_irq_isolated_mask s) k \<longleftrightarrow>
     (\<exists>i owner. lease_at s i owner \<and> bit (cl_irq_isolated_mask (g_leases s ! i)) k)"
  unfolding core_lease_irq_isolated_mask_def bit_used_fold lease_at_def
  by (auto simp: in_set_conv_nth) (metis nth_mem)

lemma validate_ok:
  "validate_core_mask smp m = XAIOS_OK \<longleftrightarrow> m \<noteq> 0 \<and> \<not> bit m 0 \<and>
     (\<forall>k. bit m k \<longrightarrow> cs_online (cpu_of smp k) \<noteq> 0 \<and> cs_role (cpu_of smp k) = XAIOS_CPU_ROLE_SCHEDULING)"
proof -
  have k: "\<not> XAIOS_MAX_CPUS \<le> of_nat k \<and> unat (of_nat k :: u32) = k" if "k < 32" for k :: nat
    using that by (simp add: XAIOS_MAX_CPUS_def word_le_nat_alt unat_of_nat_small)
  have "(m AND 1 = 0) \<longleftrightarrow> \<not> bit m 0"
    by (simp add: and_one_eq bit_0 even_iff_mod_2_eq_zero)
  moreover have "list_all (\<lambda>cpu. mask_has m cpu \<longrightarrow>
      (case smp_cpu_state smp (of_nat cpu) of None \<Rightarrow> False
       | Some c \<Rightarrow> cs_online c \<noteq> 0 \<and> cs_role c = XAIOS_CPU_ROLE_SCHEDULING)) [0 ..< 32] \<longleftrightarrow>
    (\<forall>k<32. bit m k \<longrightarrow> cs_online (cpu_of smp k) \<noteq> 0 \<and> cs_role (cpu_of smp k) = XAIOS_CPU_ROLE_SCHEDULING)"
    by (auto simp: list_all_iff mask_has_bit smp_cpu_state_def cpu_at_def k)
  moreover have "\<dots> \<longleftrightarrow>
    (\<forall>k. bit m k \<longrightarrow> cs_online (cpu_of smp k) \<noteq> 0 \<and> cs_role (cpu_of smp k) = XAIOS_CPU_ROLE_SCHEDULING)"
    using bit_u32_lt [of m] by blast
  ultimately show ?thesis
    by (simp add: validate_core_mask_def del: upt_rec_numeral)
qed

text \<open>The acquisition and the release of one lease, on the level of the invariant.\<close>

definition grant_lease :: "lease_state \<Rightarrow> nat \<Rightarrow> u32 \<Rightarrow> u32 \<Rightarrow> lease_state" where
  "grant_lease s i owner m = s\<lparr>g_leases := (g_leases s)[i := \<lparr>cl_owner_id = owner, cl_core_mask = m,
       cl_irq_isolated_mask = m, cl_active = 1\<rparr>], lease_smp := on_cpus (hot_cpu owner) {k. bit m k} (lease_smp s)\<rparr>"

definition drop_lease :: "lease_state \<Rightarrow> nat \<Rightarrow> lease_state" where
  "drop_lease s i = s\<lparr>g_leases := (g_leases s)[i := (g_leases s ! i)\<lparr>cl_active := 0, cl_core_mask := 0,
       cl_irq_isolated_mask := 0\<rparr>], lease_smp := on_cpus cool_cpu {k. bit (lease_mask s i) k} (lease_smp s)\<rparr>"

lemma bits_1_32: "\<not> bit m 0 \<Longrightarrow> {k \<in> set [1 ..< 32]. bit (m :: u32) k} = {k. bit m k}"
  using bit_u32_lt [of m] by (auto, metis Suc_leI gr0I)

lemma mark_fold_mask:
  assumes "\<not> bit (m :: u32) 0"
  shows "fold (\<lambda>k w. if bit m k then w OR push_bit k 1 else w) [1 ..< 32] 0 = m"
proof (rule bit_eqI)
  fix n
  show "bit (fold (\<lambda>k w. if bit m k then w OR push_bit k 1 else w) [1 ..< 32] (0 :: u32)) n = bit m n"
    unfolding bit_fold_or [of "bit m"] using assms bit_u32_lt [of m n] by (cases "n = 0") auto
qed

lemma acquire_cases:
  assumes inv: "lease_inv s"
  shows "core_lease_acquire s owner m = Some
    (if validate_core_mask (lease_smp s) m \<noteq> XAIOS_OK \<or> core_lease_used_mask s AND m \<noteq> 0
     then (XAIOS_ERR_INVALID, s)
     else case find_slot (\<lambda>l. cl_active l = 0) (g_leases s) of
       None \<Rightarrow> (XAIOS_ERR_NO_MEMORY, s)
     | Some i \<Rightarrow> if owner = UINT32_MAX then (XAIOS_ERR_INVALID, s) else (XAIOS_OK, grant_lease s i owner m))"
proof (cases "validate_core_mask (lease_smp s) m = XAIOS_OK")
  case True
  then have m: "m \<noteq> 0" "\<not> bit m 0"
    and ok: "bit m k \<Longrightarrow> cs_online (cpu_of (lease_smp s) k) \<noteq> 0 \<and>
      cs_role (cpu_of (lease_smp s) k) = XAIOS_CPU_ROLE_SCHEDULING" for k
    by (auto simp: validate_ok)
  have free: "bit m k \<Longrightarrow> cpu_free (cpu_of (lease_smp s) k)" for k
    using ok [of k] lease_invD(4) [OF inv, of k] bit_u32_lt [of m k]
    by (auto simp: cpu_free_def cpu_wf_def)
  show ?thesis
  proof (cases "owner = UINT32_MAX")
    case False
    have "mark_cores (lease_smp s) owner m [1 ..< 32] 0
        = (True, m, on_cpus (hot_cpu owner) {k. bit m k} (lease_smp s))"
      using mark_cores_ok [of "[1 ..< 32]" m "lease_smp s" owner 0] free False lease_invD(2) [OF inv]
      unfolding mark_fold_mask [OF m(2)] bits_1_32 [OF m(2)] by simp
    with True False show ?thesis
      by (auto simp: core_lease_acquire_def grant_lease_def split: option.splits)
  next
    case max: True
    obtain k where "bit m k" using m(1) by (auto simp: word_0_iff)
    then have "k \<in> set [1 ..< 32]" "mask_has m k"
      using m(2) bit_u32_lt [of m k] mask_has_bit by (auto simp: Suc_le_eq intro: gr0I)
    then have "mark_cores (lease_smp s) owner m [1 ..< 32] 0 = (False, 0, lease_smp s)"
      using mark_cores_max_owner [of "lease_smp s" m "[1 ..< 32]" 0] max by auto
    moreover have "release_marked_cores (lease_smp s) owner 0 = Some (lease_smp s)"
      unfolding release_marked_cores_def
      using release_cores_ok [of "[1 ..< 32]" 0 owner "lease_smp s"] lease_invD(2) [OF inv]
      by (simp del: upt_rec_numeral)
    ultimately show ?thesis
      using True max by (auto simp: core_lease_acquire_def split: option.splits)
  qed
qed (simp add: core_lease_acquire_def)

lemma lease_at_grant:
  "i < length (g_leases s) \<Longrightarrow> lease_at (grant_lease s i owner m) j oj \<longleftrightarrow> (if j = i then oj = owner else lease_at s j oj)"
  "i < length (g_leases s) \<Longrightarrow> lease_mask (grant_lease s i owner m) j = (if j = i then m else lease_mask s j)"
  by (auto simp: lease_at_def grant_lease_def nth_list_update)

lemma lease_at_drop:
  "lease_at (drop_lease s i) j oj \<longleftrightarrow> j \<noteq> i \<and> lease_at s j oj"
  "j \<noteq> i \<Longrightarrow> lease_mask (drop_lease s i) j = lease_mask s j"
  by (cases "j = i"; auto simp: lease_at_def drop_lease_def)+

lemma cpu_of_grant:
  "k < length (g_cpu_states (lease_smp s)) \<Longrightarrow> cpu_of (lease_smp (grant_lease s i owner m)) k
     = (if bit m k then hot_cpu owner (cpu_of (lease_smp s) k) else cpu_of (lease_smp s) k)"
  by (simp add: grant_lease_def)

lemma cpu_of_drop:
  "k < length (g_cpu_states (lease_smp s)) \<Longrightarrow> cpu_of (lease_smp (drop_lease s i)) k
     = (if bit (lease_mask s i) k then cool_cpu (cpu_of (lease_smp s) k) else cpu_of (lease_smp s) k)"
  by (simp add: drop_lease_def)

lemma hot_cpu_props [simp]:
  "cs_role (hot_cpu owner c) = XAIOS_CPU_ROLE_AI_HOT" "cs_online c \<noteq> 0 \<Longrightarrow> cpu_wf (hot_cpu owner c)"
  "cpu_held owner (hot_cpu owner c) \<longleftrightarrow> cs_online c \<noteq> 0"
  by (auto simp: hot_cpu_def cpu_wf_def cpu_held_def)

lemma cool_cpu_props [simp]:
  "cs_role (cool_cpu c) = XAIOS_CPU_ROLE_SCHEDULING" "cs_online c \<noteq> 0 \<Longrightarrow> cpu_wf (cool_cpu c)"
  by (auto simp: cool_cpu_def cpu_wf_def)

lemma grant_lease_inv:
  assumes inv: "lease_inv s" and val: "validate_core_mask (lease_smp s) m = XAIOS_OK"
    and un: "core_lease_used_mask s AND m = 0" and i: "i < length (g_leases s)" "cl_active (g_leases s ! i) = 0"
  shows "lease_inv (grant_lease s i owner m)"
proof -
  let ?s = "grant_lease s i owner m"
  note len = lease_invD(1,2) [OF inv]
  have m: "m \<noteq> 0" "\<not> bit m 0" and on: "\<And>k. bit m k \<Longrightarrow> cs_online (cpu_of (lease_smp s) k) \<noteq> 0"
    using val by (auto simp: validate_ok)
  have disj: "\<not> bit (lease_mask s j) k" if "lease_at s j oj" "bit m k" for j oj k
    using that un by (auto simp: word_and_0_iff bit_used_mask)
  have k256: "bit w k \<Longrightarrow> k < 256" for w :: u32 and k using bit_u32_lt [of w k] by simp
  have "cs_role (cpu_of (lease_smp ?s) 0) = XAIOS_CPU_ROLE_HOUSEKEEPING"
    using lease_invD(3) [OF inv] m len by (simp add: cpu_of_grant)
  moreover have "\<forall>k<256. cpu_wf (cpu_of (lease_smp ?s) k)"
    using lease_invD(4) [OF inv] on len by (simp add: cpu_of_grant)
  moreover have "lease_mask ?s j \<noteq> 0 \<and> \<not> bit (lease_mask ?s j) 0 \<and>
      cl_irq_isolated_mask (g_leases ?s ! j) = lease_mask ?s j \<and>
      (\<forall>k. bit (lease_mask ?s j) k \<longrightarrow> cpu_held oj (cpu_of (lease_smp ?s) k))" if "lease_at ?s j oj" for j oj
  proof (cases "j = i")
    case True
    then have "oj = owner" using that i by (simp add: lease_at_grant)
    then show ?thesis
      using True i m on len k256 by (auto simp: lease_at_grant cpu_of_grant) (simp add: grant_lease_def)
  next
    case False
    then have at: "lease_at s j oj" using that i by (simp add: lease_at_grant)
    have "cpu_held oj (cpu_of (lease_smp ?s) k)" if "bit (lease_mask s j) k" for k
      using lease_invD(8) [OF inv at that] disj [OF at, of k] that k256 [OF that] len
      by (auto simp: cpu_of_grant)
    then show ?thesis
      using False i lease_invD(5,6,7) [OF inv at] by (simp add: lease_at_grant) (simp add: grant_lease_def)
  qed
  moreover have "lease_mask ?s a AND lease_mask ?s b = 0" if "lease_at ?s a oa" "lease_at ?s b ob" "a \<noteq> b" for a b oa ob
  proof -
    have "\<not> (bit (lease_mask ?s a) k \<and> bit (lease_mask ?s b) k)" for k
      using that i disj [of a oa k] disj [of b ob k] lease_invD(9) [OF inv, of a oa b ob k]
      by (cases "a = i"; cases "b = i") (simp_all add: lease_at_grant, blast)
    then show ?thesis by (simp add: word_and_0_iff)
  qed
  moreover have "\<exists>j oj. lease_at ?s j oj \<and> bit (lease_mask ?s j) k"
    if k: "k < 256" and "cs_role (cpu_of (lease_smp ?s) k) = XAIOS_CPU_ROLE_AI_HOT" for k
  proof (cases "bit m k")
    case True
    then show ?thesis using i by (auto simp: lease_at_grant)
  next
    case False
    with that len have "cs_role (cpu_of (lease_smp s) k) = XAIOS_CPU_ROLE_AI_HOT"
      by (simp add: cpu_of_grant)
    then obtain j oj where "lease_at s j oj" "bit (lease_mask s j) k"
      using lease_invD(10) [OF inv k] by blast
    moreover from this have "j \<noteq> i" using i by (auto simp: lease_at_def)
    ultimately show ?thesis using i by (intro exI [of _ j] exI [of _ oj]) (simp add: lease_at_grant)
  qed
  moreover have "length (g_leases ?s) = 4096" "length (g_cpu_states (lease_smp ?s)) = 256"
    using len by (simp_all add: grant_lease_def)
  ultimately show ?thesis unfolding lease_inv_def by blast
qed

lemma drop_lease_inv:
  assumes inv: "lease_inv s" and at: "lease_at s i owner"
  shows "lease_inv (drop_lease s i)"
proof -
  let ?s = "drop_lease s i"
  note len = lease_invD(1,2) [OF inv]
  have k256: "bit w k \<Longrightarrow> k < 256" for w :: u32 and k using bit_u32_lt [of w k] by simp
  have "cs_role (cpu_of (lease_smp ?s) 0) = XAIOS_CPU_ROLE_HOUSEKEEPING"
    using lease_invD(3) [OF inv] lease_invD(6) [OF inv at] len by (simp add: cpu_of_drop)
  moreover have "cs_online (cpu_of (lease_smp s) k) \<noteq> 0" if "bit (lease_mask s i) k" for k
    using lease_invD(8) [OF inv at that] by (simp add: cpu_held_def)
  then have "\<forall>k<256. cpu_wf (cpu_of (lease_smp ?s) k)"
    using lease_invD(4) [OF inv] len by (simp add: cpu_of_drop)
  moreover have "lease_mask ?s j \<noteq> 0 \<and> \<not> bit (lease_mask ?s j) 0 \<and>
      cl_irq_isolated_mask (g_leases ?s ! j) = lease_mask ?s j \<and>
      (\<forall>k. bit (lease_mask ?s j) k \<longrightarrow> cpu_held oj (cpu_of (lease_smp ?s) k))" if "lease_at ?s j oj" for j oj
  proof -
    have j: "j \<noteq> i" "lease_at s j oj" using that by (auto simp: lease_at_drop)
    have "cpu_held oj (cpu_of (lease_smp ?s) k)" if "bit (lease_mask s j) k" for k
      using lease_invD(8) [OF inv j(2) that] lease_invD(9) [OF inv j(2) at j(1) that] k256 [OF that] len
      by (auto simp: cpu_of_drop)
    then show ?thesis
      using j lease_invD(5,6,7) [OF inv j(2)] by (simp add: lease_at_drop) (simp add: drop_lease_def)
  qed
  moreover have "lease_mask ?s a AND lease_mask ?s b = 0" if "lease_at ?s a oa" "lease_at ?s b ob" "a \<noteq> b" for a b oa ob
    using that lease_invD(9) [OF inv, of a oa b ob] by (simp add: lease_at_drop word_and_0_iff)
  moreover have "\<exists>j oj. lease_at ?s j oj \<and> bit (lease_mask ?s j) k"
    if k: "k < 256" and "cs_role (cpu_of (lease_smp ?s) k) = XAIOS_CPU_ROLE_AI_HOT" for k
  proof -
    have nb: "\<not> bit (lease_mask s i) k" using that len by (auto simp: cpu_of_drop split: if_splits)
    with that len have "cs_role (cpu_of (lease_smp s) k) = XAIOS_CPU_ROLE_AI_HOT"
      by (simp add: cpu_of_drop)
    then obtain j oj where "lease_at s j oj" "bit (lease_mask s j) k"
      using lease_invD(10) [OF inv k] by blast
    moreover from this have "j \<noteq> i" using nb by auto
    ultimately show ?thesis by (intro exI [of _ j] exI [of _ oj]) (simp add: lease_at_drop)
  qed
  moreover have "length (g_leases ?s) = 4096" "length (g_cpu_states (lease_smp ?s)) = 256"
    using len by (simp_all add: drop_lease_def)
  ultimately show ?thesis unfolding lease_inv_def by blast
qed

lemma release_step:
  assumes inv: "lease_inv s" and at: "lease_at s i owner"
  shows "release_cores (lease_smp s) owner (lease_mask s i) [1 ..< 32]
    = Some (on_cpus cool_cpu {k. bit (lease_mask s i) k} (lease_smp s))"
  using release_cores_ok [of "[1 ..< 32]" "lease_mask s i" owner "lease_smp s"]
    lease_invD(2,8) [OF inv] at
  unfolding bits_1_32 [OF lease_invD(6) [OF inv at]] by simp

lemma release_leases_ok:
  "lease_inv s \<Longrightarrow> \<forall>i\<in>set ixs. i < 4096 \<Longrightarrow>
   \<exists>s'. release_leases s owner ixs found = Some (found \<or> (\<exists>i\<in>set ixs. lease_at s i owner), s') \<and>
     lease_inv s' \<and> (\<forall>j oj. lease_at s' j oj \<longleftrightarrow> lease_at s j oj \<and> \<not> (j \<in> set ixs \<and> oj = owner)) \<and>
     (\<forall>j oj. lease_at s' j oj \<longrightarrow> lease_mask s' j = lease_mask s j)"
proof (induction ixs arbitrary: s found)
  case (Cons i ixs)
  then have p2: "\<forall>j\<in>set ixs. j < 4096" by simp
  show ?case
  proof (cases "lease_at s i owner")
    case True
    have eq: "release_leases s owner (i # ixs) found = release_leases (drop_lease s i) owner ixs True"
      using True release_step [OF Cons.prems(1) True] unfolding lease_at_def drop_lease_def
      by (simp add: Let_def)
    obtain s' where s': "release_leases (drop_lease s i) owner ixs True = Some (True, s')" "lease_inv s'"
      "\<forall>j oj. lease_at s' j oj \<longleftrightarrow> lease_at (drop_lease s i) j oj \<and> \<not> (j \<in> set ixs \<and> oj = owner)"
      "\<forall>j oj. lease_at s' j oj \<longrightarrow> lease_mask s' j = lease_mask (drop_lease s i) j"
      using Cons.IH [OF drop_lease_inv [OF Cons.prems(1) True] p2, of True] by (simp only: simp_thms) blast
    have one: "lease_at s i oj \<longleftrightarrow> oj = owner" for oj using True by (auto simp: lease_at_def)
    have "lease_at s' j oj \<longleftrightarrow> lease_at s j oj \<and> \<not> (j \<in> set (i # ixs) \<and> oj = owner)" for j oj
      unfolding s'(3) [rule_format] using one by (cases "j = i") (simp_all add: lease_at_drop)
    moreover have "lease_mask s' j = lease_mask s j" if "lease_at s' j oj" for j oj
    proof -
      have "j \<noteq> i" using that s'(3) by (simp add: lease_at_drop)
      then show ?thesis using s'(4) [rule_format, OF that] by (simp add: lease_at_drop)
    qed
    moreover have "found \<or> (\<exists>j\<in>set (i # ixs). lease_at s j owner)" using True by simp
    ultimately show ?thesis
      unfolding eq s'(1) using s'(2) by blast
  next
    case False
    have "i < length (g_leases s)" using Cons.prems lease_invD(1) by auto
    with False have eq: "release_leases s owner (i # ixs) found = release_leases s owner ixs found"
      by (auto simp: lease_at_def Let_def)
    show ?thesis
      unfolding eq using Cons.IH [OF Cons.prems(1), of found] Cons.prems(2) False by auto
  qed
qed auto

section \<open>Reachable states\<close>

definition zero_cpu :: xaios_cpu_state where
  "zero_cpu = \<lparr>cs_cpu_id = 0, cs_online = 0, cs_mpidr = 0, cs_role = XAIOS_CPU_ROLE_OFFLINE,
     cs_lease_owner_id = 0, cs_irq_routed_away = 0, cs_tick_suppressed = 0, cs_migration_count = 0,
     cs_involuntary_context_switch_count = 0, cs_scheduling_enabled = 0, cs_steal_count = 0\<rparr>"

definition boot_lease :: "u32 \<Rightarrow> u64 \<Rightarrow> lease_state" where
  "boot_lease typer mpidr = core_lease_init \<lparr>g_leases = [],
     lease_smp = smp_init_qemu_virt \<lparr>g_cpu_states = replicate 256 zero_cpu, g_online_count = 0\<rparr> typer mpidr\<rparr>"

text \<open>Boot, a secondary core coming up, and the two lease operations in any order.\<close>

inductive lease_reach :: "lease_state \<Rightarrow> bool" where
  boot: "lease_reach (boot_lease typer mpidr)"
| secondary: "lease_reach s \<Longrightarrow> unat cpu < 256 \<Longrightarrow> cs_online (cpu_of (lease_smp s) (unat cpu)) = 0 \<Longrightarrow>
    lease_reach (s\<lparr>lease_smp := smp_secondary_main (lease_smp s) cpu mpidr\<rparr>)"
| acquire: "lease_reach s \<Longrightarrow> core_lease_acquire s owner m = Some (st, s') \<Longrightarrow> lease_reach s'"
| release: "lease_reach s \<Longrightarrow> core_lease_release s owner = Some (st, s') \<Longrightarrow> lease_reach s'"

lemma boot_lease_inv: "lease_inv (boot_lease typer mpidr)"
proof -
  let ?s = "boot_lease typer mpidr"
  have no: "\<not> lease_at ?s i owner" for i owner
    by (simp add: boot_lease_def core_lease_init_def lease_at_def MAX_CORE_LEASES_def)
  have cpu: "k < 256 \<Longrightarrow> k \<noteq> 0 \<Longrightarrow> cs_role (cpu_of (lease_smp ?s) k) = XAIOS_CPU_ROLE_OFFLINE \<and>
      cpu_wf (cpu_of (lease_smp ?s) k)" for k
    by (simp add: boot_lease_def core_lease_init_def smp_init_qemu_virt_def Let_def bump_online_def
        cpu_reset_def zero_cpu_def cpu_wf_def)
  have c0: "cs_role (cpu_of (lease_smp ?s) 0) = XAIOS_CPU_ROLE_HOUSEKEEPING \<and> cpu_wf (cpu_of (lease_smp ?s) 0)"
    by (simp add: boot_lease_def core_lease_init_def smp_init_qemu_virt_def Let_def bump_online_def
        cpu_wf_def)
  have "cpu_wf (cpu_of (lease_smp ?s) k)" if "k < 256" for k
    using that cpu [of k] c0 by (cases "k = 0") auto
  moreover have "cs_role (cpu_of (lease_smp ?s) k) \<noteq> XAIOS_CPU_ROLE_AI_HOT" if "k < 256" for k
    using that cpu [of k] c0 by (cases "k = 0") auto
  moreover have "length (g_leases ?s) = 4096" "length (g_cpu_states (lease_smp ?s)) = 256"
    by (simp_all add: boot_lease_def core_lease_init_def MAX_CORE_LEASES_def smp_init_qemu_virt_def
        Let_def bump_online_def)
  ultimately show ?thesis using no c0 unfolding lease_inv_def by blast
qed

lemma secondary_inv:
  assumes inv: "lease_inv s" and c: "unat cpu < 256" and off: "cs_online (cpu_of (lease_smp s) (unat cpu)) = 0"
  shows "lease_inv (s\<lparr>lease_smp := smp_secondary_main (lease_smp s) cpu mpidr\<rparr>)"
proof -
  let ?s = "s\<lparr>lease_smp := smp_secondary_main (lease_smp s) cpu mpidr\<rparr>"
  note len = lease_invD(1,2) [OF inv]
  have u: "unat (ucast cpu :: u32) = unat cpu" using c by (intro unat_ucast_small) simp
  have other: "cpu_of (lease_smp ?s) k = cpu_of (lease_smp s) k" if "k \<noteq> unat cpu" for k
    using c that by (simp add: smp_secondary_main_def XAIOS_MAX_CPUS_def Let_def cpu_put_def bump_online_def u)
  have own: "cs_role (cpu_of (lease_smp ?s) (unat cpu)) = XAIOS_CPU_ROLE_SCHEDULING \<and>
      cpu_wf (cpu_of (lease_smp ?s) (unat cpu))"
    using c len by (simp add: smp_secondary_main_def XAIOS_MAX_CPUS_def Let_def cpu_put_def cpu_at_def bump_online_def u cpu_wf_def)
  have lens: "length (g_leases ?s) = 4096" "length (g_cpu_states (lease_smp ?s)) = 256"
    using len by (simp_all add: smp_secondary_main_def Let_def cpu_put_def bump_online_def)
  have at: "lease_at ?s = lease_at s" by (simp add: lease_at_def fun_eq_iff)
  have nz: "unat cpu \<noteq> 0"
  proof
    assume "unat cpu = 0"
    with off have "cs_online (cpu_of (lease_smp s) 0) = 0" by simp
    with lease_invD(3) [OF inv] lease_invD(4) [OF inv, of 0] show False by (simp add: cpu_wf_def)
  qed
  have nb: "k \<noteq> unat cpu" if "lease_at s i owner" "bit (lease_mask s i) k" for i owner k
    using lease_invD(8) [OF inv that] off by (auto simp: cpu_held_def)
  have "cs_role (cpu_of (lease_smp ?s) 0) = XAIOS_CPU_ROLE_HOUSEKEEPING"
    using other [of 0] nz lease_invD(3) [OF inv] by simp
  moreover have "cpu_wf (cpu_of (lease_smp ?s) k)" if "k < 256" for k
    using other [of k] own lease_invD(4) [OF inv that] by (cases "k = unat cpu") auto
  moreover have "cpu_held owner (cpu_of (lease_smp ?s) k)" if "lease_at s i owner" "bit (lease_mask s i) k" for i owner k
    using other [OF nb [OF that]] lease_invD(8) [OF inv that] by simp
  moreover have "\<exists>i owner. lease_at s i owner \<and> bit (lease_mask s i) k"
    if "k < 256" "cs_role (cpu_of (lease_smp ?s) k) = XAIOS_CPU_ROLE_AI_HOT" for k
    using that own other [of k] lease_invD(10) [OF inv that(1)] by (cases "k = unat cpu") auto
  moreover have "lease_mask ?s = lease_mask s" by simp
  ultimately show ?thesis
    using lens lease_invD(5,6,7,9) [OF inv] unfolding lease_inv_def at word_and_0_iff by simp metis
qed

lemma acquire_inv:
  assumes inv: "lease_inv s" and a: "core_lease_acquire s owner m = Some (st, s')"
  shows "lease_inv s'"
  using a inv unfolding acquire_cases [OF inv]
  by (auto split: if_splits option.splits intro!: grant_lease_inv dest: find_slot_bound find_slot_holds)

lemma release_ok:
  assumes inv: "lease_inv s"
  obtains s' where "core_lease_release s owner
      = Some (if \<exists>i. lease_at s i owner then XAIOS_OK else XAIOS_ERR_INVALID, s')"
    "lease_inv s'" "\<And>j oj. lease_at s' j oj \<longleftrightarrow> lease_at s j oj \<and> oj \<noteq> owner"
    "\<And>j oj. lease_at s' j oj \<Longrightarrow> lease_mask s' j = lease_mask s j"
proof -
  have set: "\<forall>i\<in>set [0 ..< 4096]. i < (4096 :: nat)" by (simp add: set_upt del: upt_rec_numeral)
  obtain s' where s': "release_leases s owner [0 ..< 4096] False
      = Some (\<exists>i\<in>set [0 ..< 4096]. lease_at s i owner, s')" "lease_inv s'"
    "\<forall>j oj. lease_at s' j oj \<longleftrightarrow> lease_at s j oj \<and> \<not> (j \<in> set [0 ..< 4096] \<and> oj = owner)"
    "\<forall>j oj. lease_at s' j oj \<longrightarrow> lease_mask s' j = lease_mask s j"
    using release_leases_ok [OF inv set, of owner False] by (simp only: simp_thms) blast
  have lt: "lease_at s i oi \<Longrightarrow> i < 4096" for i oi
    using lease_invD(1) [OF inv] by (simp add: lease_at_def)
  have ex: "(\<exists>i\<in>set [0 ..< 4096]. lease_at s i owner) \<longleftrightarrow> (\<exists>i. lease_at s i owner)"
    using lt by (auto simp: set_upt simp del: upt_rec_numeral)
  show ?thesis
  proof (rule that [of s'])
    show "core_lease_release s owner = Some (if \<exists>i. lease_at s i owner then XAIOS_OK else XAIOS_ERR_INVALID, s')"
      unfolding core_lease_release_def MAX_CORE_LEASES_def s'(1) ex by simp
    show "lease_at s' j oj \<longleftrightarrow> lease_at s j oj \<and> oj \<noteq> owner" for j oj
      using s'(3) lt [of j oj] by (auto simp: set_upt simp del: upt_rec_numeral)
  qed (use s' in blast)+
qed

lemma lease_reach_inv: "lease_reach s \<Longrightarrow> lease_inv s"
proof (induction rule: lease_reach.induct)
  case (release s owner st s')
  from release.IH show ?case by (rule release_ok [of s owner]) (use release.hyps in auto)
qed (auto intro: boot_lease_inv secondary_inv acquire_inv)

section \<open>Properties\<close>

lemma bit_hot_mask:
  "bit (smp_hot_core_mask smp) k \<longleftrightarrow> k < 32 \<and> cs_role (cpu_of smp k) = XAIOS_CPU_ROLE_AI_HOT"
  unfolding smp_hot_core_mask_def bit_fold_or by (auto simp: set_upt simp del: upt_rec_numeral)

lemma bit_irq_mask: "bit (smp_irq_isolated_mask smp) k \<longleftrightarrow> k < 32 \<and> cs_irq_routed_away (cpu_of smp k) \<noteq> 0"
  unfolding smp_irq_isolated_mask_def bit_fold_or by (auto simp: set_upt simp del: upt_rec_numeral)

lemma hot_mask_used:
  assumes inv: "lease_inv s"
  shows "smp_hot_core_mask (lease_smp s) = core_lease_used_mask s"
    and "smp_irq_isolated_mask (lease_smp s) = core_lease_used_mask s"
    and "core_lease_irq_isolated_mask s = core_lease_used_mask s"
proof -
  have hot: "bit (core_lease_used_mask s) k \<longleftrightarrow> k < 32 \<and> cs_role (cpu_of (lease_smp s) k) = XAIOS_CPU_ROLE_AI_HOT" for k
    using lease_invD(8) [OF inv] lease_invD(10) [OF inv, of k] bit_u32_lt [of _ k]
    by (auto simp: bit_used_mask cpu_held_def)
  show "smp_hot_core_mask (lease_smp s) = core_lease_used_mask s"
    by (rule bit_eqI) (simp add: bit_hot_mask hot)
  show "smp_irq_isolated_mask (lease_smp s) = core_lease_used_mask s"
  proof (rule bit_eqI)
    fix k
    show "bit (smp_irq_isolated_mask (lease_smp s)) k = bit (core_lease_used_mask s) k"
      using lease_invD(4) [OF inv, of k] by (auto simp: bit_irq_mask hot cpu_wf_def)
  qed
  have "bit (core_lease_irq_isolated_mask s) k = bit (core_lease_used_mask s) k" for k
    using lease_invD(7) [OF inv] unfolding bit_used_mask bit_isolated_mask by auto
  then show "core_lease_irq_isolated_mask s = core_lease_used_mask s" by (rule bit_eqI)
qed

lemma used_mask_grant:
  assumes i: "i < length (g_leases s)" "cl_active (g_leases s ! i) = 0"
  shows "core_lease_used_mask (grant_lease s i owner m) = core_lease_used_mask s OR m"
proof (rule bit_eqI)
  fix k
  let ?s = "grant_lease s i owner m"
  have ni: "\<not> lease_at s i oi" for oi using i by (simp add: lease_at_def)
  have "lease_at ?s i owner" "lease_mask ?s i = m" using i by (simp_all add: lease_at_grant)
  moreover have "lease_at s j oj \<Longrightarrow> lease_at ?s j oj \<and> lease_mask ?s j = lease_mask s j" for j oj
    using i ni [of oj] by (cases "j = i") (simp_all add: lease_at_grant)
  moreover have "lease_at ?s j oj \<Longrightarrow> j = i \<or> lease_at s j oj \<and> lease_mask ?s j = lease_mask s j" for j oj
    using i by (cases "j = i") (simp_all add: lease_at_grant)
  ultimately show "bit (core_lease_used_mask ?s) k = bit (core_lease_used_mask s OR m) k"
    unfolding bit_or_iff bit_used_mask by metis
qed

lemma used_mask_cong:
  assumes "\<And>j oj. lease_at s' j oj \<longleftrightarrow> lease_at s j oj"
    and "\<And>j oj. lease_at s j oj \<Longrightarrow> lease_mask s' j = lease_mask s j"
  shows "core_lease_used_mask s' = core_lease_used_mask s"
  by (rule bit_eqI) (use assms in \<open>auto simp: bit_used_mask\<close>)

text \<open>
  C11: Exclusive cores. In every state reachable by booting, cores coming up and leases
  being acquired and released in any order: core 0 is never leased; two different active
  leases have no core in common; a core of an active lease is online, in the AI-hot role
  with that lease's owner, its interrupts routed away, its tick and its scheduler off;
  and the set of AI-hot cores, the set of interrupt-isolated cores and the union of the
  leases are one and the same set.
\<close>

theorem lease_isolation:
  assumes reach: "lease_reach s"
  shows "\<not> bit (core_lease_used_mask s) 0 \<and>
    (\<forall>i j oi oj. lease_at s i oi \<and> lease_at s j oj \<and> i \<noteq> j \<longrightarrow> lease_mask s i AND lease_mask s j = 0) \<and>
    (\<forall>i owner k. lease_at s i owner \<and> bit (lease_mask s i) k \<longrightarrow>
       cpu_held owner (cpu_of (lease_smp s) k) \<and> cs_irq_routed_away (cpu_of (lease_smp s) k) \<noteq> 0 \<and>
       cs_tick_suppressed (cpu_of (lease_smp s) k) \<noteq> 0 \<and> cs_scheduling_enabled (cpu_of (lease_smp s) k) = 0) \<and>
    smp_hot_core_mask (lease_smp s) = core_lease_used_mask s \<and>
    smp_irq_isolated_mask (lease_smp s) = core_lease_used_mask s \<and>
    core_lease_irq_isolated_mask s = core_lease_used_mask s"
proof -
  note inv = lease_reach_inv [OF reach]
  have "cs_irq_routed_away (cpu_of (lease_smp s) k) \<noteq> 0 \<and>
      cs_tick_suppressed (cpu_of (lease_smp s) k) \<noteq> 0 \<and> cs_scheduling_enabled (cpu_of (lease_smp s) k) = 0"
    if "lease_at s i owner" "bit (lease_mask s i) k" for i owner k
    using lease_invD(8) [OF inv that] lease_invD(4) [OF inv, of k] bit_u32_lt [OF that(2)]
    by (auto simp: cpu_held_def cpu_wf_def)
  moreover have "\<not> bit (core_lease_used_mask s) 0"
    using lease_invD(6) [OF inv] by (auto simp: bit_used_mask)
  moreover have "lease_mask s i AND lease_mask s j = 0" if "lease_at s i oi" "lease_at s j oj" "i \<noteq> j" for i j oi oj
    using lease_invD(9) [OF inv that] by (auto simp: word_and_0_iff)
  ultimately show ?thesis
    using hot_mask_used [OF inv] lease_invD(8) [OF inv] by blast
qed

text \<open>
  C32: The assertions of the lease code never fire. In every reachable state both
  operations return (no \<^verbatim>\<open>kassert\<close> panic), whatever owner and mask they are given; a
  release answers OK exactly if the owner holds a lease, drops all the leases of that
  owner and no other.
\<close>

theorem lease_never_panics:
  assumes reach: "lease_reach s"
  shows "core_lease_acquire s owner m \<noteq> None \<and>
    (\<exists>s'. core_lease_release s owner
        = Some (if \<exists>i. lease_at s i owner then XAIOS_OK else XAIOS_ERR_INVALID, s') \<and>
      (\<forall>j oj. lease_at s' j oj \<longleftrightarrow> lease_at s j oj \<and> oj \<noteq> owner))"
proof -
  note inv = lease_reach_inv [OF reach]
  show ?thesis
    by (rule release_ok [OF inv, of owner]) (use acquire_cases [OF inv] in blast)
qed

text \<open>
  C33: Contract of \<^verbatim>\<open>core_lease_acquire\<close> in a reachable state. It succeeds exactly if the mask
  is non-empty, leaves out core 0, names only online scheduling cores, the owner is not
  \<^verbatim>\<open>UINT32_MAX\<close> and a table slot is free. On success the used mask gains exactly the
  requested cores, and a release by an owner without other leases gives back exactly the
  old used mask; on failure nothing changes.
\<close>

theorem core_lease_acquire_contract:
  assumes reach: "lease_reach s" and acq: "core_lease_acquire s owner m = Some (st, s')"
  shows "(st = XAIOS_OK \<longleftrightarrow> m \<noteq> 0 \<and> \<not> bit m 0 \<and> owner \<noteq> UINT32_MAX \<and>
      (\<forall>k. bit m k \<longrightarrow> cs_online (cpu_of (lease_smp s) k) \<noteq> 0 \<and>
           cs_role (cpu_of (lease_smp s) k) = XAIOS_CPU_ROLE_SCHEDULING) \<and>
      (\<exists>l\<in>set (g_leases s). cl_active l = 0)) \<and>
    (st = XAIOS_OK \<longrightarrow> core_lease_used_mask s' = core_lease_used_mask s OR m \<and>
      ((\<nexists>i. lease_at s i owner) \<longrightarrow>
        (\<exists>s''. core_lease_release s' owner = Some (XAIOS_OK, s'') \<and>
              core_lease_used_mask s'' = core_lease_used_mask s))) \<and>
    (st \<noteq> XAIOS_OK \<longrightarrow> s' = s)"
proof -
  note inv = lease_reach_inv [OF reach]
  let ?v = "validate_core_mask (lease_smp s) m = XAIOS_OK"
  let ?f = "find_slot (\<lambda>l. cl_active l = 0) (g_leases s)"
  have un: "core_lease_used_mask s AND m = 0" if ?v
    using that hot_mask_used(1) [OF inv, symmetric]
    by (auto simp: word_and_0_iff bit_hot_mask validate_ok)
  have slot: "?f = None \<longleftrightarrow> \<not> (\<exists>l\<in>set (g_leases s). cl_active l = 0)" by (simp add: find_slot_None_iff)
  have st: "st = XAIOS_OK \<longleftrightarrow> ?v \<and> owner \<noteq> UINT32_MAX \<and> ?f \<noteq> None"
    and keep: "st \<noteq> XAIOS_OK \<Longrightarrow> s' = s"
    and gr: "st = XAIOS_OK \<Longrightarrow> \<exists>i. ?f = Some i \<and> s' = grant_lease s i owner m"
    using acq un unfolding acquire_cases [OF inv] by (auto split: if_splits option.splits)
  have "core_lease_used_mask s' = core_lease_used_mask s OR m \<and>
      ((\<nexists>i. lease_at s i owner) \<longrightarrow> (\<exists>s''. core_lease_release s' owner = Some (XAIOS_OK, s'') \<and>
        core_lease_used_mask s'' = core_lease_used_mask s))" if ok: "st = XAIOS_OK"
  proof -
    obtain i where f: "?f = Some i" and s': "s' = grant_lease s i owner m" using gr ok by blast
    have i: "i < length (g_leases s)" "cl_active (g_leases s ! i) = 0"
      using f by (auto dest: find_slot_bound find_slot_holds)
    have ni: "\<not> lease_at s i oi" for oi using i by (simp add: lease_at_def)
    note at = lease_at_grant [OF i(1), of owner m, folded s']
    have used: "core_lease_used_mask s' = core_lease_used_mask s OR m"
      unfolding s' using i by (rule used_mask_grant)
    have inv': "lease_inv s'" using inv acq by (rule acquire_inv)
    show ?thesis
    proof (intro conjI impI)
      assume fresh: "\<nexists>i. lease_at s i owner"
      obtain s'' where r: "core_lease_release s' owner
          = Some (if \<exists>i. lease_at s' i owner then XAIOS_OK else XAIOS_ERR_INVALID, s'')"
        "\<And>j oj. lease_at s'' j oj \<longleftrightarrow> lease_at s' j oj \<and> oj \<noteq> owner"
        "\<And>j oj. lease_at s'' j oj \<Longrightarrow> lease_mask s'' j = lease_mask s' j"
        using inv' by (rule release_ok [of s' owner]) blast
      have ex: "\<exists>i. lease_at s' i owner" using at(1) [of i owner] by auto
      have again: "lease_at s'' j oj \<longleftrightarrow> lease_at s j oj" for j oj
        using at(1) [of j oj] fresh ni [of oj] unfolding r(2) by (cases "j = i") auto
      have "core_lease_used_mask s'' = core_lease_used_mask s"
      proof (rule used_mask_cong)
        show "lease_mask s'' j = lease_mask s j" if "lease_at s j oj" for j oj
          using r(3) [of j oj] again [of j oj] that at(2) [of j] ni [of oj] by (cases "j = i") auto
      qed (rule again)
      with r(1) ex show "\<exists>s''. core_lease_release s' owner = Some (XAIOS_OK, s'') \<and>
          core_lease_used_mask s'' = core_lease_used_mask s" by simp
    qed (rule used)
  qed
  moreover have "st = XAIOS_OK \<longleftrightarrow> m \<noteq> 0 \<and> \<not> bit m 0 \<and> owner \<noteq> UINT32_MAX \<and>
      (\<forall>k. bit m k \<longrightarrow> cs_online (cpu_of (lease_smp s) k) \<noteq> 0 \<and>
           cs_role (cpu_of (lease_smp s) k) = XAIOS_CPU_ROLE_SCHEDULING) \<and>
      (\<exists>l\<in>set (g_leases s). cl_active l = 0)"
    unfolding st validate_ok using slot by (simp only: not_not conj_ac)
  ultimately show ?thesis using keep by (cases "st = XAIOS_OK") simp_all
qed

section \<open>A concrete run\<close>

definition demo_lease :: lease_state where
  "demo_lease = (boot_lease 0 0)\<lparr>lease_smp := smp_secondary_main (lease_smp (boot_lease 0 0)) 1 1\<rparr>"

lemma boot_cpu1: "cs_online (cpu_of (lease_smp (boot_lease 0 0)) 1) = 0"
  by (simp add: boot_lease_def core_lease_init_def smp_init_qemu_virt_def Let_def bump_online_def
      cpu_reset_def zero_cpu_def)

lemma demo_lease_reach: "lease_reach demo_lease"
  unfolding demo_lease_def
  by (rule lease_reach.secondary [OF lease_reach.boot]) (use boot_cpu1 in simp_all)

lemma demo_cpu1:
  "cs_online (cpu_of (lease_smp demo_lease) 1) = 1 \<and>
   cs_role (cpu_of (lease_smp demo_lease) 1) = XAIOS_CPU_ROLE_SCHEDULING"
proof -
  have "length (g_cpu_states (lease_smp (boot_lease 0 0))) = 256"
    using boot_lease_inv by (rule lease_invD)
  then show ?thesis
    by (simp add: demo_lease_def smp_secondary_main_def XAIOS_MAX_CPUS_def Let_def cpu_put_def cpu_at_def
        bump_online_def)
qed

lemma bit_2_u32: "bit (2 :: u32) k \<longleftrightarrow> k = 1"
  using bit_two_power [of 1 k, where 'a = 32] by auto

lemma demo_no_lease: "\<not> lease_at demo_lease i owner"
  by (simp add: demo_lease_def boot_lease_def core_lease_init_def lease_at_def MAX_CORE_LEASES_def)

lemma demo_slot: "\<exists>l\<in>set (g_leases demo_lease). cl_active l = 0"
  by (simp add: demo_lease_def boot_lease_def core_lease_init_def MAX_CORE_LEASES_def)

theorem core_lease_acquire_contract_witness:
  "\<exists>s' s''. core_lease_acquire demo_lease 7 2 = Some (XAIOS_OK, s') \<and>
     core_lease_used_mask s' = core_lease_used_mask demo_lease OR 2 \<and>
     core_lease_release s' 7 = Some (XAIOS_OK, s'') \<and>
     core_lease_used_mask s'' = core_lease_used_mask demo_lease"
proof -
  obtain st s' where a: "core_lease_acquire demo_lease 7 2 = Some (st, s')"
    using acquire_cases [OF lease_reach_inv [OF demo_lease_reach]] by (metis surj_pair)
  note c = core_lease_acquire_contract [OF demo_lease_reach a]
  have "st = XAIOS_OK"
    using c demo_cpu1 demo_slot unfolding bit_2_u32 by (simp add: UINT32_MAX_def)
  with c a demo_no_lease show ?thesis by blast
qed

theorem lease_isolation_witness:
  "\<exists>s. lease_reach s \<and> core_lease_used_mask s \<noteq> 0 \<and>
     smp_hot_core_mask (lease_smp s) = core_lease_used_mask s"
proof -
  note inv = lease_reach_inv [OF demo_lease_reach]
  obtain i where f: "find_slot (\<lambda>l. cl_active l = 0) (g_leases demo_lease) = Some i"
    using demo_slot by (cases "find_slot (\<lambda>l. cl_active l = 0) (g_leases demo_lease)") (auto simp: find_slot_None_iff)
  have v: "validate_core_mask (lease_smp demo_lease) 2 = XAIOS_OK"
    using demo_cpu1 unfolding validate_ok bit_2_u32 by simp
  have u: "core_lease_used_mask demo_lease AND 2 = 0"
    by (simp add: word_and_0_iff bit_used_mask demo_no_lease)
  have a: "core_lease_acquire demo_lease 7 2 = Some (XAIOS_OK, grant_lease demo_lease i 7 2)"
    by (simp add: acquire_cases [OF inv] v u f UINT32_MAX_def)
  then have r: "lease_reach (grant_lease demo_lease i 7 2)"
    using demo_lease_reach by (rule lease_reach.acquire [rotated])
  have "core_lease_used_mask (grant_lease demo_lease i 7 2) = core_lease_used_mask demo_lease OR 2"
    using f by (intro used_mask_grant) (auto dest: find_slot_bound find_slot_holds)
  then have "bit (core_lease_used_mask (grant_lease demo_lease i 7 2)) 1"
    by (simp add: bit_or_iff bit_2_u32)
  then have "core_lease_used_mask (grant_lease demo_lease i 7 2) \<noteq> 0" by (auto simp: word_0_iff)
  with r lease_isolation [OF r] show ?thesis by blast
qed

theorem lease_never_panics_witness:
  "lease_reach demo_lease \<and> core_lease_acquire demo_lease 7 2 \<noteq> None \<and>
   (\<exists>s'. core_lease_release demo_lease 7 = Some (XAIOS_ERR_INVALID, s'))"
  using lease_never_panics [OF demo_lease_reach, of 7 2] demo_lease_reach demo_no_lease by auto

end
