(* ===== verification/Page_Allocator.thy ===== *)
theory Page_Allocator
  imports Prelude
begin

text \<open>
  The contract of a physical page allocator, as its clients (kernel heap, page tables,
  arenas) rely on it, and what follows for every disciplined client. An address is a
  64-bit word; the null page 0 is the answer of an exhausted allocator.
\<close>

datatype page_op = Alloc_Page | Free_Page u64

text \<open>
  A client run: it holds a set of pages, frees only pages it holds. The flag stays true
  as long as every allocation returns and never hands out a page that is still held.
\<close>

fun client_run ::
  "('s \<Rightarrow> (u64 \<times> 's) option) \<Rightarrow> ('s \<Rightarrow> u64 \<Rightarrow> 's) \<Rightarrow> 's \<Rightarrow> u64 set \<Rightarrow> page_op list \<Rightarrow>
   bool \<times> 's \<times> u64 set" where
  "client_run al fr s held [] = (True, s, held)"
| "client_run al fr s held (Alloc_Page # ops) =
     (case al s of
        None \<Rightarrow> (False, s, held)
      | Some (p, s') \<Rightarrow>
          if p = 0 then client_run al fr s' held ops
          else if p \<in> held then (False, s', held)
          else client_run al fr s' (insert p held) ops)"
| "client_run al fr s held (Free_Page p # ops) =
     (if p \<in> held then client_run al fr (fr s p) (held - {p}) ops
      else client_run al fr s held ops)"

locale page_allocator =
  fixes invar :: "'s \<Rightarrow> bool"
    and free_set :: "'s \<Rightarrow> u64 set"
    and managed :: "'s \<Rightarrow> u64 set"
    and alloc :: "'s \<Rightarrow> (u64 \<times> 's) option"
    and free :: "'s \<Rightarrow> u64 \<Rightarrow> 's"
  assumes free_managed: "invar s \<Longrightarrow> free_set s \<subseteq> managed s"
    and managed_nonnull: "invar s \<Longrightarrow> 0 \<notin> managed s"
    and alloc_empty: "invar s \<Longrightarrow> free_set s = {} \<Longrightarrow> alloc s = Some (0, s)"
    and alloc_page: "invar s \<Longrightarrow> free_set s \<noteq> {} \<Longrightarrow>
      \<exists>p s'. alloc s = Some (p, s') \<and> p \<in> free_set s \<and> invar s' \<and>
        free_set s' = free_set s - {p} \<and> managed s' = managed s"
    and free_page: "invar s \<Longrightarrow> p \<in> managed s \<Longrightarrow>
      invar (free s p) \<and> free_set (free s p) = insert p (free_set s) \<and> managed (free s p) = managed s"
begin

lemma alloc_total:
  assumes "invar s"
  obtains p s' where "alloc s = Some (p, s')" "invar s'" "p = 0 \<longleftrightarrow> free_set s = {}"
    "p = 0 \<or> p \<in> free_set s" "free_set s' = free_set s - {p}" "managed s' = managed s"
proof (cases "free_set s = {}")
  case True
  show ?thesis by (rule that [of 0 s]) (use assms True alloc_empty in auto)
next
  case False
  then obtain p s' where a: "alloc s = Some (p, s')" "p \<in> free_set s" "invar s'"
      "free_set s' = free_set s - {p}" "managed s' = managed s"
    using alloc_page [OF assms] by blast
  moreover have "p \<noteq> 0" using a(2) free_managed [OF assms] managed_nonnull [OF assms] by auto
  ultimately show ?thesis using that False by blast
qed

text \<open>No page is handed out twice, none is lost: held and free pages partition the same set.\<close>

lemma run_exclusive:
  "invar s \<Longrightarrow> held \<subseteq> managed s \<Longrightarrow> held \<inter> free_set s = {} \<Longrightarrow>
   client_run alloc free s held ops = (ok, s', held') \<Longrightarrow>
   ok \<and> invar s' \<and> held' \<subseteq> managed s' \<and> managed s' = managed s \<and> held' \<inter> free_set s' = {} \<and>
   held' \<union> free_set s' = held \<union> free_set s"
proof (induction ops arbitrary: s held)
  case (Cons x ops)
  show ?case
  proof (cases x)
    case Alloc_Page
    obtain p s1 where a: "alloc s = Some (p, s1)" "invar s1" "p = 0 \<longleftrightarrow> free_set s = {}"
      "p = 0 \<or> p \<in> free_set s" "free_set s1 = free_set s - {p}" "managed s1 = managed s"
      by (rule alloc_total [OF Cons.prems(1)])
    show ?thesis
    proof (cases "p = 0")
      case True
      then have "client_run alloc free s1 held ops = (ok, s', held')" "free_set s1 = free_set s"
        using Cons.prems(4) a Alloc_Page by auto
      with Cons.IH [of s1 held] Cons.prems(2,3) a(2,6) show ?thesis by auto
    next
      case False
      have p: "p \<in> free_set s" using a(4) False by simp
      have nh: "p \<notin> held" using p Cons.prems(3) by auto
      have "insert p held \<subseteq> managed s1" "insert p held \<inter> free_set s1 = {}"
        "insert p held \<union> free_set s1 = held \<union> free_set s"
        using p a(5,6) Cons.prems(2,3) free_managed [OF Cons.prems(1)] by auto
      moreover have "client_run alloc free s1 (insert p held) ops = (ok, s', held')"
        using Cons.prems(4) a(1) False nh Alloc_Page by simp
      ultimately show ?thesis
        using Cons.IH [of s1 "insert p held"] a(2,6) by auto
    qed
  next
    case (Free_Page p)
    show ?thesis
    proof (cases "p \<in> held")
      case True
      have f: "invar (free s p)" "free_set (free s p) = insert p (free_set s)" "managed (free s p) = managed s"
        using free_page [OF Cons.prems(1), of p] True Cons.prems(2) by auto
      have "(held - {p}) \<inter> free_set (free s p) = {}" "held - {p} \<subseteq> managed (free s p)"
        "(held - {p}) \<union> free_set (free s p) = held \<union> free_set s"
        using f Cons.prems(2,3) True by auto
      moreover have "client_run alloc free (free s p) (held - {p}) ops = (ok, s', held')"
        using Cons.prems(4) True Free_Page by simp
      ultimately show ?thesis
        using Cons.IH [of "free s p" "held - {p}"] f by auto
    next
      case False
      then have "client_run alloc free s held ops = (ok, s', held')"
        using Cons.prems(4) Free_Page by simp
      with Cons.IH Cons.prems(1-3) show ?thesis by blast
    qed
  qed
qed simp

end

end
