(* ===== verification/Numa.thy ===== *)
theory Numa
  imports Page_Allocator
begin

text \<open>
  \<^verbatim>\<open>kernel/mm/numa.c\<close>: the bitmap page allocator. A node's bitmap is a function from word
  index to word (4096 words of 64 bits, a set bit is a free page). Addresses are 64-bit
  words and the null page pointer is 0. A loop whose exit is not evident from its shape is
  a partial function to \<open>option\<close> (\<open>None\<close> is not returning). The node locks make every
  operation on one node atomic.
\<close>

section \<open>Model\<close>

definition XAIOS_NUMA_MAX_NODES :: nat where
  "XAIOS_NUMA_MAX_NODES = 8"

definition XAIOS_NUMA_BITMAP_BITS :: u64 where
  "XAIOS_NUMA_BITMAP_BITS = 262144"

definition XAIOS_MEMORY_TYPE_CONVENTIONAL :: u32 where
  "XAIOS_MEMORY_TYPE_CONVENTIONAL = 7"

record xaios_memory_descriptor =
  md_type :: u32
  md_pad :: u32
  md_physical_start :: u64
  md_virtual_start :: u64
  md_number_of_pages :: u64
  md_attribute :: u64

record xaios_boot_info =
  bi_magic :: u64
  bi_version :: u32
  bi_reserved :: u32
  bi_memory_map :: u64
  bi_memory_map_size :: u64
  bi_memory_descriptor_size :: u64
  bi_memory_descriptor_version :: u64
  bi_kernel_phys_base :: u64
  bi_kernel_phys_end :: u64
  bi_uart_base :: u64

record xaios_numa_node =
  nn_node_id :: u32
  nn_online :: u32
  nn_phys_start :: u64
  nn_phys_end :: u64
  nn_total_pages :: u64
  nn_free_count :: u64
  nn_cpu_mask :: u64
  nn_alloc_hint :: u64
  nn_bitmap :: "nat \<Rightarrow> u64"

record numa_state =
  g_numa_nodes :: "xaios_numa_node list"
  g_numa_node_count :: u32

definition overlaps :: "u64 \<Rightarrow> u64 \<Rightarrow> u64 \<Rightarrow> u64 \<Rightarrow> bool" where
  "overlaps start end used_start used_end \<longleftrightarrow> start < used_end \<and> used_start < end"

definition page_is_reserved :: "xaios_boot_info \<Rightarrow> u64 \<Rightarrow> bool" where
  "page_is_reserved boot page =
     (let page_end = page + PAGE_SIZE;
          map_start = bi_memory_map boot;
          map_end = bi_memory_map boot + bi_memory_map_size boot
      in if overlaps page page_end (bi_kernel_phys_base boot) (bi_kernel_phys_end boot) then True
         else if overlaps page page_end map_start map_end then True
         else False)"

definition bitmap_set_free :: "xaios_numa_node \<Rightarrow> u64 \<Rightarrow> xaios_numa_node" where
  "bitmap_set_free node page_index =
     (if page_index \<ge> XAIOS_NUMA_BITMAP_BITS then node
      else let w = unat (page_index div 64); b = unat (page_index mod 64)
           in node\<lparr>nn_bitmap := (nn_bitmap node)(w := nn_bitmap node w OR push_bit b 1)\<rparr>)"

definition bitmap_is_free :: "xaios_numa_node \<Rightarrow> u64 \<Rightarrow> bool" where
  "bitmap_is_free node page_index =
     (if page_index \<ge> XAIOS_NUMA_BITMAP_BITS then False
      else let w = unat (page_index div 64); b = unat (page_index mod 64)
           in (nn_bitmap node w AND push_bit b 1) \<noteq> 0)"

definition numa_node_count :: "numa_state \<Rightarrow> u32" where
  "numa_node_count s = g_numa_node_count s"

definition numa_node :: "numa_state \<Rightarrow> u32 \<Rightarrow> xaios_numa_node option" where
  "numa_node s node_id =
     (if node_id \<ge> g_numa_node_count s then None else Some (g_numa_nodes s ! unat node_id))"

definition numa_node_of_phys :: "numa_state \<Rightarrow> u64 \<Rightarrow> u32" where
  "numa_node_of_phys s phys_addr =
     (case find_slot (\<lambda>n. phys_addr \<ge> nn_phys_start n \<and> phys_addr < nn_phys_end n)
             (take (unat (g_numa_node_count s)) (g_numa_nodes s)) of
        Some i \<Rightarrow> of_nat i
      | None \<Rightarrow> 0xffffffff)"

text \<open>The inner loop of the allocator: \<^verbatim>\<open>while ((word & mask) == 0) { ++bit; mask <<= 1; }\<close>.\<close>

partial_function (option) scan_bit :: "u64 \<Rightarrow> u32 \<Rightarrow> u64 \<Rightarrow> (u32 \<times> u64) option" where
  "scan_bit word bitn msk =
     (if word AND msk = 0 then scan_bit word (bitn + 1) (push_bit 1 msk) else Some (bitn, msk))"

text \<open>The outer loop, over the numbers \<open>i\<close> of its turns.\<close>

fun alloc_scan ::
  "xaios_numa_node \<Rightarrow> u64 \<Rightarrow> u64 \<Rightarrow> u64 \<Rightarrow> nat list \<Rightarrow> (u64 \<times> xaios_numa_node) option" where
  "alloc_scan node start_word used_words max_page [] = Some (0, node)"
| "alloc_scan node start_word used_words max_page (i # turns) =
     (let word_idx = (start_word + of_nat i) mod used_words;
          word = nn_bitmap node (unat word_idx)
      in if word = 0 then alloc_scan node start_word used_words max_page turns
         else case scan_bit word 0 1 of
           None \<Rightarrow> None
         | Some (bitn, msk) \<Rightarrow>
             let page_index = word_idx * 64 + ucast bitn
             in if page_index \<ge> max_page then alloc_scan node start_word used_words max_page turns
                else Some (nn_phys_start node + page_index * PAGE_SIZE,
                  node\<lparr>nn_bitmap := (nn_bitmap node)(unat word_idx := word AND NOT msk),
                       nn_free_count := nn_free_count node - 1,
                       nn_alloc_hint := page_index + 1\<rparr>))"

definition node_alloc :: "xaios_numa_node \<Rightarrow> (u64 \<times> xaios_numa_node) option" where
  "node_alloc node =
     (if nn_free_count node = 0 then Some (0, node)
      else let start0 = nn_alloc_hint node div 64;
               max0 = (nn_phys_end node - nn_phys_start node) div PAGE_SIZE;
               max_page = (if max0 > XAIOS_NUMA_BITMAP_BITS then XAIOS_NUMA_BITMAP_BITS else max0);
               used0 = (max_page + 63) div 64;
               used_words = (if used0 = 0 then 1 else used0);
               start_word = (if start0 \<ge> used_words then 0 else start0)
           in alloc_scan node start_word used_words max_page [0 ..< unat used_words])"

definition numa_alloc_page_on_node :: "numa_state \<Rightarrow> u32 \<Rightarrow> (u64 \<times> numa_state) option" where
  "numa_alloc_page_on_node s node_id =
     (if node_id \<ge> g_numa_node_count s then Some (0, s)
      else map_option (\<lambda>(page, node). (page,
             s\<lparr>g_numa_nodes := (g_numa_nodes s)[unat node_id := node]\<rparr>))
           (node_alloc (g_numa_nodes s ! unat node_id)))"

definition node_free :: "xaios_numa_node \<Rightarrow> u64 \<Rightarrow> xaios_numa_node" where
  "node_free node phys =
     (let page_index = (phys - nn_phys_start node) div PAGE_SIZE
      in if page_index < XAIOS_NUMA_BITMAP_BITS \<and> \<not> bitmap_is_free node page_index
         then let node1 = bitmap_set_free node page_index
              in node1\<lparr>nn_free_count := nn_free_count node1 + 1\<rparr>
         else node)"

definition numa_free_page :: "numa_state \<Rightarrow> u64 \<Rightarrow> numa_state" where
  "numa_free_page s page =
     (if page = 0 then s
      else let node_id = numa_node_of_phys s page
           in if node_id = 0xffffffff then s
              else s\<lparr>g_numa_nodes := (g_numa_nodes s)[unat node_id :=
                     node_free (g_numa_nodes s ! unat node_id) page]\<rparr>)"

section \<open>Free pages\<close>

definition free_pages :: "xaios_numa_node \<Rightarrow> nat set" where
  "free_pages n = {p. p < 262144 \<and> bit (nn_bitmap n (p div 64)) (p mod 64)}"

definition node_pages :: "xaios_numa_node \<Rightarrow> nat" where
  "node_pages n = min 262144 (unat (nn_phys_end n - nn_phys_start n) div 4096)"

text \<open>
  The node invariant: a page-aligned, non-empty range that does not start at the null
  address, free bits only inside the range, and a counter that counts the free bits.
\<close>

definition node_inv :: "xaios_numa_node \<Rightarrow> bool" where
  "node_inv n \<longleftrightarrow> nn_phys_start n \<noteq> 0 \<and> nn_phys_start n < nn_phys_end n \<and>
     4096 dvd unat (nn_phys_start n) \<and> 4096 dvd unat (nn_phys_end n) \<and>
     free_pages n \<subseteq> {..< node_pages n} \<and> unat (nn_free_count n) = card (free_pages n)"

lemma free_pages_finite [simp]: "finite (free_pages n)"
  by (rule finite_subset [of _ "{..<262144}"]) (auto simp: free_pages_def)

lemma card_free_pages: "card (free_pages n) \<le> 262144"
proof -
  have "card (free_pages n) \<le> card {..<262144::nat}"
    by (rule card_mono) (auto simp: free_pages_def)
  then show ?thesis by simp
qed

lemma page_index_split:
  assumes "p < 262144"
  shows "unat ((of_nat p :: u64) div 64) = p div 64" "unat ((of_nat p :: u64) mod 64) = p mod 64"
    "\<not> (of_nat p :: u64) \<ge> XAIOS_NUMA_BITMAP_BITS"
  using assms by (simp_all add: unat_div unat_mod unat_of_nat_small XAIOS_NUMA_BITMAP_BITS_def word_le_nat_alt)

lemma bitmap_is_free_iff: "p < 262144 \<Longrightarrow> bitmap_is_free n (of_nat p) \<longleftrightarrow> p \<in> free_pages n"
  using and_bit_iff [of "p mod 64" "nn_bitmap n (p div 64)"]
  by (simp add: bitmap_is_free_def Let_def page_index_split free_pages_def)

lemma page_inj: "(p :: nat) div 64 = q div 64 \<Longrightarrow> p mod 64 = q mod 64 \<Longrightarrow> p = q"
  by (metis div_mult_mod_eq)

lemma free_pages_set: "p < 262144 \<Longrightarrow> free_pages (bitmap_set_free n (of_nat p)) = insert p (free_pages n)"
  by (auto simp: bitmap_set_free_def Let_def page_index_split free_pages_def bit_or_iff bit_two_power
      dest: page_inj)

section \<open>The bit scan\<close>

lemma scan_bit_step:
  assumes "bit word b" "\<forall>k<b. \<not> bit word k" "j \<le> b" "b < 64"
  shows "scan_bit word (of_nat j) (push_bit j 1) = Some (of_nat b, push_bit b 1)"
  using assms(3)
proof (induction "b - j" arbitrary: j)
  case 0
  then have "j = b" by simp
  with assms and_bit_iff [of b word] show ?case
    by (subst scan_bit.simps) simp
next
  case (Suc d)
  then have j: "j < b" by simp
  have "word AND push_bit j 1 = 0"
    using j assms(2,4) and_bit_iff [of j word] by auto
  moreover have "push_bit 1 (push_bit j (1 :: u64)) = push_bit (Suc j) 1" by (simp add: push_bit_push_bit)
  moreover have "(of_nat j :: u32) + 1 = of_nat (Suc j)" by simp
  ultimately show ?case
    using Suc.hyps(1) [of "Suc j"] Suc.hyps(2) j by (subst scan_bit.simps) (simp del: push_bit_of_1 of_nat_Suc)
qed

lemma scan_bit_lowest:
  assumes "word \<noteq> 0"
  obtains b where "b < 64" "bit word b" "\<forall>k<b. \<not> bit word k" "scan_bit word 0 1 = Some (of_nat b, push_bit b 1)"
proof -
  from assms obtain k where k: "bit word k" by (auto simp: word_0_iff)
  define b where "b = (LEAST k. bit word k)"
  have b: "bit word b" unfolding b_def using k by (rule LeastI)
  have lo: "\<forall>k<b. \<not> bit word k" unfolding b_def using not_less_Least by blast
  have b64: "b < 64" using bit_imp_le_length [OF b] by simp
  show ?thesis
    by (rule that [OF b64 b lo]) (use scan_bit_step [OF b lo _ b64, of 0] in simp)
qed

section \<open>Allocation\<close>

definition take_page :: "xaios_numa_node \<Rightarrow> nat \<Rightarrow> xaios_numa_node" where
  "take_page n p = n\<lparr>nn_bitmap := (nn_bitmap n)(p div 64 := nn_bitmap n (p div 64) AND NOT (push_bit (p mod 64) 1)),
     nn_free_count := nn_free_count n - 1, nn_alloc_hint := of_nat p + 1\<rparr>"

definition page_addr :: "xaios_numa_node \<Rightarrow> nat \<Rightarrow> u64" where
  "page_addr n p = nn_phys_start n + of_nat p * PAGE_SIZE"

lemma free_pages_take: "free_pages (take_page n p) = free_pages n - {p}"
proof (rule set_eqI)
  fix q
  show "q \<in> free_pages (take_page n p) \<longleftrightarrow> q \<in> free_pages n - {p}"
    by (cases "q div 64 = p div 64")
      (auto simp: free_pages_def take_page_def bit_and_iff bit_not_iff bit_two_power dest: page_inj)
qed

lemma turn_word:
  assumes "S < U" "i < U" "U \<le> 4096"
  shows "unat ((of_nat S + of_nat i) mod (of_nat U :: u64)) = (S + i) mod U"
proof -
  have "(of_nat S + of_nat i :: u64) = of_nat (S + i)" by simp
  moreover have "unat (of_nat (S + i) :: u64) = S + i" "unat (of_nat U :: u64) = U"
    using assms by (simp_all add: unat_of_nat_small del: of_nat_add)
  ultimately show ?thesis by (simp only: unat_mod)
qed

lemma word_page:
  assumes "w < 4096" "b < 64"
  shows "(w * 64 + b) div 64 = w" "(w * 64 + b) mod 64 = b" "w * 64 + b < (262144 :: nat)"
    "unat w' = w \<Longrightarrow> (w' :: u64) * 64 + ucast (of_nat b :: u32) = of_nat (w * 64 + b)"
proof -
  show "(w * 64 + b) div 64 = w" "(w * 64 + b) mod 64 = b" "w * 64 + b < (262144 :: nat)"
    using assms by auto
  show "w' * 64 + ucast (of_nat b :: u32) = of_nat (w * 64 + b)" if "unat w' = w"
  proof -
    have "w' = of_nat w" using that by auto
    moreover have "(ucast (of_nat b :: u32) :: u64) = of_nat b"
      using assms by (simp add: word_eq_unat unat_ucast_small unat_of_nat_small)
    ultimately show ?thesis by simp
  qed
qed

lemma alloc_scan_spec:
  assumes sub: "free_pages n \<subseteq> {..<M}" and M: "M \<le> 262144" and U: "S < U" "U \<le> 4096"
  shows "\<forall>i\<in>set turns. i < U \<Longrightarrow>
    (if \<exists>i\<in>set turns. nn_bitmap n ((S + i) mod U) \<noteq> 0
     then \<exists>p\<in>free_pages n. alloc_scan n (of_nat S) (of_nat U) (of_nat M) turns
            = Some (page_addr n p, take_page n p)
     else alloc_scan n (of_nat S) (of_nat U) (of_nat M) turns = Some (0, n))"
proof (induction turns)
  case (Cons i turns)
  define w where "w = (S + i) mod U"
  have i: "i < U" using Cons.prems by simp
  have w: "w < U" using U by (simp add: w_def)
  have wi: "unat ((of_nat S + of_nat i) mod (of_nat U :: u64)) = w"
    unfolding w_def using U i by (intro turn_word)
  show ?case
  proof (cases "nn_bitmap n w = 0")
    case True
    with Cons wi show ?thesis by (simp add: w_def [symmetric] Let_def)
  next
    case False
    then obtain b where b: "b < 64" "bit (nn_bitmap n w) b"
      "scan_bit (nn_bitmap n w) 0 1 = Some (of_nat b, push_bit b 1)"
      by (rule scan_bit_lowest)
    have w4: "w < 4096" using w U by simp
    note wp = word_page [OF w4 b(1)]
    have p: "w * 64 + b \<in> free_pages n" using b wp by (simp add: free_pages_def)
    then have lt: "w * 64 + b < M" using sub by auto
    then have "\<not> (of_nat (w * 64 + b) :: u64) \<ge> of_nat M"
      using wp(3) M by (simp add: word_le_nat_alt unat_of_nat_small del: of_nat_add of_nat_mult)
    then have "alloc_scan n (of_nat S) (of_nat U) (of_nat M) (i # turns)
        = Some (page_addr n (w * 64 + b), take_page n (w * 64 + b))"
      using False b wp(4) [OF wi] wi unfolding page_addr_def take_page_def wp(1,2)
      by (simp add: Let_def del: of_nat_add of_nat_mult)
    moreover have "\<exists>i\<in>set (i # turns). nn_bitmap n ((S + i) mod U) \<noteq> 0"
      using False by (simp add: w_def)
    ultimately show ?thesis using p by (simp only: if_True) blast
  qed
qed simp

lemma node_pages_le: "node_pages n \<le> 262144"
  by (simp add: node_pages_def)

lemma turns_cover:
  assumes "S < U" "w < (U :: nat)"
  shows "\<exists>i<U. (S + i) mod U = w"
proof (cases "S \<le> w")
  case True
  then show ?thesis using assms by (intro exI [of _ "w - S"]) simp
next
  case False
  then show ?thesis using assms by (intro exI [of _ "U + w - S"]) simp
qed

lemma node_alloc_spec:
  assumes inv: "node_inv n"
  shows "if free_pages n = {} then node_alloc n = Some (0, n)
    else \<exists>p\<in>free_pages n. node_alloc n = Some (page_addr n p, take_page n p)"
proof (cases "free_pages n = {}")
  case True
  then have "nn_free_count n = 0" using inv by (simp add: node_inv_def unat_eq_0)
  with True show ?thesis by (simp add: node_alloc_def)
next
  case False
  define M where "M = node_pages n"
  have sub: "free_pages n \<subseteq> {..<M}" and M: "M \<le> 262144"
    using inv node_pages_le by (auto simp: node_inv_def M_def)
  obtain p0 where p0: "p0 \<in> free_pages n" using False by auto
  then have pM: "p0 < M" using sub by auto
  define U where "U = (M + 63) div 64"
  have U: "0 < U" "U \<le> 4096" using M pM by (auto simp: U_def)
  define start0 where "start0 = nn_alloc_hint n div 64"
  define S where "S = (if unat start0 \<ge> U then 0 else unat start0)"
  have S: "S < U" using U by (simp add: S_def)
  have fc: "nn_free_count n \<noteq> 0" using inv False by (auto simp: node_inv_def unat_eq_0 [symmetric])
  let ?max0 = "(nn_phys_end n - nn_phys_start n) div PAGE_SIZE"
  have "unat ?max0 = unat (nn_phys_end n - nn_phys_start n) div 4096"
    by (simp add: unat_div PAGE_SIZE_def)
  then have max: "(if ?max0 > XAIOS_NUMA_BITMAP_BITS then XAIOS_NUMA_BITMAP_BITS else ?max0) = of_nat M"
    unfolding M_def node_pages_def
    by (simp add: word_eq_unat XAIOS_NUMA_BITMAP_BITS_def word_less_nat_alt min_def unat_of_nat_small)
  have uM: "unat (of_nat M :: u64) = M" using M by (intro unat_of_nat_small) simp
  have "unat ((of_nat M + 63 :: u64) div 64) = U"
    using M uM unat_add_le [of "of_nat M :: u64" 63] by (simp add: unat_div U_def)
  then have used: "(of_nat M + 63 :: u64) div 64 = of_nat U" by auto
  have uU: "unat (of_nat U :: u64) = U" using U by (intro unat_of_nat_small) simp
  then have uU0: "(of_nat U :: u64) \<noteq> 0" using U by (metis less_numeral_extra(3) unat_0)
  have start: "(if start0 \<ge> of_nat U then 0 else start0) = of_nat S"
    using uU by (simp add: S_def word_le_nat_alt)
  have alloc: "node_alloc n = alloc_scan n (of_nat S) (of_nat U) (of_nat M) [0 ..< U]"
    using fc uU0 uU unfolding node_alloc_def Let_def start0_def [symmetric] max used start
    by (simp add: start)
  have "p0 div 64 < U" using pM by (simp add: U_def)
  then obtain i where "i < U" "(S + i) mod U = p0 div 64" using turns_cover [OF S] by blast
  moreover have "nn_bitmap n (p0 div 64) \<noteq> 0" using p0 by (auto simp: free_pages_def)
  ultimately have "\<exists>i\<in>set [0 ..< U]. nn_bitmap n ((S + i) mod U) \<noteq> 0"
    by (intro bexI [of _ i]) simp_all
  with alloc_scan_spec [OF sub M S U(2), of "[0 ..< U]"] False show ?thesis
    unfolding alloc by simp
qed

section \<open>Addresses\<close>

lemma node_range:
  assumes "node_inv n"
  shows "unat (nn_phys_end n - nn_phys_start n) = unat (nn_phys_end n) - unat (nn_phys_start n)"
    "unat (nn_phys_start n) < unat (nn_phys_end n)"
proof -
  have lt: "nn_phys_start n < nn_phys_end n" using assms unfolding node_inv_def by blast
  then have "nn_phys_start n \<le> nn_phys_end n" by simp
  then show "unat (nn_phys_end n - nn_phys_start n) = unat (nn_phys_end n) - unat (nn_phys_start n)"
    by (rule unat_sub_le)
  show "unat (nn_phys_start n) < unat (nn_phys_end n)" using lt unfolding word_less_nat_alt .
qed

lemma page_addr_unat:
  assumes inv: "node_inv n" and p: "p < node_pages n"
  shows "unat (page_addr n p) = unat (nn_phys_start n) + p * 4096"
    and "unat (page_addr n p) + 4096 \<le> unat (nn_phys_end n)"
proof -
  have p: "p < 262144" "p < (unat (nn_phys_end n) - unat (nn_phys_start n)) div 4096"
    using p node_range [OF inv] by (auto simp: node_pages_def)
  then have e: "unat (nn_phys_start n) + p * 4096 + 4096 \<le> unat (nn_phys_end n)"
    using node_range [OF inv] by linarith
  have up: "unat (of_nat p :: u64) = p" using p by (intro unat_of_nat_small) simp
  have m: "unat (of_nat p * PAGE_SIZE) = p * 4096"
    using p up by (simp add: PAGE_SIZE_def unat_word_ariths)
  have "unat (nn_phys_end n) < 2 ^ 64" using unsigned_less [of "nn_phys_end n"] by simp
  then have "unat (nn_phys_start n + of_nat p * PAGE_SIZE) = unat (nn_phys_start n) + p * 4096"
    using e m unat_add_le [of "nn_phys_start n" "of_nat p * PAGE_SIZE"] by simp
  then show "unat (page_addr n p) = unat (nn_phys_start n) + p * 4096" by (simp add: page_addr_def)
  with e show "unat (page_addr n p) + 4096 \<le> unat (nn_phys_end n)" by simp
qed

lemma page_addr_nonnull:
  assumes "node_inv n" "p < node_pages n"
  shows "page_addr n p \<noteq> 0"
proof
  assume "page_addr n p = 0"
  then have "unat (nn_phys_start n) = 0" using page_addr_unat(1) [OF assms] by simp
  with assms(1) show False by (simp add: node_inv_def unat_eq_0)
qed

lemma page_addr_inj:
  assumes "node_inv n" "p < node_pages n" "q < node_pages n" "page_addr n p = page_addr n q"
  shows "p = q"
proof -
  have "unat (nn_phys_start n) + p * 4096 = unat (nn_phys_start n) + q * 4096"
    unfolding page_addr_unat(1) [OF assms(1,2), symmetric] page_addr_unat(1) [OF assms(1,3), symmetric] assms(4) ..
  then show ?thesis by simp
qed

lemma page_index_addr:
  assumes "node_inv n" "p < node_pages n"
  shows "(page_addr n p - nn_phys_start n) div PAGE_SIZE = of_nat p"
proof -
  have p: "p < 262144" using assms node_pages_le [of n] by simp
  then have "unat (of_nat p * PAGE_SIZE) = p * 4096"
    by (simp add: PAGE_SIZE_def unat_word_ariths unat_of_nat_small)
  then have "unat ((page_addr n p - nn_phys_start n) div PAGE_SIZE) = p"
    by (simp add: page_addr_def unat_div) (simp add: PAGE_SIZE_def)
  with p show ?thesis by (simp add: word_eq_unat unat_of_nat_small)
qed

lemma take_page_fields [simp]:
  "nn_phys_start (take_page n p) = nn_phys_start n" "nn_phys_end (take_page n p) = nn_phys_end n"
  "node_pages (take_page n p) = node_pages n" "page_addr (take_page n p) = page_addr n"
  by (simp_all add: take_page_def node_pages_def page_addr_def fun_eq_iff)

lemma take_page_inv:
  assumes inv: "node_inv n" and p: "p \<in> free_pages n"
  shows "node_inv (take_page n p)"
proof -
  have c: "unat (nn_free_count n) = card (free_pages n)" using inv by (simp add: node_inv_def)
  have pos: "0 < card (free_pages n)" using p by (auto simp: card_gt_0_iff)
  have "unat (nn_free_count n - 1) = card (free_pages n) - 1"
    using c pos unat_sub_le [of 1 "nn_free_count n"] by (simp add: word_le_nat_alt)
  then show ?thesis
    using inv p by (auto simp: node_inv_def free_pages_take) (simp add: take_page_def)
qed

lemma node_free_spec:
  assumes inv: "node_inv n" and p: "p < node_pages n"
  shows "node_inv (node_free n (page_addr n p)) \<and>
    free_pages (node_free n (page_addr n p)) = insert p (free_pages n) \<and>
    nn_phys_start (node_free n (page_addr n p)) = nn_phys_start n \<and>
    nn_phys_end (node_free n (page_addr n p)) = nn_phys_end n"
proof -
  have p18: "p < 262144" using p node_pages_le [of n] by simp
  have idx: "(of_nat p :: u64) < XAIOS_NUMA_BITMAP_BITS"
    using page_index_split(3) [OF p18] by simp
  show ?thesis
  proof (cases "p \<in> free_pages n")
    case True
    then show ?thesis
      using inv bitmap_is_free_iff [OF p18, of n]
      by (simp add: node_free_def page_index_addr [OF inv p] Let_def insert_absorb)
  next
    case False
    let ?n = "(bitmap_set_free n (of_nat p))\<lparr>nn_free_count := nn_free_count (bitmap_set_free n (of_nat p)) + 1\<rparr>"
    have eq: "node_free n (page_addr n p) = ?n"
      using False idx bitmap_is_free_iff [OF p18, of n]
      by (simp add: node_free_def page_index_addr [OF inv p] Let_def)
    have fp: "free_pages ?n = insert p (free_pages n)"
      using free_pages_set [OF p18, of n] by (simp add: free_pages_def)
    have fields: "nn_phys_start ?n = nn_phys_start n" "nn_phys_end ?n = nn_phys_end n"
      "nn_free_count ?n = nn_free_count n + 1" "node_pages ?n = node_pages n"
      by (simp_all add: bitmap_set_free_def Let_def node_pages_def)
    have c: "unat (nn_free_count n) = card (free_pages n)" using inv by (simp add: node_inv_def)
    then have "unat (nn_free_count n + 1) = card (insert p (free_pages n))"
      using False card_free_pages [of n] by (subst unat_inc) auto
    with inv p have "node_inv ?n" unfolding node_inv_def fp fields by simp
    with eq fp fields show ?thesis by simp
  qed
qed

section \<open>One node as a page allocator\<close>

definition node_free_set :: "xaios_numa_node \<Rightarrow> u64 set" where
  "node_free_set n = page_addr n ` free_pages n"

definition node_managed :: "xaios_numa_node \<Rightarrow> u64 set" where
  "node_managed n = page_addr n ` {..< node_pages n}"

lemma node_free_sub: "node_inv n \<Longrightarrow> free_pages n \<subseteq> {..< node_pages n}"
  unfolding node_inv_def by blast

lemma node_free_set_take:
  assumes "node_inv n" "p \<in> free_pages n"
  shows "node_free_set (take_page n p) = node_free_set n - {page_addr n p}"
proof -
  have "q = p" if "q \<in> free_pages n" "page_addr n q = page_addr n p" for q
    using page_addr_inj [OF assms(1) _ _ that(2)] that(1) assms node_free_sub [OF assms(1)] by auto
  then show ?thesis by (auto simp: node_free_set_def free_pages_take)
qed

lemma node_alloc_cases:
  assumes inv: "node_inv n"
  obtains (Empty) "free_pages n = {}" "node_alloc n = Some (0, n)"
  | (Page) p where "p \<in> free_pages n" "node_alloc n = Some (page_addr n p, take_page n p)"
      "node_inv (take_page n p)" "node_free_set (take_page n p) = node_free_set n - {page_addr n p}"
      "node_managed (take_page n p) = node_managed n"
proof (cases "free_pages n = {}")
  case True
  then show ?thesis using node_alloc_spec [OF inv] Empty by simp
next
  case False
  then obtain p where "p \<in> free_pages n" "node_alloc n = Some (page_addr n p, take_page n p)"
    using node_alloc_spec [OF inv] by auto
  then show ?thesis
    using Page take_page_inv [OF inv] node_free_set_take [OF inv] by (simp add: node_managed_def)
qed

interpretation node: page_allocator node_inv node_free_set node_managed node_alloc node_free
proof
  fix n :: xaios_numa_node and a :: u64
  assume inv: "node_inv n"
  show "node_free_set n \<subseteq> node_managed n"
    using node_free_sub [OF inv] by (auto simp: node_free_set_def node_managed_def)
  show "0 \<notin> node_managed n"
    using page_addr_nonnull [OF inv] by (auto simp: node_managed_def)
  show "node_alloc n = Some (0, n)" if "node_free_set n = {}"
    using that node_alloc_spec [OF inv] by (simp add: node_free_set_def)
  show "\<exists>p s'. node_alloc n = Some (p, s') \<and> p \<in> node_free_set n \<and> node_inv s' \<and>
      node_free_set s' = node_free_set n - {p} \<and> node_managed s' = node_managed n" if "node_free_set n \<noteq> {}"
    using that by (cases rule: node_alloc_cases [OF inv]) (auto simp: node_free_set_def)
  show "node_inv (node_free n a) \<and> node_free_set (node_free n a) = insert a (node_free_set n) \<and>
      node_managed (node_free n a) = node_managed n" if a: "a \<in> node_managed n"
  proof -
    obtain p where p: "p < node_pages n" "a = page_addr n p" using a by (auto simp: node_managed_def)
    note f = node_free_spec [OF inv p(1), folded p(2)]
    then have "page_addr (node_free n a) = page_addr n" "node_pages (node_free n a) = node_pages n"
      by (simp_all add: page_addr_def node_pages_def fun_eq_iff)
    with f p show ?thesis by (simp add: node_free_set_def node_managed_def)
  qed
qed

section \<open>All nodes\<close>

abbreviation node_at :: "numa_state \<Rightarrow> nat \<Rightarrow> xaios_numa_node" where
  "node_at s i \<equiv> g_numa_nodes s ! i"

definition nodes_apart :: "xaios_numa_node \<Rightarrow> xaios_numa_node \<Rightarrow> bool" where
  "nodes_apart m n \<longleftrightarrow> unat (nn_phys_end m) \<le> unat (nn_phys_start n) \<or> unat (nn_phys_end n) \<le> unat (nn_phys_start m)"

definition numa_inv :: "numa_state \<Rightarrow> bool" where
  "numa_inv s \<longleftrightarrow> length (g_numa_nodes s) = 8 \<and> unat (g_numa_node_count s) \<le> 8 \<and>
     (\<forall>i<unat (g_numa_node_count s). node_inv (node_at s i)) \<and>
     (\<forall>i<unat (g_numa_node_count s). \<forall>j<unat (g_numa_node_count s). i \<noteq> j \<longrightarrow> nodes_apart (node_at s i) (node_at s j))"

definition free_phys :: "numa_state \<Rightarrow> u64 set" where
  "free_phys s = (\<Union>i<unat (g_numa_node_count s). node_free_set (node_at s i))"

definition managed_phys :: "numa_state \<Rightarrow> u64 set" where
  "managed_phys s = (\<Union>i<unat (g_numa_node_count s). node_managed (node_at s i))"

lemma numa_invD:
  assumes "numa_inv s"
  shows "length (g_numa_nodes s) = 8" "unat (g_numa_node_count s) \<le> 8"
    "i < unat (g_numa_node_count s) \<Longrightarrow> node_inv (node_at s i)"
    "i < unat (g_numa_node_count s) \<Longrightarrow> j < unat (g_numa_node_count s) \<Longrightarrow> i \<noteq> j \<Longrightarrow> nodes_apart (node_at s i) (node_at s j)"
  using assms unfolding numa_inv_def by blast+

lemma node_managed_range:
  assumes "node_inv n" "a \<in> node_managed n"
  shows "nn_phys_start n \<le> a" "a < nn_phys_end n"
  using assms page_addr_unat [OF assms(1)]
  by (auto simp: node_managed_def word_le_nat_alt word_less_nat_alt) fastforce

lemma node_managed_disjoint:
  assumes "node_inv m" "node_inv n" "nodes_apart m n" "a \<in> node_managed m"
  shows "\<not> (nn_phys_start n \<le> a \<and> a < nn_phys_end n)"
  using node_managed_range [OF assms(1,4)] assms(3)
  by (auto simp: nodes_apart_def word_le_nat_alt word_less_nat_alt)

lemma node_of_managed:
  assumes inv: "numa_inv s" and i: "i < unat (g_numa_node_count s)" and a: "a \<in> node_managed (node_at s i)"
  shows "numa_node_of_phys s a = of_nat i"
proof -
  have "find_slot (\<lambda>n. a \<ge> nn_phys_start n \<and> a < nn_phys_end n)
      (take (unat (g_numa_node_count s)) (g_numa_nodes s)) = Some i"
  proof (rule find_slot_SomeI)
    show "i < length (take (unat (g_numa_node_count s)) (g_numa_nodes s))"
      using i numa_invD(1,2) [OF inv] by simp
    show "a \<ge> nn_phys_start (take (unat (g_numa_node_count s)) (g_numa_nodes s) ! i) \<and>
        a < nn_phys_end (take (unat (g_numa_node_count s)) (g_numa_nodes s) ! i)"
      using node_managed_range [OF numa_invD(3) [OF inv i] a] i by simp
    fix j assume j: "j < i"
    then have "nodes_apart (node_at s i) (node_at s j)" "j < unat (g_numa_node_count s)"
      using i numa_invD(4) [OF inv i, of j] by auto
    then show "\<not> (a \<ge> nn_phys_start (take (unat (g_numa_node_count s)) (g_numa_nodes s) ! j) \<and>
        a < nn_phys_end (take (unat (g_numa_node_count s)) (g_numa_nodes s) ! j))"
      using node_managed_disjoint [OF numa_invD(3) [OF inv i] numa_invD(3) [OF inv] _ a] by simp
  qed
  then show ?thesis by (simp add: numa_node_of_phys_def)
qed

text \<open>Replacing one node by one with the same range.\<close>

definition put_node :: "numa_state \<Rightarrow> nat \<Rightarrow> xaios_numa_node \<Rightarrow> numa_state" where
  "put_node s i n = s\<lparr>g_numa_nodes := (g_numa_nodes s)[i := n]\<rparr>"

lemma put_node_inv:
  assumes inv: "numa_inv s" and i: "i < unat (g_numa_node_count s)" and n: "node_inv n"
    and r: "nn_phys_start n = nn_phys_start (node_at s i)" "nn_phys_end n = nn_phys_end (node_at s i)"
  shows "numa_inv (put_node s i n)"
proof -
  have at: "node_at (put_node s i n) j = (if j = i then n else node_at s j)" if "j < unat (g_numa_node_count s)" for j
    using that numa_invD(1,2) [OF inv] by (simp add: put_node_def nth_list_update)
  have "nodes_apart (node_at (put_node s i n) j) (node_at (put_node s i n) k)"
    if "j < unat (g_numa_node_count s)" "k < unat (g_numa_node_count s)" "j \<noteq> k" for j k
    using numa_invD(4) [OF inv that] that r
    by (cases "j = i"; cases "k = i") (simp_all add: at nodes_apart_def)
  moreover have "node_inv (node_at (put_node s i n) j)" if "j < unat (g_numa_node_count s)" for j
    using numa_invD(3) [OF inv that] that n by (simp add: at)
  ultimately show ?thesis
    using numa_invD(1,2) [OF inv] unfolding numa_inv_def by (simp add: put_node_def)
qed

lemma put_node_sets:
  assumes inv: "numa_inv s" and i: "i < unat (g_numa_node_count s)"
  shows "free_phys (put_node s i n)
      = node_free_set n \<union> (\<Union>j\<in>{..<unat (g_numa_node_count s)} - {i}. node_free_set (node_at s j))"
    and "managed_phys (put_node s i n)
      = node_managed n \<union> (\<Union>j\<in>{..<unat (g_numa_node_count s)} - {i}. node_managed (node_at s j))"
proof -
  have at: "node_at (put_node s i n) j = (if j = i then n else node_at s j)" if "j < unat (g_numa_node_count s)" for j
    using that numa_invD(1,2) [OF inv] by (simp add: put_node_def nth_list_update)
  have c: "g_numa_node_count (put_node s i n) = g_numa_node_count s" by (simp add: put_node_def)
  show "free_phys (put_node s i n)
      = node_free_set n \<union> (\<Union>j\<in>{..<unat (g_numa_node_count s)} - {i}. node_free_set (node_at s j))"
    unfolding free_phys_def c using i by (auto simp: at split: if_splits)
  show "managed_phys (put_node s i n)
      = node_managed n \<union> (\<Union>j\<in>{..<unat (g_numa_node_count s)} - {i}. node_managed (node_at s j))"
    unfolding managed_phys_def c using i by (auto simp: at split: if_splits)
qed

lemma put_node_same: "i < length (g_numa_nodes s) \<Longrightarrow> put_node s i (node_at s i) = s"
  by (simp add: put_node_def)

lemma free_phys_split:
  assumes inv: "numa_inv s" and i: "i < unat (g_numa_node_count s)"
  shows "free_phys s
      = node_free_set (node_at s i) \<union> (\<Union>j\<in>{..<unat (g_numa_node_count s)} - {i}. node_free_set (node_at s j))"
    and "managed_phys s
      = node_managed (node_at s i) \<union> (\<Union>j\<in>{..<unat (g_numa_node_count s)} - {i}. node_managed (node_at s j))"
  using put_node_sets [OF inv i, of "node_at s i"] put_node_same [of i s] numa_invD(1,2) [OF inv] i by simp_all

lemma other_nodes_disjoint:
  assumes inv: "numa_inv s" and i: "i < unat (g_numa_node_count s)" and j: "j < unat (g_numa_node_count s)" "j \<noteq> i"
    and a: "a \<in> node_managed (node_at s i)"
  shows "a \<notin> node_managed (node_at s j)"
proof
  assume "a \<in> node_managed (node_at s j)"
  then have "nn_phys_start (node_at s j) \<le> a" "a < nn_phys_end (node_at s j)"
    using node_managed_range [OF numa_invD(3) [OF inv j(1)]] by auto
  with node_managed_disjoint [OF numa_invD(3) [OF inv i] numa_invD(3) [OF inv j(1)] _ a]
    numa_invD(4) [OF inv i j(1)] j(2) show False by auto
qed

lemma numa_alloc_cases:
  assumes inv: "numa_inv s"
  obtains (Empty) "numa_alloc_page_on_node s k = Some (0, s)"
      "k < g_numa_node_count s \<longrightarrow> node_free_set (node_at s (unat k)) = {}"
  | (Page) a s' where "numa_alloc_page_on_node s k = Some (a, s')" "k < g_numa_node_count s"
      "a \<in> node_free_set (node_at s (unat k))" "a \<in> free_phys s" "numa_inv s'" "free_phys s' = free_phys s - {a}"
      "managed_phys s' = managed_phys s" "g_numa_node_count s' = g_numa_node_count s"
proof (cases "k < g_numa_node_count s")
  case False
  then have "numa_alloc_page_on_node s k = Some (0, s)"
    by (simp add: numa_alloc_page_on_node_def not_less)
  with False show ?thesis using Empty by blast
next
  case True
  let ?i = "unat k" let ?n = "node_at s (unat k)"
  have i: "?i < unat (g_numa_node_count s)" using True by (simp add: word_less_nat_alt)
  have al: "numa_alloc_page_on_node s k = map_option (\<lambda>(page, node). (page, put_node s ?i node)) (node_alloc ?n)"
    using True by (simp add: numa_alloc_page_on_node_def put_node_def not_le [symmetric])
  note ninv = numa_invD(3) [OF inv i]
  show ?thesis
  proof (cases rule: node_alloc_cases [OF ninv])
    case 1
    have "put_node s ?i ?n = s" using i numa_invD(1,2) [OF inv] by (intro put_node_same) simp
    with 1 al show ?thesis using Empty by (simp add: node_free_set_def)
  next
    case (2 p)
    let ?n' = "take_page ?n p" let ?a = "page_addr ?n p"
    have a: "?a \<in> node_free_set ?n" using 2(1) by (simp add: node_free_set_def)
    then have am: "?a \<in> node_managed ?n" using node.free_managed [OF ninv] by auto
    have "?a \<notin> node_free_set (node_at s j)" if "j \<in> {..<unat (g_numa_node_count s)} - {?i}" for j
      using other_nodes_disjoint [OF inv i _ _ am, of j] that node.free_managed [OF numa_invD(3) [OF inv, of j]] by auto
    then have "free_phys (put_node s ?i ?n') = free_phys s - {?a}"
      unfolding put_node_sets(1) [OF inv i] free_phys_split(1) [OF inv i] 2(4) by blast
    moreover have "managed_phys (put_node s ?i ?n') = managed_phys s"
      unfolding put_node_sets(2) [OF inv i] free_phys_split(2) [OF inv i] 2(5) ..
    moreover have "numa_inv (put_node s ?i ?n')" by (rule put_node_inv [OF inv i 2(3)]) simp_all
    moreover have "?a \<in> free_phys s" using a free_phys_split(1) [OF inv i] by auto
    ultimately show ?thesis
      using Page [of ?a "put_node s ?i ?n'"] True a 2(2) al by (simp add: put_node_def)
  qed
qed

lemma of_nat_node [simp]: "i < 8 \<Longrightarrow> unat (of_nat i :: u32) = i" "i < 8 \<Longrightarrow> (of_nat i :: u32) \<noteq> 0xffffffff"
  by (simp_all add: unat_of_nat_small word_eq_unat)

lemma numa_free_spec:
  assumes inv: "numa_inv s" and a: "a \<in> managed_phys s"
  shows "numa_inv (numa_free_page s a) \<and> free_phys (numa_free_page s a) = insert a (free_phys s) \<and>
    managed_phys (numa_free_page s a) = managed_phys s"
proof -
  obtain i where i: "i < unat (g_numa_node_count s)" and ai: "a \<in> node_managed (node_at s i)"
    using a by (auto simp: managed_phys_def)
  note ninv = numa_invD(3) [OF inv i]
  let ?n' = "node_free (node_at s i) a"
  have i8: "i < 8" using i numa_invD(2) [OF inv] by simp
  have "a \<noteq> 0" using ai node.managed_nonnull [OF ninv] by auto
  then have eq: "numa_free_page s a = put_node s i ?n'"
    using node_of_managed [OF inv i ai] i8 by (simp add: numa_free_page_def put_node_def)
  note f = node.free_page [OF ninv ai]
  obtain p where p: "p < node_pages (node_at s i)" "a = page_addr (node_at s i) p"
    using ai by (auto simp: node_managed_def)
  have r: "nn_phys_start ?n' = nn_phys_start (node_at s i)" "nn_phys_end ?n' = nn_phys_end (node_at s i)"
    using node_free_spec [OF ninv p(1)] p(2) by simp_all
  have "numa_inv (put_node s i ?n')"
    using f r by (intro put_node_inv [OF inv i]) auto
  then show ?thesis
    unfolding eq put_node_sets [OF inv i] free_phys_split [OF inv i] using f by auto
qed

end
