(* ===== verification/Pmm.thy ===== *)
theory Pmm
  imports Numa
begin

text \<open>
  \<^verbatim>\<open>kernel/mm/pmm.c\<close>: the physical memory manager in front of the NUMA nodes, with its
  double-free tracking table. The allocation functions only touch the NUMA state. A free
  writes a magic number into the page, so the state has the memory as words by address.
\<close>

section \<open>Model\<close>

definition PMM_FREE_MAGIC :: u64 where
  "PMM_FREE_MAGIC = 0xDEADBEEFCAFEBABE"

definition PMM_MAX_FREED_TRACK :: u32 where
  "PMM_MAX_FREED_TRACK = 64"

record pmm_freed_entry =
  fe_page_addr :: u64
  fe_freed_count :: u64

record pmm_state =
  pm_numa :: numa_state
  g_total_pages :: u64
  g_reserved_pages :: u64
  g_freed_pages :: "pmm_freed_entry list"
  g_freed_count :: u32
  pm_mem :: "u64 \<Rightarrow> u64"

definition pmm_free_pages :: "numa_state \<Rightarrow> u64" where
  "pmm_free_pages s =
     fold (\<lambda>i total. case numa_node s (of_nat i) of
             Some node \<Rightarrow> total + nn_free_count node | None \<Rightarrow> total)
       [0 ..< unat (numa_node_count s)] 0"

definition pmm_init :: "pmm_state \<Rightarrow> pmm_state option" where
  "pmm_init s =
     (let total = fold (\<lambda>i t. case numa_node (pm_numa s) (of_nat i) of
                          Some node \<Rightarrow> t + nn_total_pages node | None \<Rightarrow> t)
                    [0 ..< unat (numa_node_count (pm_numa s))] 0;
          total_free = pmm_free_pages (pm_numa s);
          s' = s\<lparr>g_total_pages := total,
                 g_reserved_pages := (if total > total_free then total - total_free else 0)\<rparr>
      in if total_free \<noteq> 0 then Some s' else None)"

text \<open>The loop over the nodes, in the given order.\<close>

fun alloc_from_nodes :: "numa_state \<Rightarrow> nat list \<Rightarrow> (u64 \<times> numa_state) option" where
  "alloc_from_nodes s [] = Some (0, s)"
| "alloc_from_nodes s (i # nodes) =
     (case numa_alloc_page_on_node s (of_nat i) of
        None \<Rightarrow> None
      | Some (page, s1) \<Rightarrow> if page \<noteq> 0 then Some (page, s1) else alloc_from_nodes s1 nodes)"

definition pmm_alloc_page :: "numa_state \<Rightarrow> (u64 \<times> numa_state) option" where
  "pmm_alloc_page s =
     (case numa_alloc_page_on_node s 0 of
        None \<Rightarrow> None
      | Some (page, s1) \<Rightarrow>
          if page \<noteq> 0 then Some (page, s1)
          else alloc_from_nodes s1 [1 ..< unat (numa_node_count s1)])"

definition pmm_alloc_page_on_node :: "numa_state \<Rightarrow> u32 \<Rightarrow> (u64 \<times> numa_state) option" where
  "pmm_alloc_page_on_node s node_id = numa_alloc_page_on_node s node_id"

definition pmm_alloc_page_near :: "numa_state \<Rightarrow> u32 \<Rightarrow> (u64 \<times> numa_state) option" where
  "pmm_alloc_page_near s preferred_node =
     (case numa_alloc_page_on_node s preferred_node of
        None \<Rightarrow> None
      | Some (page, s1) \<Rightarrow>
          if page \<noteq> 0 then Some (page, s1)
          else alloc_from_nodes s1
                 (filter (\<lambda>i. i \<noteq> unat preferred_node) [0 ..< unat (numa_node_count s1)]))"

text \<open>
  \<^verbatim>\<open>pmm_free_page\<close> in its three parts: the double-free check with the tracking entry, the
  return of the page to its node, and the magic words. They run under \<^verbatim>\<open>g_pmm_free_lock\<close>,
  which the allocation path does not take.
\<close>

definition tracked_index :: "pmm_state \<Rightarrow> u64 \<Rightarrow> nat option" where
  "tracked_index s page =
     find_slot (\<lambda>e. fe_page_addr e = page)
       (take (unat (if g_freed_count s < PMM_MAX_FREED_TRACK then g_freed_count s
                    else PMM_MAX_FREED_TRACK)) (g_freed_pages s))"

definition pmm_track_freed :: "pmm_state \<Rightarrow> u64 \<Rightarrow> pmm_state" where
  "pmm_track_freed s page =
     (if g_freed_count s < PMM_MAX_FREED_TRACK
      then s\<lparr>g_freed_pages := (g_freed_pages s)[unat (g_freed_count s) :=
               \<lparr>fe_page_addr = page, fe_freed_count = 1\<rparr>],
             g_freed_count := g_freed_count s + 1\<rparr>
      else s)"

definition pmm_release :: "pmm_state \<Rightarrow> u64 \<Rightarrow> pmm_state" where
  "pmm_release s page = s\<lparr>pm_numa := numa_free_page (pm_numa s) page\<rparr>"

definition pmm_mark_magic :: "pmm_state \<Rightarrow> u64 \<Rightarrow> pmm_state" where
  "pmm_mark_magic s page =
     s\<lparr>pm_mem := (pm_mem s)(page := PMM_FREE_MAGIC, page + 8 := PMM_FREE_MAGIC)\<rparr>"

definition pmm_free_page :: "pmm_state \<Rightarrow> u64 \<Rightarrow> pmm_state" where
  "pmm_free_page s page =
     (if page = 0 then s
      else case tracked_index s page of
        Some i \<Rightarrow> s\<lparr>g_freed_pages := (g_freed_pages s)[i := (g_freed_pages s ! i)
                       \<lparr>fe_freed_count := fe_freed_count (g_freed_pages s ! i) + 1\<rparr>]\<rparr>
      | None \<Rightarrow> pmm_mark_magic (pmm_release (pmm_track_freed s page) page) page)"

definition pmm_node_of_page :: "numa_state \<Rightarrow> u64 \<Rightarrow> u32" where
  "pmm_node_of_page s page = (if page = 0 then 0xffffffff else numa_node_of_phys s page)"

definition pmm_total_pages :: "pmm_state \<Rightarrow> u64" where
  "pmm_total_pages s = g_total_pages s"

section \<open>Allocation over all nodes\<close>

lemma alloc_from_nodes_spec:
  assumes inv: "numa_inv s"
  shows "\<forall>i\<in>set nodes. i < unat (g_numa_node_count s) \<Longrightarrow>
    (\<forall>i\<in>set nodes. node_free_set (node_at s i) = {}) \<and> alloc_from_nodes s nodes = Some (0, s) \<or>
    (\<exists>a s'. alloc_from_nodes s nodes = Some (a, s') \<and> a \<in> free_phys s \<and> numa_inv s' \<and>
       free_phys s' = free_phys s - {a} \<and> managed_phys s' = managed_phys s)"
proof (induction nodes)
  case (Cons i nodes)
  have i: "i < unat (g_numa_node_count s)" using Cons.prems by simp
  then have i8: "unat (of_nat i :: u32) = i" using numa_invD(2) [OF inv] by simp
  have il: "(of_nat i :: u32) < g_numa_node_count s" using i i8 by (simp add: word_less_nat_alt)
  show ?case
  proof (cases rule: numa_alloc_cases [OF inv, of "of_nat i"])
    case 1
    then have "node_free_set (node_at s i) = {}" using il i8 by simp
    with 1 Cons show ?thesis by auto
  next
    case (2 a s')
    have "a \<noteq> 0" using 2(3) i8 node.free_managed [OF numa_invD(3) [OF inv i]]
      node.managed_nonnull [OF numa_invD(3) [OF inv i]] by auto
    with 2 show ?thesis by auto
  qed
qed simp

lemma pmm_alloc_nodes:
  assumes inv: "numa_inv s"
  shows "pmm_alloc_page s = alloc_from_nodes s [0 ..< unat (g_numa_node_count s)]"
proof (cases "g_numa_node_count s = 0")
  case True
  then show ?thesis
    by (simp add: pmm_alloc_page_def numa_alloc_page_on_node_def numa_node_count_def)
next
  case False
  then have "[0 ..< unat (g_numa_node_count s)] = 0 # [1 ..< unat (g_numa_node_count s)]"
    by (simp add: upt_conv_Cons unat_gt_0)
  moreover have "s1 = s" if "numa_alloc_page_on_node s 0 = Some (0, s1)" for s1
  proof (cases rule: numa_alloc_cases [OF inv, of 0])
    case (2 a s')
    then have "0 \<in> node_managed (node_at s 0)"
      using that node.free_managed [OF numa_invD(3) [OF inv, of 0]] by (auto simp: word_less_nat_alt)
    then show ?thesis
      using node.managed_nonnull [OF numa_invD(3) [OF inv, of 0]] 2(2) by (simp add: word_less_nat_alt)
  qed (use that in simp)
  ultimately show ?thesis
    by (auto simp: pmm_alloc_page_def numa_node_count_def split: option.splits)
qed

interpretation pmm: page_allocator numa_inv free_phys managed_phys pmm_alloc_page numa_free_page
proof
  fix s :: numa_state and a :: u64
  assume inv: "numa_inv s"
  have sub: "node_free_set (node_at s i) \<subseteq> node_managed (node_at s i)" "0 \<notin> node_managed (node_at s i)"
    if "i < unat (g_numa_node_count s)" for i
    using node.free_managed node.managed_nonnull numa_invD(3) [OF inv that] by auto
  show "free_phys s \<subseteq> managed_phys s"
    using sub(1) by (fastforce simp: free_phys_def managed_phys_def)
  show "0 \<notin> managed_phys s" using sub(2) by (auto simp: managed_phys_def)
  note sp = alloc_from_nodes_spec [OF inv, of "[0 ..< unat (g_numa_node_count s)]", folded pmm_alloc_nodes [OF inv]]
  show "pmm_alloc_page s = Some (0, s)" if "free_phys s = {}"
    using sp that by auto
  show "\<exists>p s'. pmm_alloc_page s = Some (p, s') \<and> p \<in> free_phys s \<and> numa_inv s' \<and>
      free_phys s' = free_phys s - {p} \<and> managed_phys s' = managed_phys s" if "free_phys s \<noteq> {}"
    using sp that by (auto simp: free_phys_def)
  show "numa_inv (numa_free_page s a) \<and> free_phys (numa_free_page s a) = insert a (free_phys s) \<and>
      managed_phys (numa_free_page s a) = managed_phys s" if "a \<in> managed_phys s"
    using inv that by (rule numa_free_spec)
qed

section \<open>The free-page counter\<close>

lemma card_node_free: "node_inv n \<Longrightarrow> card (node_free_set n) = unat (nn_free_count n)"
proof -
  assume inv: "node_inv n"
  have "inj_on (page_addr n) (free_pages n)"
    using page_addr_inj [OF inv] node_free_sub [OF inv] by (intro inj_onI) auto
  then have "card (node_free_set n) = card (free_pages n)"
    unfolding node_free_set_def by (rule card_image)
  with inv show ?thesis by (simp add: node_inv_def)
qed

lemma free_count_le: "node_inv n \<Longrightarrow> unat (nn_free_count n) \<le> 262144"
  using card_free_pages [of n] by (simp add: node_inv_def)

lemma pmm_free_pages_sum:
  assumes inv: "numa_inv s"
  shows "n \<le> unat (g_numa_node_count s) \<Longrightarrow>
    unat (fold (\<lambda>i total. case numa_node s (of_nat i) of
        Some node \<Rightarrow> total + nn_free_count node | None \<Rightarrow> total) [0 ..< n] (0 :: u64))
      = (\<Sum>i<n. card (node_free_set (node_at s i))) \<and>
    (\<Sum>i<n. card (node_free_set (node_at s i))) \<le> n * 262144"
proof (induction n)
  case (Suc n)
  then have n: "n < unat (g_numa_node_count s)" by simp
  then have n8: "n < 8" using numa_invD(2) [OF inv] by simp
  have node: "numa_node s (of_nat n) = Some (node_at s n)"
    using n n8 by (simp add: numa_node_def word_le_nat_alt)
  note c = card_node_free [OF numa_invD(3) [OF inv n]] free_count_le [OF numa_invD(3) [OF inv n]]
  let ?t = "fold (\<lambda>i total. case numa_node s (of_nat i) of
        Some node \<Rightarrow> total + nn_free_count node | None \<Rightarrow> total) [0 ..< n] (0 :: u64)"
  have ih: "unat ?t = (\<Sum>i<n. card (node_free_set (node_at s i)))"
      "(\<Sum>i<n. card (node_free_set (node_at s i))) \<le> n * 262144"
    using Suc by simp_all
  have "unat (?t + nn_free_count (node_at s n)) = unat ?t + unat (nn_free_count (node_at s n))"
    using ih c n8 by (intro unat_add_le) simp
  then show ?case using ih c node by simp
qed simp

lemma pmm_free_pages_card:
  assumes inv: "numa_inv s"
  shows "unat (pmm_free_pages s) = card (free_phys s)"
proof -
  have dis: "node_free_set (node_at s i) \<inter> node_free_set (node_at s j) = {}"
    if "i < unat (g_numa_node_count s)" "j < unat (g_numa_node_count s)" "i \<noteq> j" for i j
    using other_nodes_disjoint [OF inv that(1,2)] that(3)
      node.free_managed [OF numa_invD(3) [OF inv that(1)]] node.free_managed [OF numa_invD(3) [OF inv that(2)]]
    by blast
  have "card (free_phys s) = (\<Sum>i<unat (g_numa_node_count s). card (node_free_set (node_at s i)))"
    unfolding free_phys_def by (rule card_UN_disjoint) (use dis in \<open>auto simp: node_free_set_def\<close>)
  with pmm_free_pages_sum [OF inv, of "unat (g_numa_node_count s)"] show ?thesis
    by (simp add: pmm_free_pages_def numa_node_count_def)
qed

section \<open>Properties\<close>

text \<open>
  C4: No page is handed out twice. For every sequence of allocations and
  frees of a client that frees only pages it holds, starting from a well-formed state and
  pages that are not free, every allocation returns, gives a page the client does not hold
  already, and at the end the held and the free pages are disjoint and together the same
  pages as at the start.
\<close>

theorem page_allocation_exclusive:
  assumes "numa_inv s" "held \<subseteq> managed_phys s" "held \<inter> free_phys s = {}"
    and "client_run pmm_alloc_page numa_free_page s held ops = (ok, s', held')"
  shows "ok \<and> numa_inv s' \<and> held' \<inter> free_phys s' = {} \<and> held' \<union> free_phys s' = held \<union> free_phys s"
  using pmm.run_exclusive [OF assms] by blast

text \<open>
  C19: Allocation is complete and the counter exact. \<^verbatim>\<open>pmm_free_pages\<close> is the number of free
  pages over all nodes; \<^verbatim>\<open>pmm_alloc_page\<close> always returns, fails (null) exactly if the counter
  is 0, and otherwise yields a free page and lowers the counter by one.
\<close>

theorem pmm_alloc_complete:
  assumes inv: "numa_inv s"
  shows "\<exists>page s'. pmm_alloc_page s = Some (page, s') \<and> numa_inv s' \<and>
    unat (pmm_free_pages s) = card (free_phys s) \<and>
    (page = 0 \<longleftrightarrow> pmm_free_pages s = 0) \<and>
    (page \<noteq> 0 \<longrightarrow> page \<in> free_phys s \<and> page \<notin> free_phys s' \<and>
       unat (pmm_free_pages s) = unat (pmm_free_pages s') + 1)"
proof -
  obtain p s' where a: "pmm_alloc_page s = Some (p, s')" "numa_inv s'" "p = 0 \<longleftrightarrow> free_phys s = {}"
    "p = 0 \<or> p \<in> free_phys s" "free_phys s' = free_phys s - {p}" "managed_phys s' = managed_phys s"
    by (rule pmm.alloc_total [OF inv])
  have fin: "finite (free_phys s)" by (simp add: free_phys_def node_free_set_def)
  have z: "p = 0 \<longleftrightarrow> pmm_free_pages s = 0"
  proof -
    have "unat (pmm_free_pages s) = 0 \<longleftrightarrow> free_phys s = {}"
      unfolding pmm_free_pages_card [OF inv] using fin by simp
    then show ?thesis using a(3) unfolding unat_eq_0 by simp
  qed
  have "card (free_phys s) = card (free_phys s') + 1" if "p \<noteq> 0"
    using a(4,5) that fin card_Suc_Diff1 [of "free_phys s" p] by simp
  then have "p \<noteq> 0 \<longrightarrow> p \<in> free_phys s \<and> p \<notin> free_phys s' \<and>
      unat (pmm_free_pages s) = unat (pmm_free_pages s') + 1"
    using a(4,5) unfolding pmm_free_pages_card [OF inv] pmm_free_pages_card [OF a(2)] by auto
  with a(1,2) z pmm_free_pages_card [OF inv] show ?thesis by (intro exI conjI)
qed

lemma tracked_after_free:
  assumes "page \<noteq> 0" "tracked_index s page = None" "g_freed_count s < PMM_MAX_FREED_TRACK"
    "length (g_freed_pages s) = 64"
  shows "tracked_index (pmm_free_page s page) page \<noteq> None"
proof -
  have c: "unat (g_freed_count s) < 64"
    using assms(3) by (simp add: PMM_MAX_FREED_TRACK_def word_less_nat_alt)
  let ?n = "unat (if g_freed_count s + 1 < PMM_MAX_FREED_TRACK then g_freed_count s + 1 else PMM_MAX_FREED_TRACK)"
  have n: "?n = unat (g_freed_count s) + 1"
    using c by (simp add: PMM_MAX_FREED_TRACK_def word_less_nat_alt)
  have "page \<in> fe_page_addr ` set (take ?n ((g_freed_pages s)[unat (g_freed_count s) :=
      \<lparr>fe_page_addr = page, fe_freed_count = 1\<rparr>]))"
    using c assms(4) unfolding n by (simp add: take_Suc_conv_app_nth)
  then have "find_slot (\<lambda>e. fe_page_addr e = page) (take ?n ((g_freed_pages s)[unat (g_freed_count s) :=
      \<lparr>fe_page_addr = page, fe_freed_count = 1\<rparr>])) \<noteq> None"
    unfolding find_slot_None_iff by auto
  moreover have "pmm_free_page s page = pmm_mark_magic (pmm_release (pmm_track_freed s page) page) page"
    using assms(1,2) by (simp add: pmm_free_page_def)
  ultimately show ?thesis
    using assms(3) unfolding tracked_index_def
    by (simp add: pmm_mark_magic_def pmm_release_def pmm_track_freed_def split: if_splits)
qed

lemma tracked_index_numa [simp]: "tracked_index (s\<lparr>pm_numa := x\<rparr>) page = tracked_index s page"
  by (simp add: tracked_index_def)

text \<open>
  A page that was freed once can never be freed again, although it was allocated in
  between. The tracking table is never cleared by an allocation, so for a page with a
  tracking entry \<^verbatim>\<open>pmm_free_page\<close> only counts a double free: the page does not come back to
  its node. After the free, the allocation and the second free the page is neither free
  nor held by anyone.
\<close>

theorem pmm_refree_leaks:
  assumes "page \<noteq> 0" "tracked_index s page = None" "g_freed_count s < PMM_MAX_FREED_TRACK"
    "length (g_freed_pages s) = 64" and inv: "numa_inv (pm_numa s)" "page \<in> managed_phys (pm_numa s)"
    and re: "pmm_alloc_page (pm_numa (pmm_free_page s page)) = Some (page, numa')"
  defines "s2 \<equiv> (pmm_free_page s page)\<lparr>pm_numa := numa'\<rparr>"
  shows "page \<in> free_phys (pm_numa (pmm_free_page s page)) \<and>
    pm_numa (pmm_free_page s2 page) = numa' \<and> page \<notin> free_phys numa'"
proof -
  let ?s1 = "pmm_free_page s page"
  have n1: "pm_numa ?s1 = numa_free_page (pm_numa s) page"
    using assms(1,2) by (simp add: pmm_free_page_def pmm_mark_magic_def pmm_release_def pmm_track_freed_def)
  note f = numa_free_spec [OF inv]
  have "page \<in> free_phys (pm_numa ?s1)" using f by (simp add: n1)
  moreover have "tracked_index s2 page \<noteq> None"
    using tracked_after_free [OF assms(1-4)] by (simp add: s2_def)
  then have "pm_numa (pmm_free_page s2 page) = numa'"
    using assms(1) by (auto simp: pmm_free_page_def s2_def)
  moreover have "page \<notin> free_phys numa'"
  proof -
    have "numa_inv (pm_numa ?s1)" using f by (simp add: n1)
    then obtain p s' where "pmm_alloc_page (pm_numa ?s1) = Some (p, s')" "free_phys s' = free_phys (pm_numa ?s1) - {p}"
      by (rule pmm.alloc_total)
    with re show ?thesis by simp
  qed
  ultimately show ?thesis by blast
qed

text \<open>
  The order of \<^verbatim>\<open>pmm_free_page\<close> lets it write into a page that is in use. The page goes
  back to its node before the magic words are written, and allocation takes another lock:
  if another core allocates that page in between and stores into its first word, the
  store is overwritten by the magic number.
\<close>

theorem pmm_free_race_clobbers:
  assumes page: "page \<noteq> 0" and inv: "numa_inv (pm_numa s)" "page \<in> managed_phys (pm_numa s)"
    and rel: "s1 = pmm_release (pmm_track_freed s page) page"
    and al: "pmm_alloc_page (pm_numa s1) = Some (page, numa')"
    and st: "s2 = s1\<lparr>pm_numa := numa', pm_mem := (pm_mem s1)(page := v)\<rparr>"
  shows "page \<notin> free_phys (pm_numa (pmm_mark_magic s2 page)) \<and>
    pm_mem (pmm_mark_magic s2 page) page = PMM_FREE_MAGIC"
proof -
  have "numa_inv (pm_numa s1)"
    using numa_free_spec [OF inv] by (simp add: rel pmm_release_def pmm_track_freed_def)
  then obtain p s' where "pmm_alloc_page (pm_numa s1) = Some (p, s')" "free_phys s' = free_phys (pm_numa s1) - {p}"
    by (rule pmm.alloc_total)
  with al page show ?thesis by (simp add: st pmm_mark_magic_def)
qed

section \<open>A concrete memory\<close>

text \<open>One node with the single page at \<^verbatim>\<open>0x1000\<close>, free or allocated.\<close>

definition demo_node :: "bool \<Rightarrow> xaios_numa_node" where
  "demo_node fr = \<lparr>nn_node_id = 0, nn_online = 1, nn_phys_start = 0x1000, nn_phys_end = 0x2000,
     nn_total_pages = 1, nn_free_count = (if fr then 1 else 0), nn_cpu_mask = 1, nn_alloc_hint = 0,
     nn_bitmap = (\<lambda>w. if w = 0 \<and> fr then 1 else 0)\<rparr>"

definition demo_numa :: "bool \<Rightarrow> numa_state" where
  "demo_numa fr = \<lparr>g_numa_nodes = replicate 8 (demo_node fr), g_numa_node_count = 1\<rparr>"

definition demo_pmm :: pmm_state where
  "demo_pmm = \<lparr>pm_numa = demo_numa False, g_total_pages = 1, g_reserved_pages = 0,
     g_freed_pages = replicate 64 \<lparr>fe_page_addr = 0, fe_freed_count = 0\<rparr>, g_freed_count = 0,
     pm_mem = (\<lambda>_. 0)\<rparr>"

lemma demo_node_sets: "free_pages (demo_node fr) = (if fr then {0} else {})" "node_pages (demo_node fr) = 1"
proof -
  show "free_pages (demo_node fr) = (if fr then {0} else {})"
    by (auto simp: free_pages_def demo_node_def div_eq_0_iff bit_1_iff split: if_splits)
qed (simp add: node_pages_def demo_node_def)

lemma demo_node_inv: "node_inv (demo_node fr)"
proof -
  have "free_pages (demo_node fr) \<subseteq> {..<1}" "unat (nn_free_count (demo_node fr)) = card (free_pages (demo_node fr))"
    unfolding demo_node_sets by (auto simp: demo_node_def)
  then show ?thesis by (simp add: node_inv_def demo_node_sets) (simp add: demo_node_def)
qed

lemma demo_numa_inv: "numa_inv (demo_numa fr)"
  by (simp add: numa_inv_def demo_numa_def demo_node_inv)

lemma demo_numa_sets: "free_phys (demo_numa fr) = (if fr then {0x1000} else {})" "managed_phys (demo_numa fr) = {0x1000}"
proof -
  have "page_addr (demo_node b) 0 = 0x1000" for b by (simp add: page_addr_def demo_node_def)
  moreover have "{..<1 :: nat} = {0}" by auto
  ultimately show "free_phys (demo_numa fr) = (if fr then {0x1000} else {})" "managed_phys (demo_numa fr) = {0x1000}"
    by (simp_all add: free_phys_def managed_phys_def node_free_set_def node_managed_def demo_numa_def demo_node_sets)
qed

lemma alloc_only_page:
  assumes "numa_inv s" "free_phys s = {a}"
  obtains s' where "pmm_alloc_page s = Some (a, s')"
  using pmm.alloc_page [OF assms(1)] assms(2) by auto

theorem page_allocation_exclusive_witness:
  "\<exists>s' held'. client_run pmm_alloc_page numa_free_page (demo_numa True) {} [Alloc_Page, Free_Page 0x1000, Alloc_Page]
      = (True, s', held') \<and> held' \<union> free_phys s' = {0x1000} \<and> held' \<inter> free_phys s' = {}"
proof -
  obtain ok s' held' where r: "client_run pmm_alloc_page numa_free_page (demo_numa True) {}
      [Alloc_Page, Free_Page 0x1000, Alloc_Page] = (ok, s', held')" by (metis prod_cases3)
  show ?thesis
    using page_allocation_exclusive [OF demo_numa_inv _ _ r] r
    by (simp add: demo_numa_sets del: client_run.simps)
qed

theorem pmm_alloc_complete_witness:
  "\<exists>page s'. pmm_alloc_page (demo_numa True) = Some (page, s') \<and> page = 0x1000 \<and> pmm_free_pages s' = 0"
proof -
  obtain page s' where a: "pmm_alloc_page (demo_numa True) = Some (page, s')"
    "unat (pmm_free_pages (demo_numa True)) = card (free_phys (demo_numa True))"
    "page = 0 \<longleftrightarrow> pmm_free_pages (demo_numa True) = 0"
    "page \<noteq> 0 \<longrightarrow> page \<in> free_phys (demo_numa True) \<and> page \<notin> free_phys s' \<and>
       unat (pmm_free_pages (demo_numa True)) = unat (pmm_free_pages s') + 1"
    using pmm_alloc_complete [OF demo_numa_inv] by blast
  have one: "unat (pmm_free_pages (demo_numa True)) = 1" using a(2) by (simp add: demo_numa_sets)
  then have "page \<noteq> 0" using a(3) by auto
  with a(1,4) one show ?thesis by (simp add: demo_numa_sets unat_eq_0)
qed

lemma demo_freed:
  "numa_inv (numa_free_page (demo_numa False) 0x1000)" "free_phys (numa_free_page (demo_numa False) 0x1000) = {0x1000}"
  using numa_free_spec [OF demo_numa_inv, of "0x1000" False] by (simp_all add: demo_numa_sets)

theorem pmm_refree_leaks_witness:
  "\<exists>numa'. pmm_alloc_page (pm_numa (pmm_free_page demo_pmm 0x1000)) = Some (0x1000, numa') \<and>
     pm_numa (pmm_free_page ((pmm_free_page demo_pmm 0x1000)\<lparr>pm_numa := numa'\<rparr>) 0x1000) = numa' \<and>
     0x1000 \<notin> free_phys numa'"
proof -
  have t: "tracked_index demo_pmm 0x1000 = None"
    by (simp add: tracked_index_def demo_pmm_def PMM_MAX_FREED_TRACK_def)
  have n: "pm_numa (pmm_free_page demo_pmm 0x1000) = numa_free_page (demo_numa False) 0x1000"
    using t by (simp add: pmm_free_page_def pmm_mark_magic_def pmm_release_def pmm_track_freed_def)
      (simp add: demo_pmm_def)
  obtain numa' where a: "pmm_alloc_page (pm_numa (pmm_free_page demo_pmm 0x1000)) = Some (0x1000, numa')"
    unfolding n by (rule alloc_only_page [OF demo_freed])
  show ?thesis
    using pmm_refree_leaks [OF _ t _ _ _ _ a] a
    by (simp add: demo_pmm_def PMM_MAX_FREED_TRACK_def demo_numa_inv demo_numa_sets)
qed

theorem pmm_free_race_clobbers_witness:
  "\<exists>numa' s1 s2. s1 = pmm_release (pmm_track_freed demo_pmm 0x1000) 0x1000 \<and>
     pmm_alloc_page (pm_numa s1) = Some (0x1000, numa') \<and>
     s2 = s1\<lparr>pm_numa := numa', pm_mem := (pm_mem s1)(0x1000 := 42)\<rparr> \<and>
     pm_mem (pmm_mark_magic s2 0x1000) 0x1000 = PMM_FREE_MAGIC"
proof -
  let ?s1 = "pmm_release (pmm_track_freed demo_pmm 0x1000) 0x1000"
  have n: "pm_numa ?s1 = numa_free_page (demo_numa False) 0x1000"
    by (simp add: pmm_release_def pmm_track_freed_def) (simp add: demo_pmm_def)
  obtain numa' where a: "pmm_alloc_page (pm_numa ?s1) = Some (0x1000, numa')"
    unfolding n by (rule alloc_only_page [OF demo_freed])
  show ?thesis
    using pmm_free_race_clobbers [OF _ _ _ refl a refl, of 42] a
    by (simp add: demo_pmm_def demo_numa_inv demo_numa_sets)
qed

end
