(* ===== verification/Numa_Init.thy ===== *)
theory Numa_Init
  imports Pmm
begin

text \<open>
  \<^verbatim>\<open>numa_init\<close> of \<^verbatim>\<open>kernel/mm/numa.c\<close>: building node 0 from the firmware memory map. The
  memory map is a function from the address of a descriptor to the descriptor; the loops
  over it are partial functions. The counter of pages beyond the bitmap only feeds the log
  and is left out.
\<close>

section \<open>Model\<close>

definition descriptor_bytes :: u64 where
  "descriptor_bytes = 40"

partial_function (option) desc_loop ::
  "(xaios_memory_descriptor \<Rightarrow> 'a \<Rightarrow> 'a option) \<Rightarrow> (u64 \<Rightarrow> xaios_memory_descriptor) \<Rightarrow>
   xaios_boot_info \<Rightarrow> u64 \<Rightarrow> 'a \<Rightarrow> 'a option" where
  "desc_loop body descs boot offset acc =
     (if offset + descriptor_bytes \<le> bi_memory_map_size boot
      then case body (descs (bi_memory_map boot + offset)) acc of
             None \<Rightarrow> None
           | Some acc' \<Rightarrow> desc_loop body descs boot (offset + bi_memory_descriptor_size boot) acc'
      else Some acc)"

definition region_end :: "xaios_memory_descriptor \<Rightarrow> u64" where
  "region_end d = md_physical_start d + md_number_of_pages d * PAGE_SIZE"

text \<open>Body of the first loop: the lowest and the highest conventional address.\<close>

definition extent_body :: "xaios_memory_descriptor \<Rightarrow> u64 \<times> u64 \<Rightarrow> (u64 \<times> u64) option" where
  "extent_body d acc =
     (case acc of (lowest, highest) \<Rightarrow>
        if md_type d = XAIOS_MEMORY_TYPE_CONVENTIONAL
        then Some (if md_physical_start d < lowest then md_physical_start d else lowest,
                   if region_end d > highest then region_end d else highest)
        else Some acc)"

text \<open>One page of the second loop.\<close>

definition visit_page :: "xaios_boot_info \<Rightarrow> u64 \<Rightarrow> xaios_numa_node \<Rightarrow> xaios_numa_node" where
  "visit_page boot page node =
     (let node1 = node\<lparr>nn_total_pages := nn_total_pages node + 1\<rparr>
      in if page < nn_phys_start node1 \<or> page \<ge> nn_phys_end node1 then node1
         else let page_index = (page - nn_phys_start node1) div PAGE_SIZE
              in if page_index \<ge> XAIOS_NUMA_BITMAP_BITS then node1
                 else if \<not> page_is_reserved boot page
                 then let node2 = bitmap_set_free node1 page_index
                      in node2\<lparr>nn_free_count := nn_free_count node2 + 1\<rparr>
                 else node1)"

partial_function (option) region_loop ::
  "xaios_boot_info \<Rightarrow> u64 \<Rightarrow> u64 \<Rightarrow> xaios_numa_node \<Rightarrow> xaios_numa_node option" where
  "region_loop boot page end node =
     (if page + PAGE_SIZE \<le> end
      then region_loop boot (page + PAGE_SIZE) end (visit_page boot page node)
      else Some node)"

definition pages_body ::
  "xaios_boot_info \<Rightarrow> xaios_memory_descriptor \<Rightarrow> xaios_numa_node \<Rightarrow> xaios_numa_node option" where
  "pages_body boot d node =
     (if md_type d = XAIOS_MEMORY_TYPE_CONVENTIONAL
      then region_loop boot (align_up (md_physical_start d) PAGE_SIZE)
             (align_down (region_end d) PAGE_SIZE) node
      else Some node)"

definition blank_node :: "nat \<Rightarrow> xaios_numa_node" where
  "blank_node i = \<lparr>nn_node_id = of_nat i, nn_online = 0, nn_phys_start = 0, nn_phys_end = 0,
     nn_total_pages = 0, nn_free_count = 0, nn_cpu_mask = 0, nn_alloc_hint = 0,
     nn_bitmap = (\<lambda>_. 0)\<rparr>"

definition numa_init ::
  "(u64 \<Rightarrow> xaios_memory_descriptor) \<Rightarrow> xaios_boot_info \<Rightarrow> u32 \<Rightarrow> numa_state option" where
  "numa_init descs boot online =
     (let nodes = map blank_node [0 ..< XAIOS_NUMA_MAX_NODES] in
      case desc_loop extent_body descs boot 0 (0xffffffffffffffff, 0) of
        None \<Rightarrow> None
      | Some (lowest, highest) \<Rightarrow>
          if lowest \<ge> highest then Some \<lparr>g_numa_nodes = nodes, g_numa_node_count = 0\<rparr>
          else let mask_limit = (if online < 64 then online else 64);
                   cpu_mask = fold (\<lambda>c m. m OR push_bit c 1) [0 ..< unat mask_limit] 0;
                   node = (blank_node 0)\<lparr>nn_online := 1, nn_phys_start := lowest,
                            nn_phys_end := highest, nn_cpu_mask := cpu_mask,
                            nn_total_pages := 0, nn_free_count := 0\<rparr>
               in case desc_loop (pages_body boot) descs boot 0 node of
                    None \<Rightarrow> None
                  | Some node' \<Rightarrow> Some \<lparr>g_numa_nodes = nodes[0 := node'], g_numa_node_count = 1\<rparr>)"

section \<open>The loops\<close>

fun fold_opt :: "('d \<Rightarrow> 'a \<Rightarrow> 'a option) \<Rightarrow> 'd list \<Rightarrow> 'a \<Rightarrow> 'a option" where
  "fold_opt body [] acc = Some acc"
| "fold_opt body (d # ds) acc = (case body d acc of None \<Rightarrow> None | Some acc' \<Rightarrow> fold_opt body ds acc')"

text \<open>The descriptors of a map whose size and stride do not overflow.\<close>

definition map_count :: "xaios_boot_info \<Rightarrow> nat" where
  "map_count boot = (if unat (bi_memory_map_size boot) < 40 then 0
     else (unat (bi_memory_map_size boot) - 40) div unat (bi_memory_descriptor_size boot) + 1)"

definition map_descs :: "(u64 \<Rightarrow> xaios_memory_descriptor) \<Rightarrow> xaios_boot_info \<Rightarrow> xaios_memory_descriptor list" where
  "map_descs descs boot = map (\<lambda>k. descs (bi_memory_map boot + of_nat (k * unat (bi_memory_descriptor_size boot))))
     [0 ..< map_count boot]"

definition map_wf :: "xaios_boot_info \<Rightarrow> bool" where
  "map_wf boot \<longleftrightarrow> bi_memory_descriptor_size boot \<noteq> 0 \<and>
     unat (bi_memory_map_size boot) + unat (bi_memory_descriptor_size boot) + 40 < 2 ^ 64"

lemma desc_loop_fold:
  assumes wf: "map_wf boot" and k: "k \<le> map_count boot"
  defines "ds \<equiv> unat (bi_memory_descriptor_size boot)"
  shows "desc_loop body descs boot (of_nat (k * ds)) acc
    = fold_opt body (map (\<lambda>k. descs (bi_memory_map boot + of_nat (k * ds))) [k ..< map_count boot]) acc"
  using k
proof (induction "map_count boot - k" arbitrary: k acc)
  case (Suc n)
  let ?sz = "unat (bi_memory_map_size boot)"
  have kc: "k < map_count boot" using Suc.hyps(2) by simp
  then have sz: "40 \<le> ?sz" and "k \<le> (?sz - 40) div ds"
    by (auto simp: map_count_def ds_def split: if_splits)
  then have "k * ds \<le> ?sz - 40" using less_eq_div_iff_mult_less_eq [of ds k "?sz - 40"] wf
    by (cases "ds = 0") (auto simp: map_wf_def ds_def)
  with sz have kd: "k * ds + 40 \<le> ?sz" by simp
  have lt: "?sz + ds + 40 < 2 ^ 64" using wf by (simp add: map_wf_def ds_def)
  have u: "unat (of_nat (k * ds) :: u64) = k * ds" using kd lt by (intro unat_of_nat_small) simp
  have "of_nat (k * ds) + descriptor_bytes \<le> bi_memory_map_size boot"
    unfolding word_le_nat_alt using kd lt u unat_add_le [of "of_nat (k * ds)" descriptor_bytes]
    by (simp add: descriptor_bytes_def)
  moreover have "(of_nat (k * ds) :: u64) + bi_memory_descriptor_size boot = of_nat (Suc k * ds)"
    by (simp add: ds_def)
  moreover have "[k ..< map_count boot] = k # [Suc k ..< map_count boot]" using kc by (simp add: upt_conv_Cons)
  moreover have "desc_loop body descs boot (of_nat (Suc k * ds)) acc'
      = fold_opt body (map (\<lambda>k. descs (bi_memory_map boot + of_nat (k * ds))) [Suc k ..< map_count boot]) acc'" for acc'
    using Suc.hyps(2) kc by (intro Suc.hyps(1)) auto
  ultimately show ?case
    by (subst desc_loop.simps) (simp only: if_True list.map fold_opt.simps cong: option.case_cong)
next
  case 0
  then have k: "k = map_count boot" by simp
  let ?sz = "unat (bi_memory_map_size boot)"
  have lt: "?sz + ds + 40 < 2 ^ 64" and ds: "0 < ds" using wf by (simp_all add: map_wf_def ds_def unat_gt_0)
  have big: "?sz < k * ds + 40"
  proof (cases "?sz < 40")
    case False
    then have "k = (?sz - 40) div ds + 1" by (simp add: k map_count_def ds_def)
    moreover have "?sz - 40 < ((?sz - 40) div ds + 1) * ds" using ds
      by (metis dividend_less_div_times add.commute mult.commute distrib_left nat_mult_1_right)
    ultimately show ?thesis using False by simp
  qed simp
  have "k * ds \<le> ?sz + ds"
  proof (cases "?sz < 40")
    case False
    then have "k * ds = (?sz - 40) div ds * ds + ds" by (simp add: k map_count_def ds_def)
    also have "\<dots> \<le> ?sz - 40 + ds" by simp
    finally show ?thesis by simp
  qed (simp add: k map_count_def)
  then have u: "unat (of_nat (k * ds) :: u64) = k * ds" "unat (of_nat (k * ds) + descriptor_bytes :: u64) = k * ds + 40"
    using lt unat_add_le [of "of_nat (k * ds) :: u64" descriptor_bytes]
    by (auto simp: descriptor_bytes_def unat_of_nat_small simp del: of_nat_mult)
  have "\<not> of_nat (k * ds) + descriptor_bytes \<le> bi_memory_map_size boot"
    unfolding word_le_nat_alt u using big by simp
  then show ?case by (subst desc_loop.simps) (simp add: k [symmetric])
qed

lemma desc_loop_map:
  "map_wf boot \<Longrightarrow> desc_loop body descs boot 0 acc = fold_opt body (map_descs descs boot) acc"
  using desc_loop_fold [of boot 0 body descs acc] unfolding map_descs_def by simp

lemma region_loop_fold:
  "a \<le> b \<Longrightarrow> b * 4096 + 4096 < 2 ^ 64 \<Longrightarrow>
   region_loop boot (of_nat (a * 4096)) (of_nat (b * 4096)) node
     = Some (fold (\<lambda>p. visit_page boot (of_nat (p * 4096))) [a ..< b] node)"
proof (induction "b - a" arbitrary: a node)
  case 0
  then have "a = b" by simp
  moreover have "unat (of_nat (b * 4096) :: u64) = b * 4096" using 0 by (intro unat_of_nat_small) simp
  ultimately have "\<not> of_nat (a * 4096) + PAGE_SIZE \<le> (of_nat (b * 4096) :: u64)"
    unfolding word_le_nat_alt using 0 unat_add_le [of "of_nat (a * 4096) :: u64" PAGE_SIZE]
    by (simp add: PAGE_SIZE_def del: of_nat_mult)
  with \<open>a = b\<close> show ?case by (subst region_loop.simps) simp
next
  case (Suc n)
  then have ab: "a < b" by simp
  have "unat (of_nat (b * 4096) :: u64) = b * 4096" "unat (of_nat (a * 4096) :: u64) = a * 4096"
    using Suc.prems by (auto intro!: unat_of_nat_small simp del: of_nat_mult)
  then have "of_nat (a * 4096) + PAGE_SIZE \<le> (of_nat (b * 4096) :: u64)"
    unfolding word_le_nat_alt using ab Suc.prems unat_add_le [of "of_nat (a * 4096) :: u64" PAGE_SIZE]
    by (simp add: PAGE_SIZE_def del: of_nat_mult)
  moreover have "(of_nat (a * 4096) :: u64) + PAGE_SIZE = of_nat (Suc a * 4096)"
    by (simp add: PAGE_SIZE_def)
  moreover have "region_loop boot (of_nat (Suc a * 4096)) (of_nat (b * 4096)) node'
      = Some (fold (\<lambda>p. visit_page boot (of_nat (p * 4096))) [Suc a ..< b] node')" for node'
    using Suc.hyps(2) Suc.prems ab by (intro Suc.hyps(1)) auto
  moreover have "[a ..< b] = a # [Suc a ..< b]" using ab by (simp add: upt_conv_Cons)
  ultimately show ?case
    by (subst region_loop.simps) (simp only: if_True fold_simps)
qed

section \<open>Well-formed memory maps\<close>

text \<open>
  What the firmware guarantees for a conventional region: page-aligned, not at address 0,
  not empty, and not reaching the last page of the address space.
\<close>

definition conventional :: "xaios_memory_descriptor \<Rightarrow> bool" where
  "conventional d \<longleftrightarrow> md_type d = XAIOS_MEMORY_TYPE_CONVENTIONAL"

definition first_page :: "xaios_memory_descriptor \<Rightarrow> nat" where
  "first_page d = unat (md_physical_start d) div 4096"

definition last_page :: "xaios_memory_descriptor \<Rightarrow> nat" where
  "last_page d = first_page d + unat (md_number_of_pages d)"

definition region_wf :: "xaios_memory_descriptor \<Rightarrow> bool" where
  "region_wf d \<longleftrightarrow> 4096 dvd unat (md_physical_start d) \<and> first_page d \<noteq> 0 \<and>
     first_page d < last_page d \<and> last_page d * 4096 + 4096 < 2 ^ 64"

text \<open>All the pages of the conventional regions, in the order of the map.\<close>

definition map_pages :: "xaios_memory_descriptor list \<Rightarrow> nat list" where
  "map_pages ds = concat (map (\<lambda>d. [first_page d ..< last_page d]) (filter conventional ds))"

lemma region_words:
  assumes "region_wf d"
  shows "md_physical_start d = of_nat (first_page d * 4096)" "region_end d = of_nat (last_page d * 4096)"
    "unat (md_physical_start d) = first_page d * 4096" "unat (region_end d) = last_page d * 4096"
proof -
  have s: "unat (md_physical_start d) = first_page d * 4096"
    using assms by (simp add: region_wf_def first_page_def)
  then show "unat (md_physical_start d) = first_page d * 4096" .
  show start: "md_physical_start d = of_nat (first_page d * 4096)"
    unfolding s [symmetric] by simp
  have "(of_nat (last_page d * 4096) :: u64) = of_nat (first_page d * 4096) + of_nat (unat (md_number_of_pages d)) * 4096"
    unfolding last_page_def by simp
  then show e: "region_end d = of_nat (last_page d * 4096)"
    unfolding region_end_def by (simp add: start PAGE_SIZE_def)
  show "unat (region_end d) = last_page d * 4096"
    unfolding e using assms by (intro unat_of_nat_small) (simp add: region_wf_def)
qed

lemma align_page: "n * 4096 + 4096 < 2 ^ 64 \<Longrightarrow>
    align_up (of_nat (n * 4096)) PAGE_SIZE = of_nat (n * 4096) \<and>
    align_down (of_nat (n * 4096)) PAGE_SIZE = of_nat (n * 4096)"
proof -
  assume n: "n * 4096 + 4096 < 2 ^ 64"
  then have u: "unat (of_nat (n * 4096) :: u64) = n * 4096" by (intro unat_of_nat_small) simp
  have "unat (align_down (of_nat (n * 4096)) PAGE_SIZE) = n * 4096"
    unfolding unat_align_down u by simp
  moreover have "unat (align_up (of_nat (n * 4096)) PAGE_SIZE) = n * 4096"
    using n u by (subst unat_align_up) simp_all
  ultimately show ?thesis using u by (simp add: word_eq_unat)
qed

section \<open>The node under construction\<close>

text \<open>
  A node for the pages \<open>L ..< H\<close> after the pages in \<open>V\<close> have been visited: those that fit the bitmap and are not
  reserved are free.
\<close>

definition building :: "xaios_boot_info \<Rightarrow> nat \<Rightarrow> nat \<Rightarrow> nat set \<Rightarrow> xaios_numa_node \<Rightarrow> bool" where
  "building boot L H V n \<longleftrightarrow> nn_phys_start n = of_nat (L * 4096) \<and> nn_phys_end n = of_nat (H * 4096) \<and>
     free_pages n = {q. q < 262144 \<and> q + L \<in> V \<and> \<not> page_is_reserved boot (of_nat ((q + L) * 4096))} \<and>
     unat (nn_free_count n) = card (free_pages n)"

lemma buildingD:
  assumes "building boot L H V n"
  shows "nn_phys_start n = of_nat (L * 4096)" "nn_phys_end n = of_nat (H * 4096)" "unat (nn_free_count n) = card (free_pages n)"
    "q \<in> free_pages n \<Longrightarrow> q + L \<in> V \<and> q < 262144"
    "free_pages n = {q. q < 262144 \<and> q + L \<in> V \<and> \<not> page_is_reserved boot (of_nat ((q + L) * 4096))}"
  using assms unfolding building_def by blast+

lemma page_word:
  assumes "L \<le> p" "p < H" "H * 4096 + 4096 < 2 ^ 64"
  shows "\<not> (of_nat (p * 4096) :: u64) < of_nat (L * 4096)" "\<not> (of_nat (p * 4096) :: u64) \<ge> of_nat (H * 4096)"
    "((of_nat (p * 4096) :: u64) - of_nat (L * 4096)) div PAGE_SIZE = of_nat (p - L)"
proof -
  have u: "unat (of_nat (p * 4096) :: u64) = p * 4096" "unat (of_nat (L * 4096) :: u64) = L * 4096"
    "unat (of_nat (H * 4096) :: u64) = H * 4096" "unat (of_nat (p - L) :: u64) = p - L"
    using assms by (auto intro!: unat_of_nat_small simp del: of_nat_mult of_nat_diff)
  show "\<not> (of_nat (p * 4096) :: u64) < of_nat (L * 4096)" "\<not> (of_nat (p * 4096) :: u64) \<ge> of_nat (H * 4096)"
    unfolding word_less_nat_alt word_le_nat_alt u using assms by simp_all
  have le: "(of_nat (L * 4096) :: u64) \<le> of_nat (p * 4096)"
    unfolding word_le_nat_alt u using assms by simp
  have "unat ((of_nat (p * 4096) :: u64) - of_nat (L * 4096)) = p * 4096 - L * 4096"
    using unat_sub_le [OF le] unfolding u .
  also have "\<dots> = (p - L) * 4096" by (simp add: diff_mult_distrib)
  finally show "((of_nat (p * 4096) :: u64) - of_nat (L * 4096)) div PAGE_SIZE = of_nat (p - L)"
    by (simp add: word_eq_unat unat_div PAGE_SIZE_def u del: of_nat_mult of_nat_diff)
qed

lemma visit_building:
  assumes b: "building boot L H V n" and p: "L \<le> p" "p < H" "p \<notin> V" and H: "H * 4096 + 4096 < 2 ^ 64"
  shows "building boot L H (insert p V) (visit_page boot (of_nat (p * 4096)) n)"
proof -
  let ?n = "n\<lparr>nn_total_pages := nn_total_pages n + 1\<rparr>"
  let ?free = "\<lambda>V. {q. q < 262144 \<and> q + L \<in> V \<and> \<not> page_is_reserved boot (of_nat ((q + L) * 4096))}"
  note w = page_word [OF p(1,2) H]
  have se: "nn_phys_start n = of_nat (L * 4096)" "nn_phys_end n = of_nat (H * 4096)" "free_pages n = ?free V"
    using b by (simp_all add: building_def del: of_nat_mult)
  have u: "unat (of_nat (p - L) :: u64) = p - L" using p H by (intro unat_of_nat_small) simp
  have at: "p - L + L = p" using p by simp
  have v: "visit_page boot (of_nat (p * 4096)) n =
      (if (of_nat (p - L) :: u64) \<ge> XAIOS_NUMA_BITMAP_BITS then ?n
       else if \<not> page_is_reserved boot (of_nat (p * 4096))
       then (bitmap_set_free ?n (of_nat (p - L)))
              \<lparr>nn_free_count := nn_free_count (bitmap_set_free ?n (of_nat (p - L))) + 1\<rparr>
       else ?n)"
    unfolding visit_page_def Let_def using w se by (simp del: of_nat_mult of_nat_diff)
  show ?thesis
  proof (cases "(of_nat (p - L) :: u64) \<ge> XAIOS_NUMA_BITMAP_BITS \<or> page_is_reserved boot (of_nat (p * 4096))")
    case True
    then have no: "262144 \<le> p - L \<or> page_is_reserved boot (of_nat (p * 4096))"
      using u by (simp add: XAIOS_NUMA_BITMAP_BITS_def word_le_nat_alt del: of_nat_diff of_nat_mult)
    have "?free (insert p V) = ?free V"
    proof (rule Collect_cong)
      fix q show "(q < 262144 \<and> q + L \<in> insert p V \<and> \<not> page_is_reserved boot (of_nat ((q + L) * 4096))) =
          (q < 262144 \<and> q + L \<in> V \<and> \<not> page_is_reserved boot (of_nat ((q + L) * 4096)))"
        by (cases "q + L = p") (use no in auto)
    qed
    moreover have "free_pages ?n = free_pages n" by (simp add: free_pages_def)
    ultimately have "building boot L H (insert p V) ?n"
      using b by (simp add: building_def del: of_nat_mult)
    with True show ?thesis unfolding v by auto
  next
    case False
    then have small: "p - L < 262144"
      using u by (simp add: XAIOS_NUMA_BITMAP_BITS_def word_le_nat_alt del: of_nat_diff)
    let ?m = "(bitmap_set_free ?n (of_nat (p - L)))
              \<lparr>nn_free_count := nn_free_count (bitmap_set_free ?n (of_nat (p - L))) + 1\<rparr>"
    have fp: "free_pages ?m = insert (p - L) (free_pages n)"
      using free_pages_set [OF small, of ?n] by (simp add: free_pages_def del: of_nat_diff)
    have set: "insert (p - L) (?free V) = ?free (insert p V)"
    proof (rule set_eqI)
      fix q show "q \<in> insert (p - L) (?free V) \<longleftrightarrow> q \<in> ?free (insert p V)"
        by (cases "q = p - L") (use False small at p in auto)
    qed
    have fields: "nn_phys_start ?m = nn_phys_start n" "nn_phys_end ?m = nn_phys_end n"
      "nn_free_count ?m = nn_free_count n + 1"
      by (simp_all add: bitmap_set_free_def Let_def)
    have new: "p - L \<notin> free_pages n" unfolding se(3) using p at by auto
    have "unat (nn_free_count n + 1) = card (insert (p - L) (free_pages n))"
      using b new card_free_pages [of n] by (subst unat_inc) (auto simp: building_def)
    then have "building boot L H (insert p V) ?m"
      unfolding building_def fp fields using se set by simp
    with False show ?thesis unfolding v by simp
  qed
qed

lemma fold_building:
  assumes H: "H * 4096 + 4096 < 2 ^ 64"
  shows "building boot L H V n \<Longrightarrow> distinct ps \<Longrightarrow> set ps \<inter> V = {} \<Longrightarrow> \<forall>p\<in>set ps. L \<le> p \<and> p < H \<Longrightarrow>
    building boot L H (V \<union> set ps) (fold (\<lambda>p. visit_page boot (of_nat (p * 4096))) ps n)"
proof (induction ps arbitrary: V n)
  case (Cons p ps)
  have "building boot L H (insert p V) (visit_page boot (of_nat (p * 4096)) n)"
    using Cons.prems by (intro visit_building [OF _ _ _ _ H]) auto
  from Cons.IH [OF this] Cons.prems show ?case by (simp del: of_nat_mult)
qed simp

lemma pages_fold:
  "\<forall>d\<in>set ds. conventional d \<longrightarrow> region_wf d \<Longrightarrow>
   fold_opt (pages_body boot) ds n = Some (fold (\<lambda>p. visit_page boot (of_nat (p * 4096))) (map_pages ds) n)"
proof (induction ds arbitrary: n)
  case (Cons d ds)
  show ?case
  proof (cases "conventional d")
    case True
    then have wf: "region_wf d" using Cons.prems by simp
    have bnd: "first_page d \<le> last_page d" "last_page d * 4096 + 4096 < 2 ^ 64" "first_page d * 4096 + 4096 < 2 ^ 64"
      using wf by (auto simp: region_wf_def)
    have "pages_body boot d n = Some (fold (\<lambda>p. visit_page boot (of_nat (p * 4096))) [first_page d ..< last_page d] n)"
      using True region_loop_fold [OF bnd(1,2)] align_page [OF bnd(3)] align_page [OF bnd(2)] region_words(1,2) [OF wf]
      by (simp only: pages_body_def conventional_def if_True simp_thms)
    with True Cons show ?thesis by (simp add: map_pages_def del: of_nat_mult)
  next
    case False
    with Cons show ?thesis by (simp add: map_pages_def pages_body_def conventional_def)
  qed
qed (simp add: map_pages_def)

lemma extent_fold:
  "\<exists>lo' hi'. fold_opt extent_body ds (lo, hi) = Some (lo', hi') \<and> lo' \<le> lo \<and> hi \<le> hi' \<and>
     (\<forall>d\<in>set ds. conventional d \<longrightarrow> lo' \<le> md_physical_start d \<and> region_end d \<le> hi') \<and>
     (lo' = lo \<or> (\<exists>d\<in>set ds. conventional d \<and> lo' = md_physical_start d)) \<and>
     (hi' = hi \<or> (\<exists>d\<in>set ds. conventional d \<and> hi' = region_end d))"
proof (induction ds arbitrary: lo hi)
  case (Cons d ds)
  define lo1 where "lo1 = (if conventional d \<and> md_physical_start d < lo then md_physical_start d else lo)"
  define hi1 where "hi1 = (if conventional d \<and> region_end d > hi then region_end d else hi)"
  have e: "extent_body d (lo, hi) = Some (lo1, hi1)"
    by (simp add: extent_body_def lo1_def hi1_def conventional_def)
  have lh: "lo1 \<le> lo" "hi \<le> hi1" "conventional d \<Longrightarrow> lo1 \<le> md_physical_start d \<and> region_end d \<le> hi1"
    "lo1 = lo \<or> conventional d \<and> lo1 = md_physical_start d" "hi1 = hi \<or> conventional d \<and> hi1 = region_end d"
    by (auto simp: lo1_def hi1_def)
  obtain lo' hi' where ih: "fold_opt extent_body ds (lo1, hi1) = Some (lo', hi')" "lo' \<le> lo1" "hi1 \<le> hi'"
    "\<forall>d\<in>set ds. conventional d \<longrightarrow> lo' \<le> md_physical_start d \<and> region_end d \<le> hi'"
    "lo' = lo1 \<or> (\<exists>d\<in>set ds. conventional d \<and> lo' = md_physical_start d)"
    "hi' = hi1 \<or> (\<exists>d\<in>set ds. conventional d \<and> hi' = region_end d)"
    using Cons.IH [of lo1 hi1] by blast
  have "conventional d \<longrightarrow> lo' \<le> md_physical_start d \<and> region_end d \<le> hi'"
    using lh(3) ih(2,3) order.trans by blast
  moreover have "lo' \<le> lo" "hi \<le> hi'" using lh ih(2,3) by auto
  moreover have "lo' = lo \<or> (\<exists>d'\<in>set (d # ds). conventional d' \<and> lo' = md_physical_start d')"
    using ih(5) lh(4) by auto
  moreover have "hi' = hi \<or> (\<exists>d'\<in>set (d # ds). conventional d' \<and> hi' = region_end d')"
    using ih(6) lh(5) by auto
  ultimately show ?case using ih(1,4) e by (intro exI [of _ lo'] exI [of _ hi']) simp
qed simp

section \<open>Correctness\<close>

definition map_ok :: "(u64 \<Rightarrow> xaios_memory_descriptor) \<Rightarrow> xaios_boot_info \<Rightarrow> bool" where
  "map_ok descs boot \<longleftrightarrow> map_wf boot \<and>
     (\<forall>d\<in>set (map_descs descs boot). conventional d \<longrightarrow> region_wf d) \<and>
     distinct (map_pages (map_descs descs boot))"

lemma building_blank: "building boot L H {} ((blank_node 0)\<lparr>nn_online := 1, nn_phys_start := of_nat (L * 4096),
    nn_phys_end := of_nat (H * 4096), nn_cpu_mask := m, nn_total_pages := 0, nn_free_count := 0\<rparr>)"
proof -
  have "free_pages ((blank_node 0)\<lparr>nn_online := 1, nn_phys_start := of_nat (L * 4096),
    nn_phys_end := of_nat (H * 4096), nn_cpu_mask := m, nn_total_pages := 0, nn_free_count := 0\<rparr>) = {}"
    by (simp add: free_pages_def blank_node_def)
  then show ?thesis by (simp add: building_def)
qed

lemma building_inv:
  assumes b: "building boot L H V n" and V: "\<forall>p\<in>V. L \<le> p \<and> p < H" and L: "L \<noteq> 0" "L < H" and H: "H * 4096 + 4096 < 2 ^ 64"
  shows "node_inv n"
proof -
  have u: "unat (nn_phys_start n) = L * 4096" "unat (nn_phys_end n) = H * 4096"
    unfolding buildingD(1,2) [OF b] using L H by (auto intro!: unat_of_nat_small simp del: of_nat_mult)
  have lt: "nn_phys_start n < nn_phys_end n" unfolding word_less_nat_alt u using L by simp
  have "unat (nn_phys_end n - nn_phys_start n) = H * 4096 - L * 4096"
    using unat_sub_le [of "nn_phys_start n" "nn_phys_end n"] lt unfolding u by simp
  then have np: "node_pages n = min 262144 (H - L)"
    by (simp add: node_pages_def diff_mult_distrib [symmetric])
  have "free_pages n \<subseteq> {..< node_pages n}"
  proof
    fix q assume q: "q \<in> free_pages n"
    then have "q + L \<in> V" "q < 262144" using buildingD(4) [OF b] by blast+
    with V show "q \<in> {..< node_pages n}" unfolding np by auto
  qed
  moreover have "nn_phys_start n \<noteq> 0" using u(1) L by (metis mult_is_0 unat_0 zero_neq_numeral)
  ultimately show ?thesis using buildingD(3) [OF b] lt u by (simp add: node_inv_def)
qed

lemma numa_init_extent:
  assumes ok: "map_ok descs boot" and conv: "\<exists>d\<in>set (map_descs descs boot). conventional d"
  obtains L H where "desc_loop extent_body descs boot 0 (0xffffffffffffffff, 0) = Some (of_nat (L * 4096), of_nat (H * 4096))"
    "L \<noteq> 0" "L < H" "H * 4096 + 4096 < 2 ^ 64" "\<forall>p\<in>set (map_pages (map_descs descs boot)). L \<le> p \<and> p < H"
    "L \<in> set (map_pages (map_descs descs boot))"
proof -
  let ?ds = "map_descs descs boot"
  have wf: "map_wf boot" and rw: "\<And>d. d \<in> set ?ds \<Longrightarrow> conventional d \<Longrightarrow> region_wf d"
    using ok by (auto simp: map_ok_def)
  obtain lo hi where ext: "fold_opt extent_body ?ds (0xffffffffffffffff, 0) = Some (lo, hi)"
    and all: "\<And>d. d \<in> set ?ds \<Longrightarrow> conventional d \<Longrightarrow> lo \<le> md_physical_start d \<and> region_end d \<le> hi"
    and lo: "lo = 0xffffffffffffffff \<or> (\<exists>d\<in>set ?ds. conventional d \<and> lo = md_physical_start d)"
    and hi: "hi = 0 \<or> (\<exists>d\<in>set ?ds. conventional d \<and> hi = region_end d)"
    using extent_fold [of ?ds "0xffffffffffffffff" 0] by blast
  obtain d where d: "d \<in> set ?ds" "conventional d" using conv by blast
  note rd = rw [OF d] region_words [OF rw [OF d]]
  have "unat lo \<le> first_page d * 4096" "last_page d * 4096 \<le> unat hi"
    using all [OF d] rd(4,5) by (simp_all add: word_le_nat_alt)
  moreover have "first_page d * 4096 < 2 ^ 64 - 1" "0 < last_page d" using rd(1) by (auto simp: region_wf_def)
  ultimately have "lo \<noteq> 0xffffffffffffffff" "hi \<noteq> 0" by auto
  then obtain d1 d2 where d1: "d1 \<in> set ?ds" "conventional d1" "lo = md_physical_start d1"
    and d2: "d2 \<in> set ?ds" "conventional d2" "hi = region_end d2" using lo hi by blast
  note r1 = rw [OF d1(1,2)] region_words [OF rw [OF d1(1,2)]] and r2 = rw [OF d2(1,2)] region_words [OF rw [OF d2(1,2)]]
  let ?L = "first_page d1" let ?H = "last_page d2"
  have each: "?L \<le> first_page e \<and> last_page e \<le> ?H" if "e \<in> set ?ds" "conventional e" for e
    using all [OF that] region_words(3,4) [OF rw [OF that]] r1(4) r2(5) d1(3) d2(3) by (simp add: word_le_nat_alt)
  show ?thesis
  proof (rule that [of ?L ?H])
    show "desc_loop extent_body descs boot 0 (0xffffffffffffffff, 0) = Some (of_nat (?L * 4096), of_nat (?H * 4096))"
      unfolding desc_loop_map [OF wf] using ext d1(3) d2(3) r1(2) r2(3) by simp
    show "?L \<noteq> 0" "?H * 4096 + 4096 < 2 ^ 64" using r1(1) r2(1) by (auto simp: region_wf_def)
    show "?L < ?H" using each [OF d1(1,2)] r1(1) by (simp add: region_wf_def)
    show "\<forall>p\<in>set (map_pages ?ds). ?L \<le> p \<and> p < ?H"
      using each by (fastforce simp: map_pages_def)
    show "?L \<in> set (map_pages ?ds)" using d1 r1(1) by (auto simp: map_pages_def region_wf_def)
  qed
qed

text \<open>
  The pages the allocator should own, said without the code's interval test: the pages of conventional regions that
  hold no byte of the kernel image or of the memory map, as far as the bitmap reaches from the lowest one.
\<close>

definition page_touches :: "nat \<Rightarrow> nat \<Rightarrow> nat \<Rightarrow> bool" where
  "page_touches p lo hi \<longleftrightarrow> (\<exists>a \<in> {lo ..< hi}. a div 4096 = p)"

definition usable_pages :: "(u64 \<Rightarrow> xaios_memory_descriptor) \<Rightarrow> xaios_boot_info \<Rightarrow> nat set" where
  "usable_pages descs boot = {p \<in> set (map_pages (map_descs descs boot)).
     p < Min (set (map_pages (map_descs descs boot))) + 262144 \<and>
     \<not> page_touches p (unat (bi_kernel_phys_base boot)) (unat (bi_kernel_phys_end boot)) \<and>
     \<not> page_touches p (unat (bi_memory_map boot)) (unat (bi_memory_map boot) + unat (bi_memory_map_size boot))}"

definition boot_ranges_ok :: "xaios_boot_info \<Rightarrow> bool" where
  "boot_ranges_ok boot \<longleftrightarrow> bi_kernel_phys_base boot < bi_kernel_phys_end boot \<and>
     unat (bi_memory_map boot) + unat (bi_memory_map_size boot) < 2 ^ 64"

lemma page_touches_iff: "lo < hi \<Longrightarrow> page_touches p lo hi \<longleftrightarrow> p * 4096 < hi \<and> lo < p * 4096 + 4096"
proof
  assume "page_touches p lo hi"
  then obtain a where "lo \<le> a" "a < hi" "a div 4096 = p" by (auto simp: page_touches_def)
  then show "p * 4096 < hi \<and> lo < p * 4096 + 4096"
    using div_times_less_eq_dividend [of a 4096] dividend_less_div_times [of 4096 a] by simp
next
  assume h: "lo < hi" "p * 4096 < hi \<and> lo < p * 4096 + 4096"
  then have "max lo (p * 4096) div 4096 = p" by (intro div_nat_eqI) (simp_all add: max_def)
  then show "page_touches p lo hi" unfolding page_touches_def using h by (intro bexI [of _ "max lo (p * 4096)"]) auto
qed

lemma reserved_touches:
  assumes p: "p * 4096 + 4096 < 2 ^ 64" and boot: "boot_ranges_ok boot" "bi_memory_map_size boot \<noteq> 0"
  shows "page_is_reserved boot (of_nat (p * 4096)) \<longleftrightarrow>
    page_touches p (unat (bi_kernel_phys_base boot)) (unat (bi_kernel_phys_end boot)) \<or>
    page_touches p (unat (bi_memory_map boot)) (unat (bi_memory_map boot) + unat (bi_memory_map_size boot))"
proof -
  have u: "unat (of_nat (p * 4096) :: u64) = p * 4096" using p by (intro unat_of_nat_small) simp
  have e: "unat (of_nat (p * 4096) + PAGE_SIZE :: u64) = p * 4096 + 4096"
    using p u unat_add_le [of "of_nat (p * 4096) :: u64" PAGE_SIZE] by (simp add: PAGE_SIZE_def del: of_nat_mult)
  have m: "unat (bi_memory_map boot + bi_memory_map_size boot) = unat (bi_memory_map boot) + unat (bi_memory_map_size boot)"
    using boot by (intro unat_add_le) (simp add: boot_ranges_ok_def)
  have k: "unat (bi_kernel_phys_base boot) < unat (bi_kernel_phys_end boot)"
    using boot by (simp add: boot_ranges_ok_def word_less_nat_alt)
  have z: "0 < unat (bi_memory_map_size boot)" using boot(2) by (simp add: unat_gt_0)
  show ?thesis
    unfolding page_is_reserved_def Let_def overlaps_def word_less_nat_alt u e m page_touches_iff [OF k]
    using z by (subst page_touches_iff) auto
qed

lemma map_pages_size: "p \<in> set (map_pages (map_descs descs boot)) \<Longrightarrow> bi_memory_map_size boot \<noteq> 0"
  by (auto simp: map_pages_def map_descs_def map_count_def)

lemma built_usable:
  assumes b: "building boot L H (set (map_pages (map_descs descs boot))) n"
    and ps: "\<forall>p\<in>set (map_pages (map_descs descs boot)). L \<le> p \<and> p < H"
    and L: "L \<in> set (map_pages (map_descs descs boot))" and H: "H * 4096 + 4096 < 2 ^ 64" and ranges: "boot_ranges_ok boot"
  shows "(\<lambda>q. q + L) ` free_pages n = usable_pages descs boot"
proof (rule set_eqI)
  let ?ps = "set (map_pages (map_descs descs boot))"
  fix p
  have min: "Min ?ps = L" using ps L by (intro Min_eqI) auto
  have fp: "free_pages n = {q. q < 262144 \<and> q + L \<in> ?ps \<and> \<not> page_is_reserved boot (of_nat ((q + L) * 4096))}"
    by (rule buildingD(5) [OF b])
  have "p \<in> (\<lambda>q. q + L) ` free_pages n \<longleftrightarrow> L \<le> p \<and> p - L \<in> free_pages n"
    by (auto intro: rev_image_eqI)
  also have "\<dots> \<longleftrightarrow> p \<in> ?ps \<and> p < L + 262144 \<and> \<not> page_is_reserved boot (of_nat (p * 4096))"
  proof (cases "L \<le> p")
    case True
    then have "p - L + L = p" "p - L < 262144 \<longleftrightarrow> p < L + 262144" by auto
    with True show ?thesis unfolding fp mem_Collect_eq by metis
  qed (use ps in auto)
  also have "\<dots> \<longleftrightarrow> p \<in> usable_pages descs boot"
  proof (cases "p \<in> ?ps")
    case True
    then have "p * 4096 + 4096 < 2 ^ 64" using ps H by fastforce
    from reserved_touches [OF this ranges map_pages_size [OF True]] True show ?thesis
      unfolding usable_pages_def min by auto
  qed (simp add: usable_pages_def)
  finally show "p \<in> (\<lambda>q. q + L) ` free_pages n \<longleftrightarrow> p \<in> usable_pages descs boot" .
qed


definition demo_boot :: xaios_boot_info where
  "demo_boot = \<lparr>bi_magic = 0, bi_version = 1, bi_reserved = 0, bi_memory_map = 0x900000,
     bi_memory_map_size = 96, bi_memory_descriptor_size = 48, bi_memory_descriptor_version = 1,
     bi_kernel_phys_base = 0x800000, bi_kernel_phys_end = 0x900000, bi_uart_base = 0\<rparr>"

definition demo_descs :: "u64 \<Rightarrow> xaios_memory_descriptor" where
  "demo_descs a = \<lparr>md_type = 7, md_pad = 0,
     md_physical_start = (if a = 0x900000 then 0x1000 else 0x10000), md_virtual_start = 0,
     md_number_of_pages = 2, md_attribute = 0\<rparr>"


end
