(* ===== verification/Topology.thy ===== *)
theory Topology
  imports Smp
begin

text \<open>
  \<^verbatim>\<open>kernel/arch/aarch64/topology.c\<close>: the hierarchy of scheduling domains. The two tables are
  functions from the index to the entry (the domain table has 8192 entries, the CPU table
  256); a member array is a list of 16 words.
\<close>

section \<open>Model\<close>

definition TOPOLOGY_MAX_DOMAINS :: u32 where
  "TOPOLOGY_MAX_DOMAINS = 8192"

definition XAIOS_SCHED_DOMAIN_MAX_MEMBERS :: u32 where
  "XAIOS_SCHED_DOMAIN_MAX_MEMBERS = 16"

record xaios_sched_domain =
  sd_domain_id :: u32
  sd_level :: u32
  sd_parent_domain :: u32
  sd_member_count :: u32
  sd_members :: "u32 list"
  sd_load_estimate :: u32

record xaios_cpu_topology =
  ct_cpu_id :: u32
  ct_numa_node :: u32
  ct_socket_id :: u32
  ct_core_id :: u32
  ct_thread_id :: u32
  ct_sched_domain_id :: u32

record topology_state =
  g_cpu_topology :: "nat \<Rightarrow> xaios_cpu_topology"
  g_sched_domains :: "nat \<Rightarrow> xaios_sched_domain"
  g_domain_count :: u32
  g_topology_initialized :: u32

definition zero_domain :: xaios_sched_domain where
  "zero_domain = \<lparr>sd_domain_id = 0, sd_level = 0, sd_parent_domain = 0, sd_member_count = 0,
     sd_members = replicate 16 0, sd_load_estimate = 0\<rparr>"

definition zero_topology :: xaios_cpu_topology where
  "zero_topology = \<lparr>ct_cpu_id = 0, ct_numa_node = 0, ct_socket_id = 0, ct_core_id = 0,
     ct_thread_id = 0, ct_sched_domain_id = 0\<rparr>"

definition next_domain_id :: "topology_state \<Rightarrow> u32 \<times> topology_state" where
  "next_domain_id t =
     (if g_domain_count t \<ge> TOPOLOGY_MAX_DOMAINS then (UINT32_MAX, t)
      else (g_domain_count t, t\<lparr>g_domain_count := g_domain_count t + 1\<rparr>))"

text \<open>The five assignments that set up a domain, and the guarded append to a member list.\<close>

definition set_domain :: "topology_state \<Rightarrow> u32 \<Rightarrow> u32 \<Rightarrow> u32 \<Rightarrow> topology_state" where
  "set_domain t d level parent = t\<lparr>g_sched_domains := (g_sched_domains t)(unat d :=
     (g_sched_domains t (unat d))\<lparr>sd_domain_id := d, sd_level := level, sd_parent_domain := parent,
        sd_member_count := 0, sd_load_estimate := 0\<rparr>)\<rparr>"

definition add_member :: "topology_state \<Rightarrow> u32 \<Rightarrow> u32 \<Rightarrow> topology_state" where
  "add_member t d m =
     (let dom = g_sched_domains t (unat d) in
      if sd_member_count dom < XAIOS_SCHED_DOMAIN_MAX_MEMBERS
      then t\<lparr>g_sched_domains := (g_sched_domains t)(unat d :=
             dom\<lparr>sd_members := (sd_members dom)[unat (sd_member_count dom) := m],
                 sd_member_count := sd_member_count dom + 1\<rparr>)\<rparr>
      else t)"

text \<open>One turn of the loop over the CPUs.\<close>

definition topology_add_cpu ::
  "smp_state \<Rightarrow> u32 \<Rightarrow> nat \<Rightarrow> u32 \<times> topology_state \<Rightarrow> u32 \<times> topology_state" where
  "topology_add_cpu smp socket_domain cpu st =
     (case st of (core_domain, t) \<Rightarrow>
        case smp_cpu_state smp (of_nat cpu) of
          None \<Rightarrow> st
        | Some state \<Rightarrow>
            if cs_online state = 0 then st
            else let (core, t1) =
                       (if cpu mod 16 = 0
                        then let (d, t') = next_domain_id t
                             in (d, add_member (set_domain t' d 0 socket_domain) socket_domain d)
                        else (core_domain, t));
                     t2 = t1\<lparr>g_cpu_topology := (g_cpu_topology t1)(cpu :=
                            \<lparr>ct_cpu_id = of_nat cpu, ct_numa_node = 0, ct_socket_id = 0,
                             ct_core_id = of_nat cpu, ct_thread_id = 0, ct_sched_domain_id = core\<rparr>)\<rparr>
                 in (core, add_member t2 core (of_nat cpu)))"

definition topology_init :: "topology_state \<Rightarrow> smp_state \<Rightarrow> topology_state" where
  "topology_init t0 smp =
     (let online = smp_online_count smp in
      if online = 0 then t0
      else let t = t0\<lparr>g_cpu_topology := (\<lambda>_. zero_topology), g_sched_domains := (\<lambda>_. zero_domain),
                      g_domain_count := 0\<rparr>;
               (sys_domain, t1) = next_domain_id t;
               t2 = set_domain t1 sys_domain 3 UINT32_MAX;
               (numa_domain, t3) = next_domain_id t2;
               t4 = add_member (set_domain t3 numa_domain 2 sys_domain) sys_domain numa_domain;
               (socket_domain, t5) = next_domain_id t4;
               t6 = add_member (set_domain t5 socket_domain 1 numa_domain) numa_domain socket_domain;
               (_, t7) = fold (topology_add_cpu smp socket_domain) [0 ..< unat online] (UINT32_MAX, t6)
           in t7\<lparr>g_topology_initialized := 1\<rparr>)"

definition topology_ready :: "topology_state \<Rightarrow> u32 \<Rightarrow> bool" where
  "topology_ready t cpu_id \<longleftrightarrow> \<not> (cpu_id \<ge> XAIOS_MAX_CPUS \<or> g_topology_initialized t = 0)"

definition topology_get_core_domain :: "topology_state \<Rightarrow> u32 \<Rightarrow> u32" where
  "topology_get_core_domain t cpu_id =
     (if \<not> topology_ready t cpu_id then UINT32_MAX
      else ct_sched_domain_id (g_cpu_topology t (unat cpu_id)))"

definition topology_get_socket_domain :: "topology_state \<Rightarrow> u32 \<Rightarrow> u32" where
  "topology_get_socket_domain t cpu_id =
     (if \<not> topology_ready t cpu_id then UINT32_MAX
      else let core_domain = ct_sched_domain_id (g_cpu_topology t (unat cpu_id)) in
        if core_domain \<ge> TOPOLOGY_MAX_DOMAINS then UINT32_MAX
        else let socket_domain = sd_parent_domain (g_sched_domains t (unat core_domain)) in
          if socket_domain \<ge> TOPOLOGY_MAX_DOMAINS then UINT32_MAX
          else sd_parent_domain (g_sched_domains t (unat socket_domain)))"

text \<open>The walk up the hierarchy, at most four levels.\<close>

fun numa_walk :: "topology_state \<Rightarrow> u32 \<Rightarrow> nat \<Rightarrow> u32" where
  "numa_walk t dom_id 0 = UINT32_MAX"
| "numa_walk t dom_id (Suc depth) =
     (if dom_id < TOPOLOGY_MAX_DOMAINS
      then if sd_level (g_sched_domains t (unat dom_id)) = 2 then dom_id
           else let parent = sd_parent_domain (g_sched_domains t (unat dom_id))
                in if parent = UINT32_MAX then UINT32_MAX else numa_walk t parent depth
      else UINT32_MAX)"

definition topology_get_numa_domain :: "topology_state \<Rightarrow> u32 \<Rightarrow> u32" where
  "topology_get_numa_domain t cpu_id =
     (if \<not> topology_ready t cpu_id then UINT32_MAX
      else numa_walk t (ct_sched_domain_id (g_cpu_topology t (unat cpu_id))) 4)"

definition topology_get_domain :: "topology_state \<Rightarrow> u32 \<Rightarrow> xaios_sched_domain option" where
  "topology_get_domain t domain_id =
     (if domain_id \<ge> TOPOLOGY_MAX_DOMAINS \<or> g_topology_initialized t = 0 then None
      else Some (g_sched_domains t (unat domain_id)))"

definition topology_get_cpu :: "topology_state \<Rightarrow> u32 \<Rightarrow> xaios_cpu_topology option" where
  "topology_get_cpu t cpu_id =
     (if \<not> topology_ready t cpu_id then None else Some (g_cpu_topology t (unat cpu_id)))"

definition topology_get_numa_node_for_cpu :: "topology_state \<Rightarrow> u32 \<Rightarrow> u32" where
  "topology_get_numa_node_for_cpu t cpu_id =
     (if \<not> topology_ready t cpu_id then UINT32_MAX
      else ct_numa_node (g_cpu_topology t (unat cpu_id)))"

section \<open>The hierarchy that \<open>topology_init\<close> builds\<close>

text \<open>The CPUs of a domain, as the scheduler reads them.\<close>

definition domain_members :: "xaios_sched_domain \<Rightarrow> u32 list" where
  "domain_members d = take (unat (sd_member_count d)) (sd_members d)"

text \<open>Group \<open>g\<close> holds the CPUs \<open>16 g ..< 16 g + 16\<close> seen so far; its domain number is \<open>g + 3\<close>.\<close>

definition core_domain_ok :: "nat \<Rightarrow> nat \<Rightarrow> xaios_sched_domain \<Rightarrow> bool" where
  "core_domain_ok n g d \<longleftrightarrow> sd_level d = 0 \<and> sd_parent_domain d = 2 \<and> length (sd_members d) = 16 \<and>
     unat (sd_member_count d) = min 16 (n - 16 * g) \<and>
     domain_members d = map of_nat [16 * g ..< min n (16 * g + 16)]"

definition topo_inv :: "nat \<Rightarrow> u32 \<times> topology_state \<Rightarrow> bool" where
  "topo_inv n st \<longleftrightarrow> (case st of (core, t) \<Rightarrow>
     unat (g_domain_count t) = 3 + (n + 15) div 16 \<and>
     (0 < n \<longrightarrow> core = of_nat (3 + (n - 1) div 16)) \<and>
     (\<forall>c<n. ct_sched_domain_id (g_cpu_topology t c) = of_nat (3 + c div 16) \<and>
            ct_numa_node (g_cpu_topology t c) = 0) \<and>
     (\<forall>g. 16 * g < n \<longrightarrow> core_domain_ok n g (g_sched_domains t (3 + g))) \<and>
     (\<forall>g. n \<le> 16 * g \<longrightarrow> g_sched_domains t (3 + g) = zero_domain) \<and>
     sd_level (g_sched_domains t 1) = 2 \<and>
     sd_level (g_sched_domains t 2) = 1 \<and> sd_parent_domain (g_sched_domains t 2) = 1)"

lemma add_member_fields [simp]:
  "g_cpu_topology (add_member t d m) = g_cpu_topology t"
  "g_domain_count (add_member t d m) = g_domain_count t"
  "sd_level (g_sched_domains (add_member t d m) k) = sd_level (g_sched_domains t k)"
  "sd_parent_domain (g_sched_domains (add_member t d m) k) = sd_parent_domain (g_sched_domains t k)"
  "k \<noteq> unat d \<Longrightarrow> g_sched_domains (add_member t d m) k = g_sched_domains t k"
  by (simp_all add: add_member_def Let_def)

lemma add_member_domain:
  assumes "length (sd_members (g_sched_domains t (unat d))) = 16"
    "unat (sd_member_count (g_sched_domains t (unat d))) < 16"
  shows "domain_members (g_sched_domains (add_member t d m) (unat d))
      = domain_members (g_sched_domains t (unat d)) @ [m]"
    "unat (sd_member_count (g_sched_domains (add_member t d m) (unat d)))
      = unat (sd_member_count (g_sched_domains t (unat d))) + 1"
    "length (sd_members (g_sched_domains (add_member t d m) (unat d))) = 16"
  using assms
  by (simp_all add: add_member_def Let_def XAIOS_SCHED_DOMAIN_MAX_MEMBERS_def word_less_nat_alt
      domain_members_def take_Suc_conv_app_nth)

lemma set_domain_fields [simp]:
  "g_cpu_topology (set_domain t d l p) = g_cpu_topology t"
  "g_domain_count (set_domain t d l p) = g_domain_count t"
  "k \<noteq> unat d \<Longrightarrow> g_sched_domains (set_domain t d l p) k = g_sched_domains t k"
  "sd_level (g_sched_domains (set_domain t d l p) (unat d)) = l"
  "sd_parent_domain (g_sched_domains (set_domain t d l p) (unat d)) = p"
  "sd_members (g_sched_domains (set_domain t d l p) (unat d)) = sd_members (g_sched_domains t (unat d))"
  "sd_member_count (g_sched_domains (set_domain t d l p) (unat d)) = 0"
  by (simp_all add: set_domain_def)

text \<open>Putting CPU \<open>n\<close> into its group, whether the group is new or open.\<close>

lemma core_domain_grow:
  assumes n: "n < 256" and old: "core_domain_ok n (n div 16) (g_sched_domains t (3 + n div 16)) \<or>
      (n mod 16 = 0 \<and> sd_level (g_sched_domains t (3 + n div 16)) = 0 \<and>
       sd_parent_domain (g_sched_domains t (3 + n div 16)) = 2 \<and>
       length (sd_members (g_sched_domains t (3 + n div 16))) = 16 \<and>
       sd_member_count (g_sched_domains t (3 + n div 16)) = 0)"
    and u: "unat d = 3 + n div 16"
  shows "core_domain_ok (Suc n) (n div 16) (g_sched_domains (add_member t d (of_nat n)) (3 + n div 16))"
proof -
  let ?dom = "g_sched_domains t (3 + n div 16)"
  define g where "g = n div 16"
  define r where "r = n mod 16"
  have n16: "n = 16 * g + r" "r < 16" by (simp_all add: g_def r_def)
  have len: "length (sd_members ?dom) = 16" using old by (auto simp: core_domain_ok_def)
  have cnt: "unat (sd_member_count ?dom) = r"
    using old n16(2) unfolding g_def [symmetric] r_def [symmetric] by (auto simp: core_domain_ok_def n16(1))
  have mem: "domain_members ?dom = map of_nat [16 * g ..< n]"
  proof (cases "r = 0")
    case True
    then show ?thesis using cnt n16(1) by (simp add: domain_members_def)
  next
    case False
    have "min n (16 * g + 16) = n" using n16 by simp
    with old False show ?thesis unfolding g_def [symmetric] r_def [symmetric] by (auto simp: core_domain_ok_def)
  qed
  note am = add_member_domain [of t d "of_nat n", unfolded u, OF len]
  have lp: "sd_level ?dom = 0" "sd_parent_domain ?dom = 2" using old by (auto simp: core_domain_ok_def)
  have m: "min (Suc n) (16 * g + 16) = Suc n" and c: "Suc n - 16 * g = r + 1" using n16 by simp_all
  have "[16 * g ..< Suc n] = [16 * g ..< n] @ [n]" using n16(1) by simp
  then show ?thesis
    using am cnt mem lp n16(2) unfolding core_domain_ok_def g_def [symmetric] m c by simp
qed

lemma core_domain_full: "16 * g + 16 \<le> n \<Longrightarrow> core_domain_ok (Suc n) g d = core_domain_ok n g d"
  by (simp add: core_domain_ok_def)

text \<open>Everything but the growing group is unchanged by a turn.\<close>

lemma topo_inv_grow:
  assumes inv: "topo_inv n (core, t)" and n: "n < 256" and u: "unat d = 3 + n div 16"
    and cnt: "unat (g_domain_count t') = 3 + (Suc n + 15) div 16"
    and top: "g_cpu_topology t' = (g_cpu_topology t)(n := e)" "ct_sched_domain_id e = d" "ct_numa_node e = 0"
    and grow: "core_domain_ok (Suc n) (n div 16) (g_sched_domains t' (3 + n div 16))"
    and same: "\<And>k. k \<noteq> 2 \<Longrightarrow> k \<noteq> 3 + n div 16 \<Longrightarrow> g_sched_domains t' k = g_sched_domains t k"
    and two: "sd_level (g_sched_domains t' 2) = 1" "sd_parent_domain (g_sched_domains t' 2) = 1"
  shows "topo_inv (Suc n) (d, t')"
proof -
  have d: "d = of_nat (3 + n div 16)" using u [symmetric] by simp
  have "core_domain_ok (Suc n) g (g_sched_domains t' (3 + g))" if "16 * g < Suc n" for g
  proof (cases "g = n div 16")
    case True
    with grow show ?thesis by simp
  next
    case False
    with that have "16 * g + 16 \<le> n" by linarith
    then show ?thesis
      using inv False same [of "3 + g"] core_domain_full [of g n] by (simp add: topo_inv_def)
  qed
  moreover have "g_sched_domains t' (3 + g) = zero_domain" if "Suc n \<le> 16 * g" for g
  proof -
    have "g \<noteq> n div 16" using that by linarith
    then show ?thesis using inv that same [of "3 + g"] by (simp add: topo_inv_def)
  qed
  moreover have "ct_sched_domain_id (g_cpu_topology t' c) = of_nat (3 + c div 16) \<and>
      ct_numa_node (g_cpu_topology t' c) = 0" if "c < Suc n" for c
    using inv that top d by (cases "c = n") (auto simp: topo_inv_def)
  moreover have "sd_level (g_sched_domains t' 1) = 2" using inv same [of 1] by (simp add: topo_inv_def)
  ultimately show ?thesis using cnt d two unfolding topo_inv_def by simp
qed

lemma topo_invD:
  assumes "topo_inv n (core, t)"
  shows "unat (g_domain_count t) = 3 + (n + 15) div 16" "0 < n \<Longrightarrow> core = of_nat (3 + (n - 1) div 16)"
    "16 * g < n \<Longrightarrow> core_domain_ok n g (g_sched_domains t (3 + g))"
    "n \<le> 16 * g \<Longrightarrow> g_sched_domains t (3 + g) = zero_domain"
    "sd_level (g_sched_domains t 2) = 1" "sd_parent_domain (g_sched_domains t 2) = 1"
    "c < n \<Longrightarrow> ct_sched_domain_id (g_cpu_topology t c) = of_nat (3 + c div 16)"
    "c < n \<Longrightarrow> ct_numa_node (g_cpu_topology t c) = 0"
    "sd_level (g_sched_domains t 1) = 2"
  using assms unfolding topo_inv_def prod.case by blast+

definition cpu_entry :: "nat \<Rightarrow> u32 \<Rightarrow> xaios_cpu_topology" where
  "cpu_entry n core = \<lparr>ct_cpu_id = of_nat n, ct_numa_node = 0, ct_socket_id = 0, ct_core_id = of_nat n,
      ct_thread_id = 0, ct_sched_domain_id = core\<rparr>"

lemma cpu_entry_simps [simp]: "ct_sched_domain_id (cpu_entry n c) = c" "ct_numa_node (cpu_entry n c) = 0"
  by (simp_all add: cpu_entry_def)

lemma smp_cpu_state_small: "n < 256 \<Longrightarrow> smp_cpu_state smp (of_nat n) = Some (g_cpu_states smp ! n)"
  by (simp add: smp_cpu_state_def cpu_at_def XAIOS_MAX_CPUS_def word_le_nat_alt unat_of_nat_small)

lemma topo_step_new:
  assumes inv: "topo_inv n (core, t)" and n: "n < 256" and on: "cs_online (g_cpu_states smp ! n) \<noteq> 0"
    and m: "n mod 16 = 0"
  shows "topo_inv (Suc n) (topology_add_cpu smp 2 n (core, t))"
proof -
  define d where "d = g_domain_count t"
  obtain g where g: "n = 16 * g" using m by auto
  have "(n + 15) div 16 = n div 16" unfolding g by simp
  then have ud: "unat d = 3 + n div 16" using topo_invD(1) [OF inv] by (simp add: d_def)
  have "unat d < 8192" using ud n by linarith
  then have small: "\<not> g_domain_count t \<ge> TOPOLOGY_MAX_DOMAINS"
    by (simp add: d_def TOPOLOGY_MAX_DOMAINS_def word_le_nat_alt)
  define t2 where "t2 = add_member (set_domain (t\<lparr>g_domain_count := d + 1\<rparr>) d 0 2) 2 d"
  define t3 where "t3 = t2\<lparr>g_cpu_topology := (g_cpu_topology t2)(n := cpu_entry n d)\<rparr>"
  have step: "topology_add_cpu smp 2 n (core, t) = (d, add_member t3 d (of_nat n))"
    using on m small smp_cpu_state_small [OF n, of smp]
    by (simp add: topology_add_cpu_def next_domain_id_def Let_def t3_def t2_def cpu_entry_def d_def)
  have ne: "unat d \<noteq> unat (2 :: u32)" using ud by simp
  have "n \<le> 16 * (n div 16)" unfolding g by simp
  then have zero: "g_sched_domains t (unat d) = zero_domain" unfolding ud by (rule topo_invD [OF inv])
  have dom: "sd_level (g_sched_domains t3 (unat d)) = 0" "sd_parent_domain (g_sched_domains t3 (unat d)) = 2"
    "length (sd_members (g_sched_domains t3 (unat d))) = 16" "sd_member_count (g_sched_domains t3 (unat d)) = 0"
    using ne zero by (simp_all add: t3_def t2_def zero_domain_def)
  have two: "sd_level (g_sched_domains t3 2) = 1" "sd_parent_domain (g_sched_domains t3 2) = 1"
    using topo_invD(5,6) [OF inv] ne by (simp_all add: t3_def t2_def)
  have frame: "g_sched_domains t3 k = g_sched_domains t k" if "k \<noteq> 2" "k \<noteq> unat d" for k
    using that by (simp add: t3_def t2_def)
  have cnt: "unat (d + 1) = 3 + (Suc n + 15) div 16"
  proof -
    have "(Suc n + 15) div 16 = n div 16 + 1" unfolding g by simp
    moreover have "unat (d + 1) = unat d + 1" using \<open>unat d < 8192\<close> by (intro unat_inc) simp
    ultimately show ?thesis using ud by simp
  qed
  show ?thesis
    unfolding step
  proof (rule topo_inv_grow [OF inv n ud, where e = "cpu_entry n d"])
    show "unat (g_domain_count (add_member t3 d (of_nat n))) = 3 + (Suc n + 15) div 16"
      using cnt by (simp add: t3_def t2_def)
    show "core_domain_ok (Suc n) (n div 16) (g_sched_domains (add_member t3 d (of_nat n)) (3 + n div 16))"
      using dom m by (intro core_domain_grow [OF n _ ud]) (simp add: ud)
    show "g_sched_domains (add_member t3 d (of_nat n)) k = g_sched_domains t k" if "k \<noteq> 2" "k \<noteq> 3 + n div 16" for k
      using that frame by (simp add: ud)
    show "g_cpu_topology (add_member t3 d (of_nat n)) = (g_cpu_topology t)(n := cpu_entry n d)"
      by (simp add: t3_def t2_def)
  qed (use two in simp_all)
qed

lemma topo_step_open:
  assumes inv: "topo_inv n (core, t)" and n: "n < 256" and on: "cs_online (g_cpu_states smp ! n) \<noteq> 0"
    and m: "n mod 16 \<noteq> 0"
  shows "topo_inv (Suc n) (topology_add_cpu smp 2 n (core, t))"
proof -
  define g where "g = n div 16"
  define r where "r = n mod 16 - 1"
  have gr: "n = 16 * g + Suc r" "r < 15"
    using m div_mult_mod_eq [of n 16] mod_less_divisor [of 16 n] by (auto simp: g_def r_def)
  have dv: "n div 16 = g" "(n - 1) div 16 = g" "(n + 15) div 16 = g + 1" "(Suc n + 15) div 16 = g + 1"
    using gr by linarith+
  have core: "core = of_nat (3 + n div 16)"
    using topo_invD(2) [OF inv] gr dv by simp
  then have uc: "unat core = 3 + n div 16" using n by (simp add: unat_of_nat_small del: of_nat_add)
  define t1 where "t1 = t\<lparr>g_cpu_topology := (g_cpu_topology t)(n := cpu_entry n core)\<rparr>"
  have step: "topology_add_cpu smp 2 n (core, t) = (core, add_member t1 core (of_nat n))"
    using on m smp_cpu_state_small [OF n, of smp] by (simp add: topology_add_cpu_def Let_def t1_def cpu_entry_def)
  have "16 * (n div 16) < n" using gr dv by simp
  then have old: "core_domain_ok n (n div 16) (g_sched_domains t1 (3 + n div 16))"
    using topo_invD(3) [OF inv] by (simp add: t1_def)
  have ne: "(2 :: nat) \<noteq> unat core" using uc by simp
  have dom: "g_sched_domains t1 = g_sched_domains t" "g_domain_count t1 = g_domain_count t" by (simp_all add: t1_def)
  show ?thesis
    unfolding step
  proof (rule topo_inv_grow [OF inv n uc, where e = "cpu_entry n core"])
    show "unat (g_domain_count (add_member t1 core (of_nat n))) = 3 + (Suc n + 15) div 16"
      using topo_invD(1) [OF inv] dv by (simp add: dom)
    show "core_domain_ok (Suc n) (n div 16) (g_sched_domains (add_member t1 core (of_nat n)) (3 + n div 16))"
      using old by (intro core_domain_grow [OF n _ uc]) simp
    show "g_sched_domains (add_member t1 core (of_nat n)) k = g_sched_domains t k" if "k \<noteq> 2" "k \<noteq> 3 + n div 16" for k
      using that by (simp add: uc dom)
    show "g_cpu_topology (add_member t1 core (of_nat n)) = (g_cpu_topology t)(n := cpu_entry n core)"
      by (simp add: t1_def)
  qed (use topo_invD(5,6) [OF inv] ne dom in simp_all)
qed

lemma topo_fold:
  "n \<le> 256 \<Longrightarrow> \<forall>c<n. cs_online (g_cpu_states smp ! c) \<noteq> 0 \<Longrightarrow> topo_inv 0 st \<Longrightarrow>
   topo_inv n (fold (topology_add_cpu smp 2) [0 ..< n] st)"
proof (induction n)
  case (Suc n)
  obtain core t where f: "fold (topology_add_cpu smp 2) [0 ..< n] st = (core, t)" by fastforce
  have "topo_inv n (core, t)" using Suc f by simp
  then have "topo_inv (Suc n) (topology_add_cpu smp 2 n (core, t))"
    using Suc.prems by (cases "n mod 16 = 0") (auto intro: topo_step_new topo_step_open)
  with f show ?case by simp
qed simp

lemma topology_init_inv:
  assumes "smp_online_count smp \<noteq> 0" "unat (smp_online_count smp) \<le> 256"
    "\<forall>c<unat (smp_online_count smp). cs_online (g_cpu_states smp ! c) \<noteq> 0"
  shows "\<exists>core t. topology_init t0 smp = t\<lparr>g_topology_initialized := 1\<rparr> \<and> topo_inv (unat (smp_online_count smp)) (core, t)"
proof -
  let ?t = "t0\<lparr>g_cpu_topology := (\<lambda>_. zero_topology), g_sched_domains := (\<lambda>_. zero_domain), g_domain_count := 0\<rparr>"
  let ?t1 = "set_domain (?t\<lparr>g_domain_count := 1\<rparr>) 0 3 UINT32_MAX"
  let ?t2 = "add_member (set_domain (?t1\<lparr>g_domain_count := 2\<rparr>) 1 2 0) 0 1"
  let ?t3 = "add_member (set_domain (?t2\<lparr>g_domain_count := 3\<rparr>) 2 1 1) 1 2"
  have u: "unat (1 :: u32) = 1" "unat (2 :: u32) = 2" by simp_all
  have doms: "sd_level (g_sched_domains ?t3 1) = 2" "sd_level (g_sched_domains ?t3 2) = 1"
    "sd_parent_domain (g_sched_domains ?t3 2) = 1" "g_sched_domains ?t3 (3 + g) = zero_domain" for g
    by (simp_all add: add_member_def set_domain_def Let_def)
  have "topo_inv 0 (UINT32_MAX, ?t3)"
    using doms unfolding topo_inv_def by simp
  then have inv: "topo_inv (unat (smp_online_count smp))
      (fold (topology_add_cpu smp 2) [0 ..< unat (smp_online_count smp)] (UINT32_MAX, ?t3))"
    by (rule topo_fold [OF assms(2,3)])
  have init: "topology_init t0 smp =
      (snd (fold (topology_add_cpu smp 2) [0 ..< unat (smp_online_count smp)] (UINT32_MAX, ?t3)))
        \<lparr>g_topology_initialized := 1\<rparr>"
    using assms(1)
    by (simp add: topology_init_def next_domain_id_def TOPOLOGY_MAX_DOMAINS_def Let_def split_beta word_le_nat_alt)
  obtain core t where f: "fold (topology_add_cpu smp 2) [0 ..< unat (smp_online_count smp)] (UINT32_MAX, ?t3) = (core, t)"
    by fastforce
  show ?thesis using inv init unfolding f by auto
qed

text \<open>
  C23: The hierarchy of scheduling domains. When the first \<open>n\<close> CPUs are the online ones
  (\<open>0 < n \<le> 256\<close>), after \<^verbatim>\<open>topology_init\<close> each of them has as core domain a level-0 domain whose
  members are exactly the online CPUs of its group of sixteen, in order; the NUMA domain
  found for it is a level-2 domain; and \<^verbatim>\<open>topology_get_socket_domain\<close> answers with that NUMA
  domain, not with the level-1 socket domain its name promises.
\<close>

theorem topology_init_hierarchy:
  assumes on: "smp_online_count smp \<noteq> 0" "unat (smp_online_count smp) \<le> 256"
      "\<forall>c<unat (smp_online_count smp). cs_online (g_cpu_states smp ! c) \<noteq> 0"
    and c: "c < unat (smp_online_count smp)" and t: "t = topology_init t0 smp"
  shows "(\<exists>d. topology_get_domain t (topology_get_core_domain t (of_nat c)) = Some d \<and> sd_level d = 0 \<and>
      domain_members d = map of_nat [16 * (c div 16) ..< min (unat (smp_online_count smp)) (16 * (c div 16) + 16)]) \<and>
    (\<exists>d. topology_get_domain t (topology_get_numa_domain t (of_nat c)) = Some d \<and> sd_level d = 2) \<and>
    topology_get_socket_domain t (of_nat c) = topology_get_numa_domain t (of_nat c)"
proof -
  let ?n = "unat (smp_online_count smp)"
  obtain core ti where ti: "t = ti\<lparr>g_topology_initialized := 1\<rparr>" and inv: "topo_inv ?n (core, ti)"
    using topology_init_inv [OF on, of t0] t by blast
  have c256: "c < 256" using c on(2) by simp
  have uc: "unat (of_nat c :: u32) = c" using c256 by (intro unat_of_nat_small) simp
  have ready: "topology_ready t (of_nat c)"
    using c256 uc by (simp add: topology_ready_def ti XAIOS_MAX_CPUS_def word_le_nat_alt)
  define k where "k = 3 + c div 16"
  have k: "k < 8192" using c256 by (simp add: k_def)
  have uk: "unat (of_nat k :: u32) = k" using k by (intro unat_of_nat_small) simp
  have dom: "g_sched_domains t = g_sched_domains ti" "g_cpu_topology t = g_cpu_topology ti"
    "g_topology_initialized t = 1" by (simp_all add: ti)
  have cd: "ct_sched_domain_id (g_cpu_topology t c) = of_nat k"
    unfolding dom k_def by (rule topo_invD(7) [OF inv c])
  have "16 * (c div 16) < ?n" using c by linarith
  then have ok: "core_domain_ok ?n (c div 16) (g_sched_domains t k)"
    unfolding dom k_def by (rule topo_invD(3) [OF inv])
  have klt: "(of_nat k :: u32) < TOPOLOGY_MAX_DOMAINS" "\<not> TOPOLOGY_MAX_DOMAINS \<le> (of_nat k :: u32)"
    using k uk by (simp_all add: TOPOLOGY_MAX_DOMAINS_def word_less_nat_alt word_le_nat_alt)
  have lv: "sd_level (g_sched_domains t 1) = 2" "sd_level (g_sched_domains t 2) = 1" "sd_parent_domain (g_sched_domains t 2) = 1"
    unfolding dom using topo_invD(5,6,9) [OF inv] by simp_all
  have small: "(1 :: u32) < TOPOLOGY_MAX_DOMAINS" "(2 :: u32) < TOPOLOGY_MAX_DOMAINS" "(2 :: u32) \<noteq> UINT32_MAX"
    "(1 :: u32) \<noteq> UINT32_MAX" "\<not> TOPOLOGY_MAX_DOMAINS \<le> (1 :: u32)" "\<not> TOPOLOGY_MAX_DOMAINS \<le> (2 :: u32)"
    by (simp_all add: TOPOLOGY_MAX_DOMAINS_def UINT32_MAX_def word_less_nat_alt word_le_nat_alt)
  have lk: "sd_level (g_sched_domains t k) = 0" "sd_parent_domain (g_sched_domains t k) = 2"
    using ok by (simp_all add: core_domain_ok_def)
  have "topology_get_core_domain t (of_nat c) = of_nat k"
    using ready cd uc by (simp add: topology_get_core_domain_def)
  moreover have "topology_get_numa_domain t (of_nat c) = 1"
  proof -
    have "numa_walk t (of_nat k) (Suc (Suc (Suc 1))) = 1" using uk klt lk lv small by simp
    then show ?thesis using ready cd uc by (simp add: topology_get_numa_domain_def numeral_eq_Suc)
  qed
  moreover have "topology_get_socket_domain t (of_nat c) = 1"
    using ready cd uc uk klt lk lv small by (simp add: topology_get_socket_domain_def Let_def)
  moreover have "topology_get_domain t (of_nat k) = Some (g_sched_domains t k)" "topology_get_domain t 1 = Some (g_sched_domains t 1)"
    using uk klt small dom by (simp_all add: topology_get_domain_def)
  ultimately show ?thesis using ok lv by (simp add: core_domain_ok_def)
qed

definition demo_smp :: smp_state where
  "demo_smp = \<lparr>g_cpu_states = replicate 256 \<lparr>cs_cpu_id = 0, cs_online = 1, cs_mpidr = 0,
     cs_role = XAIOS_CPU_ROLE_SCHEDULING, cs_lease_owner_id = 0, cs_irq_routed_away = 0,
     cs_tick_suppressed = 0, cs_migration_count = 0, cs_involuntary_context_switch_count = 0,
     cs_scheduling_enabled = 1, cs_steal_count = 0\<rparr>, g_online_count = 20\<rparr>"

definition bss_topology :: topology_state where
  "bss_topology = \<lparr>g_cpu_topology = (\<lambda>_. zero_topology), g_sched_domains = (\<lambda>_. zero_domain),
     g_domain_count = 0, g_topology_initialized = 0\<rparr>"

theorem topology_init_hierarchy_witness:
  "\<exists>d. topology_get_domain (topology_init bss_topology demo_smp) (topology_get_core_domain (topology_init bss_topology demo_smp) 17) = Some d \<and>
     domain_members d = [16, 17, 18, 19]"
proof -
  have on: "smp_online_count demo_smp = 20" by (simp add: smp_online_count_def demo_smp_def)
  have "\<forall>c<20. cs_online (g_cpu_states demo_smp ! c) \<noteq> 0" by (simp add: demo_smp_def)
  then obtain d where "topology_get_domain (topology_init bss_topology demo_smp) (topology_get_core_domain (topology_init bss_topology demo_smp) 17) = Some d"
      "domain_members d = map of_nat [16 ..< 20]"
    using topology_init_hierarchy [of demo_smp 17 "topology_init bss_topology demo_smp" bss_topology] by (auto simp: on)
  then show ?thesis by (simp add: upt_rec)
qed

end
