(* ===== verification/Runqueue.thy ===== *)
theory Runqueue
  imports Prelude
begin

text \<open>
  The run queue of one CPU in \<^verbatim>\<open>kernel/sched/scheduler.c\<close>: an array of 128 process ids with a
  counter, and its operations \<^verbatim>\<open>rq_index\<close>, \<^verbatim>\<open>rq_add\<close>, \<^verbatim>\<open>rq_remove\<close>. They refine a list without
  duplicates.
\<close>

section \<open>Model\<close>

definition XAIOS_SCHEDULER_PER_CPU_RUNQUEUE :: u32 where
  "XAIOS_SCHEDULER_PER_CPU_RUNQUEUE = 128"

record xaios_runqueue =
  rq_tasks :: "u32 list"
  rq_count :: u32
  rq_current_pid :: u32
  rq_cpu_id :: u32
  rq_idle_ticks :: u64
  rq_busy_ticks :: u64

definition rq_index :: "xaios_runqueue \<Rightarrow> u32 \<Rightarrow> u32" where
  "rq_index rq pid =
     (case find_slot (\<lambda>p. p = pid) (take (unat (rq_count rq)) (rq_tasks rq)) of
        Some i \<Rightarrow> of_nat i | None \<Rightarrow> 0xffffffff)"

definition rq_add :: "xaios_runqueue \<Rightarrow> u32 \<Rightarrow> xaios_runqueue" where
  "rq_add rq pid =
     (if rq_count rq < XAIOS_SCHEDULER_PER_CPU_RUNQUEUE \<and> rq_index rq pid = 0xffffffff
      then rq\<lparr>rq_tasks := (rq_tasks rq)[unat (rq_count rq) := pid], rq_count := rq_count rq + 1\<rparr>
      else rq)"

text \<open>The shift loop of a removal: \<^verbatim>\<open>for (i = idx; i + 1 < count; ++i) tasks[i] = tasks[i + 1]\<close>.\<close>

definition rq_shift :: "u32 list \<Rightarrow> nat \<Rightarrow> nat \<Rightarrow> u32 list" where
  "rq_shift ts idx count = fold (\<lambda>i a. a[i := a ! (i + 1)]) [idx ..< count - 1] ts"

definition rq_remove :: "xaios_runqueue \<Rightarrow> u32 \<Rightarrow> xaios_runqueue" where
  "rq_remove rq pid =
     (let idx = rq_index rq pid in
      if idx = 0xffffffff then rq
      else rq\<lparr>rq_tasks := rq_shift (rq_tasks rq) (unat idx) (unat (rq_count rq)),
              rq_count := rq_count rq - 1\<rparr>)"

section \<open>Refinement to lists\<close>

definition rq_inv :: "xaios_runqueue \<Rightarrow> bool" where
  "rq_inv rq \<longleftrightarrow> length (rq_tasks rq) = 128 \<and> unat (rq_count rq) \<le> 128 \<and>
     distinct (take (unat (rq_count rq)) (rq_tasks rq))"

definition rq_list :: "xaios_runqueue \<Rightarrow> u32 list" where
  "rq_list rq = take (unat (rq_count rq)) (rq_tasks rq)"

lemma rq_list_length [simp]: "rq_inv rq \<Longrightarrow> length (rq_list rq) = unat (rq_count rq)"
  by (simp add: rq_inv_def rq_list_def)

lemma rq_list_distinct: "rq_inv rq \<Longrightarrow> distinct (rq_list rq)"
  by (simp add: rq_inv_def rq_list_def)

lemma rq_index_absent:
  assumes "rq_inv rq"
  shows "rq_index rq pid = 0xffffffff \<longleftrightarrow> pid \<notin> set (rq_list rq)"
proof (cases "find_slot (\<lambda>p. p = pid) (rq_list rq)")
  case None
  then have "pid \<notin> set (rq_list rq)" by (auto simp: find_slot_None_iff)
  with None show ?thesis by (simp add: rq_index_def rq_list_def [symmetric])
next
  case (Some i)
  have "i < 128" using find_slot_bound [OF Some] assms by (simp add: rq_inv_def)
  then have "(of_nat i :: u32) \<noteq> 0xffffffff" by (simp add: word_eq_unat unat_of_nat_small)
  moreover have "pid \<in> set (rq_list rq)" using find_slot_bound [OF Some] find_slot_holds [OF Some] by (metis nth_mem)
  ultimately show ?thesis using Some by (simp add: rq_index_def rq_list_def [symmetric])
qed

lemma rq_index_present:
  assumes "rq_inv rq" "pid \<in> set (rq_list rq)"
  obtains i where "unat (rq_index rq pid) = i" "i < unat (rq_count rq)" "rq_list rq ! i = pid" "i < 128"
proof -
  obtain i where i: "find_slot (\<lambda>p. p = pid) (rq_list rq) = Some i"
    using assms(2) by (cases "find_slot (\<lambda>p. p = pid) (rq_list rq)") (auto simp: find_slot_None_iff)
  have b: "i < unat (rq_count rq)" "rq_list rq ! i = pid" "i < 128"
    using find_slot_bound [OF i] find_slot_holds [OF i] assms(1) by (auto simp: rq_inv_def)
  then have "unat (rq_index rq pid) = i"
    using i by (simp add: rq_index_def rq_list_def [symmetric] unat_of_nat_small)
  with b that show ?thesis by blast
qed

lemma rq_add_spec:
  assumes inv: "rq_inv rq"
  shows "rq_inv (rq_add rq pid)"
    and "rq_list (rq_add rq pid) =
      (if pid \<in> set (rq_list rq) \<or> length (rq_list rq) = 128 then rq_list rq else rq_list rq @ [pid])"
proof -
  have full: "rq_count rq < XAIOS_SCHEDULER_PER_CPU_RUNQUEUE \<longleftrightarrow> length (rq_list rq) \<noteq> 128"
    using inv by (auto simp: XAIOS_SCHEDULER_PER_CPU_RUNQUEUE_def word_less_nat_alt rq_inv_def rq_list_def)
  show l: "rq_list (rq_add rq pid) =
      (if pid \<in> set (rq_list rq) \<or> length (rq_list rq) = 128 then rq_list rq else rq_list rq @ [pid])"
    using inv full rq_index_absent [OF inv, of pid]
    by (auto simp: rq_add_def rq_inv_def rq_list_def take_Suc_conv_app_nth)
  have "unat (rq_count rq + 1) \<le> 128" "length (rq_tasks (rq_add rq pid)) = 128" if "length (rq_list rq) \<noteq> 128"
    using that inv by (auto simp: rq_inv_def rq_list_def rq_add_def)
  moreover have "distinct (rq_list (rq_add rq pid))" unfolding l using rq_list_distinct [OF inv] by simp
  ultimately show "rq_inv (rq_add rq pid)"
    using inv full by (auto simp: rq_inv_def rq_add_def rq_list_def)
qed

lemma rq_shift_nth:
  "idx \<le> n \<Longrightarrow> n < length ts \<Longrightarrow>
   length (fold (\<lambda>i a. a[i := a ! (i + 1)]) [idx ..< n] ts) = length ts \<and>
   (\<forall>j<length ts. fold (\<lambda>i a. a[i := a ! (i + 1)]) [idx ..< n] ts ! j
      = (if idx \<le> j \<and> j < n then ts ! (j + 1) else ts ! j))"
proof (induction n)
  case (Suc n)
  show ?case
  proof (cases "idx = Suc n")
    case False
    with Suc have ih: "length (fold (\<lambda>i a. a[i := a ! (i + 1)]) [idx ..< n] ts) = length ts"
      "\<And>j. j < length ts \<Longrightarrow> fold (\<lambda>i a. a[i := a ! (i + 1)]) [idx ..< n] ts ! j
        = (if idx \<le> j \<and> j < n then ts ! (j + 1) else ts ! j)" by auto
    have "[idx ..< Suc n] = [idx ..< n] @ [n]" using False Suc.prems by simp
    then show ?thesis
      using ih Suc.prems by (auto simp: nth_list_update less_Suc_eq)
  qed auto
qed auto

lemma rq_shift_list:
  assumes "idx < n" "n \<le> length ts"
  shows "take (n - 1) (rq_shift ts idx n) = take idx ts @ drop (idx + 1) (take n ts)"
    "length (rq_shift ts idx n) = length ts"
proof -
  have le: "idx \<le> n - 1" "n - 1 < length ts" using assms by auto
  note sh = rq_shift_nth [OF le]
  then show len: "length (rq_shift ts idx n) = length ts" by (simp add: rq_shift_def)
  show "take (n - 1) (rq_shift ts idx n) = take idx ts @ drop (idx + 1) (take n ts)"
  proof (rule nth_equalityI)
    show "length (take (n - 1) (rq_shift ts idx n)) = length (take idx ts @ drop (idx + 1) (take n ts))"
      using assms len by simp
    fix j assume "j < length (take (n - 1) (rq_shift ts idx n))"
    then have j: "j < n - 1" "j < length ts" using len by auto
    have "rq_shift ts idx n ! j = (if idx \<le> j then ts ! (j + 1) else ts ! j)"
      using sh j by (simp add: rq_shift_def)
    then show "take (n - 1) (rq_shift ts idx n) ! j = (take idx ts @ drop (idx + 1) (take n ts)) ! j"
      using j assms by (auto simp: nth_append)
  qed
qed

lemma remove1_nth:
  "distinct xs \<Longrightarrow> i < length xs \<Longrightarrow> remove1 (xs ! i) xs = take i xs @ drop (i + 1) xs"
proof (induction xs arbitrary: i)
  case (Cons x xs)
  then show ?case by (cases i) auto
qed simp

lemma rq_remove_spec:
  assumes inv: "rq_inv rq"
  shows "rq_inv (rq_remove rq pid)" and "rq_list (rq_remove rq pid) = remove1 pid (rq_list rq)"
proof -
  have both: "rq_inv (rq_remove rq pid) \<and> rq_list (rq_remove rq pid) = remove1 pid (rq_list rq)"
  proof (cases "pid \<in> set (rq_list rq)")
    case False
    then have "rq_remove rq pid = rq" using rq_index_absent [OF inv] by (simp add: rq_remove_def)
    with inv False show ?thesis by (simp add: remove1_idem)
  next
    case True
    obtain i where i: "unat (rq_index rq pid) = i" "i < unat (rq_count rq)" "rq_list rq ! i = pid"
      using rq_index_present [OF inv True] by blast
    let ?n = "unat (rq_count rq)"
    have n: "?n \<le> length (rq_tasks rq)" "?n \<le> 128" using inv by (auto simp: rq_inv_def)
    have c: "unat (rq_count rq - 1) = ?n - 1"
      using i(2) unat_sub_le [of 1 "rq_count rq"] by (simp add: word_le_nat_alt)
    have eq: "rq_remove rq pid = rq\<lparr>rq_tasks := rq_shift (rq_tasks rq) i ?n, rq_count := rq_count rq - 1\<rparr>"
      using True rq_index_absent [OF inv] i(1) by (simp add: rq_remove_def)
    have l: "rq_list (rq_remove rq pid) = remove1 pid (rq_list rq)"
    proof -
      have "rq_list (rq_remove rq pid) = take i (rq_tasks rq) @ drop (i + 1) (rq_list rq)"
        unfolding eq using rq_shift_list(1) [OF i(2) n(1)] by (simp add: rq_list_def c)
      also have "take i (rq_tasks rq) = take i (rq_list rq)" using i(2) by (simp add: rq_list_def min_def)
      also have "take i (rq_list rq) @ drop (i + 1) (rq_list rq) = remove1 (rq_list rq ! i) (rq_list rq)"
        using remove1_nth [OF rq_list_distinct [OF inv], of i] i(2) inv by simp
      finally show ?thesis by (simp add: i(3))
    qed
    moreover have "distinct (rq_list (rq_remove rq pid))" unfolding l using rq_list_distinct [OF inv] by simp
    then have "rq_inv (rq_remove rq pid)"
      using n c rq_shift_list(2) [OF i(2) n(1)] inv unfolding eq by (simp add: rq_inv_def rq_list_def)
    ultimately show ?thesis by simp
  qed
  then show "rq_inv (rq_remove rq pid)" "rq_list (rq_remove rq pid) = remove1 pid (rq_list rq)" by auto
qed

end
