(* ===== verification/Scheduler.thy ===== *)
theory Scheduler
  imports Topology Runqueue
begin

text \<open>
  \<^verbatim>\<open>kernel/sched/scheduler.c\<close>: per-CPU task tables and run queues, work stealing, placement,
  tick and yield. The executing CPU (\<^verbatim>\<open>smp_cpu_id()\<close>), the timer reading used as a seed and
  the outcome of \<^verbatim>\<open>xaios_spin_trylock\<close> on a victim's queue are arguments. A pointer into a task
  table is its slot number. The compare-and-swap of a slot claim succeeds (no other core
  claims in the same instant). A call is one step of the model, also where the code has several lock sections: a steal
  releases the victim's queue before it moves the task entry and locks its own queue, and the tick reads
  queues without their lock. What other CPUs do in these gaps is not modelled. The calls of \<^verbatim>\<open>user_switch_address_space\<close> are recorded.
\<close>

section \<open>Data\<close>

definition XAIOS_SCHEDULER_MAX_TASKS :: u32 where
  "XAIOS_SCHEDULER_MAX_TASKS = 32768"

definition XAIOS_TASK_SLOTS_PER_CPU :: nat where
  "XAIOS_TASK_SLOTS_PER_CPU = 128"

datatype xaios_task_priority =
    XAIOS_PRIORITY_HIGH
  | XAIOS_PRIORITY_NORMAL
  | XAIOS_PRIORITY_LOW

datatype xaios_task_state =
    XAIOS_TASK_STATE_UNUSED
  | XAIOS_TASK_STATE_REGISTERED
  | XAIOS_TASK_STATE_RUNNABLE
  | XAIOS_TASK_STATE_RUNNING
  | XAIOS_TASK_STATE_BLOCKED

text \<open>The enumeration values order the priorities: a smaller value is more urgent.\<close>

fun priority_value :: "xaios_task_priority \<Rightarrow> nat" where
  "priority_value XAIOS_PRIORITY_HIGH = 0"
| "priority_value XAIOS_PRIORITY_NORMAL = 1"
| "priority_value XAIOS_PRIORITY_LOW = 2"

instantiation xaios_task_priority :: linorder
begin

definition less_eq_xaios_task_priority :: "xaios_task_priority \<Rightarrow> xaios_task_priority \<Rightarrow> bool" where
  "less_eq_xaios_task_priority a b \<longleftrightarrow> priority_value a \<le> priority_value b"

definition less_xaios_task_priority :: "xaios_task_priority \<Rightarrow> xaios_task_priority \<Rightarrow> bool" where
  "less_xaios_task_priority a b \<longleftrightarrow> priority_value a < priority_value b"

instance
proof
  fix a b :: xaios_task_priority
  show "a \<le> b \<Longrightarrow> b \<le> a \<Longrightarrow> a = b"
    by (cases a; cases b) (simp_all add: less_eq_xaios_task_priority_def)
qed (auto simp: less_eq_xaios_task_priority_def less_xaios_task_priority_def)

end

record xaios_context_frame =
  cf_regs :: "u64 list"
  cf_sp_el1 :: u64
  cf_sp_el0 :: u64
  cf_elr_el1 :: u64
  cf_spsr_el1 :: u64

record xaios_sched_task =
  st_pid :: u32
  st_active :: u32
  st_frame :: xaios_context_frame
  st_tick_count :: u64
  st_switch_count :: u64
  st_priority :: xaios_task_priority
  st_state :: xaios_task_state
  st_assigned_cpu :: u32
  st_remaining_ticks :: u32

record xaios_cpu_task_table =
  tt_slot_bitmap :: "u64 list"
  tt_tasks :: "xaios_sched_task list"

record xaios_sched_stats =
  ss_tick_count :: u64
  ss_context_switch_count :: u64
  ss_yield_count :: u64
  ss_steal_success_count :: u64
  ss_steal_fail_count :: u64
  ss_load_balance_count :: u64
  ss_migration_count :: u64
  ss_idle_ticks :: u64
  ss_busy_ticks :: u64

record sched_state =
  g_cpu_tasks :: "xaios_cpu_task_table list"
  g_runqueues :: "xaios_runqueue list"
  g_sched_stats :: "xaios_sched_stats list"
  g_tick_count :: u64
  g_context_switch_count :: u64
  g_yield_count :: u64
  g_steal_count :: u64
  g_initialized :: u32
  g_lock_depth_per_cpu :: "u32 list"
  g_balance_counter :: u32
  sc_smp :: smp_state
  sc_topology :: topology_state
  sc_switches :: "u32 list"

definition zero_frame :: xaios_context_frame where
  "zero_frame = \<lparr>cf_regs = replicate 31 0, cf_sp_el1 = 0, cf_sp_el0 = 0, cf_elr_el1 = 0, cf_spsr_el1 = 0\<rparr>"

definition zero_task :: xaios_sched_task where
  "zero_task = \<lparr>st_pid = 0, st_active = 0, st_frame = zero_frame, st_tick_count = 0, st_switch_count = 0,
     st_priority = XAIOS_PRIORITY_HIGH, st_state = XAIOS_TASK_STATE_UNUSED, st_assigned_cpu = 0,
     st_remaining_ticks = 0\<rparr>"

definition zero_stats :: xaios_sched_stats where
  "zero_stats = \<lparr>ss_tick_count = 0, ss_context_switch_count = 0, ss_yield_count = 0,
     ss_steal_success_count = 0, ss_steal_fail_count = 0, ss_load_balance_count = 0,
     ss_migration_count = 0, ss_idle_ticks = 0, ss_busy_ticks = 0\<rparr>"

section \<open>Task tables\<close>

abbreviation table_at :: "sched_state \<Rightarrow> u32 \<Rightarrow> xaios_cpu_task_table" where
  "table_at s cpu \<equiv> g_cpu_tasks s ! unat cpu"

abbreviation task_at :: "sched_state \<Rightarrow> u32 \<Rightarrow> nat \<Rightarrow> xaios_sched_task" where
  "task_at s cpu i \<equiv> tt_tasks (table_at s cpu) ! i"

definition put_table :: "sched_state \<Rightarrow> u32 \<Rightarrow> xaios_cpu_task_table \<Rightarrow> sched_state" where
  "put_table s cpu t = s\<lparr>g_cpu_tasks := (g_cpu_tasks s)[unat cpu := t]\<rparr>"

definition put_task :: "sched_state \<Rightarrow> u32 \<Rightarrow> nat \<Rightarrow> xaios_sched_task \<Rightarrow> sched_state" where
  "put_task s cpu i t = put_table s cpu
     ((table_at s cpu)\<lparr>tt_tasks := (tt_tasks (table_at s cpu))[i := t]\<rparr>)"

definition slot_claimed :: "xaios_cpu_task_table \<Rightarrow> nat \<Rightarrow> bool" where
  "slot_claimed t i \<longleftrightarrow> (tt_slot_bitmap t ! (i div 64) AND push_bit (i mod 64) 1) \<noteq> 0"

definition find_task_local :: "sched_state \<Rightarrow> u32 \<Rightarrow> u32 \<Rightarrow> nat option" where
  "find_task_local s cpu_id pid =
     (if cpu_id \<ge> XAIOS_MAX_CPUS then None
      else find_slot (\<lambda>i. slot_claimed (table_at s cpu_id) i \<and> st_active (task_at s cpu_id i) \<noteq> 0 \<and>
                          st_pid (task_at s cpu_id i) = pid) [0 ..< XAIOS_TASK_SLOTS_PER_CPU])"

text \<open>The first clear bit of one bitmap word.\<close>

definition free_bit :: "u64 \<Rightarrow> nat option" where
  "free_bit bitmap =
     (if bitmap \<noteq> 0xffffffffffffffff
      then find_slot (\<lambda>b. bitmap AND push_bit b 1 = 0) [0 ..< 64] else None)"

definition claim_slot :: "sched_state \<Rightarrow> u32 \<Rightarrow> nat \<Rightarrow> nat \<Rightarrow> nat option \<times> sched_state" where
  "claim_slot s cpu_id w b =
     (let t = table_at s cpu_id
      in (Some (w * 64 + b), put_table s cpu_id
            (t\<lparr>tt_slot_bitmap := (tt_slot_bitmap t)[w := tt_slot_bitmap t ! w OR push_bit b 1],
               tt_tasks := (tt_tasks t)[w * 64 + b := zero_task]\<rparr>)))"

definition alloc_task_slot :: "sched_state \<Rightarrow> u32 \<Rightarrow> nat option \<times> sched_state" where
  "alloc_task_slot s cpu_id =
     (if cpu_id \<ge> XAIOS_MAX_CPUS then (None, s)
      else case free_bit (tt_slot_bitmap (table_at s cpu_id) ! 0) of
        Some b \<Rightarrow> claim_slot s cpu_id 0 b
      | None \<Rightarrow>
          (case free_bit (tt_slot_bitmap (table_at s cpu_id) ! 1) of
             Some b \<Rightarrow> claim_slot s cpu_id 1 b
           | None \<Rightarrow> (None, s)))"

definition free_task_slot :: "sched_state \<Rightarrow> u32 \<Rightarrow> nat option \<Rightarrow> sched_state" where
  "free_task_slot s cpu_id task =
     (case task of
        None \<Rightarrow> s
      | Some index \<Rightarrow>
          if cpu_id \<ge> XAIOS_MAX_CPUS \<or> index \<ge> XAIOS_TASK_SLOTS_PER_CPU then s
          else let t = table_at s cpu_id; w = index div 64; b = index mod 64
               in put_table s cpu_id (t\<lparr>tt_slot_bitmap := (tt_slot_bitmap t)
                    [w := tt_slot_bitmap t ! w AND NOT (push_bit b 1)]\<rparr>))"

fun priority_slice :: "xaios_task_priority \<Rightarrow> u32" where
  "priority_slice XAIOS_PRIORITY_HIGH = 4"
| "priority_slice XAIOS_PRIORITY_NORMAL = 2"
| "priority_slice XAIOS_PRIORITY_LOW = 1"

section \<open>Choosing a task\<close>

abbreviation rq_at :: "sched_state \<Rightarrow> u32 \<Rightarrow> xaios_runqueue" where
  "rq_at s cpu \<equiv> g_runqueues s ! unat cpu"

definition put_rq :: "sched_state \<Rightarrow> u32 \<Rightarrow> xaios_runqueue \<Rightarrow> sched_state" where
  "put_rq s cpu rq = s\<lparr>g_runqueues := (g_runqueues s)[unat cpu := rq]\<rparr>"

fun pick_scan :: "sched_state \<Rightarrow> u32 \<Rightarrow> u32 list \<Rightarrow> u32 \<Rightarrow> xaios_task_priority \<Rightarrow> u32" where
  "pick_scan s cpu [] best_pid best_prio = best_pid"
| "pick_scan s cpu (p # ps) best_pid best_prio =
     (let (bp, bq) = (case find_task_local s cpu p of
                        Some i \<Rightarrow> if st_priority (task_at s cpu i) < best_prio
                                  then (st_pid (task_at s cpu i), st_priority (task_at s cpu i))
                                  else (best_pid, best_prio)
                      | None \<Rightarrow> (best_pid, best_prio))
      in if bq = XAIOS_PRIORITY_HIGH then bp else pick_scan s cpu ps bp bq)"

definition rq_pick_best :: "sched_state \<Rightarrow> xaios_runqueue \<Rightarrow> u32 \<Rightarrow> u32 \<times> xaios_runqueue" where
  "rq_pick_best s rq cpu_id =
     (if rq_count rq = 0 then (0, rq)
      else let best_pid = pick_scan s cpu_id (take (unat (rq_count rq)) (rq_tasks rq))
                            (rq_tasks rq ! 0) XAIOS_PRIORITY_LOW
           in (best_pid, rq_remove rq best_pid))"

fun steal_scan :: "sched_state \<Rightarrow> u32 \<Rightarrow> u32 \<Rightarrow> u32 list \<Rightarrow> u32 \<Rightarrow> xaios_task_priority \<Rightarrow> u32" where
  "steal_scan s cpu current [] best_pid best_prio = best_pid"
| "steal_scan s cpu current (p # ps) best_pid best_prio =
     (if p = current then steal_scan s cpu current ps best_pid best_prio
      else case find_task_local s cpu p of
        None \<Rightarrow> steal_scan s cpu current ps best_pid best_prio
      | Some i \<Rightarrow>
          let q = st_priority (task_at s cpu i)
          in if q \<le> best_prio \<and> (q < best_prio \<or> best_pid = 0)
             then steal_scan s cpu current ps p q
             else steal_scan s cpu current ps best_pid best_prio)"

definition rq_pick_stealable :: "sched_state \<Rightarrow> xaios_runqueue \<Rightarrow> u32 \<Rightarrow> u32 \<times> xaios_runqueue" where
  "rq_pick_stealable s victim victim_cpu =
     (if rq_count victim = 0 then (0, victim)
      else let best_pid = steal_scan s victim_cpu (rq_current_pid victim)
                            (take (unat (rq_count victim)) (rq_tasks victim)) 0 XAIOS_PRIORITY_LOW
           in if best_pid \<noteq> 0 then (best_pid, rq_remove victim best_pid) else (best_pid, victim))"

section \<open>Work stealing\<close>

definition put_stats :: "sched_state \<Rightarrow> u32 \<Rightarrow> (xaios_sched_stats \<Rightarrow> xaios_sched_stats) \<Rightarrow> sched_state" where
  "put_stats s cpu f = s\<lparr>g_sched_stats := (g_sched_stats s)[unat cpu := f (g_sched_stats s ! unat cpu)]\<rparr>"

text \<open>What the thief does with a task it got: the task stays in the table of the victim.\<close>

definition adopt_task :: "sched_state \<Rightarrow> u32 \<Rightarrow> u32 \<Rightarrow> u32 \<Rightarrow> sched_state" where
  "adopt_task s this_cpu victim stolen_pid =
     (let s1 = (case find_task_local s victim stolen_pid of
                  Some i \<Rightarrow> put_task s victim i ((task_at s victim i)
                    \<lparr>st_assigned_cpu := this_cpu,
                     st_remaining_ticks := priority_slice (st_priority (task_at s victim i))\<rparr>)
                | None \<Rightarrow> s);
          s2 = put_rq s1 this_cpu (rq_add (rq_at s1 this_cpu) stolen_pid);
          s3 = put_stats s2 this_cpu (\<lambda>t. t\<lparr>ss_steal_success_count := ss_steal_success_count t + 1\<rparr>)
      in s3\<lparr>g_steal_count := g_steal_count s3 + 1\<rparr>)"

fun steal_loop :: "(u32 \<Rightarrow> bool) \<Rightarrow> sched_state \<Rightarrow> u32 \<Rightarrow> u32 list \<Rightarrow> nat \<Rightarrow> u32 \<times> sched_state" where
  "steal_loop trylock s this_cpu [] attempts = (0, s)"
| "steal_loop trylock s this_cpu (victim # vs) attempts =
     (if attempts \<ge> 3 then (0, s)
      else if victim = this_cpu then steal_loop trylock s this_cpu vs attempts
      else case smp_cpu_state (sc_smp s) victim of
        None \<Rightarrow> steal_loop trylock s this_cpu vs attempts
      | Some state \<Rightarrow>
          if cs_online state = 0 \<or> cs_scheduling_enabled state = 0 \<or> rq_count (rq_at s victim) \<le> 2
          then steal_loop trylock s this_cpu vs attempts
          else if trylock victim
          then let (stolen_pid, rq) = rq_pick_stealable s (rq_at s victim) victim; s1 = put_rq s victim rq
               in if stolen_pid \<noteq> 0 then (stolen_pid, adopt_task s1 this_cpu victim stolen_pid)
                  else steal_loop trylock s1 this_cpu vs (attempts + 1)
          else steal_loop trylock s this_cpu vs attempts)"

definition try_steal_domain :: "(u32 \<Rightarrow> bool) \<Rightarrow> sched_state \<Rightarrow> u32 \<Rightarrow> u32 \<Rightarrow> u32 \<times> sched_state" where
  "try_steal_domain trylock s this_cpu domain_id =
     (if domain_id = UINT32_MAX then (0, s)
      else case topology_get_domain (sc_topology s) domain_id of
        None \<Rightarrow> (0, s)
      | Some sdom \<Rightarrow>
          if sd_member_count sdom = 0 then (0, s)
          else let (stolen_pid, s1) =
                     steal_loop trylock s this_cpu (take (unat (sd_member_count sdom)) (sd_members sdom)) 0
               in if stolen_pid \<noteq> 0 then (stolen_pid, s1)
                  else (0, put_stats s1 this_cpu (\<lambda>t. t\<lparr>ss_steal_fail_count := ss_steal_fail_count t + 1\<rparr>)))"

definition try_steal_hierarchical :: "(u32 \<Rightarrow> bool) \<Rightarrow> sched_state \<Rightarrow> u32 \<Rightarrow> u32 \<times> sched_state" where
  "try_steal_hierarchical trylock s this_cpu =
     (let core_domain = topology_get_core_domain (sc_topology s) this_cpu;
          (stolen, s1) = try_steal_domain trylock s this_cpu core_domain
      in if stolen \<noteq> 0 then (stolen, s1)
         else let socket_domain = topology_get_socket_domain (sc_topology s1) this_cpu;
                  (stolen, s2) = try_steal_domain trylock s1 this_cpu socket_domain
              in if stolen \<noteq> 0 then (stolen, s2)
                 else let numa_domain = topology_get_numa_domain (sc_topology s2) this_cpu
                      in if numa_domain \<noteq> socket_domain then try_steal_domain trylock s2 this_cpu numa_domain
                         else (0, s2))"

section \<open>Placement and balancing\<close>

definition placement_role :: "xaios_cpu_state \<Rightarrow> bool" where
  "placement_role state \<longleftrightarrow>
     cs_role state = XAIOS_CPU_ROLE_SCHEDULING \<or> cs_role state = XAIOS_CPU_ROLE_HOUSEKEEPING"

definition placeable :: "sched_state \<Rightarrow> u32 \<Rightarrow> bool" where
  "placeable s cpu \<longleftrightarrow>
     (case smp_cpu_state (sc_smp s) cpu of
        None \<Rightarrow> False | Some state \<Rightarrow> cs_online state \<noteq> 0 \<and> placement_role state)"

definition find_least_loaded_cpu :: "sched_state \<Rightarrow> u32 \<Rightarrow> u64 \<Rightarrow> u32" where
  "find_least_loaded_cpu s this_cpu timer_counter =
     (let online = smp_online_count (sc_smp s)
      in if online = 0 then 0
         else let local_node = topology_get_numa_node_for_cpu (sc_topology s) this_cpu;
                  start = ucast timer_counter mod online;
                  cpus = map (\<lambda>i. (start + of_nat i) mod online) [0 ..< unat online];
                  near = (\<lambda>cpu. placeable s cpu \<and>
                           (local_node \<noteq> UINT32_MAX \<longrightarrow>
                              topology_get_numa_node_for_cpu (sc_topology s) cpu = local_node))
              in case find near cpus of
                   Some cpu \<Rightarrow> cpu
                 | None \<Rightarrow> (case find (placeable s) cpus of Some cpu \<Rightarrow> cpu | None \<Rightarrow> 0))"

fun busiest_scan :: "sched_state \<Rightarrow> u32 list \<Rightarrow> u32 \<times> u32 \<Rightarrow> u32 \<times> u32" where
  "busiest_scan s [] best = best"
| "busiest_scan s (cpu # cpus) best =
     busiest_scan s cpus (if rq_count (rq_at s cpu) > snd best then (cpu, rq_count (rq_at s cpu)) else best)"

definition periodic_load_balance :: "sched_state \<Rightarrow> u32 \<Rightarrow> sched_state" where
  "periodic_load_balance s this_cpu =
     (let s1 = s\<lparr>g_balance_counter := g_balance_counter s + 1\<rparr>
      in if g_balance_counter s mod 1000 \<noteq> 0 then s1
         else let core_domain = topology_get_core_domain (sc_topology s) this_cpu
              in if core_domain = UINT32_MAX then s1
                 else case topology_get_domain (sc_topology s) core_domain of
                   None \<Rightarrow> s1
                 | Some sdom \<Rightarrow>
                     if sd_member_count sdom = 0 then s1
                     else let (busiest_cpu, busiest_count) =
                                busiest_scan s (take (unat (sd_member_count sdom)) (sd_members sdom))
                                  (UINT32_MAX, 0);
                              local_count = rq_count (rq_at s this_cpu)
                          in if busiest_count > local_count * 2 \<and> busiest_count > 4 \<and>
                                busiest_cpu \<noteq> UINT32_MAX \<and> busiest_cpu \<noteq> this_cpu
                             then put_stats s1 this_cpu
                                    (\<lambda>t. t\<lparr>ss_load_balance_count := ss_load_balance_count t + 1\<rparr>)
                             else s1)"

section \<open>Registration and state changes\<close>

definition zero_task_table :: xaios_cpu_task_table where
  "zero_task_table = \<lparr>tt_slot_bitmap = [0, 0], tt_tasks = replicate XAIOS_TASK_SLOTS_PER_CPU zero_task\<rparr>"

definition reset_rq :: "nat \<Rightarrow> xaios_runqueue \<Rightarrow> xaios_runqueue" where
  "reset_rq cpu rq = rq\<lparr>rq_count := 0, rq_current_pid := 0, rq_cpu_id := of_nat cpu,
     rq_idle_ticks := 0, rq_busy_ticks := 0\<rparr>"

definition init_cpu :: "nat \<Rightarrow> sched_state \<Rightarrow> sched_state" where
  "init_cpu cpu s = s\<lparr>g_cpu_tasks := (g_cpu_tasks s)[cpu := zero_task_table],
     g_runqueues := (g_runqueues s)[cpu := reset_rq cpu (g_runqueues s ! cpu)],
     g_sched_stats := (g_sched_stats s)[cpu := zero_stats]\<rparr>"

definition scheduler_init :: "sched_state \<Rightarrow> sched_state" where
  "scheduler_init s =
     (fold init_cpu [0 ..< unat (smp_online_count (sc_smp s))] s)
       \<lparr>g_tick_count := 0, g_context_switch_count := 0, g_yield_count := 0, g_steal_count := 0,
        g_balance_counter := 0, g_lock_depth_per_cpu := replicate (unat XAIOS_MAX_CPUS) 0,
        g_initialized := 1\<rparr>"

definition scheduler_register_with_priority ::
  "sched_state \<Rightarrow> u32 \<Rightarrow> u64 \<Rightarrow> u32 \<Rightarrow> xaios_task_priority \<Rightarrow> xaios_status \<times> sched_state" where
  "scheduler_register_with_priority s this_cpu timer_counter pid priority =
     (if pid = 0 \<or> pid > XAIOS_SCHEDULER_MAX_TASKS then (XAIOS_ERR_INVALID, s)
      else let cpu = find_least_loaded_cpu s this_cpu timer_counter
           in case alloc_task_slot s cpu of
                (None, s1) \<Rightarrow> (XAIOS_ERR_NO_MEMORY, s1)
              | (Some slot, s1) \<Rightarrow>
                  (XAIOS_OK, put_task s1 cpu slot ((task_at s1 cpu slot)
                     \<lparr>st_pid := pid, st_active := 1, st_priority := priority,
                      st_state := XAIOS_TASK_STATE_REGISTERED,
                      st_remaining_ticks := priority_slice priority, st_assigned_cpu := cpu\<rparr>)))"

definition scheduler_register :: "sched_state \<Rightarrow> u32 \<Rightarrow> u64 \<Rightarrow> u32 \<Rightarrow> xaios_status \<times> sched_state" where
  "scheduler_register s this_cpu timer_counter pid =
     scheduler_register_with_priority s this_cpu timer_counter pid XAIOS_PRIORITY_NORMAL"

definition scheduler_unregister :: "sched_state \<Rightarrow> u32 \<Rightarrow> u32 \<Rightarrow> sched_state" where
  "scheduler_unregister s cpu pid =
     (case find_task_local s cpu pid of
        None \<Rightarrow> s
      | Some i \<Rightarrow>
          let assigned = st_assigned_cpu (task_at s cpu i);
              s1 = put_task s cpu i ((task_at s cpu i)\<lparr>st_active := 0, st_state := XAIOS_TASK_STATE_UNUSED\<rparr>);
              s2 = free_task_slot s1 cpu (Some i)
          in if assigned < XAIOS_MAX_CPUS
             then let rq = rq_remove (rq_at s2 assigned) pid
                  in put_rq s2 assigned (if rq_current_pid rq = pid then rq\<lparr>rq_current_pid := 0\<rparr> else rq)
             else s2)"

definition scheduler_set_runnable :: "sched_state \<Rightarrow> u32 \<Rightarrow> u32 \<Rightarrow> xaios_status \<times> sched_state" where
  "scheduler_set_runnable s cpu pid =
     (case find_task_local s cpu pid of
        None \<Rightarrow> (XAIOS_ERR_INVALID, s)
      | Some i \<Rightarrow>
          let assigned = st_assigned_cpu (task_at s cpu i);
              s1 = put_task s cpu i ((task_at s cpu i)\<lparr>st_state := XAIOS_TASK_STATE_RUNNABLE,
                     st_remaining_ticks := priority_slice (st_priority (task_at s cpu i))\<rparr>)
          in (XAIOS_OK, if assigned < XAIOS_MAX_CPUS
                        then put_rq s1 assigned (rq_add (rq_at s1 assigned) pid) else s1))"

definition scheduler_set_blocked :: "sched_state \<Rightarrow> u32 \<Rightarrow> u32 \<Rightarrow> xaios_status \<times> sched_state" where
  "scheduler_set_blocked s cpu pid =
     (case find_task_local s cpu pid of
        None \<Rightarrow> (XAIOS_ERR_INVALID, s)
      | Some i \<Rightarrow>
          let assigned = st_assigned_cpu (task_at s cpu i);
              s1 = put_task s cpu i ((task_at s cpu i)\<lparr>st_state := XAIOS_TASK_STATE_BLOCKED\<rparr>)
          in (XAIOS_OK, if assigned < XAIOS_MAX_CPUS
                        then put_rq s1 assigned (rq_remove (rq_at s1 assigned) pid) else s1))"

definition scheduler_task_frame :: "sched_state \<Rightarrow> u32 \<Rightarrow> u32 \<Rightarrow> xaios_context_frame option" where
  "scheduler_task_frame s cpu pid = map_option (\<lambda>i. st_frame (task_at s cpu i)) (find_task_local s cpu pid)"

definition scheduler_lock :: "sched_state \<Rightarrow> u32 \<Rightarrow> sched_state" where
  "scheduler_lock s cpu =
     (if cpu < XAIOS_MAX_CPUS
      then s\<lparr>g_lock_depth_per_cpu := (g_lock_depth_per_cpu s)[unat cpu := g_lock_depth_per_cpu s ! unat cpu + 1]\<rparr>
      else s)"

definition scheduler_unlock :: "sched_state \<Rightarrow> u32 \<Rightarrow> sched_state" where
  "scheduler_unlock s cpu =
     (if cpu < XAIOS_MAX_CPUS \<and> g_lock_depth_per_cpu s ! unat cpu > 0
      then s\<lparr>g_lock_depth_per_cpu := (g_lock_depth_per_cpu s)[unat cpu := g_lock_depth_per_cpu s ! unat cpu - 1]\<rparr>
      else s)"

section \<open>Tick and yield\<close>

text \<open>The accounting of the interrupted task at the head of a tick.\<close>

definition tick_account :: "sched_state \<Rightarrow> u32 \<Rightarrow> u32 \<Rightarrow> xaios_context_frame \<Rightarrow> sched_state" where
  "tick_account s cpu current_pid irq_frame =
     (if current_pid = 0 then s
      else case find_task_local s cpu current_pid of
        None \<Rightarrow> s
      | Some i \<Rightarrow>
          let t = task_at s cpu i
          in put_task s cpu i (t\<lparr>st_frame := irq_frame, st_tick_count := st_tick_count t + 1,
               st_remaining_ticks := (if st_remaining_ticks t > 0 then st_remaining_ticks t - 1
                                      else st_remaining_ticks t)\<rparr>))"

text \<open>Whether the tick reschedules, and the round-robin re-queue of an expired slice.\<close>

definition tick_decide :: "sched_state \<Rightarrow> u32 \<Rightarrow> u32 \<Rightarrow> bool \<times> sched_state" where
  "tick_decide s cpu current_pid =
     (if current_pid = 0 then (True, s)
      else case find_task_local s cpu current_pid of
        None \<Rightarrow> (True, s)
      | Some i \<Rightarrow>
          let t = task_at s cpu i
          in if st_state t \<noteq> XAIOS_TASK_STATE_RUNNABLE then (True, s)
             else if st_remaining_ticks t = 0
             then let s1 = put_task s cpu i (t\<lparr>st_state := XAIOS_TASK_STATE_RUNNABLE,
                             st_remaining_ticks := priority_slice (st_priority t)\<rparr>)
                  in (True, put_rq s1 cpu (rq_add (rq_at s1 cpu) current_pid))
             else (False, s))"

definition busy_tick :: "sched_state \<Rightarrow> u32 \<Rightarrow> sched_state" where
  "busy_tick s cpu =
     put_stats (put_rq s cpu ((rq_at s cpu)\<lparr>rq_busy_ticks := rq_busy_ticks (rq_at s cpu) + 1\<rparr>)) cpu
       (\<lambda>t. t\<lparr>ss_busy_ticks := ss_busy_ticks t + 1\<rparr>)"

text \<open>The dispatch of the chosen task at the end of a tick; the result carries the frame the
  interrupt returns to.\<close>

definition tick_switch ::
  "sched_state \<Rightarrow> u32 \<Rightarrow> u32 \<Rightarrow> u32 \<Rightarrow> xaios_context_frame \<Rightarrow> sched_state \<times> xaios_context_frame" where
  "tick_switch s cpu current_pid next_pid irq_frame =
     (if next_pid = 0
      then let rq = rq_at s cpu;
               s1 = put_rq s cpu (rq\<lparr>rq_idle_ticks := rq_idle_ticks rq + 1, rq_current_pid := 0\<rparr>);
               s2 = put_stats s1 cpu (\<lambda>t. t\<lparr>ss_idle_ticks := ss_idle_ticks t + 1\<rparr>)
           in (periodic_load_balance s2 cpu, irq_frame)
      else if next_pid = current_pid then (busy_tick s cpu, irq_frame)
      else case find_task_local s cpu next_pid of
        None \<Rightarrow> (s, irq_frame)
      | Some i \<Rightarrow>
          let t = task_at s cpu i;
              s1 = put_task s cpu i (t\<lparr>st_state := XAIOS_TASK_STATE_RUNNING,
                     st_switch_count := st_switch_count t + 1\<rparr>);
              rq = rq_at s1 cpu;
              s2 = put_rq s1 cpu (rq\<lparr>rq_current_pid := next_pid, rq_busy_ticks := rq_busy_ticks rq + 1\<rparr>);
              s3 = put_stats (s2\<lparr>g_context_switch_count := g_context_switch_count s2 + 1\<rparr>) cpu
                     (\<lambda>t. t\<lparr>ss_context_switch_count := ss_context_switch_count t + 1\<rparr>)
          in (s3\<lparr>sc_switches := sc_switches s3 @ [next_pid]\<rparr>, st_frame (task_at s3 cpu i)))"

definition scheduler_tick ::
  "(u32 \<Rightarrow> bool) \<Rightarrow> sched_state \<Rightarrow> u32 \<Rightarrow> xaios_context_frame \<Rightarrow> sched_state \<times> xaios_context_frame" where
  "scheduler_tick trylock s cpu irq_frame =
     (if g_initialized s = 0 then (s, irq_frame)
      else if cpu \<ge> XAIOS_MAX_CPUS \<or> g_lock_depth_per_cpu s ! unat cpu > 0 then (s, irq_frame)
      else if (case smp_cpu_state (sc_smp s) cpu of
                 Some cpu_state \<Rightarrow> cs_scheduling_enabled cpu_state = 0 | None \<Rightarrow> False) then (s, irq_frame)
      else let s1 = put_stats (s\<lparr>g_tick_count := g_tick_count s + 1\<rparr>) cpu
                      (\<lambda>t. t\<lparr>ss_tick_count := ss_tick_count t + 1\<rparr>);
               current_pid = rq_current_pid (rq_at s1 cpu);
               s2 = tick_account s1 cpu current_pid irq_frame;
               (need_reschedule, s3) = tick_decide s2 cpu current_pid
           in if \<not> need_reschedule then (busy_tick s3 cpu, irq_frame)
              else let (next_pid, rq) = rq_pick_best s3 (rq_at s3 cpu) cpu;
                       s4 = put_rq s3 cpu rq;
                       (next_pid, s5) = (if next_pid = 0 then try_steal_hierarchical trylock s4 cpu
                                         else (next_pid, s4))
                   in tick_switch s5 cpu current_pid next_pid irq_frame)"

definition yield_requeue :: "sched_state \<Rightarrow> u32 \<Rightarrow> u32 \<Rightarrow> sched_state" where
  "yield_requeue s cpu current_pid =
     (if current_pid = 0 then s
      else case find_task_local s cpu current_pid of
        None \<Rightarrow> s
      | Some i \<Rightarrow>
          let s1 = put_task s cpu i ((task_at s cpu i)\<lparr>st_remaining_ticks := 0,
                     st_state := XAIOS_TASK_STATE_RUNNABLE\<rparr>)
          in put_rq s1 cpu (rq_add (rq_at s1 cpu) current_pid))"

definition yield_switch :: "sched_state \<Rightarrow> u32 \<Rightarrow> u32 \<Rightarrow> u32 \<Rightarrow> sched_state" where
  "yield_switch s cpu current_pid next_pid =
     (if next_pid \<noteq> 0 \<and> next_pid \<noteq> current_pid
      then let s1 = (case find_task_local s cpu next_pid of
                       None \<Rightarrow> s
                     | Some i \<Rightarrow> put_task s cpu i ((task_at s cpu i)\<lparr>st_state := XAIOS_TASK_STATE_RUNNING,
                                   st_switch_count := st_switch_count (task_at s cpu i) + 1\<rparr>));
               s2 = put_rq s1 cpu ((rq_at s1 cpu)\<lparr>rq_current_pid := next_pid\<rparr>);
               s3 = put_stats (s2\<lparr>g_context_switch_count := g_context_switch_count s2 + 1\<rparr>) cpu
                      (\<lambda>t. t\<lparr>ss_context_switch_count := ss_context_switch_count t + 1\<rparr>)
           in s3\<lparr>sc_switches := sc_switches s3 @ [next_pid]\<rparr>
      else s)"

definition scheduler_yield :: "sched_state \<Rightarrow> u32 \<Rightarrow> sched_state" where
  "scheduler_yield s cpu =
     (if g_initialized s = 0 then s
      else let s1 = s\<lparr>g_yield_count := g_yield_count s + 1\<rparr>
           in if cpu \<ge> XAIOS_MAX_CPUS then s1
              else let s2 = put_stats s1 cpu (\<lambda>t. t\<lparr>ss_yield_count := ss_yield_count t + 1\<rparr>);
                       current_pid = rq_current_pid (rq_at s2 cpu);
                       s3 = yield_requeue s2 cpu current_pid;
                       (next_pid, rq) = rq_pick_best s3 (rq_at s3 cpu) cpu
                   in yield_switch (put_rq s3 cpu rq) cpu current_pid next_pid)"

definition scheduler_current_pid_on_cpu :: "sched_state \<Rightarrow> u32 \<Rightarrow> u32" where
  "scheduler_current_pid_on_cpu s cpu_id =
     (if cpu_id \<ge> XAIOS_MAX_CPUS then 0 else rq_current_pid (rq_at s cpu_id))"

definition scheduler_current_pid :: "sched_state \<Rightarrow> u32 \<Rightarrow> u32" where
  "scheduler_current_pid s cpu = (if cpu \<ge> XAIOS_MAX_CPUS then 0 else rq_current_pid (rq_at s cpu))"

definition scheduler_runnable_count :: "sched_state \<Rightarrow> u32" where
  "scheduler_runnable_count s =
     (let online = smp_online_count (sc_smp s);
          limit = (if online < 32 then online else 32)
      in fold (\<lambda>cpu total. total + rq_count (g_runqueues s ! cpu)) [0 ..< unat limit] 0)"

definition scheduler_get_stats :: "sched_state \<Rightarrow> u32 \<Rightarrow> xaios_sched_stats option" where
  "scheduler_get_stats s cpu_id = (if cpu_id \<ge> XAIOS_MAX_CPUS then None else Some (g_sched_stats s ! unat cpu_id))"

end
