(* ===== verification/Sched_Safety.thy ===== *)
theory Sched_Safety
  imports Scheduler
begin

text \<open>
  Safety of \<^verbatim>\<open>kernel/sched/scheduler.c\<close>: whatever sequence of non-overlapping scheduler calls runs on the CPUs,
  a process is queued or current on at most one CPU, the one its task entry is assigned to.
  Then the choice by priority and two deviations of tick and registration from their intent.
\<close>

section \<open>Where a process is placed\<close>

definition slot_live :: "xaios_cpu_task_table list \<Rightarrow> nat \<Rightarrow> nat \<Rightarrow> u32 \<Rightarrow> bool" where
  "slot_live ts c i p \<longleftrightarrow> c < 256 \<and> i < 128 \<and> slot_claimed (ts ! c) i \<and>
     st_active (tt_tasks (ts ! c) ! i) \<noteq> 0 \<and> st_pid (tt_tasks (ts ! c) ! i) = p"

definition placed_on :: "xaios_cpu_task_table list \<Rightarrow> u32 \<Rightarrow> nat \<Rightarrow> bool" where
  "placed_on ts p a \<longleftrightarrow>
     (\<exists>c i. slot_live ts c i p \<and> unat (st_assigned_cpu (tt_tasks (ts ! c) ! i)) = a)"

definition registered :: "xaios_cpu_task_table list \<Rightarrow> u32 \<Rightarrow> bool" where
  "registered ts p \<longleftrightarrow> (\<exists>c i. slot_live ts c i p)"

definition busy_pids :: "xaios_runqueue \<Rightarrow> u32 set" where
  "busy_pids rq = set (rq_list rq) \<union> ({rq_current_pid rq} - {0})"

definition tables_wf :: "xaios_cpu_task_table list \<Rightarrow> bool" where
  "tables_wf ts \<longleftrightarrow> length ts = 256 \<and>
     (\<forall>t \<in> set ts. length (tt_slot_bitmap t) = 2 \<and> length (tt_tasks t) = 128)"

definition placement_inv :: "xaios_cpu_task_table list \<Rightarrow> xaios_runqueue list \<Rightarrow> bool" where
  "placement_inv ts qs \<longleftrightarrow> tables_wf ts \<and> length qs = 256 \<and> (\<forall>q \<in> set qs. rq_inv q) \<and>
     (\<forall>c i c' i' p. slot_live ts c i p \<longrightarrow> slot_live ts c' i' p \<longrightarrow> c = c' \<and> i = i') \<and>
     (\<forall>c i. \<not> slot_live ts c i 0) \<and>
     (\<forall>a<256. \<forall>p \<in> busy_pids (qs ! a). placed_on ts p a)"

abbreviation sched_inv :: "sched_state \<Rightarrow> bool" where
  "sched_inv s \<equiv> placement_inv (g_cpu_tasks s) (g_runqueues s)"

lemma placement_invD:
  assumes "placement_inv ts qs"
  shows "tables_wf ts" "length qs = 256"
    and "a < 256 \<Longrightarrow> rq_inv (qs ! a)"
    and "slot_live ts c i p \<Longrightarrow> slot_live ts c' i' p \<Longrightarrow> c = c' \<and> i = i'"
    and "\<not> slot_live ts c i 0"
    and "a < 256 \<Longrightarrow> p \<in> busy_pids (qs ! a) \<Longrightarrow> placed_on ts p a"
  using assms by (auto simp: placement_inv_def)

lemma placed_unique:
  assumes "placement_inv ts qs" "placed_on ts p a" "placed_on ts p b"
  shows "a = b"
  using assms placement_invD(4) [OF assms(1)] unfolding placed_on_def by metis

lemma placed_nonzero: "placement_inv ts qs \<Longrightarrow> placed_on ts p a \<Longrightarrow> p \<noteq> 0"
  using placement_invD(5) by (auto simp: placed_on_def)

lemma tables_wfD:
  assumes "tables_wf ts" "c < 256"
  shows "length (tt_slot_bitmap (ts ! c)) = 2" "length (tt_tasks (ts ! c)) = 128" "length ts = 256"
  using assms by (auto simp: tables_wf_def)

lemma tables_wf_update:
  assumes "tables_wf ts" "c < 256 \<Longrightarrow> length (tt_slot_bitmap t) = 2 \<and> length (tt_tasks t) = 128"
  shows "tables_wf (ts[c := t])"
  using assms set_update_subset_insert [of ts c t]
  by (cases "c < 256") (auto simp: tables_wf_def list_update_beyond)

lemma max_cpus [simp]: "cpu < XAIOS_MAX_CPUS \<longleftrightarrow> unat cpu < 256" "XAIOS_MAX_CPUS \<le> cpu \<longleftrightarrow> 256 \<le> unat cpu"
  by (simp_all add: XAIOS_MAX_CPUS_def word_less_nat_alt word_le_nat_alt)

lemma find_task_local_Some:
  assumes "find_task_local s cpu p = Some i"
  shows "slot_live (g_cpu_tasks s) (unat cpu) i p"
  using assms find_slot_bound [of _ "[0 ..< 128]" i] find_slot_holds [of _ "[0 ..< 128]" i]
  by (auto simp: find_task_local_def slot_live_def XAIOS_TASK_SLOTS_PER_CPU_def simp del: upt_rec_numeral split: if_splits)

lemma find_task_local_None:
  assumes "find_task_local s cpu p = None"
  shows "\<not> slot_live (g_cpu_tasks s) (unat cpu) i p"
  using assms
  by (auto simp: find_task_local_def slot_live_def XAIOS_TASK_SLOTS_PER_CPU_def find_slot_None_iff
      simp del: upt_rec_numeral split: if_splits)

lemma find_task_local_cong: "g_cpu_tasks s' = g_cpu_tasks s \<Longrightarrow> find_task_local s' = find_task_local s"
  by (intro ext) (simp add: find_task_local_def)

section \<open>The steps of the state\<close>

lemma state_parts [simp]:
  "g_cpu_tasks (put_stats s cpu f) = g_cpu_tasks s" "g_runqueues (put_stats s cpu f) = g_runqueues s"
  "g_cpu_tasks (put_rq s cpu rq) = g_cpu_tasks s"
  "g_runqueues (put_rq s cpu rq) = (g_runqueues s)[unat cpu := rq]"
  "g_cpu_tasks (put_table s cpu t) = (g_cpu_tasks s)[unat cpu := t]"
  "g_runqueues (put_table s cpu t) = g_runqueues s"
  "g_runqueues (put_task s cpu i t') = g_runqueues s"
  by (simp_all add: put_stats_def put_rq_def put_table_def put_task_def)

definition same_place :: "xaios_sched_task \<Rightarrow> xaios_sched_task \<Rightarrow> bool" where
  "same_place t t' \<longleftrightarrow> st_pid t' = st_pid t \<and> st_active t' = st_active t \<and> st_assigned_cpu t' = st_assigned_cpu t"

lemma put_task_live:
  assumes "tables_wf (g_cpu_tasks s)" "same_place (task_at s cpu i) t"
  shows "slot_live (g_cpu_tasks (put_task s cpu i t)) = slot_live (g_cpu_tasks s)"
    and "placed_on (g_cpu_tasks (put_task s cpu i t)) = placed_on (g_cpu_tasks s)"
    and "tables_wf (g_cpu_tasks (put_task s cpu i t))"
proof -
  let ?ts = "g_cpu_tasks s" let ?us = "g_cpu_tasks (put_task s cpu i t)"
  have task: "same_place (tt_tasks (?ts ! c) ! j) (tt_tasks (?us ! c) ! j)"
    and claim: "slot_claimed (?us ! c) j = slot_claimed (?ts ! c) j" if "c < 256" "j < 128" for c j
    using that assms tables_wfD [OF assms(1) that(1)]
    by (auto simp: put_task_def put_table_def nth_update_if slot_claimed_def same_place_def)
  show live: "slot_live ?us = slot_live ?ts"
    using task claim by (intro ext) (auto simp: slot_live_def same_place_def)
  show "placed_on ?us = placed_on ?ts"
    using task unfolding placed_on_def live same_place_def
    by (intro ext ex_cong1 conj_cong refl) (simp add: slot_live_def)
  show "tables_wf ?us"
    using assms(1) tables_wfD [OF assms(1), of "unat cpu"]
    by (cases "unat cpu < 256") (auto simp: put_task_def put_table_def tables_wf_update)
qed

lemma sched_inv_put_task:
  assumes "sched_inv s" "same_place (task_at s cpu i) t"
  shows "sched_inv (put_task s cpu i t)"
  using assms put_task_live [OF placement_invD(1) [OF assms(1)] assms(2)]
  by (simp add: placement_inv_def)

lemma placement_inv_put_rq:
  assumes "placement_inv ts qs" "rq_inv rq" "\<And>p. p \<in> busy_pids rq \<Longrightarrow> placed_on ts p a"
  shows "placement_inv ts (qs[a := rq])"
  using assms set_update_subset_insert [of qs a rq]
  by (auto simp: placement_inv_def nth_update_if split: if_splits)

lemma rq_inv_fields [simp]:
  "rq_inv (rq\<lparr>rq_current_pid := p\<rparr>) = rq_inv rq" "rq_list (rq\<lparr>rq_current_pid := p\<rparr>) = rq_list rq"
  "rq_inv (rq\<lparr>rq_busy_ticks := b\<rparr>) = rq_inv rq" "rq_list (rq\<lparr>rq_busy_ticks := b\<rparr>) = rq_list rq"
  "rq_inv (rq\<lparr>rq_idle_ticks := b\<rparr>) = rq_inv rq" "rq_list (rq\<lparr>rq_idle_ticks := b\<rparr>) = rq_list rq"
  by (simp_all add: rq_inv_def rq_list_def)

lemma rq_current_kept [simp]:
  "rq_current_pid (rq_add rq p) = rq_current_pid rq" "rq_current_pid (rq_remove rq p) = rq_current_pid rq"
  by (simp_all add: rq_add_def rq_remove_def Let_def)

lemma busy_pids_add: "rq_inv rq \<Longrightarrow> busy_pids (rq_add rq p) \<subseteq> insert p (busy_pids rq)"
  by (auto simp: busy_pids_def rq_add_spec)

lemma busy_pids_remove: "rq_inv rq \<Longrightarrow> busy_pids (rq_remove rq p) \<subseteq> busy_pids rq"
  using set_remove1_subset [of p "rq_list rq"] by (auto simp: busy_pids_def rq_remove_spec)

lemma sched_inv_rq_add:
  assumes "placement_inv ts qs" "a < 256" "placed_on ts p a"
  shows "placement_inv ts (qs[a := rq_add (qs ! a) p])"
  using assms placement_invD(3,6) [OF assms(1) assms(2)] busy_pids_add [of "qs ! a" p]
  by (intro placement_inv_put_rq) (auto simp: rq_add_spec(1))

lemma sched_inv_rq_remove:
  assumes "placement_inv ts qs" "a < 256"
  shows "placement_inv ts (qs[a := rq_remove (qs ! a) p])"
  using assms placement_invD(3,6) [OF assms] busy_pids_remove [of "qs ! a" p]
  by (intro placement_inv_put_rq) (auto simp: rq_remove_spec(1))

section \<open>Changes of the task tables\<close>

lemma push_bit_and: "b < 64 \<Longrightarrow> ((w :: u64) AND 2 ^ b \<noteq> 0) = bit w b"
  by (auto simp: word_and_0_iff bit_two_power)

lemma slot_claimed_bit: "slot_claimed t i \<longleftrightarrow> bit (tt_slot_bitmap t ! (i div 64)) (i mod 64)"
  by (simp add: slot_claimed_def push_bit_and)

lemma slot_claimed_set:
  assumes "length (tt_slot_bitmap t) = 2" "i < 128"
  shows "slot_claimed (t\<lparr>tt_slot_bitmap := (tt_slot_bitmap t)
           [i div 64 := tt_slot_bitmap t ! (i div 64) OR push_bit (i mod 64) 1], tt_tasks := x\<rparr>) j
         \<longleftrightarrow> j = i \<or> slot_claimed t j"
proof -
  have "j = i \<longleftrightarrow> j div 64 = i div 64 \<and> j mod 64 = i mod 64" by (metis mod_div_mult_eq)
  then show ?thesis
    using assms by (auto simp: slot_claimed_bit nth_update_if bit_or_iff bit_two_power)
qed

lemma slot_claimed_clear:
  assumes "length (tt_slot_bitmap t) = 2" "i < 128"
  shows "slot_claimed (t\<lparr>tt_slot_bitmap := (tt_slot_bitmap t)
           [i div 64 := tt_slot_bitmap t ! (i div 64) AND NOT (push_bit (i mod 64) 1)]\<rparr>) j
         \<longleftrightarrow> j \<noteq> i \<and> slot_claimed t j"
proof -
  have "j = i \<longleftrightarrow> j div 64 = i div 64 \<and> j mod 64 = i mod 64" by (metis mod_div_mult_eq)
  then show ?thesis
    using assms by (auto simp: slot_claimed_bit nth_update_if bit_and_iff bit_not_iff bit_two_power)
qed

text \<open>A change of one slot that makes it hold a process, or none, that runs nowhere.\<close>

lemma placement_inv_slot:
  assumes inv: "placement_inv ts qs" and c: "c < 256" and i: "i < 128"
    and len: "length (tt_slot_bitmap t) = 2" "length (tt_tasks t) = 128"
    and other: "\<And>j. j < 128 \<Longrightarrow> j \<noteq> i \<Longrightarrow> slot_claimed t j = slot_claimed (ts ! c) j \<and> tt_tasks t ! j = tt_tasks (ts ! c) ! j"
    and new: "\<And>p. slot_live (ts[c := t]) c i p \<Longrightarrow> p \<noteq> 0 \<and> (\<forall>c' i'. slot_live ts c' i' p \<longrightarrow> c' = c \<and> i' = i)"
    and idle: "\<And>p a. slot_live ts c i p \<Longrightarrow> a < 256 \<Longrightarrow> p \<notin> busy_pids (qs ! a)"
  shows "placement_inv (ts[c := t]) qs"
proof -
  have wf: "tables_wf ts" and l: "length ts = 256" using placement_invD(1) [OF inv] by (auto simp: tables_wf_def)
  have same: "slot_live (ts[c := t]) c' i' p = slot_live ts c' i' p"
    "slot_live ts c' i' p \<Longrightarrow> tt_tasks (ts[c := t] ! c') ! i' = tt_tasks (ts ! c') ! i'"
    if "(c', i') \<noteq> (c, i)" for c' i' p
    using that other [of i'] l c by (auto simp: slot_live_def nth_update_if)
  have U: "c1 = c2 \<and> i1 = i2" if h: "slot_live (ts[c := t]) c1 i1 p" "slot_live (ts[c := t]) c2 i2 p" for c1 i1 c2 i2 p
  proof (cases "(c1, i1) = (c, i) \<or> (c2, i2) = (c, i)")
    case True
    then have n: "slot_live (ts[c := t]) c i p" using h by auto
    show ?thesis using True same(1) [of c1 i1 p] same(1) [of c2 i2 p] h new [OF n] by auto
  next
    case False
    then show ?thesis using h same(1) placement_invD(4) [OF inv] by metis
  qed
  have Z: "\<not> slot_live (ts[c := t]) c' i' 0" for c' i'
    using new [of 0] same(1) [of c' i' 0] placement_invD(5) [OF inv] by (cases "(c', i') = (c, i)") auto
  have P: "placed_on (ts[c := t]) p a" if a: "a < 256" and p: "p \<in> busy_pids (qs ! a)" for p a
  proof -
    obtain c' i' where ci: "slot_live ts c' i' p" "unat (st_assigned_cpu (tt_tasks (ts ! c') ! i')) = a"
      using placement_invD(6) [OF inv a p] by (auto simp: placed_on_def)
    then have "(c', i') \<noteq> (c, i)" using idle a p by auto
    with ci same show ?thesis unfolding placed_on_def by (intro exI [of _ c'] exI [of _ i']) simp
  qed
  show ?thesis
    unfolding placement_inv_def
    using tables_wf_update [OF wf] len U Z P placement_invD(2) [OF inv] inv
    by (auto simp: placement_inv_def)
qed

lemma free_bit_Some: "free_bit w = Some b \<Longrightarrow> b < 64 \<and> \<not> bit w b"
  using find_slot_bound [of _ "[0 ..< 64]" b] find_slot_holds [of _ "[0 ..< 64]" b] push_bit_and [of b w]
  by (auto simp: free_bit_def simp del: upt_rec_numeral split: if_splits)

definition claimed_table :: "xaios_cpu_task_table \<Rightarrow> nat \<Rightarrow> xaios_sched_task \<Rightarrow> xaios_cpu_task_table" where
  "claimed_table t i task = t\<lparr>tt_slot_bitmap := (tt_slot_bitmap t)
     [i div 64 := tt_slot_bitmap t ! (i div 64) OR push_bit (i mod 64) 1],
     tt_tasks := (tt_tasks t)[i := task]\<rparr>"

lemma alloc_task_slot_Some:
  assumes "alloc_task_slot s cpu = (Some i, s1)"
  shows "unat cpu < 256" "i < 128" "\<not> slot_claimed (table_at s cpu) i"
    and "s1 = put_table s cpu (claimed_table (table_at s cpu) i zero_task)"
proof -
  have c: "unat cpu < 256" using assms by (simp add: alloc_task_slot_def split: if_splits)
  obtain w b where w: "w < 2" and f: "free_bit (tt_slot_bitmap (table_at s cpu) ! w) = Some b"
    and cl: "claim_slot s cpu w b = (Some i, s1)"
  proof (cases "free_bit (tt_slot_bitmap (table_at s cpu) ! 0)")
    case (Some b)
    with assms c have "claim_slot s cpu 0 b = (Some i, s1)" by (simp add: alloc_task_slot_def)
    with Some show ?thesis by (intro that [of 0 b]) simp_all
  next
    case None
    then obtain b where b: "free_bit (tt_slot_bitmap (table_at s cpu) ! 1) = Some b"
      using assms c by (cases "free_bit (tt_slot_bitmap (table_at s cpu) ! 1)") (simp_all add: alloc_task_slot_def)
    with None assms c have "claim_slot s cpu 1 b = (Some i, s1)" by (simp add: alloc_task_slot_def)
    with b show ?thesis by (intro that [of 1 b]) simp_all
  qed
  have b: "b < 64" "\<not> bit (tt_slot_bitmap (table_at s cpu) ! w) b" using free_bit_Some [OF f] by auto
  have i: "i = w * 64 + b" using cl by (auto simp: claim_slot_def Let_def)
  have dm: "i div 64 = w" "i mod 64 = b" using i b by auto
  show "unat cpu < 256" by (rule c)
  show "i < 128" using i b w by linarith
  show "\<not> slot_claimed (table_at s cpu) i" using b by (simp add: slot_claimed_bit dm)
  show "s1 = put_table s cpu (claimed_table (table_at s cpu) i zero_task)"
    using cl unfolding claim_slot_def Let_def claimed_table_def dm i [symmetric] by simp
qed

lemma alloc_task_slot_None: "alloc_task_slot s cpu = (None, s1) \<Longrightarrow> s1 = s"
  by (auto simp: alloc_task_slot_def claim_slot_def Let_def split: if_splits option.splits)

lemma claimed_table_lengths [simp]:
  "length (tt_slot_bitmap (claimed_table t i x)) = length (tt_slot_bitmap t)"
  "length (tt_tasks (claimed_table t i x)) = length (tt_tasks t)"
  by (simp_all add: claimed_table_def)

lemma put_task_claimed:
  assumes "tables_wf (g_cpu_tasks s)" "unat cpu < 256"
  shows "put_task (put_table s cpu (claimed_table t i x)) cpu i y = put_table s cpu (claimed_table t i y)"
  using assms by (simp add: put_task_def put_table_def claimed_table_def tables_wf_def)

lemma register_OK:
  assumes inv: "sched_inv s" and r: "scheduler_register_with_priority s this seed pid prio = (XAIOS_OK, s')"
  obtains cpu i x where "cpu = find_least_loaded_cpu s this seed" "unat cpu < 256" "i < 128" "pid \<noteq> 0"
    "\<not> slot_claimed (table_at s cpu) i"
    "x = zero_task\<lparr>st_pid := pid, st_active := 1, st_priority := prio, st_state := XAIOS_TASK_STATE_REGISTERED,
           st_remaining_ticks := priority_slice prio, st_assigned_cpu := cpu\<rparr>"
    "s' = put_table s cpu (claimed_table (table_at s cpu) i x)"
proof -
  let ?cpu = "find_least_loaded_cpu s this seed"
  have wf: "tables_wf (g_cpu_tasks s)" using placement_invD(1) [OF inv] .
  obtain i s1 where a: "alloc_task_slot s ?cpu = (Some i, s1)" and pid: "pid \<noteq> 0"
    and s': "s' = put_task s1 ?cpu i ((task_at s1 ?cpu i)\<lparr>st_pid := pid, st_active := 1, st_priority := prio,
       st_state := XAIOS_TASK_STATE_REGISTERED, st_remaining_ticks := priority_slice prio, st_assigned_cpu := ?cpu\<rparr>)"
    using r by (auto simp: scheduler_register_with_priority_def Let_def split: if_splits prod.splits option.splits)
  note al = alloc_task_slot_Some [OF a]
  have t: "task_at s1 ?cpu i = zero_task"
    using al wf tables_wfD [OF wf al(1)] by (simp add: put_table_def claimed_table_def)
  show ?thesis
    using that [OF refl al(1,2) pid al(3) refl] s' [unfolded t] unfolding al(4) put_task_claimed [OF wf al(1)] by blast
qed

lemma sched_inv_claim:
  assumes inv: "sched_inv s" and c: "unat cpu < 256" and i: "i < 128" and free: "\<not> slot_claimed (table_at s cpu) i"
    and fresh: "\<not> registered (g_cpu_tasks s) (st_pid x)" and nz: "st_pid x \<noteq> 0"
  shows "sched_inv (put_table s cpu (claimed_table (table_at s cpu) i x))"
proof -
  have wf: "tables_wf (g_cpu_tasks s)" using placement_invD(1) [OF inv] .
  note len = tables_wfD [OF wf c]
  let ?t = "claimed_table (table_at s cpu) i x"
  have cl: "slot_claimed ?t j \<longleftrightarrow> j = i \<or> slot_claimed (table_at s cpu) j" for j
    unfolding claimed_table_def using slot_claimed_set [OF len(1) i] by simp
  have new: "st_pid x = p" if "slot_live ((g_cpu_tasks s)[unat cpu := ?t]) (unat cpu) i p" for p
    using that c i len by (auto simp: slot_live_def claimed_table_def)
  have "placement_inv ((g_cpu_tasks s)[unat cpu := ?t]) (g_runqueues s)"
  proof (rule placement_inv_slot [OF inv c i])
    show "slot_claimed ?t j = slot_claimed (table_at s cpu) j \<and> tt_tasks ?t ! j = tt_tasks (table_at s cpu) ! j"
      if "j < 128" "j \<noteq> i" for j using that cl by (simp add: claimed_table_def)
    show "p \<noteq> 0 \<and> (\<forall>c' i'. slot_live (g_cpu_tasks s) c' i' p \<longrightarrow> c' = unat cpu \<and> i' = i)"
      if "slot_live ((g_cpu_tasks s)[unat cpu := ?t]) (unat cpu) i p" for p
      using new [OF that] fresh nz by (auto simp: registered_def)
    show "p \<notin> busy_pids (g_runqueues s ! a)" if "slot_live (g_cpu_tasks s) (unat cpu) i p" "a < 256" for p a
      using that free by (simp add: slot_live_def)
  qed (use len in simp_all)
  then show ?thesis by simp
qed

text \<open>Nothing runs a process that is taken out of the queue and the current slot of its CPU.\<close>

lemma placement_inv_idle:
  assumes inv: "placement_inv ts qs" and p: "placed_on ts p a"
    and gone: "a < 256 \<Longrightarrow> p \<notin> busy_pids (qs ! a)" and b: "b < 256"
  shows "p \<notin> busy_pids (qs ! b)"
  using placed_unique [OF inv p] placement_invD(6) [OF inv b] gone b by metis

section \<open>Every operation keeps the placement\<close>

lemma sched_inv_register:
  assumes inv: "sched_inv s" and fresh: "\<not> registered (g_cpu_tasks s) pid"
    and r: "scheduler_register_with_priority s this seed pid prio = (st, s')"
  shows "sched_inv s'"
proof (cases "st = XAIOS_OK")
  case True
  show ?thesis
  proof (rule register_OK [OF inv r [unfolded True]])
    fix cpu i x
    assume h: "unat cpu < 256" "i < 128" "pid \<noteq> 0" "\<not> slot_claimed (table_at s cpu) i"
      "x = zero_task\<lparr>st_pid := pid, st_active := 1, st_priority := prio, st_state := XAIOS_TASK_STATE_REGISTERED,
             st_remaining_ticks := priority_slice prio, st_assigned_cpu := cpu\<rparr>"
      "s' = put_table s cpu (claimed_table (table_at s cpu) i x)"
    have "st_pid x = pid" using h(5) by simp
    then show "sched_inv s'" unfolding h(6) using sched_inv_claim [OF inv h(1,2,4)] fresh h(3) by metis
  qed
next
  case False
  then have "s' = s"
    using r alloc_task_slot_None by (auto simp: scheduler_register_with_priority_def Let_def split: if_splits prod.splits option.splits)
  with inv show ?thesis by simp
qed

lemma live_placed:
  assumes "slot_live (g_cpu_tasks s) (unat cpu) i p"
  shows "placed_on (g_cpu_tasks s) p (unat (st_assigned_cpu (task_at s cpu i)))"
  using assms by (auto simp: placed_on_def)

lemma sched_inv_set_runnable:
  assumes inv: "sched_inv s"
  shows "sched_inv (snd (scheduler_set_runnable s cpu pid))"
proof (cases "find_task_local s cpu pid")
  case (Some i)
  let ?t = "(task_at s cpu i)\<lparr>st_state := XAIOS_TASK_STATE_RUNNABLE,
              st_remaining_ticks := priority_slice (st_priority (task_at s cpu i))\<rparr>"
  have same: "same_place (task_at s cpu i) ?t" by (simp add: same_place_def)
  have "sched_inv (put_task s cpu i ?t)" using sched_inv_put_task [OF inv same] .
  moreover have "placed_on (g_cpu_tasks (put_task s cpu i ?t)) pid (unat (st_assigned_cpu (task_at s cpu i)))"
    unfolding put_task_live(2) [OF placement_invD(1) [OF inv] same] using live_placed [OF find_task_local_Some [OF Some]] .
  ultimately show ?thesis using Some sched_inv_rq_add by (simp add: scheduler_set_runnable_def Let_def)
qed (use inv in \<open>simp add: scheduler_set_runnable_def\<close>)

lemma sched_inv_set_blocked:
  assumes inv: "sched_inv s"
  shows "sched_inv (snd (scheduler_set_blocked s cpu pid))"
proof (cases "find_task_local s cpu pid")
  case (Some i)
  have "sched_inv (put_task s cpu i ((task_at s cpu i)\<lparr>st_state := XAIOS_TASK_STATE_BLOCKED\<rparr>))"
    by (rule sched_inv_put_task [OF inv]) (simp add: same_place_def)
  then show ?thesis using Some sched_inv_rq_remove by (simp add: scheduler_set_blocked_def Let_def)
qed (use inv in \<open>simp add: scheduler_set_blocked_def\<close>)

lemma busy_pids_gone: "rq_inv rq \<Longrightarrow> rq_current_pid rq \<noteq> p \<Longrightarrow> p \<notin> busy_pids (rq_remove rq p)"
  using rq_list_distinct [of rq] by (auto simp: busy_pids_def rq_remove_spec distinct_remove1)

text \<open>The run queue after the process left it and, if current, was cleared.\<close>

definition evict :: "xaios_runqueue \<Rightarrow> u32 \<Rightarrow> xaios_runqueue" where
  "evict rq p = (if rq_current_pid (rq_remove rq p) = p then (rq_remove rq p)\<lparr>rq_current_pid := 0\<rparr> else rq_remove rq p)"

lemma evict_spec:
  assumes "rq_inv rq"
  shows "rq_inv (evict rq p)" "busy_pids (evict rq p) \<subseteq> busy_pids rq - {p}"
  using assms rq_list_distinct [OF assms] set_remove1_subset [of p "rq_list rq"]
  by (auto simp: evict_def busy_pids_def rq_remove_spec distinct_remove1)

lemma placement_inv_evict:
  assumes "placement_inv ts qs" "a < 256"
  shows "placement_inv ts (qs[a := evict (qs ! a) p])"
  using assms placement_invD(3,6) [OF assms] evict_spec [of "qs ! a" p]
  by (intro placement_inv_put_rq) auto

lemma unregister_eq:
  assumes "find_task_local s cpu pid = Some i" "sched_inv s"
  defines "t \<equiv> table_at s cpu"
  defines "t' \<equiv> t\<lparr>tt_tasks := (tt_tasks t)[i := (tt_tasks t ! i)\<lparr>st_active := 0, st_state := XAIOS_TASK_STATE_UNUSED\<rparr>],
      tt_slot_bitmap := (tt_slot_bitmap t)[i div 64 := tt_slot_bitmap t ! (i div 64) AND NOT (push_bit (i mod 64) 1)]\<rparr>"
  shows "g_cpu_tasks (scheduler_unregister s cpu pid) = (g_cpu_tasks s)[unat cpu := t']"
    and "g_runqueues (scheduler_unregister s cpu pid) =
      (let a = st_assigned_cpu (tt_tasks t ! i) in
       if unat a < 256 then (g_runqueues s)[unat a := evict (g_runqueues s ! unat a) pid] else g_runqueues s)"
proof -
  have live: "unat cpu < 256" "i < 128" using find_task_local_Some [OF assms(1)] by (auto simp: slot_live_def)
  have l: "length (g_cpu_tasks s) = 256" using placement_invD(1) [OF assms(2)] by (simp add: tables_wf_def)
  show "g_cpu_tasks (scheduler_unregister s cpu pid) = (g_cpu_tasks s)[unat cpu := t']"
    using assms(1) live l
    by (simp add: scheduler_unregister_def Let_def free_task_slot_def put_task_def put_table_def put_rq_def t'_def t_def XAIOS_TASK_SLOTS_PER_CPU_def)
  show "g_runqueues (scheduler_unregister s cpu pid) =
      (let a = st_assigned_cpu (tt_tasks t ! i) in
       if unat a < 256 then (g_runqueues s)[unat a := evict (g_runqueues s ! unat a) pid] else g_runqueues s)"
    using assms(1) live l
    by (simp add: scheduler_unregister_def Let_def free_task_slot_def put_task_def put_table_def put_rq_def t_def XAIOS_TASK_SLOTS_PER_CPU_def evict_def)
qed

lemma sched_inv_unregister:
  assumes inv: "sched_inv s"
  shows "sched_inv (scheduler_unregister s cpu pid)"
proof (cases "find_task_local s cpu pid")
  case (Some i)
  let ?t = "table_at s cpu" let ?a = "unat (st_assigned_cpu (tt_tasks ?t ! i))"
  define t' where "t' = ?t\<lparr>tt_tasks := (tt_tasks ?t)[i := (tt_tasks ?t ! i)\<lparr>st_active := 0, st_state := XAIOS_TASK_STATE_UNUSED\<rparr>],
      tt_slot_bitmap := (tt_slot_bitmap ?t)[i div 64 := tt_slot_bitmap ?t ! (i div 64) AND NOT (push_bit (i mod 64) 1)]\<rparr>"
  let ?qs = "if ?a < 256 then (g_runqueues s)[?a := evict (g_runqueues s ! ?a) pid] else g_runqueues s"
  have live: "slot_live (g_cpu_tasks s) (unat cpu) i pid" using find_task_local_Some [OF Some] .
  then have c: "unat cpu < 256" and i: "i < 128" by (auto simp: slot_live_def)
  note len = tables_wfD [OF placement_invD(1) [OF inv] c]
  have placed: "placed_on (g_cpu_tasks s) pid ?a" using live by (auto simp: placed_on_def)
  have inv': "placement_inv (g_cpu_tasks s) ?qs"
    using inv placement_inv_evict by simp
  have gone: "?a < 256 \<Longrightarrow> pid \<notin> busy_pids (?qs ! ?a)"
    using evict_spec(2) [OF placement_invD(3) [OF inv]] placement_invD(2) [OF inv] by auto
  have cl: "slot_claimed t' j \<longleftrightarrow> j \<noteq> i \<and> slot_claimed ?t j" for j
    using slot_claimed_clear [OF len(1) i, of j] by (simp add: t'_def slot_claimed_def)
  have "placement_inv ((g_cpu_tasks s)[unat cpu := t']) ?qs"
  proof (rule placement_inv_slot [OF inv' c i])
    show "p \<notin> busy_pids (?qs ! a)" if "slot_live (g_cpu_tasks s) (unat cpu) i p" "a < 256" for p a
    proof -
      have "p = pid" using that(1) live by (simp add: slot_live_def)
      then show ?thesis using placement_inv_idle [OF inv' placed gone that(2)] by simp
    qed
    show "p \<noteq> 0 \<and> (\<forall>c' i'. slot_live (g_cpu_tasks s) c' i' p \<longrightarrow> c' = unat cpu \<and> i' = i)"
      if "slot_live ((g_cpu_tasks s)[unat cpu := t']) (unat cpu) i p" for p
      using that cl c len by (simp add: slot_live_def)
    show "slot_claimed t' j = slot_claimed ?t j \<and> tt_tasks t' ! j = tt_tasks ?t ! j" if "j < 128" "j \<noteq> i" for j
      using that cl by (simp add: t'_def)
  qed (use len in \<open>simp_all add: t'_def\<close>)
  then show ?thesis using unregister_eq [OF Some inv] by (simp add: Let_def t'_def)
qed (use inv in \<open>simp add: scheduler_unregister_def\<close>)

lemma pick_scan_member: "pick_scan s cpu ps best q \<in> insert best (set ps)"
proof (induction ps arbitrary: best q)
  case (Cons p ps)
  have "st_pid (task_at s cpu i) = p" if "find_task_local s cpu p = Some i" for i
    using find_task_local_Some [OF that] by (simp add: slot_live_def)
  moreover have "pick_scan s cpu ps b r \<in> insert b (set ps)" for b r by (rule Cons.IH)
  ultimately show ?case by (cases "find_task_local s cpu p") (auto simp: Let_def)
qed simp

lemma rq_pick_best_spec:
  assumes "rq_inv rq" "rq_pick_best s rq cpu = (p, rq')"
  shows "rq_list rq = [] \<longrightarrow> p = 0 \<and> rq' = rq"
    and "rq_list rq \<noteq> [] \<longrightarrow> p \<in> set (rq_list rq) \<and> rq' = rq_remove rq p"
    and "rq_inv rq'" and "busy_pids rq' \<subseteq> busy_pids rq" and "rq_current_pid rq' = rq_current_pid rq"
proof -
  have e: "rq_list rq = [] \<longleftrightarrow> rq_count rq = 0"
    using rq_list_length [OF assms(1)] by (metis length_0_conv unat_0_iff unat_eq_0)
  show 1: "rq_list rq = [] \<longrightarrow> p = 0 \<and> rq' = rq"
    using assms(2) e by (auto simp: rq_pick_best_def)
  show 2: "rq_list rq \<noteq> [] \<longrightarrow> p \<in> set (rq_list rq) \<and> rq' = rq_remove rq p"
  proof
    assume ne: "rq_list rq \<noteq> []"
    then have hd: "rq_tasks rq ! 0 = rq_list rq ! 0" "0 < length (rq_list rq)"
      by (auto simp: rq_list_def)
    then have "rq_tasks rq ! 0 \<in> set (rq_list rq)" using nth_mem [of 0 "rq_list rq"] by simp
    moreover have "p = pick_scan s cpu (rq_list rq) (rq_tasks rq ! 0) XAIOS_PRIORITY_LOW" "rq' = rq_remove rq p"
      using assms(2) e ne by (auto simp: rq_pick_best_def Let_def rq_list_def)
    ultimately show "p \<in> set (rq_list rq) \<and> rq' = rq_remove rq p"
      using pick_scan_member [of s cpu "rq_list rq" "rq_tasks rq ! 0" XAIOS_PRIORITY_LOW] by auto
  qed
  show "rq_inv rq'" "busy_pids rq' \<subseteq> busy_pids rq" "rq_current_pid rq' = rq_current_pid rq"
    using 1 2 assms(1) busy_pids_remove [OF assms(1), of p] rq_remove_spec(1) [OF assms(1), of p] by (cases "rq_list rq = []"; simp)+
qed

lemma steal_scan_member:
  "steal_scan s cpu cur ps best q \<noteq> best \<Longrightarrow>
   steal_scan s cpu cur ps best q \<in> set ps - {cur} \<and> find_task_local s cpu (steal_scan s cpu cur ps best q) \<noteq> None"
proof (induction ps arbitrary: best q)
  case (Cons p ps)
  show ?case
  proof (cases "p = cur \<or> find_task_local s cpu p = None")
    case True
    then have "steal_scan s cpu cur (p # ps) best q = steal_scan s cpu cur ps best q" by auto
    then show ?thesis using Cons.IH [of best q] Cons.prems by auto
  next
    case False
    then obtain i where i: "p \<noteq> cur" "find_task_local s cpu p = Some i" by auto
    obtain b r where st: "steal_scan s cpu cur (p # ps) best q = steal_scan s cpu cur ps b r" "b = best \<or> b = p"
    proof (cases "st_priority (task_at s cpu i) \<le> q \<and> (st_priority (task_at s cpu i) < q \<or> best = 0)")
      case True
      then show ?thesis using that [of p "st_priority (task_at s cpu i)"] i by (simp add: Let_def)
    next
      case False
      then have "steal_scan s cpu cur (p # ps) best q = steal_scan s cpu cur ps best q" using i by (auto simp: Let_def)
      then show ?thesis using that by blast
    qed
    show ?thesis
    proof (cases "steal_scan s cpu cur ps b r = b")
      case True
      then show ?thesis using st Cons.prems False by auto
    next
      case False
      then show ?thesis using st Cons.IH [OF False] by simp
    qed
  qed
qed simp

lemma rq_pick_stealable_spec:
  assumes "rq_inv rq" "rq_pick_stealable s rq cpu = (p, rq')"
  shows "p = 0 \<Longrightarrow> rq' = rq"
    and "p \<noteq> 0 \<Longrightarrow> p \<in> set (rq_list rq) \<and> p \<noteq> rq_current_pid rq \<and> find_task_local s cpu p \<noteq> None \<and> rq' = rq_remove rq p"
proof -
  let ?b = "steal_scan s cpu (rq_current_pid rq) (rq_list rq) 0 XAIOS_PRIORITY_LOW"
  show "p = 0 \<Longrightarrow> rq' = rq"
    using assms(2) by (auto simp: rq_pick_stealable_def Let_def split: if_splits)
  assume p: "p \<noteq> 0"
  then have "p = ?b" "rq' = rq_remove rq p"
    using assms(2) by (auto simp: rq_pick_stealable_def Let_def rq_list_def split: if_splits)
  then show "p \<in> set (rq_list rq) \<and> p \<noteq> rq_current_pid rq \<and> find_task_local s cpu p \<noteq> None \<and> rq' = rq_remove rq p"
    using steal_scan_member [of s cpu "rq_current_pid rq" "rq_list rq" 0 XAIOS_PRIORITY_LOW] p by auto
qed

text \<open>Re-assigning a process that nothing runs.\<close>

lemma sched_inv_reassign:
  assumes inv: "sched_inv s" and live: "slot_live (g_cpu_tasks s) (unat cpu) i p"
    and idle: "\<And>a. a < 256 \<Longrightarrow> p \<notin> busy_pids (g_runqueues s ! a)"
    and t: "st_pid t = p" "st_active t = st_active (task_at s cpu i)"
  shows "sched_inv (put_task s cpu i t)"
    and "placed_on (g_cpu_tasks (put_task s cpu i t)) p (unat (st_assigned_cpu t))"
proof -
  have c: "unat cpu < 256" and i: "i < 128" using live by (auto simp: slot_live_def)
  note len = tables_wfD [OF placement_invD(1) [OF inv] c]
  let ?t = "(table_at s cpu)\<lparr>tt_tasks := (tt_tasks (table_at s cpu))[i := t]\<rparr>"
  have eq: "g_cpu_tasks (put_task s cpu i t) = (g_cpu_tasks s)[unat cpu := ?t]"
    by (simp add: put_task_def put_table_def)
  have cl: "slot_claimed ?t j = slot_claimed (table_at s cpu) j" for j by (simp add: slot_claimed_def)
  have live': "slot_live ((g_cpu_tasks s)[unat cpu := ?t]) (unat cpu) i q \<longleftrightarrow> q = p" for q
    using live len t c i cl by (auto simp: slot_live_def)
  have nz: "p \<noteq> 0" using live placement_invD(5) [OF inv] by auto
  have "placement_inv ((g_cpu_tasks s)[unat cpu := ?t]) (g_runqueues s)"
  proof (rule placement_inv_slot [OF inv c i])
    show "slot_claimed ?t j = slot_claimed (table_at s cpu) j \<and> tt_tasks ?t ! j = tt_tasks (table_at s cpu) ! j"
      if "j < 128" "j \<noteq> i" for j using that cl by simp
    show "q \<noteq> 0 \<and> (\<forall>c' i'. slot_live (g_cpu_tasks s) c' i' q \<longrightarrow> c' = unat cpu \<and> i' = i)"
      if "slot_live ((g_cpu_tasks s)[unat cpu := ?t]) (unat cpu) i q" for q
      using that live' nz placement_invD(4) [OF inv live] by auto
    show "q \<notin> busy_pids (g_runqueues s ! a)" if "slot_live (g_cpu_tasks s) (unat cpu) i q" "a < 256" for q a
    proof -
      have "q = p" using that(1) live by (simp add: slot_live_def)
      then show ?thesis using idle that(2) by simp
    qed
  qed (use len in simp_all)
  then show "sched_inv (put_task s cpu i t)" by (simp add: eq)
  show "placed_on (g_cpu_tasks (put_task s cpu i t)) p (unat (st_assigned_cpu t))"
    unfolding placed_on_def eq
    using live' [of p] len c i by (intro exI [of _ "unat cpu"] exI [of _ i]) simp
qed

lemma sched_inv_adopt:
  assumes inv: "sched_inv s" and v: "unat victim < 256" and me: "unat this_cpu < 256"
    and pick: "rq_pick_stealable s (rq_at s victim) victim = (p, rq)" and p: "p \<noteq> 0"
  defines "s' \<equiv> adopt_task (put_rq s victim rq) this_cpu victim p"
  shows "sched_inv s'" and "placed_on (g_cpu_tasks s') p (unat this_cpu)"
proof -
  let ?s = "put_rq s victim rq"
  note vi = placement_invD(3) [OF inv v]
  note pk = rq_pick_stealable_spec(2) [OF vi pick p]
  obtain i where i: "find_task_local s victim p = Some i" using pk by blast
  have i': "find_task_local ?s victim p = Some i" using i find_task_local_cong [of ?s s] by simp
  have live: "slot_live (g_cpu_tasks ?s) (unat victim) i p" using find_task_local_Some [OF i'] .
  have inv1: "sched_inv ?s"
    using pk sched_inv_rq_remove [OF inv v, of p] by simp
  have pv: "placed_on (g_cpu_tasks ?s) p (unat victim)"
    using placement_invD(6) [OF inv v, of p] pk by (simp add: busy_pids_def)
  have "p \<notin> busy_pids (g_runqueues ?s ! unat victim)"
    using pk busy_pids_gone [OF vi] placement_invD(2) [OF inv] v by auto
  then have idle: "p \<notin> busy_pids (g_runqueues ?s ! a)" if "a < 256" for a
    using placement_inv_idle [OF inv1 pv _ that] by blast
  let ?t = "(task_at ?s victim i)\<lparr>st_assigned_cpu := this_cpu,
       st_remaining_ticks := priority_slice (st_priority (task_at ?s victim i))\<rparr>"
  have t: "st_pid ?t = p" "st_active ?t = st_active (task_at ?s victim i)"
    using live by (simp_all add: slot_live_def)
  note re = sched_inv_reassign [OF inv1 live idle t]
  have tabs: "g_cpu_tasks s' = g_cpu_tasks (put_task ?s victim i ?t)"
    unfolding s'_def by (simp add: adopt_task_def Let_def i')
  have qs: "g_runqueues s' = (g_runqueues (put_task ?s victim i ?t))
      [unat this_cpu := rq_add (g_runqueues (put_task ?s victim i ?t) ! unat this_cpu) p]"
    unfolding s'_def by (simp add: adopt_task_def Let_def i')
  have pl: "placed_on (g_cpu_tasks (put_task ?s victim i ?t)) p (unat this_cpu)" using re(2) by simp
  show "placed_on (g_cpu_tasks s') p (unat this_cpu)" unfolding tabs by (rule pl)
  show "sched_inv s'" unfolding tabs qs by (rule sched_inv_rq_add [OF re(1) me pl])
qed

lemma steal_loop_spec:
  assumes "sched_inv s" "unat this_cpu < 256" "steal_loop trylock s this_cpu vs n = (p, s')"
  shows "sched_inv s' \<and> (p = 0 \<or> placed_on (g_cpu_tasks s') p (unat this_cpu))"
  using assms
proof (induction vs arbitrary: s n)
  case (Cons victim vs)
  show ?case
  proof (cases "n < 3 \<and> victim \<noteq> this_cpu \<and> unat victim < 256 \<and> cs_online (cpu_at (sc_smp s) victim) \<noteq> 0 \<and>
      cs_scheduling_enabled (cpu_at (sc_smp s) victim) \<noteq> 0 \<and> \<not> rq_count (rq_at s victim) \<le> 2 \<and> trylock victim")
    case False
    then have "(p = 0 \<and> s' = s) \<or> steal_loop trylock s this_cpu vs n = (p, s')"
      using Cons.prems(3) by (auto simp: smp_cpu_state_def split: if_splits)
    then show ?thesis using Cons.IH Cons.prems(1,2) by auto
  next
    case True
    obtain q rq where pick: "rq_pick_stealable s (rq_at s victim) victim = (q, rq)" by fastforce
    have v: "unat victim < 256" using True by simp
    note step = Cons.prems(3) [unfolded steal_loop.simps smp_cpu_state_def pick Let_def]
    show ?thesis
    proof (cases "q = 0")
      case q: True
      have "rq = rq_at s victim" using rq_pick_stealable_spec(1) [OF placement_invD(3) [OF Cons.prems(1) v] pick q] .
      then have "sched_inv (put_rq s victim rq)" using Cons.prems(1) by simp
      moreover have "steal_loop trylock (put_rq s victim rq) this_cpu vs (n + 1) = (p, s')"
        using step True q by simp
      ultimately show ?thesis using Cons.IH Cons.prems(2) by blast
    next
      case q: False
      then have "p = q" "s' = adopt_task (put_rq s victim rq) this_cpu victim q" using step True by auto
      then show ?thesis using sched_inv_adopt [OF Cons.prems(1) v Cons.prems(2) pick q] by simp
    qed
  qed
qed simp

lemma try_steal_domain_spec:
  assumes "sched_inv s" "unat this_cpu < 256" "try_steal_domain trylock s this_cpu d = (p, s')"
  shows "sched_inv s' \<and> (p = 0 \<or> placed_on (g_cpu_tasks s') p (unat this_cpu))"
proof (cases "d = UINT32_MAX \<or> topology_get_domain (sc_topology s) d = None")
  case True
  then show ?thesis using assms by (auto simp: try_steal_domain_def split: option.splits if_splits)
next
  case False
  then obtain sdom where d: "topology_get_domain (sc_topology s) d = Some sdom" "d \<noteq> UINT32_MAX" by auto
  obtain q s1 where l: "steal_loop trylock s this_cpu (take (unat (sd_member_count sdom)) (sd_members sdom)) 0 = (q, s1)"
    by fastforce
  show ?thesis
    using steal_loop_spec [OF assms(1,2) l] assms(1,3) d l
    by (auto simp: try_steal_domain_def Let_def split: if_splits)
qed

lemma try_steal_hierarchical_spec:
  assumes inv: "sched_inv s" "unat this_cpu < 256" and r: "try_steal_hierarchical trylock s this_cpu = (p, s')"
  shows "sched_inv s' \<and> (p = 0 \<or> placed_on (g_cpu_tasks s') p (unat this_cpu))"
proof -
  obtain q1 s1 where 1: "try_steal_domain trylock s this_cpu (topology_get_core_domain (sc_topology s) this_cpu) = (q1, s1)"
    by fastforce
  note i1 = try_steal_domain_spec [OF inv 1]
  obtain q2 s2 where 2: "try_steal_domain trylock s1 this_cpu (topology_get_socket_domain (sc_topology s1) this_cpu) = (q2, s2)"
    by fastforce
  note i2 = try_steal_domain_spec [OF conjunct1 [OF i1] inv(2) 2]
  note i3 = try_steal_domain_spec [OF conjunct1 [OF i2] inv(2)]
  show ?thesis
    using r i1 i2 i3 by (auto simp: try_steal_hierarchical_def Let_def 1 2 split: if_splits)
qed

lemma periodic_load_balance_parts [simp]:
  "g_cpu_tasks (periodic_load_balance s cpu) = g_cpu_tasks s"
  "g_runqueues (periodic_load_balance s cpu) = g_runqueues s"
  by (simp_all add: periodic_load_balance_def Let_def split: option.splits prod.splits)

lemma sched_inv_current:
  assumes "placement_inv ts qs" "a < 256" "p = 0 \<or> placed_on ts p a" "rq_inv rq"
    and "rq_list rq = rq_list (qs ! a)" "rq_current_pid rq = p"
  shows "placement_inv ts (qs[a := rq])"
  using assms placement_invD(6) [OF assms(1,2)]
  by (intro placement_inv_put_rq) (auto simp: busy_pids_def)

lemma sched_inv_busy_tick: "sched_inv s \<Longrightarrow> unat cpu < 256 \<Longrightarrow> sched_inv (busy_tick s cpu)"
  using placement_invD(3) [of "g_cpu_tasks s" "g_runqueues s" "unat cpu"]
    placement_invD(6) [of "g_cpu_tasks s" "g_runqueues s" "unat cpu"]
  by (auto simp: busy_tick_def busy_pids_def intro!: placement_inv_put_rq)

lemma current_placed:
  assumes "sched_inv s" "unat cpu < 256" "rq_current_pid (rq_at s cpu) \<noteq> 0"
  shows "placed_on (g_cpu_tasks s) (rq_current_pid (rq_at s cpu)) (unat cpu)"
  using placement_invD(6) [OF assms(1,2)] assms(3) by (simp add: busy_pids_def)

lemma sched_inv_tick_account:
  assumes "sched_inv s"
  shows "sched_inv (tick_account s cpu p f)" "g_runqueues (tick_account s cpu p f) = g_runqueues s"
  using assms by (auto simp: tick_account_def Let_def same_place_def split: option.splits intro!: sched_inv_put_task [simplified])

lemma requeue_inv:
  assumes inv: "sched_inv s" and c: "unat cpu < 256" and p: "placed_on (g_cpu_tasks s) p (unat cpu)"
    and t: "same_place (task_at s cpu i) t"
  shows "sched_inv (put_rq (put_task s cpu i t) cpu (rq_add (rq_at (put_task s cpu i t) cpu) p))"
  using sched_inv_rq_add [OF sched_inv_put_task [OF inv t] c] p put_task_live(2) [OF placement_invD(1) [OF inv] t] by simp

lemma sched_inv_tick_decide:
  assumes inv: "sched_inv s" and c: "unat cpu < 256" and r: "tick_decide s cpu (rq_current_pid (rq_at s cpu)) = (b, s')"
  shows "sched_inv s'"
proof (cases "b \<and> s' \<noteq> s")
  case True
  then obtain i where nz: "rq_current_pid (rq_at s cpu) \<noteq> 0" and "s' = put_rq (put_task s cpu i ((task_at s cpu i)\<lparr>st_state := XAIOS_TASK_STATE_RUNNABLE,
       st_remaining_ticks := priority_slice (st_priority (task_at s cpu i))\<rparr>)) cpu (rq_add (rq_at (put_task s cpu i ((task_at s cpu i)\<lparr>st_state := XAIOS_TASK_STATE_RUNNABLE,
       st_remaining_ticks := priority_slice (st_priority (task_at s cpu i))\<rparr>)) cpu) (rq_current_pid (rq_at s cpu)))"
    using r by (auto simp: tick_decide_def Let_def split: if_splits option.splits)
  then show ?thesis using requeue_inv [OF inv c current_placed [OF inv c nz]] by (simp add: same_place_def)
qed (use inv r in \<open>auto simp: tick_decide_def Let_def split: if_splits option.splits\<close>)

lemma sched_inv_pick:
  assumes inv: "sched_inv s" and c: "unat cpu < 256" and r: "rq_pick_best s (rq_at s cpu) cpu = (p, rq)"
  shows "sched_inv (put_rq s cpu rq)" and "p = 0 \<or> placed_on (g_cpu_tasks s) p (unat cpu)"
proof -
  note sp = rq_pick_best_spec [OF placement_invD(3) [OF inv c] r]
  show "sched_inv (put_rq s cpu rq)"
    using sp(3,4) placement_invD(6) [OF inv c] by (auto intro!: placement_inv_put_rq [OF inv])
  show "p = 0 \<or> placed_on (g_cpu_tasks s) p (unat cpu)"
    using sp(1,2) placement_invD(6) [OF inv c] by (auto simp: busy_pids_def)
qed

lemma dispatch_inv:
  assumes inv: "sched_inv s" and c: "unat cpu < 256" and p: "placed_on (g_cpu_tasks s) p (unat cpu)"
    and rq: "rq_inv rq" "rq_list rq = rq_list (rq_at s cpu)" "rq_current_pid rq = p"
  shows "placement_inv (g_cpu_tasks s) ((g_runqueues s)[unat cpu := rq])"
  using sched_inv_current [OF inv c _ rq] p by simp

lemma sched_inv_tick_switch:
  assumes inv: "sched_inv s" and c: "unat cpu < 256" and p: "p = 0 \<or> placed_on (g_cpu_tasks s) p (unat cpu)"
  shows "sched_inv (fst (tick_switch s cpu cur p f))"
proof -
  note rq = placement_invD(3) [OF inv c]
  consider "p = 0" | "p \<noteq> 0" "p = cur" | "p \<noteq> 0" "p \<noteq> cur" "find_task_local s cpu p = None"
    | i where "p \<noteq> 0" "p \<noteq> cur" "find_task_local s cpu p = Some i" by fastforce
  then show ?thesis
  proof cases
    case 1
    then show ?thesis using sched_inv_current [OF inv c, of 0] rq by (simp add: tick_switch_def Let_def)
  next
    case 2
    then show ?thesis using sched_inv_busy_tick [OF inv c] by (simp add: tick_switch_def)
  next
    case 3
    then show ?thesis using inv by (simp add: tick_switch_def)
  next
    case (4 i)
    let ?t = "(task_at s cpu i)\<lparr>st_state := XAIOS_TASK_STATE_RUNNING, st_switch_count := st_switch_count (task_at s cpu i) + 1\<rparr>"
    have same: "same_place (task_at s cpu i) ?t" by (simp add: same_place_def)
    have pl: "placed_on (g_cpu_tasks (put_task s cpu i ?t)) p (unat cpu)"
      using p 4 unfolding put_task_live(2) [OF placement_invD(1) [OF inv] same] by simp
    show ?thesis
      using dispatch_inv [OF sched_inv_put_task [OF inv same] c pl] rq 4 by (simp add: tick_switch_def Let_def)
  qed
qed

lemma sched_inv_tick:
  assumes inv: "sched_inv s"
  shows "sched_inv (fst (scheduler_tick trylock s cpu f))"
proof (cases "fst (scheduler_tick trylock s cpu f) = s")
  case False
  then have c: "unat cpu < 256"
    by (auto simp: scheduler_tick_def split: if_splits)
  let ?s1 = "put_stats (s\<lparr>g_tick_count := g_tick_count s + 1\<rparr>) cpu (\<lambda>t. t\<lparr>ss_tick_count := ss_tick_count t + 1\<rparr>)"
  let ?cur = "rq_current_pid (rq_at ?s1 cpu)" let ?s2 = "tick_account ?s1 cpu ?cur f"
  obtain b s3 where d: "tick_decide ?s2 cpu ?cur = (b, s3)" by fastforce
  obtain p rq where k: "rq_pick_best s3 (rq_at s3 cpu) cpu = (p, rq)" by fastforce
  let ?st = "if p = 0 then try_steal_hierarchical trylock (put_rq s3 cpu rq) cpu else (p, put_rq s3 cpu rq)"
  obtain q s5 where st: "?st = (q, s5)" by fastforce
  have i1: "sched_inv ?s1" using inv by simp
  have i3: "sched_inv s3" using sched_inv_tick_decide [OF sched_inv_tick_account(1) [OF i1] c] d
    by (simp add: sched_inv_tick_account(2) [OF i1])
  note i4 = sched_inv_pick [OF i3 c k]
  have i5: "sched_inv s5 \<and> (q = 0 \<or> placed_on (g_cpu_tasks s5) q (unat cpu))"
    using st i4 try_steal_hierarchical_spec [OF i4(1) c] by (cases "p = 0") auto
  have "fst (scheduler_tick trylock s cpu f) = (if b then fst (tick_switch s5 cpu ?cur q f) else busy_tick s3 cpu)"
    using False d k st by (simp add: scheduler_tick_def Let_def split: if_splits)
  then show ?thesis using sched_inv_busy_tick [OF i3 c] sched_inv_tick_switch [of s5 cpu q ?cur f] i5 c by (cases b) auto
qed (use inv in simp)

lemma sched_inv_yield_switch:
  assumes inv: "sched_inv s" and c: "unat cpu < 256" and p: "p = 0 \<or> placed_on (g_cpu_tasks s) p (unat cpu)"
  shows "sched_inv (yield_switch s cpu cur p)"
proof (cases "p \<noteq> 0 \<and> p \<noteq> cur")
  case True
  define u where "u = (case find_task_local s cpu p of None \<Rightarrow> s
     | Some i \<Rightarrow> put_task s cpu i ((task_at s cpu i)\<lparr>st_state := XAIOS_TASK_STATE_RUNNING,
                   st_switch_count := st_switch_count (task_at s cpu i) + 1\<rparr>))"
  have u: "sched_inv u" "placed_on (g_cpu_tasks u) = placed_on (g_cpu_tasks s)"
    unfolding u_def using inv put_task_live(2) [OF placement_invD(1) [OF inv]] sched_inv_put_task [OF inv]
    by (auto simp: same_place_def split: option.splits)
  have "placement_inv (g_cpu_tasks u) ((g_runqueues u)[unat cpu := (rq_at u cpu)\<lparr>rq_current_pid := p\<rparr>])"
    using u p True placement_invD(3) [OF u(1) c] by (intro dispatch_inv [OF u(1) c]) auto
  then show ?thesis using True by (simp add: yield_switch_def Let_def flip: u_def)
qed (use inv in \<open>auto simp: yield_switch_def\<close>)

lemma sched_inv_yield:
  assumes inv: "sched_inv s"
  shows "sched_inv (scheduler_yield s cpu)"
proof (cases "g_initialized s = 0 \<or> 256 \<le> unat cpu")
  case False
  then have c: "unat cpu < 256" by simp
  let ?s2 = "put_stats (s\<lparr>g_yield_count := g_yield_count s + 1\<rparr>) cpu (\<lambda>t. t\<lparr>ss_yield_count := ss_yield_count t + 1\<rparr>)"
  let ?cur = "rq_current_pid (rq_at ?s2 cpu)"
  have i2: "sched_inv ?s2" using inv by simp
  have i3: "sched_inv (yield_requeue ?s2 cpu ?cur)"
  proof (cases "?cur = 0 \<or> find_task_local ?s2 cpu ?cur = None")
    case False
    then obtain i where "?cur \<noteq> 0" "find_task_local ?s2 cpu ?cur = Some i" by auto
    then show ?thesis
      using requeue_inv [OF i2 c current_placed [OF i2 c]] by (simp add: yield_requeue_def Let_def same_place_def)
  qed (use i2 in \<open>auto simp: yield_requeue_def\<close>)
  let ?s3 = "yield_requeue ?s2 cpu ?cur"
  obtain p rq where k: "rq_pick_best ?s3 (rq_at ?s3 cpu) cpu = (p, rq)" by fastforce
  note i4 = sched_inv_pick [OF i3 c k]
  let ?s4 = "put_rq ?s3 cpu rq"
  have i5: "sched_inv (yield_switch ?s4 cpu ?cur p)"
    using i4 sched_inv_yield_switch [OF i4(1) c] by simp
  have "scheduler_yield s cpu = yield_switch ?s4 cpu ?cur p"
    using False k by (simp add: scheduler_yield_def Let_def)
  then show ?thesis using i5 by simp
qed (use inv in \<open>auto simp: scheduler_yield_def Let_def\<close>)

section \<open>Reachable states\<close>

definition zero_rq :: xaios_runqueue where
  "zero_rq = \<lparr>rq_tasks = replicate 128 0, rq_count = 0, rq_current_pid = 0, rq_cpu_id = 0, rq_idle_ticks = 0, rq_busy_ticks = 0\<rparr>"

text \<open>The zeroed memory the kernel starts from.\<close>

definition sched_bss :: "smp_state \<Rightarrow> topology_state \<Rightarrow> sched_state" where
  "sched_bss smp topo = \<lparr>g_cpu_tasks = replicate 256 zero_task_table, g_runqueues = replicate 256 zero_rq,
     g_sched_stats = replicate 256 zero_stats, g_tick_count = 0, g_context_switch_count = 0, g_yield_count = 0,
     g_steal_count = 0, g_initialized = 0, g_lock_depth_per_cpu = replicate 256 0, g_balance_counter = 0,
     sc_smp = smp, sc_topology = topo, sc_switches = []\<rparr>"

text \<open>Any interleaving of scheduler calls on any CPUs, each with any lock outcomes, timer readings
  and interrupt frames. The one obligation of a caller: it registers no process twice.\<close>

inductive sched_reach :: "sched_state \<Rightarrow> bool" where
  reach_init: "sched_reach (scheduler_init (sched_bss smp topo))"
| reach_register: "sched_reach s \<Longrightarrow> \<not> registered (g_cpu_tasks s) pid \<Longrightarrow>
    sched_reach (snd (scheduler_register_with_priority s cpu seed pid prio))"
| reach_unregister: "sched_reach s \<Longrightarrow> sched_reach (scheduler_unregister s cpu pid)"
| reach_runnable: "sched_reach s \<Longrightarrow> sched_reach (snd (scheduler_set_runnable s cpu pid))"
| reach_blocked: "sched_reach s \<Longrightarrow> sched_reach (snd (scheduler_set_blocked s cpu pid))"
| reach_tick: "sched_reach s \<Longrightarrow> sched_reach (fst (scheduler_tick trylock s cpu frame))"
| reach_yield: "sched_reach s \<Longrightarrow> sched_reach (scheduler_yield s cpu)"
| reach_lock: "sched_reach s \<Longrightarrow> sched_reach (scheduler_lock s cpu)"
| reach_unlock: "sched_reach s \<Longrightarrow> sched_reach (scheduler_unlock s cpu)"

definition blank_rq :: "xaios_runqueue \<Rightarrow> bool" where
  "blank_rq q \<longleftrightarrow> length (rq_tasks q) = 128 \<and> rq_count q = 0 \<and> rq_current_pid q = 0"

lemma replicate_update_same: "(replicate n x)[c := x] = replicate n x"
  by (rule nth_equalityI) (simp_all add: nth_update_if)

lemma init_cpus:
  "g_cpu_tasks s = replicate n zero_task_table \<Longrightarrow> length (g_runqueues s) = m \<Longrightarrow> \<forall>q \<in> set (g_runqueues s). blank_rq q \<Longrightarrow>
   g_cpu_tasks (fold init_cpu cs s) = replicate n zero_task_table \<and> length (g_runqueues (fold init_cpu cs s)) = m \<and>
   (\<forall>q \<in> set (g_runqueues (fold init_cpu cs s)). blank_rq q)"
proof (induction cs arbitrary: s)
  case (Cons c cs)
  have "blank_rq q" if "q \<in> set (g_runqueues (init_cpu c s))" for q
  proof (cases "c < m")
    case True
    then have "q = reset_rq c (g_runqueues s ! c) \<or> q \<in> set (g_runqueues s)" "g_runqueues s ! c \<in> set (g_runqueues s)"
      using that set_update_subset_insert [of "g_runqueues s" c] Cons.prems(2) by (auto simp: init_cpu_def)
    then show ?thesis using Cons.prems(3) by (auto simp: reset_rq_def blank_rq_def)
  qed (use that Cons.prems in \<open>simp add: init_cpu_def list_update_beyond\<close>)
  then show ?case
    using Cons.IH [of "init_cpu c s"] Cons.prems by (simp add: init_cpu_def replicate_update_same)
qed simp

lemma zero_table_claims: "i < 128 \<Longrightarrow> \<not> slot_claimed zero_task_table i"
proof -
  assume "i < 128"
  then have "i div 64 = 0 \<or> i div 64 = 1" by linarith
  then show ?thesis by (auto simp: zero_task_table_def slot_claimed_def)
qed

lemma zero_table_lengths: "length (tt_slot_bitmap zero_task_table) = 2" "length (tt_tasks zero_task_table) = 128"
  by (simp_all add: zero_task_table_def XAIOS_TASK_SLOTS_PER_CPU_def)

lemma blank_placement:
  assumes ts: "length ts = 256" "\<forall>t \<in> set ts. t = zero_task_table"
    and qs: "length qs = 256" "\<forall>q \<in> set qs. blank_rq q"
  shows "placement_inv ts qs"
proof -
  have "ts ! c = zero_task_table" if "c < 256" for c using ts that by auto
  then have nolive: "\<not> slot_live ts c i p" for c i p using zero_table_claims by (auto simp: slot_live_def)
  have rq: "rq_inv q \<and> busy_pids q = {}" if "blank_rq q" for q
    using that by (auto simp: rq_inv_def busy_pids_def rq_list_def blank_rq_def)
  have "tables_wf ts" using ts zero_table_lengths by (auto simp: tables_wf_def)
  then show ?thesis
    unfolding placement_inv_def using nolive rq qs by auto
qed

lemma sched_init_parts:
  "g_cpu_tasks (scheduler_init (sched_bss smp topo)) = replicate 256 zero_task_table"
  "length (g_runqueues (scheduler_init (sched_bss smp topo))) = 256"
  "\<forall>q \<in> set (g_runqueues (scheduler_init (sched_bss smp topo))). blank_rq q"
proof -
  let ?s = "fold init_cpu [0 ..< unat (smp_online_count smp)] (sched_bss smp topo)"
  have z: "g_cpu_tasks ?s = replicate 256 zero_task_table \<and> length (g_runqueues ?s) = 256 \<and>
    (\<forall>q \<in> set (g_runqueues ?s). blank_rq q)"
    by (rule init_cpus) (simp_all add: sched_bss_def zero_rq_def blank_rq_def)
  have bss: "sc_smp (sched_bss smp topo) = smp" by (simp add: sched_bss_def)
  show "g_cpu_tasks (scheduler_init (sched_bss smp topo)) = replicate 256 zero_task_table"
    "length (g_runqueues (scheduler_init (sched_bss smp topo))) = 256"
    "\<forall>q \<in> set (g_runqueues (scheduler_init (sched_bss smp topo))). blank_rq q"
    using z by (simp_all add: scheduler_init_def bss)
qed

lemma sched_init_env:
  "sc_smp (scheduler_init (sched_bss smp topo)) = smp" "sc_topology (scheduler_init (sched_bss smp topo)) = topo"
proof -
  have "sc_smp (fold init_cpu cs s) = sc_smp s \<and> sc_topology (fold init_cpu cs s) = sc_topology s" for cs s
    by (induction cs arbitrary: s) (simp_all add: init_cpu_def)
  then show "sc_smp (scheduler_init (sched_bss smp topo)) = smp" "sc_topology (scheduler_init (sched_bss smp topo)) = topo"
    by (simp_all add: scheduler_init_def sched_bss_def)
qed

lemma sched_inv_init: "sched_inv (scheduler_init (sched_bss smp topo))"
  using blank_placement [OF _ _ sched_init_parts(2,3)] sched_init_parts(1) by simp

lemma sched_reach_inv: "sched_reach s \<Longrightarrow> sched_inv s"
proof (induction rule: sched_reach.induct)
  case (reach_register s pid cpu seed prio)
  then show ?case
    using sched_inv_register [of s pid cpu seed prio] by (cases "scheduler_register_with_priority s cpu seed pid prio") auto
qed (simp_all add: sched_inv_init sched_inv_unregister sched_inv_set_runnable sched_inv_set_blocked sched_inv_tick
      sched_inv_yield scheduler_lock_def scheduler_unlock_def)


definition demo_sched :: sched_state where
  "demo_sched = scheduler_init (sched_bss
     \<lparr>g_cpu_states = [\<lparr>cs_cpu_id = 0, cs_online = 1, cs_mpidr = 0, cs_role = XAIOS_CPU_ROLE_HOUSEKEEPING,
        cs_lease_owner_id = 0, cs_irq_routed_away = 0, cs_tick_suppressed = 0, cs_migration_count = 0,
        cs_involuntary_context_switch_count = 0, cs_scheduling_enabled = 1, cs_steal_count = 0\<rparr>],
      g_online_count = 1\<rparr> bss_topology)"

lemma demo_sched_parts:
  "g_cpu_tasks demo_sched = replicate 256 zero_task_table" "length (g_runqueues demo_sched) = 256"
  "\<forall>q \<in> set (g_runqueues demo_sched). blank_rq q"
  unfolding demo_sched_def by (rule sched_init_parts)+

lemma demo_sched_reach: "sched_reach demo_sched" unfolding demo_sched_def by (rule reach_init)

lemma demo_sched_cpu: "find_least_loaded_cpu demo_sched 0 0 = 0"
  unfolding find_least_loaded_cpu_def demo_sched_def sched_init_env
  by (simp add: smp_online_count_def placeable_def sched_init_env smp_cpu_state_def cpu_at_def placement_role_def
      topology_get_numa_node_for_cpu_def topology_ready_def bss_topology_def XAIOS_MAX_CPUS_def)

lemma free_bit_0: "free_bit 0 = Some 0"
  by (simp add: free_bit_def upt_conv_Cons del: upt_rec_numeral)

definition demo_task :: xaios_sched_task where
  "demo_task = zero_task\<lparr>st_pid := 1, st_active := 1, st_priority := XAIOS_PRIORITY_HIGH,
     st_state := XAIOS_TASK_STATE_REGISTERED, st_remaining_ticks := 4, st_assigned_cpu := 0\<rparr>"

definition demo_registered :: sched_state where
  "demo_registered = snd (scheduler_register_with_priority demo_sched 0 0 1 XAIOS_PRIORITY_HIGH)"

lemma demo_register:
  "scheduler_register_with_priority demo_sched 0 0 1 XAIOS_PRIORITY_HIGH = (XAIOS_OK, demo_registered)"
  "demo_registered = put_table demo_sched 0 (claimed_table zero_task_table 0 demo_task)"
proof -
  have t: "g_cpu_tasks demo_sched ! 0 = zero_task_table" by (simp add: demo_sched_parts)
  have a: "alloc_task_slot demo_sched 0 = (Some 0, put_table demo_sched 0 (claimed_table zero_task_table 0 zero_task))"
    by (simp add: alloc_task_slot_def t claim_slot_def claimed_table_def zero_task_table_def free_bit_0 XAIOS_MAX_CPUS_def)
  have x: "task_at (put_table demo_sched 0 (claimed_table zero_task_table 0 zero_task)) 0 0 = zero_task"
    by (simp add: put_table_def demo_sched_parts claimed_table_def zero_table_lengths)
  have wf: "tables_wf (g_cpu_tasks demo_sched)" using placement_invD(1) [OF sched_reach_inv [OF demo_sched_reach]] .
  have "scheduler_register_with_priority demo_sched 0 0 1 XAIOS_PRIORITY_HIGH
      = (XAIOS_OK, put_table demo_sched 0 (claimed_table zero_task_table 0 demo_task))"
    using put_task_claimed [OF wf, of 0 zero_task_table 0 zero_task demo_task] x
    by (simp add: scheduler_register_with_priority_def demo_sched_cpu a XAIOS_SCHEDULER_MAX_TASKS_def demo_task_def del: state_parts)
  then show "scheduler_register_with_priority demo_sched 0 0 1 XAIOS_PRIORITY_HIGH = (XAIOS_OK, demo_registered)"
    "demo_registered = put_table demo_sched 0 (claimed_table zero_task_table 0 demo_task)"
    by (simp_all add: demo_registered_def)
qed

lemma demo_registered_parts:
  "sched_reach demo_registered" "find_task_local demo_registered 0 1 = Some 0"
  "task_at demo_registered 0 0 = demo_task" "g_runqueues demo_registered = g_runqueues demo_sched"
proof -
  have fresh: "\<not> registered (g_cpu_tasks demo_sched) 1"
    using zero_table_claims by (auto simp: registered_def slot_live_def demo_sched_parts)
  show "sched_reach demo_registered"
    unfolding demo_registered_def by (rule reach_register [OF demo_sched_reach fresh])
  have t: "g_cpu_tasks demo_registered ! 0 = claimed_table zero_task_table 0 demo_task"
    by (simp add: demo_register(2) demo_sched_parts)
  show x: "task_at demo_registered 0 0 = demo_task"
    by (simp add: t claimed_table_def zero_table_lengths)
  have "slot_claimed (claimed_table zero_task_table 0 demo_task) 0"
    by (simp add: claimed_table_def zero_task_table_def slot_claimed_def)
  then show "find_task_local demo_registered 0 1 = Some 0"
    using x t
    by (simp add: find_task_local_def XAIOS_MAX_CPUS_def XAIOS_TASK_SLOTS_PER_CPU_def upt_conv_Cons demo_task_def del: upt_rec_numeral)
  show "g_runqueues demo_registered = g_runqueues demo_sched" by (simp add: demo_register(2))
qed

definition demo_runnable :: sched_state where
  "demo_runnable = snd (scheduler_set_runnable demo_registered 0 1)"

lemma demo_runnable_parts:
  "sched_reach demo_runnable" "length (g_runqueues demo_runnable) = 256" "rq_list (g_runqueues demo_runnable ! 0) = [1]"
  "rq_current_pid (g_runqueues demo_runnable ! 0) = 0"
proof -
  show "sched_reach demo_runnable"
    unfolding demo_runnable_def by (rule reach_runnable [OF demo_registered_parts(1)])
  have q: "g_runqueues demo_runnable = (g_runqueues demo_sched)[0 := rq_add (g_runqueues demo_sched ! 0) 1]"
    using demo_registered_parts(2-4)
    by (simp add: demo_runnable_def scheduler_set_runnable_def Let_def demo_task_def XAIOS_MAX_CPUS_def)
  have "blank_rq (g_runqueues demo_sched ! 0)" using demo_sched_parts by auto
  then have b: "rq_inv (g_runqueues demo_sched ! 0)" "rq_list (g_runqueues demo_sched ! 0) = []"
    "rq_current_pid (g_runqueues demo_sched ! 0) = 0"
    by (simp_all add: blank_rq_def rq_inv_def rq_list_def)
  show "length (g_runqueues demo_runnable) = 256" "rq_list (g_runqueues demo_runnable ! 0) = [1]"
    "rq_current_pid (g_runqueues demo_runnable ! 0) = 0"
    unfolding q using b by (simp_all add: demo_sched_parts rq_add_spec)
qed


section \<open>The choice by priority\<close>

text \<open>The urgency of a queued process; one without an entry in the table counts as low.\<close>

definition pid_priority :: "sched_state \<Rightarrow> u32 \<Rightarrow> u32 \<Rightarrow> xaios_task_priority" where
  "pid_priority s cpu p =
     (case find_task_local s cpu p of Some i \<Rightarrow> st_priority (task_at s cpu i) | None \<Rightarrow> XAIOS_PRIORITY_LOW)"

lemma priority_extremes: "(q :: xaios_task_priority) \<le> XAIOS_PRIORITY_LOW" "XAIOS_PRIORITY_HIGH \<le> q"
  "\<not> XAIOS_PRIORITY_LOW < q" "\<not> q < XAIOS_PRIORITY_HIGH"
  by (cases q; simp add: less_eq_xaios_task_priority_def less_xaios_task_priority_def)+

lemma arg_min_list_bound: "x \<in> set xs \<Longrightarrow> f (arg_min_list f xs) \<le> f x"
  using f_arg_min_list_f [of xs f] by (cases xs) auto

lemma arg_min_list_head:
  assumes "\<And>x. x \<in> set xs \<Longrightarrow> f b \<le> f x"
  shows "arg_min_list f (b # xs) = b"
  using assms arg_min_list_in [of xs f] by (cases xs) (auto simp: Let_def)

lemma arg_min_list_skip:
  "arg_min_list f (b # p # ps) = (if f p < f b then arg_min_list f (p # ps) else arg_min_list f (b # ps))"
  by (cases ps) (auto simp: Let_def)

lemma pick_scan_Cons:
  "pick_scan s cpu (p # ps) best q =
     (if pid_priority s cpu p < q
      then (if pid_priority s cpu p = XAIOS_PRIORITY_HIGH then p else pick_scan s cpu ps p (pid_priority s cpu p))
      else (if q = XAIOS_PRIORITY_HIGH then best else pick_scan s cpu ps best q))"
proof (cases "find_task_local s cpu p")
  case None
  then show ?thesis using priority_extremes(3) by (simp add: pid_priority_def Let_def)
next
  case (Some i)
  then have "pid_priority s cpu p = st_priority (task_at s cpu i)" "st_pid (task_at s cpu i) = p"
    using find_task_local_Some [OF Some] by (auto simp: pid_priority_def slot_live_def)
  then show ?thesis using Some by (simp add: Let_def)
qed

lemma pick_scan_arg_min:
  "pick_scan s cpu ps best (pid_priority s cpu best) = arg_min_list (pid_priority s cpu) (best # ps)"
proof (induction ps arbitrary: best)
  case (Cons p ps)
  let ?f = "pid_priority s cpu"
  define b where "b = (if ?f p < ?f best then p else best)"
  have min: "arg_min_list ?f (best # p # ps) = arg_min_list ?f (b # ps)"
    unfolding arg_min_list_skip [of ?f best p ps] by (simp add: b_def)
  show ?case
  proof (cases "?f b = XAIOS_PRIORITY_HIGH")
    case True
    then have "arg_min_list ?f (b # ps) = b" by (intro arg_min_list_head) (simp add: priority_extremes)
    then show ?thesis unfolding pick_scan_Cons min using True by (auto simp: b_def split: if_splits)
  next
    case False
    then show ?thesis unfolding pick_scan_Cons min using Cons.IH [of b] by (auto simp: b_def split: if_splits)
  qed
qed simp


definition demo_queue :: xaios_runqueue where
  "demo_queue = zero_rq\<lparr>rq_tasks := [7, 1] @ replicate 126 0, rq_count := 2\<rparr>"

lemma demo_queue_parts: "rq_inv demo_queue" "rq_list demo_queue = [7, 1]"
  by (simp_all add: demo_queue_def rq_inv_def rq_list_def)

lemma demo_registered_absent: "p \<noteq> 1 \<Longrightarrow> find_task_local demo_registered 0 p = None"
proof -
  assume p: "p \<noteq> 1"
  have t: "g_cpu_tasks demo_registered ! 0 = claimed_table zero_task_table 0 demo_task"
    by (simp add: demo_register(2) demo_sched_parts)
  have "slot_claimed (claimed_table zero_task_table 0 demo_task) i \<longleftrightarrow> i = 0 \<or> slot_claimed zero_task_table i" for i
    unfolding claimed_table_def using slot_claimed_set [OF zero_table_lengths(1), of 0] by simp
  then show ?thesis
    using p demo_registered_parts(3) zero_table_claims
    by (auto simp: find_task_local_def t find_slot_None_iff XAIOS_TASK_SLOTS_PER_CPU_def demo_task_def simp del: upt_rec_numeral)
qed


section \<open>A dispatched process loses the CPU for good\<close>

text \<open>What a tick needs to act: the scheduler runs, is not locked and may schedule on this CPU.\<close>

definition tick_enabled :: "sched_state \<Rightarrow> u32 \<Rightarrow> bool" where
  "tick_enabled s cpu \<longleftrightarrow> g_initialized s \<noteq> 0 \<and> unat cpu < 256 \<and> g_lock_depth_per_cpu s ! unat cpu = 0 \<and>
     cs_scheduling_enabled (cpu_at (sc_smp s) cpu) \<noteq> 0"

lemma find_task_local_live:
  "find_task_local s cpu p = (if 256 \<le> unat cpu then None
     else find_slot (\<lambda>i. slot_live (g_cpu_tasks s) (unat cpu) i p) [0 ..< 128])"
proof (cases "256 \<le> unat cpu")
  case False
  then show ?thesis unfolding find_task_local_def XAIOS_TASK_SLOTS_PER_CPU_def
    by (simp del: upt_rec_numeral) (rule find_slot_cong, simp add: slot_live_def)
qed (simp add: find_task_local_def)

lemma put_task_same:
  assumes "sched_inv s" "same_place (task_at s cpu i) t"
  shows "find_task_local (put_task s cpu i t) = find_task_local s"
  by (intro ext) (simp add: find_task_local_live put_task_live [OF placement_invD(1) [OF assms(1)] assms(2)])

lemma put_task_at:
  assumes "sched_inv s" "unat cpu < 256" "i < 128"
  shows "task_at (put_task s cpu i t) cpu j = (if i = j then t else task_at s cpu j)"
  using assms tables_wfD [OF placement_invD(1) [OF assms(1)] assms(2)]
  by (simp add: put_task_def put_table_def nth_update_if)

text \<open>The dispatch step of a tick that finds another process of this CPU in the queue.\<close>

lemma tick_replaces_running:
  assumes inv: "sched_inv s" and en: "tick_enabled s cpu" and cur: "rq_current_pid (rq_at s cpu) = p" "p \<noteq> 0"
    and i: "find_task_local s cpu p = Some i" and run: "st_state (task_at s cpu i) = XAIOS_TASK_STATE_RUNNING"
    and out: "p \<notin> set (rq_list (rq_at s cpu))" and ne: "rq_list (rq_at s cpu) \<noteq> []"
    and local_tasks: "\<And>q. q \<in> set (rq_list (rq_at s cpu)) \<Longrightarrow> find_task_local s cpu q \<noteq> None"
    and s'_def: "s' = fst (scheduler_tick trylock s cpu frame)"
  obtains q where "q \<noteq> p"
    "rq_current_pid (rq_at s' cpu) = q" "rq_list (rq_at s' cpu) = remove1 q (rq_list (rq_at s cpu))"
    "find_task_local s' cpu p = Some i" "st_state (task_at s' cpu i) = XAIOS_TASK_STATE_RUNNING"
    "placed_on (g_cpu_tasks s') p (unat cpu)"
proof -
  have c: "unat cpu < 256" using en by (simp add: tick_enabled_def)
  have i128: "i < 128" using find_task_local_Some [OF i] by (simp add: slot_live_def)
  let ?s1 = "put_stats (s\<lparr>g_tick_count := g_tick_count s + 1\<rparr>) cpu (\<lambda>t. t\<lparr>ss_tick_count := ss_tick_count t + 1\<rparr>)"
  have f1: "find_task_local ?s1 = find_task_local s" by (rule find_task_local_cong) simp
  let ?t = "(task_at s cpu i)\<lparr>st_frame := frame, st_tick_count := st_tick_count (task_at s cpu i) + 1,
     st_remaining_ticks := (if st_remaining_ticks (task_at s cpu i) > 0 then st_remaining_ticks (task_at s cpu i) - 1
                            else st_remaining_ticks (task_at s cpu i))\<rparr>"
  define s2 where "s2 = put_task ?s1 cpu i ?t"
  have acc: "tick_account ?s1 cpu p frame = s2" using cur i by (simp add: tick_account_def f1 s2_def Let_def)
  have inv1: "sched_inv ?s1" using inv by simp
  have same1: "same_place (task_at ?s1 cpu i) ?t" by (simp add: same_place_def)
  have inv2: "sched_inv s2" unfolding s2_def using sched_inv_put_task [OF inv1 same1] .
  have f2: "find_task_local s2 = find_task_local s" unfolding s2_def put_task_same [OF inv1 same1] f1 ..
  have run2: "st_state (task_at s2 cpu i) = XAIOS_TASK_STATE_RUNNING"
    unfolding s2_def put_task_at [OF inv1 c i128] using run by simp
  have q2: "g_runqueues s2 = g_runqueues s" by (simp add: s2_def)
  have dec: "tick_decide s2 cpu p = (True, s2)" using cur i run2 by (simp add: tick_decide_def f2 Let_def)
  obtain q rq where k: "rq_pick_best s2 (rq_at s2 cpu) cpu = (q, rq)" by fastforce
  note pk = rq_pick_best_spec [OF placement_invD(3) [OF inv2 c] k, unfolded q2]
  have q: "q \<in> set (rq_list (rq_at s cpu))" and rq: "rq = rq_remove (rq_at s cpu) q" using pk(2) ne by auto
  have nz: "q \<noteq> 0" using placed_nonzero [OF inv placement_invD(6) [OF inv c, of q]] q by (simp add: busy_pids_def)
  have qp: "q \<noteq> p" using q out by auto
  obtain j where j: "find_task_local s cpu q = Some j" using local_tasks [OF q] by auto
  have ij: "j \<noteq> i" and j128: "j < 128"
    using find_task_local_Some [OF i] find_task_local_Some [OF j] qp by (auto simp: slot_live_def)
  let ?s4 = "put_rq s2 cpu rq"
  have inv4: "sched_inv ?s4" using sched_inv_pick(1) [OF inv2 c k] .
  have f4: "find_task_local ?s4 = find_task_local s" using f2 find_task_local_cong [of ?s4 s2] by simp
  let ?u = "(task_at ?s4 cpu j)\<lparr>st_state := XAIOS_TASK_STATE_RUNNING, st_switch_count := st_switch_count (task_at ?s4 cpu j) + 1\<rparr>"
  define s5 where "s5 = put_task ?s4 cpu j ?u"
  have same4: "same_place (task_at ?s4 cpu j) ?u" by (simp add: same_place_def)
  have tick: "s' = fst (tick_switch ?s4 cpu p q frame)"
    using en acc dec k nz cur by (simp add: s'_def scheduler_tick_def tick_enabled_def Let_def smp_cpu_state_def)
  have parts: "g_cpu_tasks s' = g_cpu_tasks s5"
    "g_runqueues s' = (g_runqueues s5)[unat cpu := (rq_at s5 cpu)\<lparr>rq_current_pid := q, rq_busy_ticks := rq_busy_ticks (rq_at s5 cpu) + 1\<rparr>]"
    unfolding tick using nz qp j by (simp_all add: tick_switch_def f4 Let_def s5_def)
  have l: "length (g_runqueues s) = 256" using placement_invD(2) [OF inv] .
  have r5: "rq_at s5 cpu = rq" using l c by (simp add: s5_def q2)
  have "rq_current_pid (rq_at s' cpu) = q" "rq_list (rq_at s' cpu) = remove1 q (rq_list (rq_at s cpu))"
    using r5 l c rq rq_remove_spec(2) [OF placement_invD(3) [OF inv c]] by (simp_all add: parts(2) s5_def q2)
  moreover have "find_task_local s' cpu p = Some i"
    using find_task_local_cong [OF parts(1)] put_task_same [OF inv4 same4] f4 i by (simp add: s5_def)
  moreover have "st_state (task_at s' cpu i) = XAIOS_TASK_STATE_RUNNING"
    unfolding parts(1) s5_def put_task_at [OF inv4 c j128] using ij run2 by simp
  moreover have "placed_on (g_cpu_tasks s') p (unat cpu)"
    using current_placed [OF inv c] cur put_task_live(2) [OF placement_invD(1) [OF inv1] same1]
    unfolding parts(1) s5_def put_task_live(2) [OF placement_invD(1) [OF inv4] same4] by (simp add: s2_def)
  ultimately show ?thesis using that [OF qp] by blast
qed

text \<open>
  A process that the scheduler dispatched is dropped at the next timer tick. Dispatching
  sets its state to running and takes it out of the queue, but the tick re-queues the current
  process only while its state is runnable. So when another process of this CPU waits, the tick
  switches to it, and the interrupted process, whatever is left of its time slice, is afterwards
  current on no CPU and in no run queue although its entry still says it is running.
\<close>

theorem tick_drops_dispatched:
  assumes "sched_inv s" "tick_enabled s cpu" "rq_current_pid (rq_at s cpu) = p" "p \<noteq> 0"
    and "find_task_local s cpu p = Some i" "st_state (task_at s cpu i) = XAIOS_TASK_STATE_RUNNING"
    and "p \<notin> set (rq_list (rq_at s cpu))" "rq_list (rq_at s cpu) \<noteq> []"
    and "\<And>q. q \<in> set (rq_list (rq_at s cpu)) \<Longrightarrow> find_task_local s cpu q \<noteq> None"
    and "a < 256" and s': "s' = fst (scheduler_tick trylock s cpu frame)"
  shows "p \<notin> busy_pids (g_runqueues s' ! a) \<and> st_state (task_at s' cpu i) = XAIOS_TASK_STATE_RUNNING"
proof -
  obtain q where q: "q \<noteq> p" "rq_current_pid (rq_at s' cpu) = q" "rq_list (rq_at s' cpu) = remove1 q (rq_list (rq_at s cpu))"
    "st_state (task_at s' cpu i) = XAIOS_TASK_STATE_RUNNING" "placed_on (g_cpu_tasks s') p (unat cpu)"
    by (rule tick_replaces_running [OF assms(1-9) s'])
  have "p \<notin> busy_pids (g_runqueues s' ! unat cpu)"
    using q assms(7) set_remove1_subset [of q "rq_list (rq_at s cpu)"] by (auto simp: busy_pids_def)
  then show ?thesis
    using placement_inv_idle [OF sched_inv_tick [OF assms(1)] _ _ assms(10)] q(4,5) unfolding s' by blast
qed

definition demo_pair :: sched_state where
  "demo_pair = put_table demo_sched 0 (claimed_table (claimed_table zero_task_table 0
     (demo_task\<lparr>st_state := XAIOS_TASK_STATE_RUNNING\<rparr>)) 1 (demo_task\<lparr>st_pid := 2\<rparr>))"

definition demo_dispatched :: sched_state where
  "demo_dispatched = put_rq demo_pair 0 (rq_add (zero_rq\<lparr>rq_current_pid := 1\<rparr>) 2)"

lemma demo_pair_table:
  "table_at demo_pair 0 = claimed_table (claimed_table zero_task_table 0
     (demo_task\<lparr>st_state := XAIOS_TASK_STATE_RUNNING\<rparr>)) 1 (demo_task\<lparr>st_pid := 2\<rparr>)"
  "c \<noteq> 0 \<Longrightarrow> g_cpu_tasks demo_pair ! c = g_cpu_tasks demo_sched ! c"
  by (simp_all add: demo_pair_def demo_sched_parts)

lemma demo_pair_claims: "slot_claimed (table_at demo_pair 0) i \<longleftrightarrow> i = 0 \<or> i = 1 \<or> slot_claimed zero_task_table i"
proof -
  let ?t = "claimed_table zero_task_table 0 (demo_task\<lparr>st_state := XAIOS_TASK_STATE_RUNNING\<rparr>)"
  have "slot_claimed (table_at demo_pair 0) i \<longleftrightarrow> i = 1 \<or> slot_claimed ?t i"
    unfolding demo_pair_table claimed_table_def [of ?t] using slot_claimed_set [of ?t 1] zero_table_lengths by simp
  then show ?thesis
    unfolding claimed_table_def [of zero_task_table] using slot_claimed_set [of zero_task_table 0] zero_table_lengths by auto
qed

lemma demo_pair_live: "slot_live (g_cpu_tasks demo_pair) c i p \<longleftrightarrow> c = 0 \<and> (i = 0 \<and> p = 1 \<or> i = 1 \<and> p = 2)"
proof (cases "c = 0")
  case True
  have t: "tt_tasks (g_cpu_tasks demo_pair ! 0) ! 0 = demo_task\<lparr>st_state := XAIOS_TASK_STATE_RUNNING\<rparr>"
    "tt_tasks (g_cpu_tasks demo_pair ! 0) ! 1 = demo_task\<lparr>st_pid := 2\<rparr>"
    using demo_pair_table(1) by (simp_all add: claimed_table_def zero_table_lengths)
  show ?thesis
    using demo_pair_claims [of i] zero_table_claims [of i] t True by (auto simp: slot_live_def demo_task_def)
next
  case False
  then show ?thesis using demo_pair_table(2) [OF False] zero_table_claims by (auto simp: slot_live_def demo_sched_parts)
qed

lemma demo_dispatched_inv: "sched_inv demo_dispatched"
proof -
  have wf: "tables_wf (g_cpu_tasks demo_sched)" using placement_invD(1) [OF sched_reach_inv [OF demo_sched_reach]] .
  have blank: "rq_inv q \<and> busy_pids q = {}" if "q \<in> set (g_runqueues demo_sched)" for q
    using that demo_sched_parts(3) by (auto simp: rq_inv_def busy_pids_def rq_list_def blank_rq_def)
  have pl: "placed_on (g_cpu_tasks demo_pair) 1 0" "placed_on (g_cpu_tasks demo_pair) 2 0"
    using demo_pair_table(1)
    by (auto simp: placed_on_def demo_pair_live claimed_table_def zero_table_lengths demo_task_def)
  have "placement_inv (g_cpu_tasks demo_pair) (g_runqueues demo_sched)"
    unfolding placement_inv_def using demo_pair_live blank demo_sched_parts(2) tables_wf_update [OF wf]
    by (auto simp: demo_pair_def zero_table_lengths)
  moreover have z: "rq_inv (zero_rq\<lparr>rq_current_pid := 1\<rparr>)" "rq_list (zero_rq\<lparr>rq_current_pid := 1\<rparr>) = []"
    by (simp_all add: zero_rq_def rq_inv_def rq_list_def)
  ultimately show ?thesis
    unfolding demo_dispatched_def using pl
    by (auto simp: demo_pair_def busy_pids_def rq_add_spec zero_rq_def intro!: placement_inv_put_rq)
qed

lemma demo_dispatched_queue:
  "rq_list (rq_at demo_dispatched 0) = [2]" "rq_current_pid (rq_at demo_dispatched 0) = 1"
proof -
  have "rq_at demo_dispatched 0 = rq_add (zero_rq\<lparr>rq_current_pid := 1\<rparr>) 2"
    by (simp add: demo_dispatched_def demo_pair_def demo_sched_parts)
  moreover have "rq_inv (zero_rq\<lparr>rq_current_pid := 1\<rparr>)" "rq_list (zero_rq\<lparr>rq_current_pid := 1\<rparr>) = []"
    by (simp_all add: zero_rq_def rq_inv_def rq_list_def)
  ultimately show "rq_list (rq_at demo_dispatched 0) = [2]" "rq_current_pid (rq_at demo_dispatched 0) = 1"
    by (simp_all add: rq_add_spec)
qed

lemma demo_dispatched_tasks:
  "find_task_local demo_dispatched 0 1 = Some 0" "find_task_local demo_dispatched 0 2 = Some 1"
  "st_state (task_at demo_dispatched 0 0) = XAIOS_TASK_STATE_RUNNING"
  using demo_pair_table(1)
  by (simp_all add: find_task_local_live demo_dispatched_def demo_pair_live upt_conv_Cons claimed_table_def zero_table_lengths del: upt_rec_numeral)

lemma demo_dispatched_enabled: "tick_enabled demo_dispatched 0"
  by (simp add: tick_enabled_def demo_dispatched_def demo_pair_def put_rq_def put_table_def demo_sched_def sched_init_env cpu_at_def)
    (simp add: scheduler_init_def XAIOS_MAX_CPUS_def)

theorem tick_drops_dispatched_witness:
  "tick_enabled demo_dispatched 0 \<and> rq_current_pid (rq_at demo_dispatched 0) = 1 \<and>
   1 \<notin> busy_pids (g_runqueues (fst (scheduler_tick (\<lambda>_. True) demo_dispatched 0 zero_frame)) ! 0)"
proof -
  have "1 \<notin> busy_pids (g_runqueues (fst (scheduler_tick (\<lambda>_. True) demo_dispatched 0 zero_frame)) ! 0) \<and>
      st_state (task_at (fst (scheduler_tick (\<lambda>_. True) demo_dispatched 0 zero_frame)) 0 0) = XAIOS_TASK_STATE_RUNNING"
    by (rule tick_drops_dispatched [OF demo_dispatched_inv demo_dispatched_enabled demo_dispatched_queue(2) _
        demo_dispatched_tasks(1,3) _ _ _ _ refl])
      (simp_all add: demo_dispatched_queue [simplified] demo_dispatched_tasks(2))
  then show ?thesis using demo_dispatched_enabled demo_dispatched_queue(2) by simp
qed

text \<open>
  Where a registration goes. A successful registration puts the process on the CPU that the
  placement chooses, in state registered with the full slice of its priority. As every later call
  looks only into the table of the CPU that executes it, making the process runnable succeeds on
  that CPU and fails as invalid on every other, the registering one included.
\<close>

theorem register_is_cpu_local:
  assumes inv: "sched_inv s" and fresh: "\<not> registered (g_cpu_tasks s) pid"
    and r: "scheduler_register_with_priority s this_cpu seed pid prio = (XAIOS_OK, s')"
    and cpu: "cpu = find_least_loaded_cpu s this_cpu seed"
  shows "(\<exists>i. find_task_local s' cpu pid = Some i \<and> st_priority (task_at s' cpu i) = prio \<and>
            st_state (task_at s' cpu i) = XAIOS_TASK_STATE_REGISTERED \<and>
            st_remaining_ticks (task_at s' cpu i) = priority_slice prio) \<and>
         fst (scheduler_set_runnable s' c pid) = (if c = cpu then XAIOS_OK else XAIOS_ERR_INVALID)"
proof (rule register_OK [OF inv r])
  fix cpu' i x
  assume h: "cpu' = find_least_loaded_cpu s this_cpu seed" "unat cpu' < 256" "i < 128" "pid \<noteq> 0"
    "\<not> slot_claimed (table_at s cpu') i"
    "x = zero_task\<lparr>st_pid := pid, st_active := 1, st_priority := prio, st_state := XAIOS_TASK_STATE_REGISTERED,
             st_remaining_ticks := priority_slice prio, st_assigned_cpu := cpu'\<rparr>"
    "s' = put_table s cpu' (claimed_table (table_at s cpu') i x)"
  have c: "cpu' = cpu" using h(1) cpu by simp
  have inv': "sched_inv s'" using sched_inv_register [OF inv fresh r] .
  note len = tables_wfD [OF placement_invD(1) [OF inv] h(2)]
  have t: "g_cpu_tasks s' ! unat cpu = claimed_table (table_at s cpu) i x" using h(7) len(3) h(2) c by simp
  have live: "slot_live (g_cpu_tasks s') (unat cpu) i pid"
    using h(2,3,6) len c slot_claimed_set [OF len(1) h(3)]
    by (auto simp: slot_live_def t) (auto simp: claimed_table_def)
  obtain j where j: "find_task_local s' cpu pid = Some j"
    using find_task_local_None [of s' cpu pid i] live by (cases "find_task_local s' cpu pid") auto
  then have ji: "j = i" using find_task_local_Some [OF j] live placement_invD(4) [OF inv'] by blast
  have task: "task_at s' cpu i = x" using len h(3) c by (simp add: t claimed_table_def)
  have other: "find_task_local s' c pid = None" if "c \<noteq> cpu"
  proof (rule ccontr)
    assume "find_task_local s' c pid \<noteq> None"
    then obtain k where "slot_live (g_cpu_tasks s') (unat c) k pid" using find_task_local_Some by blast
    then have "unat c = unat cpu" using placement_invD(4) [OF inv' live] by metis
    then show False using that by (simp add: word_eq_unat)
  qed
  have "fst (scheduler_set_runnable s' c pid) = (if c = cpu then XAIOS_OK else XAIOS_ERR_INVALID)"
    using other j by (simp add: scheduler_set_runnable_def Let_def)
  then show ?thesis using j task h(6) unfolding ji by simp
qed

theorem register_is_cpu_local_witness:
  "fst (scheduler_register_with_priority demo_sched 0 0 1 XAIOS_PRIORITY_HIGH) = XAIOS_OK \<and>
   fst (scheduler_set_runnable demo_registered 0 1) = XAIOS_OK \<and>
   fst (scheduler_set_runnable demo_registered 3 1) = XAIOS_ERR_INVALID"
proof -
  have fresh: "\<not> registered (g_cpu_tasks demo_sched) 1"
    using zero_table_claims by (auto simp: registered_def slot_live_def demo_sched_parts)
  note th = register_is_cpu_local [OF sched_reach_inv [OF demo_sched_reach] fresh demo_register(1) refl]
  show ?thesis using th [of 0] th [of 3] demo_register(1) by (simp add: demo_sched_cpu)
qed

end
