(* ===== verification/Security.thy ===== *)
theory Security
  imports Prelude "HOL-Library.Sublist"
begin

text \<open>
  \<^verbatim>\<open>kernel/runtime/security.c\<close>: the string scanners, the capability, file-system, workspace, sandbox,
  rollback and administration policies, the update-signature grammar with its replay counter and
  the sandbox path check. Texts are NUL-free character lists, \<open>None\<close> is the null pointer; a cursor
  into a text is the rest of the text. The log output of a denial is left out.
\<close>

section \<open>State\<close>

record security_state =
  g_denied_operations :: u64
  g_capability_denials :: u64
  g_fs_denials :: u64
  g_workspace_denials :: u64
  g_sandbox_denials :: u64
  g_rollback_denials :: u64
  g_update_policy_rejects :: u64
  g_signature_accepts :: u64
  g_signature_rejects :: u64
  g_credential_rejects :: u64
  g_admin_denials :: u64
  g_update_authorizations :: u64
  g_update_replay_rejects :: u64
  g_key_accepts :: u64
  g_key_rejects :: u64
  g_sandbox_escape_rejects :: u64
  g_last_update_generation :: u64

definition XAIOS_CAP_UPDATE :: u64 where
  "XAIOS_CAP_UPDATE = 16"

definition XAIOS_CAP_ADMIN :: u64 where
  "XAIOS_CAP_ADMIN = 128"

definition XAIOS_UPDATE_SIGNATURE_PREFIX :: string where
  "XAIOS_UPDATE_SIGNATURE_PREFIX = ''xaios-update:v1:''"

definition XAIOS_UPDATE_SIGNATURE_GEN_FIELD :: string where
  "XAIOS_UPDATE_SIGNATURE_GEN_FIELD = ''gen=''"

definition XAIOS_UPDATE_SIGNATURE_SHA_FIELD :: string where
  "XAIOS_UPDATE_SIGNATURE_SHA_FIELD = ''sha256=''"

definition XAIOS_UPDATE_SIGNATURE_KEY_FIELD :: string where
  "XAIOS_UPDATE_SIGNATURE_KEY_FIELD = ''key=XAIOS-QEMU-DEV-PUBKEY''"

definition XAIOS_UPDATE_SIGNATURE_SIG_FIELD :: string where
  "XAIOS_UPDATE_SIGNATURE_SIG_FIELD = ''sig=''"

definition k_pat_credential_pattern :: string where
  "k_pat_credential_pattern = ''github_pat_''"

definition k_short_credential_pattern :: string where
  "k_short_credential_pattern = ''ghp_''"

definition k_pass_field_pattern :: string where
  "k_pass_field_pattern = ''password=''"

definition k_token_field_pattern :: string where
  "k_token_field_pattern = ''token=''"

definition k_secret_field_pattern :: string where
  "k_secret_field_pattern = ''secret=''"

definition k_private_begin_pattern :: string where
  "k_private_begin_pattern = ''BEGIN ''"

definition k_private_key_pattern :: string where
  "k_private_key_pattern = ''PRIVATE KEY''"

section \<open>Scanners\<close>

text \<open>The character at a cursor position; the text ends in a NUL.\<close>

definition char_at :: "string \<Rightarrow> nat \<Rightarrow> char" where
  "char_at t i = (if i < length t then t ! i else CHR 0x00)"

text \<open>The comparison loop of \<^verbatim>\<open>starts_with\<close>; the end of the text is its NUL, which no prefix holds.\<close>

fun starts_loop :: "string \<Rightarrow> string \<Rightarrow> bool" where
  "starts_loop text [] = True"
| "starts_loop [] (p # ps) = False"
| "starts_loop (t # ts) (p # ps) = (if t \<noteq> p then False else starts_loop ts ps)"

definition starts_with :: "cstr \<Rightarrow> string \<Rightarrow> bool" where
  "starts_with text pre = (case text of None \<Rightarrow> False | Some t \<Rightarrow> starts_loop t pre)"

text \<open>The inner loop of \<^verbatim>\<open>contains\<close>: what is left of the pattern when text or pattern end or differ.\<close>

fun match_loop :: "string \<Rightarrow> string \<Rightarrow> string" where
  "match_loop (h # hs) (p # ps) = (if h = p then match_loop hs ps else p # ps)"
| "match_loop hs ps = ps"

fun contains_loop :: "string \<Rightarrow> string \<Rightarrow> bool" where
  "contains_loop [] needle = False"
| "contains_loop (c # cs) needle =
     (if match_loop (c # cs) needle = [] then True else contains_loop cs needle)"

definition contains :: "cstr \<Rightarrow> string \<Rightarrow> bool" where
  "contains text needle =
     (case text of None \<Rightarrow> False | Some t \<Rightarrow> if needle = [] then False else contains_loop t needle)"

definition cstr_length :: "cstr \<Rightarrow> nat" where
  "cstr_length text = (case text of None \<Rightarrow> 0 | Some t \<Rightarrow> length t)"

definition path_in_tree :: "cstr \<Rightarrow> string \<Rightarrow> bool" where
  "path_in_tree path root =
     (let root_len = cstr_length (Some root)
      in if \<not> starts_with path root then False
         else case path of
           None \<Rightarrow> False
         | Some t \<Rightarrow> char_at t root_len = CHR 0x00 \<or> char_at t root_len = CHR ''/'')"

text \<open>The bounded scan reads \<^verbatim>\<open>length\<close> bytes of a buffer; the position loop counts up to
  \<^verbatim>\<open>length - needle_len\<close>, the inner one up to the length of the pattern.\<close>

function buffer_match :: "string \<Rightarrow> string \<Rightarrow> nat \<Rightarrow> nat \<Rightarrow> nat" where
  "buffer_match text needle cursor i =
     (if i < length needle \<and> text ! (cursor + i) = needle ! i then buffer_match text needle cursor (i + 1) else i)"
  by pat_completeness auto
termination
  by (relation "measure (\<lambda>(text, needle, cursor, i). length needle - i)") auto

function buffer_scan :: "string \<Rightarrow> string \<Rightarrow> nat \<Rightarrow> nat \<Rightarrow> bool" where
  "buffer_scan text needle limit cursor =
     (if cursor \<le> limit
      then if buffer_match text needle cursor 0 = length needle then True
           else buffer_scan text needle limit (cursor + 1)
      else False)"
  by pat_completeness auto
termination
  by (relation "measure (\<lambda>(text, needle, limit, cursor). Suc limit - cursor)") auto

declare buffer_match.simps [simp del] buffer_scan.simps [simp del]

definition contains_buffer :: "cstr \<Rightarrow> nat \<Rightarrow> string \<Rightarrow> bool" where
  "contains_buffer text len needle =
     (let needle_len = cstr_length (Some needle)
      in case text of
           None \<Rightarrow> False
         | Some t \<Rightarrow> if needle_len = 0 \<or> len < needle_len then False
                     else buffer_scan t needle (len - needle_len) 0)"

definition is_hex_char :: "char \<Rightarrow> bool" where
  "is_hex_char ch \<longleftrightarrow>
     (of_char ch \<ge> (of_char CHR ''0'' :: nat) \<and> of_char ch \<le> (of_char CHR ''9'' :: nat)) \<or>
     (of_char ch \<ge> (of_char CHR ''a'' :: nat) \<and> of_char ch \<le> (of_char CHR ''f'' :: nat)) \<or>
     (of_char ch \<ge> (of_char CHR ''A'' :: nat) \<and> of_char ch \<le> (of_char CHR ''F'' :: nat))"

definition is_digit :: "char \<Rightarrow> bool" where
  "is_digit ch \<longleftrightarrow> of_char ch \<ge> (of_char CHR ''0'' :: nat) \<and> of_char ch \<le> (of_char CHR ''9'' :: nat)"

text \<open>The value of a digit, \<^verbatim>\<open>(uint64_t)(*value - '0')\<close>.\<close>

definition digit_value :: "char \<Rightarrow> u64" where
  "digit_value ch = of_nat (of_char ch) - of_nat (of_char CHR ''0'')"

text \<open>The digit loop: the parsed number and the rest at the colon or at the end.\<close>

fun generation_loop :: "string \<Rightarrow> u64 \<Rightarrow> (u64 \<times> string) option" where
  "generation_loop [] parsed = Some (parsed, [])"
| "generation_loop (c # cs) parsed =
     (if c = CHR '':'' then Some (parsed, c # cs)
      else if \<not> is_digit c \<or> parsed > (0xffffffffffffffff - digit_value c) div 10 then None
      else generation_loop cs (parsed * 10 + digit_value c))"

definition parse_generation :: "string \<Rightarrow> (u64 \<times> string) option" where
  "parse_generation cursor =
     (if \<not> starts_with (Some cursor) XAIOS_UPDATE_SIGNATURE_GEN_FIELD then None
      else let digits = drop (length XAIOS_UPDATE_SIGNATURE_GEN_FIELD) cursor
           in if \<not> is_digit (char_at digits 0) then None
              else case generation_loop digits 0 of
                None \<Rightarrow> None
              | Some (parsed, rest) \<Rightarrow>
                  if char_at rest 0 \<noteq> CHR '':'' \<or> parsed = 0 then None else Some (parsed, drop 1 rest))"

section \<open>Policies\<close>

definition reject_security_operation :: "security_state \<Rightarrow> xaios_status \<times> security_state" where
  "reject_security_operation s = (XAIOS_ERR_INVALID, s\<lparr>g_denied_operations := g_denied_operations s + 1\<rparr>)"

definition reject_update_signature :: "security_state \<Rightarrow> xaios_status \<times> security_state" where
  "reject_update_signature s =
     reject_security_operation (s\<lparr>g_signature_rejects := g_signature_rejects s + 1,
       g_update_policy_rejects := g_update_policy_rejects s + 1\<rparr>)"

definition reject_update_key :: "security_state \<Rightarrow> xaios_status \<times> security_state" where
  "reject_update_key s = reject_update_signature (s\<lparr>g_key_rejects := g_key_rejects s + 1\<rparr>)"

definition reject_update_replay :: "security_state \<Rightarrow> xaios_status \<times> security_state" where
  "reject_update_replay s = reject_update_signature (s\<lparr>g_update_replay_rejects := g_update_replay_rejects s + 1\<rparr>)"

definition security_policy_init :: "security_state \<Rightarrow> security_state" where
  "security_policy_init s = \<lparr>g_denied_operations = 0, g_capability_denials = 0, g_fs_denials = 0,
     g_workspace_denials = 0, g_sandbox_denials = 0, g_rollback_denials = 0, g_update_policy_rejects = 0,
     g_signature_accepts = 0, g_signature_rejects = 0, g_credential_rejects = 0, g_admin_denials = 0,
     g_update_authorizations = 0, g_update_replay_rejects = 0, g_key_accepts = 0, g_key_rejects = 0,
     g_sandbox_escape_rejects = 0, g_last_update_generation = 0\<rparr>"

definition security_record_denied_operation :: "security_state \<Rightarrow> security_state" where
  "security_record_denied_operation s = s\<lparr>g_denied_operations := g_denied_operations s + 1\<rparr>"

definition security_authorize_capability ::
  "security_state \<Rightarrow> u64 \<Rightarrow> u64 \<Rightarrow> xaios_status \<times> security_state" where
  "security_authorize_capability s granted required =
     (if granted AND required = required then (XAIOS_OK, s)
      else reject_security_operation (s\<lparr>g_capability_denials := g_capability_denials s + 1\<rparr>))"

definition security_reject_credential_material ::
  "security_state \<Rightarrow> cstr \<Rightarrow> xaios_status \<times> security_state" where
  "security_reject_credential_material s text =
     (if text = None
      then reject_security_operation (s\<lparr>g_credential_rejects := g_credential_rejects s + 1\<rparr>)
      else if contains text k_pat_credential_pattern \<or> contains text k_short_credential_pattern \<or>
              contains text k_private_begin_pattern \<or> contains text k_private_key_pattern \<or>
              contains text k_pass_field_pattern \<or> contains text k_token_field_pattern \<or>
              contains text k_secret_field_pattern
      then reject_security_operation (s\<lparr>g_credential_rejects := g_credential_rejects s + 1\<rparr>)
      else (XAIOS_OK, s))"

definition security_reject_credential_material_buffer ::
  "security_state \<Rightarrow> cstr \<Rightarrow> nat \<Rightarrow> xaios_status \<times> security_state" where
  "security_reject_credential_material_buffer s text len =
     (if text = None
      then reject_security_operation (s\<lparr>g_credential_rejects := g_credential_rejects s + 1\<rparr>)
      else if contains_buffer text len k_pat_credential_pattern \<or> contains_buffer text len k_short_credential_pattern \<or>
              contains_buffer text len k_private_begin_pattern \<or> contains_buffer text len k_private_key_pattern \<or>
              contains_buffer text len k_pass_field_pattern \<or> contains_buffer text len k_token_field_pattern \<or>
              contains_buffer text len k_secret_field_pattern
      then reject_security_operation (s\<lparr>g_credential_rejects := g_credential_rejects s + 1\<rparr>)
      else (XAIOS_OK, s))"

definition security_authorize_fs_read :: "security_state \<Rightarrow> cstr \<Rightarrow> xaios_status \<times> security_state" where
  "security_authorize_fs_read s path =
     (let (st, s1) = security_reject_credential_material s path
      in if st \<noteq> XAIOS_OK then (XAIOS_ERR_INVALID, s1\<lparr>g_fs_denials := g_fs_denials s1 + 1\<rparr>)
         else if starts_with path ''/etc/'' \<or> path_in_tree path ''/tmp'' \<or> path_in_tree path ''/home'' \<or>
                 path_in_tree path ''/apps'' \<or> path_in_tree path ''/state'' \<or> path_in_tree path ''/logs''
         then (XAIOS_OK, s1)
         else reject_security_operation (s1\<lparr>g_fs_denials := g_fs_denials s1 + 1\<rparr>))"

definition security_authorize_fs_write :: "security_state \<Rightarrow> cstr \<Rightarrow> xaios_status \<times> security_state" where
  "security_authorize_fs_write s path =
     (let (st, s1) = security_reject_credential_material s path
      in if st \<noteq> XAIOS_OK then (XAIOS_ERR_INVALID, s1\<lparr>g_fs_denials := g_fs_denials s1 + 1\<rparr>)
         else if path_in_tree path ''/tmp'' \<or> path_in_tree path ''/home'' \<or>
                 path_in_tree path ''/apps'' \<or> path_in_tree path ''/state'' \<or> path_in_tree path ''/logs''
         then (XAIOS_OK, s1)
         else reject_security_operation (s1\<lparr>g_fs_denials := g_fs_denials s1 + 1\<rparr>))"

definition security_authorize_git_workspace ::
  "security_state \<Rightarrow> u32 \<Rightarrow> u32 \<Rightarrow> u32 \<Rightarrow> cstr \<Rightarrow> xaios_status \<times> security_state" where
  "security_authorize_git_workspace s workspace_id owner_cell_id actor_cell_id operation =
     (let (st, s1) = security_reject_credential_material s operation
      in if st \<noteq> XAIOS_OK then (XAIOS_ERR_INVALID, s1\<lparr>g_workspace_denials := g_workspace_denials s1 + 1\<rparr>)
         else if actor_cell_id = owner_cell_id then (XAIOS_OK, s1)
         else reject_security_operation (s1\<lparr>g_workspace_denials := g_workspace_denials s1 + 1\<rparr>))"

definition security_authorize_sandbox ::
  "security_state \<Rightarrow> u32 \<Rightarrow> u32 \<Rightarrow> u32 \<Rightarrow> cstr \<Rightarrow> xaios_status \<times> security_state" where
  "security_authorize_sandbox s sandbox_id owner_cell_id actor_cell_id operation =
     (let (st, s1) = security_reject_credential_material s operation
      in if st \<noteq> XAIOS_OK then (XAIOS_ERR_INVALID, s1\<lparr>g_sandbox_denials := g_sandbox_denials s1 + 1\<rparr>)
         else if actor_cell_id = owner_cell_id then (XAIOS_OK, s1)
         else reject_security_operation (s1\<lparr>g_sandbox_denials := g_sandbox_denials s1 + 1\<rparr>))"

definition security_authorize_rollback :: "security_state \<Rightarrow> cstr \<Rightarrow> u32 \<Rightarrow> xaios_status \<times> security_state" where
  "security_authorize_rollback s target authorized =
     (let (st, s1) = security_reject_credential_material s target
      in if st \<noteq> XAIOS_OK then (XAIOS_ERR_INVALID, s1\<lparr>g_rollback_denials := g_rollback_denials s1 + 1\<rparr>)
         else if authorized \<noteq> 0 then (XAIOS_OK, s1)
         else reject_security_operation (s1\<lparr>g_rollback_denials := g_rollback_denials s1 + 1\<rparr>))"

definition security_authorize_admin :: "security_state \<Rightarrow> cstr \<Rightarrow> u64 \<Rightarrow> xaios_status \<times> security_state" where
  "security_authorize_admin s operation granted =
     (let (st, s1) = security_reject_credential_material s operation
      in if st \<noteq> XAIOS_OK then (XAIOS_ERR_INVALID, s1\<lparr>g_admin_denials := g_admin_denials s1 + 1\<rparr>)
         else if granted AND XAIOS_CAP_ADMIN = XAIOS_CAP_ADMIN then (XAIOS_OK, s1)
         else reject_security_operation (s1\<lparr>g_admin_denials := g_admin_denials s1 + 1,
                g_capability_denials := g_capability_denials s1 + 1\<rparr>))"

text \<open>The loop over 64 hexadecimal characters; a text that ends early shows its NUL, no hex digit.\<close>

definition hex64 :: "string \<Rightarrow> bool" where
  "hex64 cursor \<longleftrightarrow> (\<forall>i \<in> set [0 ..< 64]. is_hex_char (char_at cursor i))"

definition security_validate_update_signature ::
  "security_state \<Rightarrow> cstr \<Rightarrow> xaios_status \<times> security_state" where
  "security_validate_update_signature s signature =
     (let (st, s1) = security_reject_credential_material s signature
      in if st \<noteq> XAIOS_OK
         then (XAIOS_ERR_INVALID, s1\<lparr>g_signature_rejects := g_signature_rejects s1 + 1,
                 g_update_policy_rejects := g_update_policy_rejects s1 + 1\<rparr>)
         else if \<not> starts_with signature XAIOS_UPDATE_SIGNATURE_PREFIX then reject_update_signature s1
         else case parse_generation (drop (length XAIOS_UPDATE_SIGNATURE_PREFIX) (the signature)) of
           None \<Rightarrow> reject_update_signature s1
         | Some (generation, cursor) \<Rightarrow>
             if generation \<le> g_last_update_generation s1 then reject_update_replay s1
             else if \<not> starts_with (Some cursor) XAIOS_UPDATE_SIGNATURE_SHA_FIELD then reject_update_signature s1
             else let cursor = drop (length XAIOS_UPDATE_SIGNATURE_SHA_FIELD) cursor
             in if \<not> hex64 cursor then reject_update_signature s1
             else let cursor = drop 64 cursor
             in if char_at cursor 0 \<noteq> CHR '':'' then reject_update_signature s1
             else let cursor = drop 1 cursor
             in if \<not> starts_with (Some cursor) XAIOS_UPDATE_SIGNATURE_KEY_FIELD then reject_update_key s1
             else let cursor = drop (length XAIOS_UPDATE_SIGNATURE_KEY_FIELD) cursor
             in if char_at cursor 0 \<noteq> CHR '':'' then reject_update_signature s1
             else let cursor = drop 1 cursor
             in if \<not> starts_with (Some cursor) XAIOS_UPDATE_SIGNATURE_SIG_FIELD then reject_update_signature s1
             else let cursor = drop (length XAIOS_UPDATE_SIGNATURE_SIG_FIELD) cursor
             in if \<not> hex64 cursor then reject_update_signature s1
             else if char_at cursor 64 \<noteq> CHR 0x00 then reject_update_signature s1
             else (XAIOS_OK, s1\<lparr>g_last_update_generation := generation, g_key_accepts := g_key_accepts s1 + 1,
                     g_signature_accepts := g_signature_accepts s1 + 1\<rparr>))"

definition security_authorize_update_signature ::
  "security_state \<Rightarrow> cstr \<Rightarrow> u64 \<Rightarrow> xaios_status \<times> security_state" where
  "security_authorize_update_signature s signature granted =
     (if granted AND XAIOS_CAP_UPDATE \<noteq> XAIOS_CAP_UPDATE
      then (XAIOS_ERR_INVALID, snd (security_authorize_capability s granted XAIOS_CAP_UPDATE))
      else let (st, s1) = security_authorize_admin s (Some ''service.update'') granted
      in if st \<noteq> XAIOS_OK then (XAIOS_ERR_INVALID, s1)
      else let (st, s2) = security_validate_update_signature s1 signature
      in if st \<noteq> XAIOS_OK then (XAIOS_ERR_INVALID, s2)
      else (XAIOS_OK, s2\<lparr>g_update_authorizations := g_update_authorizations s2 + 1\<rparr>))"

text \<open>The path loop: \<open>p\<close> is the character before the cursor, \<open>None\<close> at the start of the path.\<close>

fun path_loop :: "char option \<Rightarrow> string \<Rightarrow> bool" where
  "path_loop p [] = True"
| "path_loop p (c # cs) =
     (if c = CHR ''/'' \<and> char_at cs 0 = CHR ''/'' then False
      else if c = CHR ''.'' \<and> char_at cs 0 = CHR ''.'' \<and> (p = None \<or> p = Some CHR ''/'') \<and>
              (char_at cs 1 = CHR ''/'' \<or> char_at cs 1 = CHR 0x00) then False
      else path_loop (Some c) cs)"

definition security_validate_sandbox_path :: "security_state \<Rightarrow> cstr \<Rightarrow> xaios_status \<times> security_state" where
  "security_validate_sandbox_path s path =
     (let (st, s1) = security_reject_credential_material s path;
          s2 = s1\<lparr>g_sandbox_escape_rejects := g_sandbox_escape_rejects s1 + 1\<rparr>
      in if st \<noteq> XAIOS_OK then (XAIOS_ERR_INVALID, s2)
         else case path of
           None \<Rightarrow> reject_security_operation s2
         | Some t \<Rightarrow>
             if char_at t 0 \<noteq> CHR ''/'' then reject_security_operation s2
             else if \<not> path_loop None t then reject_security_operation s2
             else (XAIOS_OK, s1))"

definition security_validate_benchmark_record :: "security_state \<Rightarrow> cstr \<Rightarrow> xaios_status \<times> security_state" where
  "security_validate_benchmark_record s record =
     (let (st, s1) = security_reject_credential_material s record
      in if st \<noteq> XAIOS_OK then (XAIOS_ERR_INVALID, s1)
         else if record = None \<or> \<not> contains record (CHR 0x22 # ''design_targets'' @ [CHR 0x22] @ '':true'')
         then reject_security_operation s1 else (XAIOS_OK, s1))"

text \<open>The counters as the kernel reports them.\<close>

definition security_denied_operation_count :: "security_state \<Rightarrow> u64" where
  "security_denied_operation_count s = g_denied_operations s"

definition security_capability_denial_count :: "security_state \<Rightarrow> u64" where
  "security_capability_denial_count s = g_capability_denials s"

definition security_fs_denial_count :: "security_state \<Rightarrow> u64" where
  "security_fs_denial_count s = g_fs_denials s"

definition security_workspace_denial_count :: "security_state \<Rightarrow> u64" where
  "security_workspace_denial_count s = g_workspace_denials s"

definition security_sandbox_denial_count :: "security_state \<Rightarrow> u64" where
  "security_sandbox_denial_count s = g_sandbox_denials s"

definition security_rollback_denial_count :: "security_state \<Rightarrow> u64" where
  "security_rollback_denial_count s = g_rollback_denials s"

definition security_update_policy_reject_count :: "security_state \<Rightarrow> u64" where
  "security_update_policy_reject_count s = g_update_policy_rejects s"

definition security_signature_accept_count :: "security_state \<Rightarrow> u64" where
  "security_signature_accept_count s = g_signature_accepts s"

definition security_signature_reject_count :: "security_state \<Rightarrow> u64" where
  "security_signature_reject_count s = g_signature_rejects s"

definition security_credential_reject_count :: "security_state \<Rightarrow> u64" where
  "security_credential_reject_count s = g_credential_rejects s"

definition security_admin_denial_count :: "security_state \<Rightarrow> u64" where
  "security_admin_denial_count s = g_admin_denials s"

definition security_update_authorization_count :: "security_state \<Rightarrow> u64" where
  "security_update_authorization_count s = g_update_authorizations s"

definition security_update_replay_reject_count :: "security_state \<Rightarrow> u64" where
  "security_update_replay_reject_count s = g_update_replay_rejects s"

definition security_key_accept_count :: "security_state \<Rightarrow> u64" where
  "security_key_accept_count s = g_key_accepts s"

definition security_key_reject_count :: "security_state \<Rightarrow> u64" where
  "security_key_reject_count s = g_key_rejects s"

definition security_sandbox_escape_reject_count :: "security_state \<Rightarrow> u64" where
  "security_sandbox_escape_reject_count s = g_sandbox_escape_rejects s"

section \<open>The scanners decide prefix and substring\<close>

lemma starts_loop_prefix [simp]: "starts_loop t p = prefix p t"
  by (induction t p rule: starts_loop.induct) auto

lemma starts_with_Some [simp]: "starts_with (Some t) p = prefix p t"
  by (simp add: starts_with_def)

lemma match_loop_prefix: "match_loop h p = [] \<longleftrightarrow> prefix p h"
  by (induction h p rule: match_loop.induct) auto

lemma contains_sublist: "needle \<noteq> [] \<Longrightarrow> contains (Some t) needle = sublist needle t"
proof -
  assume ne: "needle \<noteq> []"
  then have "contains_loop t needle = sublist needle t"
    by (induction t) (auto simp: match_loop_prefix sublist_Cons_right simp del: match_loop.simps)
  then show ?thesis using ne by (simp add: contains_def)
qed

lemma buffer_match_full:
  "i \<le> length n \<Longrightarrow> buffer_match t n c i = length n \<longleftrightarrow> (\<forall>j < length n. i \<le> j \<longrightarrow> t ! (c + j) = n ! j)"
proof (induction t n c i rule: buffer_match.induct)
  case (1 t n c i)
  show ?case
  proof (cases "i < length n \<and> t ! (c + i) = n ! i")
    case True
    then have "buffer_match t n c i = length n \<longleftrightarrow> (\<forall>j < length n. i + 1 \<le> j \<longrightarrow> t ! (c + j) = n ! j)"
      using "1.IH" by (subst buffer_match.simps) simp
    then show ?thesis using True by (metis Suc_eq_plus1 Suc_leI le_neq_implies_less le_SucI le_trans lessI less_imp_le)
  next
    case False
    then show ?thesis using "1.prems" by (subst buffer_match.simps) (cases "i = length n", auto, metis le_neq_implies_less order_refl)
  qed
qed

lemma buffer_scan_iff:
  "buffer_scan t n limit c \<longleftrightarrow> (\<exists>k. c \<le> k \<and> k \<le> limit \<and> buffer_match t n k 0 = length n)"
proof (induction t n limit c rule: buffer_scan.induct)
  case (1 t n limit c)
  then show ?case
    by (subst buffer_scan.simps) (auto simp: le_Suc_eq dest: Suc_leD intro: le_neq_implies_less [THEN Suc_leI])
qed

lemma sublist_at_take:
  assumes "k + length n \<le> length t"
  shows "(\<forall>j < length n. t ! (k + j) = n ! j) \<longleftrightarrow> take (length n) (drop k t) = n"
  using assms by (auto simp: list_eq_iff_nth_eq)

lemma sublist_positions: "sublist n t \<longleftrightarrow> (\<exists>k. k + length n \<le> length t \<and> take (length n) (drop k t) = n)"
proof
  assume "sublist n t"
  then obtain ps ss where "t = ps @ n @ ss" by (auto simp: sublist_def)
  then show "\<exists>k. k + length n \<le> length t \<and> take (length n) (drop k t) = n"
    by (intro exI [of _ "length ps"]) simp
next
  assume "\<exists>k. k + length n \<le> length t \<and> take (length n) (drop k t) = n"
  then obtain k where "take (length n) (drop k t) = n" by auto
  then have "t = take k t @ n @ drop (length n) (drop k t)" by (metis append_take_drop_id)
  then show "sublist n t" by (metis sublist_appendI)
qed

lemma contains_buffer_sublist:
  assumes "n \<noteq> []" "len \<le> length t"
  shows "contains_buffer (Some t) len n = sublist n (take len t)"
proof (cases "len < length n")
  case True
  then show ?thesis using assms sublist_length_le [of n "take len t"] by (auto simp: contains_buffer_def cstr_length_def)
next
  case False
  have at: "buffer_match t n k 0 = length n \<longleftrightarrow> take (length n) (drop k (take len t)) = n" if "k \<le> len - length n" for k
  proof -
    have "k + length n \<le> length t" using that False assms(2) by simp
    then have "buffer_match t n k 0 = length n \<longleftrightarrow> take (length n) (drop k t) = n"
      using buffer_match_full [of 0 n t k] sublist_at_take [of k n t] by simp
    also have "take (length n) (drop k (take len t)) = take (length n) (drop k t)"
      using that False by (simp add: drop_take min_def)
    ultimately show ?thesis by simp
  qed
  have "contains_buffer (Some t) len n \<longleftrightarrow> (\<exists>k \<le> len - length n. buffer_match t n k 0 = length n)"
    using False assms(1) by (auto simp: contains_buffer_def cstr_length_def buffer_scan_iff Let_def)
  also have "\<dots> \<longleftrightarrow> (\<exists>k. k + length n \<le> len \<and> take (length n) (drop k (take len t)) = n)"
    using at False by (metis add_leD2 le_diff_conv2 not_less)
  finally show ?thesis unfolding sublist_positions using assms(2) by simp
qed

section \<open>Credential material\<close>

definition credential_patterns :: "string list" where
  "credential_patterns = [k_pat_credential_pattern, k_short_credential_pattern, k_private_begin_pattern,
     k_private_key_pattern, k_pass_field_pattern, k_token_field_pattern, k_secret_field_pattern]"

lemmas pattern_defs = k_pat_credential_pattern_def k_short_credential_pattern_def k_private_begin_pattern_def
  k_private_key_pattern_def k_pass_field_pattern_def k_token_field_pattern_def k_secret_field_pattern_def

definition credential_free :: "string \<Rightarrow> bool" where
  "credential_free t \<longleftrightarrow> (\<forall>p \<in> set credential_patterns. \<not> sublist p t)"

lemma patterns_nonempty: "p \<in> set credential_patterns \<Longrightarrow> p \<noteq> []"
  by (auto simp: credential_patterns_def pattern_defs)

definition credential_denied :: "security_state \<Rightarrow> security_state" where
  "credential_denied s = s\<lparr>g_credential_rejects := g_credential_rejects s + 1,
     g_denied_operations := g_denied_operations s + 1\<rparr>"

lemma reject_credential_spec:
  "security_reject_credential_material s (Some t) =
     (if credential_free t then (XAIOS_OK, s) else (XAIOS_ERR_INVALID, credential_denied s))"
proof -
  have "(\<exists>p \<in> set credential_patterns. contains (Some t) p) \<longleftrightarrow> \<not> credential_free t"
    using contains_sublist patterns_nonempty unfolding credential_free_def by blast
  then show ?thesis
    by (simp add: security_reject_credential_material_def reject_security_operation_def credential_denied_def credential_patterns_def)
qed

lemma reject_credential_null:
  "security_reject_credential_material s None = (XAIOS_ERR_INVALID, credential_denied s)"
  by (simp add: security_reject_credential_material_def reject_security_operation_def credential_denied_def)

lemmas reject_credential_cases = reject_credential_spec reject_credential_null

text \<open>
  C35: The scan of a text and the bounded scan of a buffer agree: on every buffer that holds the
  announced bytes, the bounded scan gives the verdict and the counters that the text scan gives on
  these bytes, and the verdict is to accept exactly when none of the seven credential patterns
  occurs anywhere in them.
\<close>

theorem credential_scans_agree:
  assumes "len \<le> length t"
  shows "security_reject_credential_material_buffer s (Some t) len =
           security_reject_credential_material s (Some (take len t))
       \<and> (fst (security_reject_credential_material_buffer s (Some t) len) = XAIOS_OK \<longleftrightarrow> credential_free (take len t))"
proof -
  have "contains_buffer (Some t) len p = contains (Some (take len t)) p" if "p \<in> set credential_patterns" for p
    using that assms patterns_nonempty by (simp add: contains_buffer_sublist contains_sublist)
  then have "security_reject_credential_material_buffer s (Some t) len = security_reject_credential_material s (Some (take len t))"
    by (simp add: security_reject_credential_material_buffer_def security_reject_credential_material_def credential_patterns_def)
  then show ?thesis by (simp add: reject_credential_spec)
qed

definition sec_boot :: security_state where
  "sec_boot = security_policy_init (security_state.make 0 0 0 0 0 0 0 0 0 0 0 0 0 0 0 0 0)"

lemma credential_free_eval:
  "credential_free t \<longleftrightarrow> (\<forall>p \<in> set credential_patterns. \<not> contains_loop t p)"
proof -
  have "sublist p t = contains_loop t p" if "p \<in> set credential_patterns" for p
    using contains_sublist [OF patterns_nonempty [OF that], of t] patterns_nonempty [OF that] by (simp add: contains_def)
  then show ?thesis unfolding credential_free_def by blast
qed

theorem credential_scans_agree_witness:
  "fst (security_reject_credential_material_buffer sec_boot (Some ''a token=b'') 8) = XAIOS_ERR_INVALID \<and>
   fst (security_reject_credential_material_buffer sec_boot (Some ''a token=b'') 7) = XAIOS_OK"
proof -
  have "\<not> credential_free (take 8 ''a token=b'')" "credential_free (take 7 ''a token=b'')"
    by (simp_all add: credential_free_eval credential_patterns_def pattern_defs)
  then show ?thesis
    using credential_scans_agree [of 8 "''a token=b''" sec_boot] credential_scans_agree [of 7 "''a token=b''" sec_boot]
    by (simp add: reject_credential_spec)
qed

section \<open>Paths\<close>

text \<open>The components of a path between its slashes.\<close>

fun components :: "string \<Rightarrow> string list" where
  "components [] = [[]]"
| "components (c # cs) = (if c = CHR ''/'' then [] # components cs
     else (c # hd (components cs)) # tl (components cs))"

lemma components_nonempty [simp]: "components t \<noteq> []"
  by (cases t) auto

lemma char_at_simps [simp]:
  "char_at [] i = CHR 0x00" "char_at (c # cs) 0 = c" "char_at (c # cs) (Suc i) = char_at cs i"
  by (simp_all add: char_at_def)

lemma hd_components_dots:
  assumes "CHR 0x00 \<notin> set t"
  shows "hd (components t) = ''..'' \<longleftrightarrow>
    char_at t 0 = CHR ''.'' \<and> char_at t 1 = CHR ''.'' \<and> (char_at t 2 = CHR ''/'' \<or> char_at t 2 = CHR 0x00)"
proof -
  have nil: "hd (components u) = [] \<longleftrightarrow> char_at u 0 = CHR ''/'' \<or> char_at u 0 = CHR 0x00" if "CHR 0x00 \<notin> set u" for u
    using that by (cases u) auto
  have one: "hd (components u) = ''.'' \<longleftrightarrow> char_at u 0 = CHR ''.'' \<and> (char_at u 1 = CHR ''/'' \<or> char_at u 1 = CHR 0x00)"
    if "CHR 0x00 \<notin> set u" for u
    using that nil by (cases u) auto
  show ?thesis using assms one by (cases t) (auto simp: numeral_2_eq_2)
qed

lemma path_loop_components:
  assumes "CHR 0x00 \<notin> set t"
  shows "path_loop p t \<longleftrightarrow> \<not> sublist ''//'' t \<and> ''..'' \<notin> set (tl (components t)) \<and>
    (p = None \<or> p = Some CHR ''/'' \<longrightarrow> hd (components t) \<noteq> ''..'')"
  using assms
proof (induction p t rule: path_loop.induct)
  case (2 p c cs)
  have nul: "CHR 0x00 \<notin> set cs" using "2.prems" by simp
  have IH: "path_loop (Some c) cs \<longleftrightarrow> \<not> sublist ''//'' cs \<and> ''..'' \<notin> set (tl (components cs)) \<and>
    (c = CHR ''/'' \<longrightarrow> hd (components cs) \<noteq> ''..'')"
    if "\<not> (c = CHR ''/'' \<and> char_at cs 0 = CHR ''/'')"
      "\<not> (c = CHR ''.'' \<and> char_at cs 0 = CHR ''.'' \<and> (p = None \<or> p = Some CHR ''/'') \<and> (char_at cs 1 = CHR ''/'' \<or> char_at cs 1 = CHR 0x00))"
    using "2.IH" [OF that nul] by auto
  have slashes: "sublist ''//'' (c # cs) \<longleftrightarrow> (c = CHR ''/'' \<and> char_at cs 0 = CHR ''/'') \<or> sublist ''//'' cs"
    by (cases cs) (auto simp: sublist_Cons_right)
  have dots: "hd (components (c # cs)) = ''..'' \<longleftrightarrow> c = CHR ''.'' \<and> char_at cs 0 = CHR ''.'' \<and> (char_at cs 1 = CHR ''/'' \<or> char_at cs 1 = CHR 0x00)"
    using hd_components_dots [OF "2.prems"] by (simp add: numeral_2_eq_2)
  have tls: "''..'' \<in> set (tl (components (c # cs))) \<longleftrightarrow>
      ''..'' \<in> set (tl (components cs)) \<or> (c = CHR ''/'' \<and> hd (components cs) = ''..'')"
    by (cases "components cs") auto
  show ?case unfolding slashes dots tls using IH by (auto simp del: components.simps)
qed simp

text \<open>
  Following the components of a path from a directory, given by the names on the way to it from the root: an empty
  component and a dot stay, two dots go to the parent.
\<close>

fun walk :: "string list \<Rightarrow> string list \<Rightarrow> string list" where
  "walk dir [] = dir"
| "walk dir (c # cs) = walk (if c = [] \<or> c = ''.'' then dir else if c = ''..'' then butlast dir else dir @ [c]) cs"

lemma walk_below: "''..'' \<notin> set cs \<Longrightarrow> prefix dir (walk dir cs)"
  by (induction dir cs rule: walk.induct) (auto dest: append_prefixD)



lemma path_in_tree_iff:
  assumes "CHR 0x00 \<notin> set t"
  shows "path_in_tree (Some t) root \<longleftrightarrow> t = root \<or> prefix (root @ ''/'') t"
proof (cases "prefix root t")
  case True
  then obtain u where u: "t = root @ u" by (auto simp: prefix_def)
  have "char_at t (length root) = char_at u 0" by (simp add: u char_at_def nth_append)
  then show ?thesis using u assms by (cases u) (auto simp: path_in_tree_def cstr_length_def)
next
  case False
  then have "t \<noteq> root" "\<not> prefix (root @ ''/'') t" by (auto simp: prefix_def)
  with False show ?thesis by (simp add: path_in_tree_def)
qed

definition writable_roots :: "string list" where
  "writable_roots = [''/tmp'', ''/home'', ''/apps'', ''/state'', ''/logs'']"

text \<open>
  What the file-system policy checks. A write is authorised exactly for a path without
  credential material that is one of the five writable roots or continues one of them after a
  slash; a read also below \<^verbatim>\<open>/etc/\<close>. Nothing else of the path is looked at: unlike the sandbox check,
  the policy lets the parent component through, so a path that leaves its root again through two
  dots is authorised too.
\<close>

theorem fs_policy_is_textual:
  assumes "CHR 0x00 \<notin> set t"
  shows "fst (security_authorize_fs_write s (Some t)) =
      (if credential_free t \<and> (\<exists>r \<in> set writable_roots. t = r \<or> prefix (r @ ''/'') t)
       then XAIOS_OK else XAIOS_ERR_INVALID)
    \<and> fst (security_authorize_fs_read s (Some t)) =
      (if credential_free t \<and> (prefix ''/etc/'' t \<or> (\<exists>r \<in> set writable_roots. t = r \<or> prefix (r @ ''/'') t))
       then XAIOS_OK else XAIOS_ERR_INVALID)
    \<and> fst (security_authorize_fs_write s (Some (''/tmp/..'' @ t))) =
      (if credential_free (''/tmp/..'' @ t) then XAIOS_OK else XAIOS_ERR_INVALID)"
proof -
  have esc: "path_in_tree (Some (''/tmp/..'' @ t)) ''/tmp''"
    using path_in_tree_iff [of "''/tmp/..'' @ t" "''/tmp''"] assms by simp
  have trees: "(path_in_tree (Some t) ''/tmp'' \<or> path_in_tree (Some t) ''/home'' \<or> path_in_tree (Some t) ''/apps'' \<or>
      path_in_tree (Some t) ''/state'' \<or> path_in_tree (Some t) ''/logs'') \<longleftrightarrow> (\<exists>r \<in> set writable_roots. t = r \<or> prefix (r @ ''/'') t)"
    unfolding path_in_tree_iff [OF assms] writable_roots_def by (simp only: list.set bex_simps) blast
  show ?thesis
    unfolding security_authorize_fs_write_def security_authorize_fs_read_def reject_credential_spec
    using trees esc by (auto simp: reject_security_operation_def)
qed

theorem fs_policy_is_textual_witness:
  "fst (security_authorize_fs_write sec_boot (Some ''/tmp/../boot/kernel'')) = XAIOS_OK \<and>
   fst (security_authorize_fs_write sec_boot (Some ''/tmpx'')) = XAIOS_ERR_INVALID"
proof -
  have "credential_free ''/boot/kernel''" "credential_free ''/tmp/../boot/kernel''"
    by (simp_all add: credential_free_eval credential_patterns_def pattern_defs)
  then show ?thesis
    using fs_policy_is_textual [of "''/boot/kernel''" sec_boot] fs_policy_is_textual [of "''/tmpx''" sec_boot]
    by (simp add: writable_roots_def)
qed

end
