(* ===== verification/Security_Update.thy ===== *)
theory Security_Update
  imports Security
begin

text \<open>
  The update signatures of \<^verbatim>\<open>kernel/runtime/security.c\<close>: the language the validator accepts and the
  replay protection over whole histories of update requests.
\<close>

section \<open>The update signature\<close>

text \<open>The number that a digit string denotes, continuing an already parsed part.\<close>

definition digits_value :: "nat \<Rightarrow> string \<Rightarrow> nat" where
  "digits_value a ds = foldl (\<lambda>v c. 10 * v + (of_char c - 48)) a ds"

lemma digits_value_ge: "a \<le> digits_value a ds"
proof (induction ds arbitrary: a)
  case (Cons c ds)
  have "a \<le> 10 * a + (of_char c - 48)" by simp
  also have "\<dots> \<le> digits_value (10 * a + (of_char c - 48)) ds" by (rule Cons.IH)
  finally show ?case by (simp add: digits_value_def)
qed (simp add: digits_value_def)

lemma digit_char:
  assumes "is_digit c"
  shows "unat (digit_value c) = of_char c - 48" "of_char c - 48 \<le> (9 :: nat)" "c \<noteq> CHR '':''" "c \<noteq> CHR 0x00"
proof -
  have b: "48 \<le> (of_char c :: nat)" "(of_char c :: nat) \<le> 57" using assms by (simp_all add: is_digit_def)
  then show "of_char c - 48 \<le> (9 :: nat)" "c \<noteq> CHR '':''" "c \<noteq> CHR 0x00" by auto
  have "digit_value c = of_nat (of_char c - 48)" using b by (simp add: digit_value_def of_nat_diff)
  moreover have "unat (of_nat (of_char c - 48) :: u64) = of_char c - 48" using b by (intro unat_of_nat_small) simp
  ultimately show "unat (digit_value c) = of_char c - 48" by simp
qed

lemma digit_step:
  fixes a :: u64
  assumes "is_digit c"
  shows "a > (0xffffffffffffffff - digit_value c) div 10 \<longleftrightarrow> 2 ^ 64 \<le> 10 * unat a + (of_char c - 48)"
    and "10 * unat a + (of_char c - 48) < 2 ^ 64 \<Longrightarrow> unat (a * 10 + digit_value c) = 10 * unat a + (of_char c - 48)"
proof -
  let ?d = "of_char c - 48 :: nat"
  have d: "unat (digit_value c) = ?d" "?d \<le> 9" using digit_char [OF assms] by auto
  have "unat (0xffffffffffffffff - digit_value c) = 0xffffffffffffffff - ?d"
    using d unat_sub_le [of "digit_value c" "0xffffffffffffffff"] by (simp add: word_le_nat_alt)
  then have "unat ((0xffffffffffffffff - digit_value c) div 10) = (0xffffffffffffffff - ?d) div 10"
    by (simp add: unat_div)
  then show "a > (0xffffffffffffffff - digit_value c) div 10 \<longleftrightarrow> 2 ^ 64 \<le> 10 * unat a + ?d"
    using d(2) by (simp add: word_less_nat_alt) linarith
  assume lt: "10 * unat a + ?d < 2 ^ 64"
  then have "unat (a * 10) = 10 * unat a" by (simp add: unat_word_ariths)
  then show "unat (a * 10 + digit_value c) = 10 * unat a + ?d"
    using lt d by (simp add: unat_word_ariths)
qed

lemma ex_append_Cons:
  "(\<exists>ds. c # t = ds @ r \<and> P ds) \<longleftrightarrow> (r = c # t \<and> P []) \<or> (\<exists>ds. t = ds @ r \<and> P (c # ds))"
  by (auto simp: Cons_eq_append_conv)

definition digit_run :: "string \<Rightarrow> nat \<Rightarrow> u64 \<Rightarrow> string \<Rightarrow> bool" where
  "digit_run r a v ds \<longleftrightarrow> (\<forall>c \<in> set ds. is_digit c) \<and> (r = [] \<or> hd r = CHR '':'') \<and>
     digits_value a ds < 2 ^ 64 \<and> unat v = digits_value a ds"

lemma digit_run_Cons: "digit_run r a v (c # ds) \<longleftrightarrow> is_digit c \<and> digit_run r (10 * a + (of_char c - 48)) v ds"
  by (auto simp: digit_run_def digits_value_def)

lemma digit_run_bound: "digit_run r a v ds \<Longrightarrow> a < 2 ^ 64"
  using digits_value_ge [of a ds] by (simp add: digit_run_def)

lemma unat_u64: "unat (a :: u64) < 2 ^ 64"
  by (rule order_less_le_trans [OF unsigned_less]) simp

lemma digit_run_Nil: "digit_run r (unat a) v [] \<longleftrightarrow> (r = [] \<or> hd r = CHR '':'') \<and> v = a"
  using unat_u64 [of a] by (simp add: digit_run_def digits_value_def word_eq_unat)

lemma generation_loop_iff:
  "generation_loop t a = Some (v, r) \<longleftrightarrow> (\<exists>ds. t = ds @ r \<and> digit_run r (unat a) v ds)"
proof (induction t arbitrary: a)
  case Nil
  have "(\<exists>ds. [] = ds @ r \<and> digit_run r (unat a) v ds) \<longleftrightarrow> r = [] \<and> digit_run r (unat a) v []" by auto
  then show ?case unfolding digit_run_Nil by auto
next
  case (Cons c t)
  show ?case
  proof (cases "c = CHR '':''")
    case True
    then have "\<not> is_digit c" using digit_char(3) by blast
    then show ?thesis unfolding ex_append_Cons digit_run_Cons digit_run_Nil using True by auto
  next
    case False
    let ?b = "10 * unat a + (of_char c - 48)"
    have split: "(\<exists>ds. c # t = ds @ r \<and> digit_run r (unat a) v ds) \<longleftrightarrow>
        is_digit c \<and> (\<exists>ds. t = ds @ r \<and> digit_run r ?b v ds)"
      unfolding ex_append_Cons digit_run_Cons digit_run_Nil using False by auto
    show ?thesis
    proof (cases "is_digit c \<and> ?b < 2 ^ 64")
      case True
      then have u: "unat (a * 10 + digit_value c) = ?b" and ok: "\<not> a > (0xffffffffffffffff - digit_value c) div 10"
        using digit_step(2) [of c a] digit_step(1) [of c a] by (blast, linarith)
      have "generation_loop (c # t) a = generation_loop t (a * 10 + digit_value c)"
        unfolding generation_loop.simps using False True ok by (simp only: simp_thms if_False if_True)
      then have "generation_loop (c # t) a = Some (v, r) \<longleftrightarrow> (\<exists>ds. t = ds @ r \<and> digit_run r ?b v ds)"
        by (simp only: Cons.IH u)
      then show ?thesis using split True by blast
    next
      case no: False
      then have "\<not> is_digit c \<or> a > (0xffffffffffffffff - digit_value c) div 10"
        using digit_step(1) [of c a] by linarith
      then have "generation_loop (c # t) a = None"
        unfolding generation_loop.simps using False by (simp only: simp_thms if_False if_True)
      moreover have "\<not> (is_digit c \<and> (\<exists>ds. t = ds @ r \<and> digit_run r ?b v ds))" using no digit_run_bound by blast
      ultimately show ?thesis unfolding split by (simp only: option.simps)
    qed
  qed
qed

lemma parse_generation_iff:
  assumes "CHR 0x00 \<notin> set t"
  shows "parse_generation t = Some (g, r) \<longleftrightarrow>
     (\<exists>ds. t = ''gen='' @ ds @ '':'' @ r \<and> ds \<noteq> [] \<and> (\<forall>c \<in> set ds. is_digit c) \<and>
           0 < digits_value 0 ds \<and> digits_value 0 ds < 2 ^ 64 \<and> unat g = digits_value 0 ds)"
  (is "?l \<longleftrightarrow> ?r")
proof
  assume l: ?l
  let ?u = "drop (length XAIOS_UPDATE_SIGNATURE_GEN_FIELD) t"
  from l have pre: "prefix XAIOS_UPDATE_SIGNATURE_GEN_FIELD t" and dig: "is_digit (char_at ?u 0)"
    by (auto simp: parse_generation_def Let_def split: if_splits)
  from l pre dig obtain q where q: "generation_loop ?u 0 = Some (g, q)" "char_at q 0 = CHR '':''" "g \<noteq> 0" "r = drop 1 q"
    by (auto simp: parse_generation_def Let_def split: if_splits option.splits)
  obtain ds where ds: "?u = ds @ q" "\<forall>c \<in> set ds. is_digit c" "digits_value 0 ds < 2 ^ 64" "unat g = digits_value 0 ds"
    using q(1) generation_loop_iff [of ?u 0 g q] by (auto simp: digit_run_def)
  have qr: "q = '':'' @ r" using q(2,4) by (cases q) auto
  have "ds \<noteq> []" using ds(1) dig qr digit_char(3) by (cases ds) auto
  moreover have "t = ''gen='' @ ?u" using pre by (auto simp: prefix_def XAIOS_UPDATE_SIGNATURE_GEN_FIELD_def)
  moreover have "0 < unat g" using q(3) by (simp add: unat_gt_0)
  ultimately show ?r using ds qr by auto
next
  assume ?r
  then obtain ds where ds: "t = ''gen='' @ ds @ '':'' @ r" "ds \<noteq> []" "\<forall>c \<in> set ds. is_digit c"
      "0 < digits_value 0 ds" "digits_value 0 ds < 2 ^ 64" "unat g = digits_value 0 ds" by blast
  have "generation_loop (ds @ '':'' @ r) 0 = Some (g, '':'' @ r)"
    using ds generation_loop_iff [of "ds @ '':'' @ r" 0 g "'':'' @ r"] by (auto simp: digit_run_def)
  moreover have "is_digit (char_at (ds @ '':'' @ r) 0)" using ds(2,3) by (cases ds) auto
  moreover have "g \<noteq> 0" using ds(4,6) by auto
  ultimately show ?l
    using ds(1) by (simp add: parse_generation_def XAIOS_UPDATE_SIGNATURE_GEN_FIELD_def)
qed

text \<open>The language of update signatures, with the generation they carry.\<close>

definition update_text :: "string \<Rightarrow> nat \<Rightarrow> bool" where
  "update_text t g \<longleftrightarrow> (\<exists>ds sha sg. t = XAIOS_UPDATE_SIGNATURE_PREFIX @ ''gen='' @ ds @ '':'' @
       XAIOS_UPDATE_SIGNATURE_SHA_FIELD @ sha @ '':'' @ XAIOS_UPDATE_SIGNATURE_KEY_FIELD @ '':'' @
       XAIOS_UPDATE_SIGNATURE_SIG_FIELD @ sg \<and>
     ds \<noteq> [] \<and> (\<forall>c \<in> set ds. is_digit c) \<and> g = digits_value 0 ds \<and>
     length sha = 64 \<and> (\<forall>c \<in> set sha. is_hex_char c) \<and> length sg = 64 \<and> (\<forall>c \<in> set sg. is_hex_char c))"

lemma hex_nul: "\<not> is_hex_char CHR 0x00" by (simp add: is_hex_char_def)

lemma hex64_iff: "hex64 c \<longleftrightarrow> (\<exists>h r. c = h @ r \<and> length h = 64 \<and> (\<forall>x \<in> set h. is_hex_char x))"
proof
  assume h: "hex64 c"
  have len: "64 \<le> length c"
  proof (rule ccontr)
    assume "\<not> 64 \<le> length c"
    then have "is_hex_char (char_at c (length c))" using h unfolding hex64_def by (simp del: upt_rec_numeral)
    then show False using hex_nul by (simp add: char_at_def)
  qed
  have "is_hex_char x" if "x \<in> set (take 64 c)" for x
    using that h len unfolding hex64_def in_set_conv_nth by (auto simp: char_at_def simp del: upt_rec_numeral)
  then show "\<exists>h r. c = h @ r \<and> length h = 64 \<and> (\<forall>x \<in> set h. is_hex_char x)"
    using len by (intro exI [of _ "take 64 c"] exI [of _ "drop 64 c"]) simp
next
  assume "\<exists>h r. c = h @ r \<and> length h = 64 \<and> (\<forall>x \<in> set h. is_hex_char x)"
  then show "hex64 c" by (auto simp: hex64_def char_at_def nth_append simp del: upt_rec_numeral)
qed

lemma char_colon: "char_at c 0 = CHR '':'' \<longleftrightarrow> (\<exists>r. c = '':'' @ r)"
  by (cases c) auto

lemma char_end: "CHR 0x00 \<notin> set c \<Longrightarrow> length h = 64 \<Longrightarrow> c = h @ r \<Longrightarrow> char_at c 64 = CHR 0x00 \<longleftrightarrow> r = []"
  by (cases r) (auto simp: char_at_def nth_append)

text \<open>The part of a signature after the generation, as the validator walks it.\<close>

definition tail_accepted :: "string \<Rightarrow> bool" where
  "tail_accepted c \<longleftrightarrow> prefix XAIOS_UPDATE_SIGNATURE_SHA_FIELD c \<and>
    (let c1 = drop (length XAIOS_UPDATE_SIGNATURE_SHA_FIELD) c in hex64 c1 \<and>
    (let c2 = drop 64 c1 in char_at c2 0 = CHR '':'' \<and>
    (let c3 = drop 1 c2 in prefix XAIOS_UPDATE_SIGNATURE_KEY_FIELD c3 \<and>
    (let c4 = drop (length XAIOS_UPDATE_SIGNATURE_KEY_FIELD) c3 in char_at c4 0 = CHR '':'' \<and>
    (let c5 = drop 1 c4 in prefix XAIOS_UPDATE_SIGNATURE_SIG_FIELD c5 \<and>
    (let c6 = drop (length XAIOS_UPDATE_SIGNATURE_SIG_FIELD) c5 in hex64 c6 \<and> char_at c6 64 = CHR 0x00))))))"

lemma tail_accepted_iff:
  assumes "CHR 0x00 \<notin> set c"
  shows "tail_accepted c \<longleftrightarrow> (\<exists>sha sg. c = XAIOS_UPDATE_SIGNATURE_SHA_FIELD @ sha @ '':'' @
      XAIOS_UPDATE_SIGNATURE_KEY_FIELD @ '':'' @ XAIOS_UPDATE_SIGNATURE_SIG_FIELD @ sg \<and>
      length sha = 64 \<and> (\<forall>c \<in> set sha. is_hex_char c) \<and> length sg = 64 \<and> (\<forall>c \<in> set sg. is_hex_char c))"
  (is "_ \<longleftrightarrow> ?r")
proof
  assume t: "tail_accepted c"
  then obtain c1 where c1: "c = XAIOS_UPDATE_SIGNATURE_SHA_FIELD @ c1" by (auto simp: tail_accepted_def prefix_def)
  with t obtain sha c2 where c2: "c1 = sha @ c2" "length sha = 64" "\<forall>c \<in> set sha. is_hex_char c"
    by (auto simp: tail_accepted_def hex64_iff Let_def)
  with t c1 obtain c3 where c3: "c2 = '':'' @ c3" by (auto simp: tail_accepted_def char_colon Let_def)
  with t c1 c2 obtain c4 where c4: "c3 = XAIOS_UPDATE_SIGNATURE_KEY_FIELD @ c4" by (auto simp: tail_accepted_def prefix_def)
  with t c1 c2 c3 obtain c5 where c5: "c4 = '':'' @ c5" by (auto simp: tail_accepted_def char_colon Let_def)
  with t c1 c2 c3 c4 obtain c6 where c6: "c5 = XAIOS_UPDATE_SIGNATURE_SIG_FIELD @ c6" by (auto simp: tail_accepted_def prefix_def)
  with t c1 c2 c3 c4 c5 obtain sg c7 where c7: "c6 = sg @ c7" "length sg = 64" "\<forall>c \<in> set sg. is_hex_char c"
    by (auto simp: tail_accepted_def hex64_iff Let_def)
  have "char_at c6 64 = CHR 0x00" using t c1 c2 c3 c4 c5 c6 by (simp add: tail_accepted_def)
  then have "c7 = []" using char_end [OF _ c7(2,1)] assms c1 c2 c3 c4 c5 c6 by simp
  then show ?r using c1 c2 c3 c4 c5 c6 c7 by auto
next
  assume ?r
  then obtain sha sg where e: "c = XAIOS_UPDATE_SIGNATURE_SHA_FIELD @ sha @ '':'' @
      XAIOS_UPDATE_SIGNATURE_KEY_FIELD @ '':'' @ XAIOS_UPDATE_SIGNATURE_SIG_FIELD @ sg"
    "length sha = 64" "\<forall>c \<in> set sha. is_hex_char c" "length sg = 64" "\<forall>c \<in> set sg. is_hex_char c" by blast
  have "hex64 (sha @ r)" for r using e(2,3) by (auto simp: hex64_iff)
  moreover have "hex64 sg" using e(4,5) by (auto simp: hex64_iff)
  moreover have "char_at sg 64 = CHR 0x00" using e(4) by (simp add: char_at_def)
  ultimately show "tail_accepted c" using e(2) by (simp add: tail_accepted_def e(1))
qed

lemma validate_signature_cases:
  assumes "credential_free t" "prefix XAIOS_UPDATE_SIGNATURE_PREFIX t"
    and "parse_generation (drop (length XAIOS_UPDATE_SIGNATURE_PREFIX) t) = Some (g, c)"
  shows "g_last_update_generation s < g \<and> tail_accepted c \<Longrightarrow> security_validate_update_signature s (Some t) =
      (XAIOS_OK, s\<lparr>g_last_update_generation := g, g_key_accepts := g_key_accepts s + 1,
         g_signature_accepts := g_signature_accepts s + 1\<rparr>)"
    and "\<not> (g_last_update_generation s < g \<and> tail_accepted c) \<Longrightarrow>
      fst (security_validate_update_signature s (Some t)) = XAIOS_ERR_INVALID \<and>
      g_last_update_generation (snd (security_validate_update_signature s (Some t))) = g_last_update_generation s"
  using assms unfolding tail_accepted_def security_validate_update_signature_def
  by (auto simp: reject_credential_spec Let_def reject_update_signature_def reject_update_key_def
      reject_update_replay_def reject_security_operation_def not_less simp del: drop_drop)

lemma validate_signature_no_generation:
  assumes "\<not> credential_free t \<or> \<not> prefix XAIOS_UPDATE_SIGNATURE_PREFIX t \<or>
    parse_generation (drop (length XAIOS_UPDATE_SIGNATURE_PREFIX) t) = None"
  shows "fst (security_validate_update_signature s (Some t)) = XAIOS_ERR_INVALID \<and>
    g_last_update_generation (snd (security_validate_update_signature s (Some t))) = g_last_update_generation s"
  using assms unfolding security_validate_update_signature_def
  by (auto simp: reject_credential_spec Let_def reject_update_signature_def reject_security_operation_def credential_denied_def)

lemma update_text_parse:
  assumes nul: "CHR 0x00 \<notin> set t"
  shows "update_text t n \<and> 0 < n \<and> n < 2 ^ 64 \<longleftrightarrow>
    (\<exists>g c. prefix XAIOS_UPDATE_SIGNATURE_PREFIX t \<and>
       parse_generation (drop (length XAIOS_UPDATE_SIGNATURE_PREFIX) t) = Some (g, c) \<and> tail_accepted c \<and> unat g = n)"
  (is "?l \<longleftrightarrow> ?r")
proof
  assume ?l
  then obtain ds sha sg where e: "t = XAIOS_UPDATE_SIGNATURE_PREFIX @ ''gen='' @ ds @ '':'' @ (XAIOS_UPDATE_SIGNATURE_SHA_FIELD @ sha @ '':'' @
      XAIOS_UPDATE_SIGNATURE_KEY_FIELD @ '':'' @ XAIOS_UPDATE_SIGNATURE_SIG_FIELD @ sg)"
    "ds \<noteq> []" "\<forall>c \<in> set ds. is_digit c" "n = digits_value 0 ds" "0 < n" "n < 2 ^ 64"
    "length sha = 64" "\<forall>c \<in> set sha. is_hex_char c" "length sg = 64" "\<forall>c \<in> set sg. is_hex_char c"
    unfolding update_text_def by blast
  let ?c = "XAIOS_UPDATE_SIGNATURE_SHA_FIELD @ sha @ '':'' @ XAIOS_UPDATE_SIGNATURE_KEY_FIELD @ '':'' @ XAIOS_UPDATE_SIGNATURE_SIG_FIELD @ sg"
  have n: "unat (of_nat n :: u64) = n" using e(6) by (intro unat_of_nat_small) simp
  have "parse_generation (''gen='' @ ds @ '':'' @ ?c) = Some (of_nat n, ?c)"
    using nul e n by (subst parse_generation_iff) auto
  moreover have "tail_accepted ?c" using nul e by (subst tail_accepted_iff) auto
  ultimately show ?r using e(1) n by auto
next
  assume ?r
  then obtain g c u where h: "t = XAIOS_UPDATE_SIGNATURE_PREFIX @ u" "parse_generation u = Some (g, c)" "tail_accepted c" "unat g = n"
    by (auto simp: prefix_def)
  obtain ds where ds: "u = ''gen='' @ ds @ '':'' @ c" "ds \<noteq> []" "\<forall>c \<in> set ds. is_digit c"
      "0 < digits_value 0 ds" "digits_value 0 ds < 2 ^ 64" "unat g = digits_value 0 ds"
    using h(1,2) nul parse_generation_iff [of u g c] by auto
  have "CHR 0x00 \<notin> set c" using nul h(1) ds(1) by simp
  then obtain sha sg where "c = XAIOS_UPDATE_SIGNATURE_SHA_FIELD @ sha @ '':'' @
      XAIOS_UPDATE_SIGNATURE_KEY_FIELD @ '':'' @ XAIOS_UPDATE_SIGNATURE_SIG_FIELD @ sg"
    "length sha = 64" "\<forall>c \<in> set sha. is_hex_char c" "length sg = 64" "\<forall>c \<in> set sg. is_hex_char c"
    using h(3) tail_accepted_iff [of c] by auto
  then have "update_text t (digits_value 0 ds)"
    unfolding update_text_def h(1) ds(1) using ds(2,3)
    by (intro exI [of _ ds] exI [of _ sha] exI [of _ sg]) simp
  then show ?l using h(4) ds(4-6) by simp
qed


lemma validate_signature_last:
  "fst (security_validate_update_signature s c) = XAIOS_OK \<Longrightarrow>
     g_last_update_generation s < g_last_update_generation (snd (security_validate_update_signature s c))"
  "fst (security_validate_update_signature s c) \<noteq> XAIOS_OK \<Longrightarrow>
     g_last_update_generation (snd (security_validate_update_signature s c)) = g_last_update_generation s"
proof -
  consider (null) "c = None" | (bad) t where "c = Some t" "\<not> credential_free t \<or> \<not> prefix XAIOS_UPDATE_SIGNATURE_PREFIX t \<or>
      parse_generation (drop (length XAIOS_UPDATE_SIGNATURE_PREFIX) t) = None"
    | (gen) t g r where "c = Some t" "credential_free t" "prefix XAIOS_UPDATE_SIGNATURE_PREFIX t"
      "parse_generation (drop (length XAIOS_UPDATE_SIGNATURE_PREFIX) t) = Some (g, r)"
    by (metis not_None_eq surj_pair)
  then have "(fst (security_validate_update_signature s c) = XAIOS_OK \<longrightarrow>
      g_last_update_generation s < g_last_update_generation (snd (security_validate_update_signature s c))) \<and>
    (fst (security_validate_update_signature s c) \<noteq> XAIOS_OK \<longrightarrow>
      g_last_update_generation (snd (security_validate_update_signature s c)) = g_last_update_generation s)"
  proof cases
    case null
    then show ?thesis by (simp add: security_validate_update_signature_def reject_credential_null credential_denied_def)
  next
    case bad
    then show ?thesis using validate_signature_no_generation [OF bad(2), of s] by simp
  next
    case gen
    then show ?thesis
      using validate_signature_cases [OF gen(2-4), of s] by (cases "g_last_update_generation s < g \<and> tail_accepted r") auto
  qed
  then show "fst (security_validate_update_signature s c) = XAIOS_OK \<Longrightarrow>
     g_last_update_generation s < g_last_update_generation (snd (security_validate_update_signature s c))"
    "fst (security_validate_update_signature s c) \<noteq> XAIOS_OK \<Longrightarrow>
     g_last_update_generation (snd (security_validate_update_signature s c)) = g_last_update_generation s" by auto
qed

lemma admin_last: "g_last_update_generation (snd (security_authorize_admin s c granted)) = g_last_update_generation s"
  by (cases c) (auto simp: security_authorize_admin_def reject_credential_cases credential_denied_def reject_security_operation_def)

lemma admin_granted: "fst (security_authorize_admin s c granted) = XAIOS_OK \<Longrightarrow> granted AND XAIOS_CAP_ADMIN = XAIOS_CAP_ADMIN"
  by (auto simp: security_authorize_admin_def reject_security_operation_def split: prod.splits if_splits)

lemma authorize_update_last:
  assumes "security_authorize_update_signature s c granted = (st, s')"
  shows "st = XAIOS_OK \<Longrightarrow> g_last_update_generation s < g_last_update_generation s' \<and>
      granted AND XAIOS_CAP_UPDATE = XAIOS_CAP_UPDATE \<and> granted AND XAIOS_CAP_ADMIN = XAIOS_CAP_ADMIN"
    and "st \<noteq> XAIOS_OK \<Longrightarrow> g_last_update_generation s' = g_last_update_generation s"
proof -
  let ?a = "security_authorize_admin s (Some ''service.update'') granted"
  let ?v = "security_validate_update_signature (snd ?a) c"
  have r: "(st, s') = (if granted AND XAIOS_CAP_UPDATE \<noteq> XAIOS_CAP_UPDATE
      then (XAIOS_ERR_INVALID, snd (security_authorize_capability s granted XAIOS_CAP_UPDATE))
      else if fst ?a \<noteq> XAIOS_OK then (XAIOS_ERR_INVALID, snd ?a)
      else if fst ?v \<noteq> XAIOS_OK then (XAIOS_ERR_INVALID, snd ?v)
      else (XAIOS_OK, (snd ?v)\<lparr>g_update_authorizations := g_update_authorizations (snd ?v) + 1\<rparr>))"
    using assms [symmetric] unfolding security_authorize_update_signature_def Let_def case_prod_beta .
  have cap: "g_last_update_generation (snd (security_authorize_capability s granted x)) = g_last_update_generation s" for x
    by (simp add: security_authorize_capability_def reject_security_operation_def)
  show "st = XAIOS_OK \<Longrightarrow> g_last_update_generation s < g_last_update_generation s' \<and>
      granted AND XAIOS_CAP_UPDATE = XAIOS_CAP_UPDATE \<and> granted AND XAIOS_CAP_ADMIN = XAIOS_CAP_ADMIN"
    using r validate_signature_last(1) [of "snd ?a" c] admin_last [of s _ granted] admin_granted
    by (auto split: if_splits)
  show "st \<noteq> XAIOS_OK \<Longrightarrow> g_last_update_generation s' = g_last_update_generation s"
    using r validate_signature_last(2) [of "snd ?a" c] admin_last [of s _ granted] cap by (auto split: if_splits)
qed

text \<open>A history of update requests: the generations of the accepted ones with the capabilities
  they came with.\<close>

fun accepted_updates :: "security_state \<Rightarrow> (cstr \<times> u64) list \<Rightarrow> (u64 \<times> u64) list" where
  "accepted_updates s [] = []"
| "accepted_updates s ((c, granted) # rs) =
     (let (st, s') = security_authorize_update_signature s c granted
      in (if st = XAIOS_OK then [(g_last_update_generation s', granted)] else []) @ accepted_updates s' rs)"

text \<open>
  C7: Updates cannot be replayed or forced. In every history of update requests, well formed or
  not, the generations of the accepted ones strictly increase, starting above the recorded one; so
  no signature is accepted twice and none after a newer one. Each accepted request carried both the
  update and the administration capability.
\<close>

theorem updates_never_replayed:
  "sorted_wrt (<) (g_last_update_generation s # map fst (accepted_updates s rs)) \<and>
   list_all (\<lambda>(g, granted). granted AND XAIOS_CAP_UPDATE = XAIOS_CAP_UPDATE \<and> granted AND XAIOS_CAP_ADMIN = XAIOS_CAP_ADMIN)
     (accepted_updates s rs)"
proof (induction s rs rule: accepted_updates.induct)
  case (2 s c granted rs)
  obtain st s' where r: "security_authorize_update_signature s c granted = (st, s')" by fastforce
  note ih = "2.IH" [OF r [symmetric] refl]
  show ?case
  proof (cases "st = XAIOS_OK")
    case True
    then show ?thesis using authorize_update_last(1) [OF r] ih r by auto
  next
    case False
    then show ?thesis using authorize_update_last(2) [OF r] ih r by auto
  qed
qed simp

definition demo_hex :: string where
  "demo_hex = replicate 64 CHR ''a''"

definition demo_signature :: string where
  "demo_signature = XAIOS_UPDATE_SIGNATURE_PREFIX @ ''gen='' @ ''7'' @ '':'' @ XAIOS_UPDATE_SIGNATURE_SHA_FIELD @ demo_hex @ '':'' @
     XAIOS_UPDATE_SIGNATURE_KEY_FIELD @ '':'' @ XAIOS_UPDATE_SIGNATURE_SIG_FIELD @ demo_hex"

lemma demo_signature_text: "update_text demo_signature 7"
  unfolding update_text_def demo_signature_def
  by (intro exI [of _ "''7''"] exI [of _ demo_hex] conjI refl)
    (simp_all add: demo_hex_def is_hex_char_def is_digit_def digits_value_def)

lemmas demo_signature_defs = demo_signature_def demo_hex_def XAIOS_UPDATE_SIGNATURE_PREFIX_def
  XAIOS_UPDATE_SIGNATURE_SHA_FIELD_def XAIOS_UPDATE_SIGNATURE_KEY_FIELD_def XAIOS_UPDATE_SIGNATURE_SIG_FIELD_def

lemma sublist_char: "x \<in> set p \<Longrightarrow> x \<notin> set t \<Longrightarrow> \<not> sublist p t"
  using set_mono_sublist by blast

lemma demo_signature_clean: "credential_free demo_signature"
proof -
  have absent: "CHR ''_'' \<notin> set demo_signature" "CHR '' '' \<notin> set demo_signature" "CHR ''w'' \<notin> set demo_signature"
      "CHR ''r'' \<notin> set demo_signature"
    unfolding demo_signature_defs by simp_all
  have "\<not> contains_loop demo_signature ''token=''"
    unfolding demo_signature_defs by (simp add: numeral_eq_Suc)
  then have "\<not> sublist ''token='' demo_signature"
    using contains_sublist [of "''token=''" demo_signature] by (simp add: contains_def)
  then show ?thesis
    unfolding credential_free_def credential_patterns_def pattern_defs
    using sublist_char [OF _ absent(1)] sublist_char [OF _ absent(2)] sublist_char [OF _ absent(3)] sublist_char [OF _ absent(4)]
    by simp
qed

lemma demo_signature_nul: "CHR 0x00 \<notin> set demo_signature"
  unfolding demo_signature_defs by simp


end
