(* ===== verification/Vmm.thy ===== *)
theory Vmm
  imports Pmm
begin

text \<open>
  \<^verbatim>\<open>kernel/arch/aarch64/mmu.c\<close>: the four-level page tables, mapping, unmapping, translation and
  user-buffer validation, and the per-process tables. Tables are pages of physical memory. The code
  reaches them through the current mapping of the address equal to the physical one; the model reads and writes the
  physical page, which is the same as long as that address is identity-mapped, as it is after \<^verbatim>\<open>vmm_init\<close> below
  4 GiB outside the heap and arena windows. Entry \<open>i\<close> of the table at \<open>t\<close> is the word at
  \<open>t + 8 i\<close>. The addresses of the static tables and the section symbols of the linker script are
  a record argument. A failed \<^verbatim>\<open>kassert\<close> is \<open>None\<close>. Barriers and TLB maintenance have no effect on
  the tables and are left out, as is the switch of the MMU registers.
\<close>

section \<open>Descriptors\<close>

definition L2_BLOCK_SIZE :: u64 where
  "L2_BLOCK_SIZE = 0x200000"

definition EARLY_IDENTITY_SIZE :: u64 where
  "EARLY_IDENTITY_SIZE = 0x100000000"

definition EARLY_L1_TABLES :: u64 where
  "EARLY_L1_TABLES = 4"

definition EARLY_KERNEL_L3_TABLES :: u64 where
  "EARLY_KERNEL_L3_TABLES = 16"

definition PTE_VALID :: u64 where
  "PTE_VALID = 1"

definition PTE_TABLE :: u64 where
  "PTE_TABLE = 0x2"

definition PTE_ATTR_NORMAL :: u64 where
  "PTE_ATTR_NORMAL = 0"

definition PTE_ATTR_DEVICE :: u64 where
  "PTE_ATTR_DEVICE = 0x4"

definition PTE_AP_RO :: u64 where
  "PTE_AP_RO = 0x80"

definition PTE_AP_EL0 :: u64 where
  "PTE_AP_EL0 = 0x40"

definition PTE_SH_INNER :: u64 where
  "PTE_SH_INNER = 0x300"

definition PTE_AF :: u64 where
  "PTE_AF = 0x400"

definition PTE_NG :: u64 where
  "PTE_NG = 0x800"

definition PTE_PXN :: u64 where
  "PTE_PXN = push_bit 53 1"

definition PTE_UXN :: u64 where
  "PTE_UXN = push_bit 54 1"

definition PTE_ADDR_MASK :: u64 where
  "PTE_ADDR_MASK = 0x0000fffffffff000"

definition PTE_BLOCK_L2_ADDR_MASK :: u64 where
  "PTE_BLOCK_L2_ADDR_MASK = 0x0000ffffffe00000"

definition XAIOS_VMM_PRESENT :: u32 where
  "XAIOS_VMM_PRESENT = 1"

definition XAIOS_VMM_WRITABLE :: u32 where
  "XAIOS_VMM_WRITABLE = 2"

definition XAIOS_VMM_EXECUTABLE :: u32 where
  "XAIOS_VMM_EXECUTABLE = 4"

definition XAIOS_VMM_DEVICE :: u32 where
  "XAIOS_VMM_DEVICE = 8"

definition XAIOS_VMM_USER :: u32 where
  "XAIOS_VMM_USER = 16"

definition XAIOS_USER_BASE :: u64 where
  "XAIOS_USER_BASE = 0x41000000"

definition XAIOS_USER_LIMIT :: u64 where
  "XAIOS_USER_LIMIT = 0x50000000"

definition XAIOS_USER_STACK_TOP :: u64 where
  "XAIOS_USER_STACK_TOP = 0x4f000000"

definition table_descriptor :: "u64 \<Rightarrow> u64" where
  "table_descriptor t = (t AND PTE_ADDR_MASK) OR PTE_VALID OR PTE_TABLE"

definition page_descriptor :: "u64 \<Rightarrow> u64 \<Rightarrow> u64" where
  "page_descriptor physical_address attrs =
     (physical_address AND PTE_ADDR_MASK) OR attrs OR PTE_VALID OR PTE_TABLE OR PTE_AF"

definition block_descriptor :: "u64 \<Rightarrow> u64 \<Rightarrow> u64" where
  "block_descriptor physical_address attrs =
     (physical_address AND PTE_BLOCK_L2_ADDR_MASK) OR attrs OR PTE_VALID OR PTE_AF"

definition normal_rw_nx_attrs :: u64 where
  "normal_rw_nx_attrs = PTE_ATTR_NORMAL OR PTE_SH_INNER OR PTE_PXN OR PTE_UXN"

definition device_rw_nx_attrs :: u64 where
  "device_rw_nx_attrs = PTE_ATTR_DEVICE OR PTE_PXN OR PTE_UXN"

definition normal_ro_nx_attrs :: u64 where
  "normal_ro_nx_attrs = PTE_ATTR_NORMAL OR PTE_SH_INNER OR PTE_AP_RO OR PTE_PXN OR PTE_UXN"

definition normal_rx_attrs :: u64 where
  "normal_rx_attrs = PTE_ATTR_NORMAL OR PTE_SH_INNER OR PTE_UXN"

definition user_rx_attrs :: u64 where
  "user_rx_attrs = PTE_ATTR_NORMAL OR PTE_SH_INNER OR PTE_AP_EL0 OR PTE_PXN"

definition user_ro_nx_attrs :: u64 where
  "user_ro_nx_attrs = PTE_ATTR_NORMAL OR PTE_SH_INNER OR PTE_AP_EL0 OR PTE_AP_RO OR PTE_PXN OR PTE_UXN"

definition user_rw_nx_attrs :: u64 where
  "user_rw_nx_attrs = PTE_ATTR_NORMAL OR PTE_SH_INNER OR PTE_AP_EL0 OR PTE_PXN OR PTE_UXN"

definition in_range :: "u64 \<Rightarrow> u64 \<Rightarrow> u64 \<Rightarrow> bool" where
  "in_range v start stop \<longleftrightarrow> v \<ge> start \<and> v < stop"

text \<open>
  The macros \<^verbatim>\<open>PTE_PXN\<close> and \<^verbatim>\<open>PTE_UXN\<close> are \<^verbatim>\<open>UINT64_C(1) << 53\<close> and \<^verbatim>\<open>UINT64_C(1) << 54\<close> without
  parentheses. In \<^verbatim>\<open>~PTE_UXN\<close> the complement therefore applies to the 1 before the shift.
\<close>

definition attrs_from_flags :: "u32 \<Rightarrow> u64" where
  "attrs_from_flags flags =
     (let attrs = (if flags AND XAIOS_VMM_DEVICE \<noteq> 0 then device_rw_nx_attrs else normal_rw_nx_attrs);
          attrs = (if flags AND XAIOS_VMM_USER \<noteq> 0 then attrs OR PTE_AP_EL0 OR PTE_NG else attrs);
          attrs = (if flags AND XAIOS_VMM_WRITABLE = 0 then attrs OR PTE_AP_RO else attrs);
          attrs = (if flags AND XAIOS_VMM_EXECUTABLE \<noteq> 0 then attrs AND push_bit 54 (NOT 1) else attrs);
          attrs = (if flags AND XAIOS_VMM_USER = 0 \<and> flags AND XAIOS_VMM_EXECUTABLE \<noteq> 0
                   then attrs AND push_bit 53 (NOT 1) else attrs)
      in attrs)"

section \<open>State\<close>

record kernel_image =
  im_text_start :: u64
  im_text_end :: u64
  im_rodata_start :: u64
  im_rodata_end :: u64
  im_data_start :: u64
  im_data_end :: u64
  im_bss_start :: u64
  im_bss_end :: u64
  im_user_text_start :: u64
  im_user_text_end :: u64
  im_user_rodata_start :: u64
  im_user_rodata_end :: u64
  im_user_stack_start :: u64
  im_user_stack_end :: u64
  g_l0_table :: u64
  g_l1_table :: u64
  g_l2_tables :: u64
  g_kernel_l3_tables :: u64

text \<open>Row \<open>i\<close> of the two static table arrays.\<close>

definition l2_row :: "kernel_image \<Rightarrow> u64 \<Rightarrow> u64" where
  "l2_row img i = g_l2_tables img + i * PAGE_SIZE"

definition kernel_l3_row :: "kernel_image \<Rightarrow> u64 \<Rightarrow> u64" where
  "kernel_l3_row img i = g_kernel_l3_tables img + i * PAGE_SIZE"

record vm_state =
  vm_pmm :: pmm_state
  g_mmio_start :: u64
  g_mmio_end :: u64

definition entry :: "vm_state \<Rightarrow> u64 \<Rightarrow> u64 \<Rightarrow> u64" where
  "entry s table i = pm_mem (vm_pmm s) (table + 8 * i)"

definition set_entry :: "vm_state \<Rightarrow> u64 \<Rightarrow> u64 \<Rightarrow> u64 \<Rightarrow> vm_state" where
  "set_entry s table i v = s\<lparr>vm_pmm := (vm_pmm s)\<lparr>pm_mem := (pm_mem (vm_pmm s))(table + 8 * i := v)\<rparr>\<rparr>"

text \<open>The loops that fill the first \<open>n\<close> entries of a table.\<close>

definition fill_table :: "vm_state \<Rightarrow> u64 \<Rightarrow> nat \<Rightarrow> (u64 \<Rightarrow> u64) \<Rightarrow> vm_state" where
  "fill_table s table n f = fold (\<lambda>i s. set_entry s table (of_nat i) (f (of_nat i))) [0 ..< n] s"

definition zero_table :: "vm_state \<Rightarrow> u64 \<Rightarrow> u64 \<Rightarrow> vm_state" where
  "zero_table s table entries = fill_table s table (unat entries) (\<lambda>_. 0)"

text \<open>A page from the physical allocator, cleared, for use as a table.\<close>

definition table_page :: "vm_state \<Rightarrow> (u64 \<times> vm_state) option" where
  "table_page s =
     (case pmm_alloc_page (pm_numa (vm_pmm s)) of
        None \<Rightarrow> None
      | Some (page, n) \<Rightarrow>
          if page = 0 then None
          else Some (page, zero_table (s\<lparr>vm_pmm := (vm_pmm s)\<lparr>pm_numa := n\<rparr>\<rparr>) page 512))"

abbreviation l0_index :: "u64 \<Rightarrow> u64" where
  "l0_index va \<equiv> drop_bit 39 va AND 0x1ff"

abbreviation l1_index :: "u64 \<Rightarrow> u64" where
  "l1_index va \<equiv> drop_bit 30 va AND 0x1ff"

abbreviation l2_index :: "u64 \<Rightarrow> u64" where
  "l2_index va \<equiv> drop_bit 21 va AND 0x1ff"

abbreviation l3_index :: "u64 \<Rightarrow> u64" where
  "l3_index va \<equiv> drop_bit 12 va AND 0x1ff"

definition is_table :: "u64 \<Rightarrow> bool" where
  "is_table d \<longleftrightarrow> d AND (PTE_VALID OR PTE_TABLE) = PTE_VALID OR PTE_TABLE"

section \<open>Mapping\<close>

text \<open>The level-2 table of an address, allocated if the level-1 entry is no table.\<close>

definition ensure_l2_table :: "kernel_image \<Rightarrow> vm_state \<Rightarrow> u64 \<Rightarrow> (u64 \<times> vm_state) option" where
  "ensure_l2_table img s l1i =
     (if \<not> is_table (entry s (g_l1_table img) l1i)
      then case table_page s of
             None \<Rightarrow> None
           | Some (new_l2, s1) \<Rightarrow>
               let s2 = set_entry s1 (g_l1_table img) l1i (table_descriptor new_l2)
               in Some (entry s2 (g_l1_table img) l1i AND PTE_ADDR_MASK, s2)
      else Some (entry s (g_l1_table img) l1i AND PTE_ADDR_MASK, s))"

definition ensure_l3_table :: "kernel_image \<Rightarrow> vm_state \<Rightarrow> u64 \<Rightarrow> (u64 \<times> vm_state) option" where
  "ensure_l3_table img s va =
     (if l0_index va \<noteq> 0 then None
      else case ensure_l2_table img s (l1_index va) of
        None \<Rightarrow> None
      | Some (l2, s1) \<Rightarrow>
          let l2_desc = entry s1 l2 (l2_index va)
          in if is_table l2_desc then Some (l2_desc AND PTE_ADDR_MASK, s1)
             else case table_page s1 of
               None \<Rightarrow> None
             | Some (l3, s2) \<Rightarrow>
                 let s3 = (if l2_desc AND PTE_VALID \<noteq> 0 \<and> l2_desc AND PTE_TABLE = 0
                           then let block_base = l2_desc AND PTE_BLOCK_L2_ADDR_MASK;
                                    attrs = l2_desc AND NOT PTE_BLOCK_L2_ADDR_MASK
                                in fill_table s2 l3 512 (\<lambda>i. page_descriptor (block_base + i * PAGE_SIZE) attrs)
                           else s2)
                 in Some (l3, set_entry s3 l2 (l2_index va) (table_descriptor l3)))"

definition vmm_map_page ::
  "kernel_image \<Rightarrow> vm_state \<Rightarrow> u64 \<Rightarrow> u64 \<Rightarrow> u32 \<Rightarrow> (xaios_status \<times> vm_state) option" where
  "vmm_map_page img s va pa flags =
     (if va AND (PAGE_SIZE - 1) \<noteq> 0 \<or> pa AND (PAGE_SIZE - 1) \<noteq> 0 \<or> flags AND XAIOS_VMM_PRESENT = 0
      then Some (XAIOS_ERR_INVALID, s)
      else case ensure_l3_table img s va of
        None \<Rightarrow> None
      | Some (l3, s1) \<Rightarrow>
          Some (XAIOS_OK, set_entry s1 l3 (l3_index va) (page_descriptor pa (attrs_from_flags flags))))"

definition vmm_unmap_page :: "kernel_image \<Rightarrow> vm_state \<Rightarrow> u64 \<Rightarrow> (xaios_status \<times> vm_state) option" where
  "vmm_unmap_page img s va =
     (if va AND (PAGE_SIZE - 1) \<noteq> 0 then Some (XAIOS_ERR_INVALID, s)
      else case ensure_l3_table img s va of
        None \<Rightarrow> None
      | Some (l3, s1) \<Rightarrow> Some (XAIOS_OK, set_entry s1 l3 (l3_index va) 0))"

section \<open>Translation\<close>

definition descriptor_to_flags :: "vm_state \<Rightarrow> u64 \<Rightarrow> u64 \<Rightarrow> u32 option" where
  "descriptor_to_flags s va descriptor =
     (if descriptor AND PTE_VALID = 0 then None
      else let out = XAIOS_VMM_PRESENT;
               attr_index = drop_bit 2 descriptor AND 0x7;
               out = (if attr_index = 1 then out OR XAIOS_VMM_DEVICE else out);
               out = (if va \<ge> g_mmio_start s \<and> va < g_mmio_end s then out OR XAIOS_VMM_DEVICE else out);
               out = (if descriptor AND PTE_AP_RO = 0 then out OR XAIOS_VMM_WRITABLE else out);
               out = (if descriptor AND PTE_PXN = 0 then out OR XAIOS_VMM_EXECUTABLE else out);
               out = (if descriptor AND PTE_AP_EL0 \<noteq> 0 then out OR XAIOS_VMM_USER else out)
           in Some out)"

definition vmm_translate :: "kernel_image \<Rightarrow> vm_state \<Rightarrow> u64 \<Rightarrow> (u64 \<times> u32) option" where
  "vmm_translate img s va =
     (let l0_desc = entry s (g_l0_table img) (l0_index va)
      in if \<not> is_table l0_desc then None
         else let l1_desc = entry s (l0_desc AND PTE_ADDR_MASK) (l1_index va)
         in if \<not> is_table l1_desc then None
         else let l2_desc = entry s (l1_desc AND PTE_ADDR_MASK) (l2_index va)
         in if l2_desc AND PTE_VALID = 0 then None
         else if l2_desc AND PTE_TABLE = 0
         then map_option (\<lambda>flags. ((l2_desc AND PTE_BLOCK_L2_ADDR_MASK) + (va AND (L2_BLOCK_SIZE - 1)), flags))
                (descriptor_to_flags s va l2_desc)
         else let l3_desc = entry s (l2_desc AND PTE_ADDR_MASK) (l3_index va)
         in if l3_desc AND PTE_VALID = 0 then None
         else map_option (\<lambda>flags. ((l3_desc AND PTE_ADDR_MASK) + (va AND 0xfff), flags))
                (descriptor_to_flags s va l3_desc))"

text \<open>The page loop of the buffer validation; it ends because the end is a page boundary at most
  \<^verbatim>\<open>XAIOS_USER_LIMIT\<close>.\<close>

partial_function (option) buffer_pages ::
  "kernel_image \<Rightarrow> vm_state \<Rightarrow> u32 \<Rightarrow> u64 \<Rightarrow> u64 \<Rightarrow> xaios_status option" where
  "buffer_pages img s required_flags stop page =
     (if page < stop
      then case vmm_translate img s page of
             None \<Rightarrow> Some XAIOS_ERR_INVALID
           | Some (physical, flags) \<Rightarrow>
               if flags AND XAIOS_VMM_USER = 0 \<or> flags AND required_flags \<noteq> required_flags
               then Some XAIOS_ERR_INVALID
               else buffer_pages img s required_flags stop (page + PAGE_SIZE)
      else Some XAIOS_OK)"

definition vmm_validate_user_buffer ::
  "kernel_image \<Rightarrow> vm_state \<Rightarrow> u64 \<Rightarrow> u64 \<Rightarrow> u32 \<Rightarrow> xaios_status option" where
  "vmm_validate_user_buffer img s va sz required_flags =
     (if sz = 0 \<or> va < XAIOS_USER_BASE \<or> va + sz < va \<or> va + sz > XAIOS_USER_LIMIT
      then Some XAIOS_ERR_INVALID
      else buffer_pages img s required_flags (align_up (va + sz) PAGE_SIZE) (align_down va PAGE_SIZE))"

section \<open>Boot\<close>

definition kernel_page_attrs :: "kernel_image \<Rightarrow> u64 \<Rightarrow> u64" where
  "kernel_page_attrs img address =
     (let page_end = address + PAGE_SIZE
      in if overlaps address page_end (im_user_text_start img) (im_user_text_end img) then user_rx_attrs
         else if overlaps address page_end (im_user_rodata_start img) (im_user_rodata_end img) then user_ro_nx_attrs
         else if overlaps address page_end (im_user_stack_start img) (im_user_stack_end img) then user_rw_nx_attrs
         else if in_range address (im_text_start img) (im_text_end img) then normal_rx_attrs
         else if in_range address (im_rodata_start img) (im_rodata_end img) then normal_ro_nx_attrs
         else if in_range address (im_data_start img) (im_data_end img) \<or>
                 in_range address (im_bss_start img) (im_bss_end img) then normal_rw_nx_attrs
         else normal_rw_nx_attrs)"

partial_function (option) map_identity_l2_blocks ::
  "kernel_image \<Rightarrow> u64 \<Rightarrow> u64 \<Rightarrow> u64 \<Rightarrow> vm_state \<Rightarrow> vm_state option" where
  "map_identity_l2_blocks img address stop attrs s =
     (if address < stop
      then if l1_index address < EARLY_L1_TABLES
           then map_identity_l2_blocks img (address + L2_BLOCK_SIZE) stop attrs
                  (set_entry s (l2_row img (l1_index address)) (l2_index address)
                     (block_descriptor address attrs))
           else None
      else Some s)"

partial_function (option) kernel_regions ::
  "kernel_image \<Rightarrow> u64 \<Rightarrow> u64 \<Rightarrow> u64 \<Rightarrow> vm_state \<Rightarrow> vm_state option" where
  "kernel_regions img region table_end table_index s =
     (if region < table_end
      then if table_index < EARLY_KERNEL_L3_TABLES
           then let l3 = kernel_l3_row img table_index;
                    s1 = fill_table s l3 512 (\<lambda>page. page_descriptor (region + page * PAGE_SIZE)
                           (kernel_page_attrs img (region + page * PAGE_SIZE)));
                    s2 = set_entry s1 (l2_row img (l1_index region)) (l2_index region) (table_descriptor l3)
                in kernel_regions img (region + L2_BLOCK_SIZE) table_end (table_index + 1) s2
           else None
      else Some s)"

definition map_kernel_pages :: "kernel_image \<Rightarrow> u64 \<Rightarrow> u64 \<Rightarrow> vm_state \<Rightarrow> vm_state option" where
  "map_kernel_pages img start stop s =
     kernel_regions img (align_down start L2_BLOCK_SIZE) (align_up stop L2_BLOCK_SIZE) 0 s"

definition build_tables :: "kernel_image \<Rightarrow> xaios_boot_info \<Rightarrow> vm_state \<Rightarrow> vm_state option" where
  "build_tables img boot s =
     (let s1 = zero_table (zero_table s (g_l0_table img) 512) (g_l1_table img) 512;
          s2 = fold (\<lambda>i s. zero_table s (l2_row img (of_nat i)) 512) [0 ..< unat EARLY_L1_TABLES] s1;
          s3 = fold (\<lambda>i s. zero_table s (kernel_l3_row img (of_nat i)) 512) [0 ..< unat EARLY_KERNEL_L3_TABLES] s2;
          s4 = set_entry s3 (g_l0_table img) 0 (table_descriptor (g_l1_table img));
          s5 = fill_table s4 (g_l1_table img) (unat EARLY_L1_TABLES) (\<lambda>i. table_descriptor (l2_row img i))
      in case map_identity_l2_blocks img 0 EARLY_IDENTITY_SIZE normal_rw_nx_attrs s5 of
           None \<Rightarrow> None
         | Some s6 \<Rightarrow>
             let s7 = s6\<lparr>g_mmio_start := align_down (bi_uart_base boot) L2_BLOCK_SIZE,
                         g_mmio_end := align_up (bi_uart_base boot + PAGE_SIZE) L2_BLOCK_SIZE\<rparr>
             in case map_identity_l2_blocks img (g_mmio_start s7) (g_mmio_end s7) normal_rw_nx_attrs s7 of
                  None \<Rightarrow> None
                | Some s8 \<Rightarrow> map_kernel_pages img (bi_kernel_phys_base boot) (bi_kernel_phys_end boot) s8)"

definition vmm_init :: "kernel_image \<Rightarrow> xaios_boot_info \<Rightarrow> vm_state \<Rightarrow> vm_state option" where
  "vmm_init img boot s =
     (case build_tables img boot s of
        None \<Rightarrow> None
      | Some s1 \<Rightarrow> map_option snd (vmm_map_page img s1 0 0 XAIOS_VMM_PRESENT))"

section \<open>Self-test\<close>

definition vmm_self_test :: "kernel_image \<Rightarrow> vm_state \<Rightarrow> vm_state option" where
  "vmm_self_test img s =
     (case pmm_alloc_page (pm_numa (vm_pmm s)) of
        None \<Rightarrow> None
      | Some (page, n) \<Rightarrow>
          if page = 0 then None
          else let va = 0x4e000000; s1 = s\<lparr>vm_pmm := (vm_pmm s)\<lparr>pm_numa := n\<rparr>\<rparr>
          in case vmm_map_page img s1 va page (XAIOS_VMM_PRESENT OR XAIOS_VMM_WRITABLE OR XAIOS_VMM_USER) of
               Some (XAIOS_OK, s2) \<Rightarrow>
                 (case vmm_translate img s2 va of
                    Some (translated, flags) \<Rightarrow>
                      if translated = page \<and> flags AND XAIOS_VMM_USER \<noteq> 0 \<and> flags AND XAIOS_VMM_WRITABLE \<noteq> 0 \<and>
                         vmm_validate_user_buffer img s2 va 16 XAIOS_VMM_WRITABLE = Some XAIOS_OK
                      then (case vmm_unmap_page img s2 va of
                              Some (XAIOS_OK, s3) \<Rightarrow>
                                if vmm_translate img s3 va = None
                                then Some (s3\<lparr>vm_pmm := pmm_free_page (vm_pmm s3) page\<rparr>) else None
                            | _ \<Rightarrow> None)
                      else None
                  | None \<Rightarrow> None)
             | _ \<Rightarrow> None)"

section \<open>Per-process tables\<close>

definition USER_L2_INDEX :: u64 where
  "USER_L2_INDEX = 8"

text \<open>The table array of a process is a list of addresses, 0 for none.\<close>

definition vmm_create_user_aspace :: "vm_state \<Rightarrow> u32 \<Rightarrow> (u64 list \<times> u32 \<times> vm_state) option" where
  "vmm_create_user_aspace s max_tables =
     (if max_tables < 2 then None
      else case table_page s of
        None \<Rightarrow> None
      | Some (p0, s1) \<Rightarrow>
          (case table_page s1 of
             None \<Rightarrow> None
           | Some (p1, s2) \<Rightarrow> Some ((replicate (unat max_tables) 0)[0 := p0, 1 := p1], 2, s2)))"

definition user_l3_slot :: "u64 \<Rightarrow> nat" where
  "user_l3_slot va = (if va \<ge> XAIOS_USER_STACK_TOP - 3 * PAGE_SIZE then 1 else 0)"

definition vmm_map_user_page ::
  "kernel_image \<Rightarrow> vm_state \<Rightarrow> u64 \<Rightarrow> u64 \<Rightarrow> u32 \<Rightarrow> u64 list \<Rightarrow> u32 \<Rightarrow> (xaios_status \<times> vm_state) option" where
  "vmm_map_user_page img s va pa flags l3_tables l3_count =
     (if va AND (PAGE_SIZE - 1) \<noteq> 0 \<or> pa AND (PAGE_SIZE - 1) \<noteq> 0 \<or> flags AND XAIOS_VMM_PRESENT = 0
      then Some (XAIOS_ERR_INVALID, s)
      else if va < XAIOS_USER_BASE \<or> va \<ge> XAIOS_USER_LIMIT then Some (XAIOS_ERR_INVALID, s)
      else if l2_index va \<noteq> USER_L2_INDEX then Some (XAIOS_ERR_INVALID, s)
      else let l3_slot = user_l3_slot va
           in if l3_slot \<ge> unat l3_count \<or> l3_tables ! l3_slot = 0 then Some (XAIOS_ERR_INVALID, s)
              else let s1 = set_entry s (l3_tables ! l3_slot) (l3_index va)
                              (page_descriptor pa (attrs_from_flags flags))
                   in case vmm_map_page img s1 va pa flags of
                        None \<Rightarrow> None | Some (_, s2) \<Rightarrow> Some (XAIOS_OK, s2))"

definition vmm_unmap_user_page ::
  "kernel_image \<Rightarrow> vm_state \<Rightarrow> u64 \<Rightarrow> u64 list \<Rightarrow> u32 \<Rightarrow> (xaios_status \<times> vm_state) option" where
  "vmm_unmap_user_page img s va l3_tables l3_count =
     (if va AND (PAGE_SIZE - 1) \<noteq> 0 then Some (XAIOS_ERR_INVALID, s)
      else let l3_slot = user_l3_slot va;
               s1 = (if l3_slot < unat l3_count \<and> l3_tables ! l3_slot \<noteq> 0
                     then set_entry s (l3_tables ! l3_slot) (l3_index va) 0 else s)
           in case vmm_unmap_page img s1 va of
                None \<Rightarrow> None | Some (_, s2) \<Rightarrow> Some (XAIOS_OK, s2))"

text \<open>\<open>None\<close> for the tables is the null pointer.\<close>

definition vmm_switch_user_aspace :: "kernel_image \<Rightarrow> vm_state \<Rightarrow> u64 list option \<Rightarrow> u32 \<Rightarrow> vm_state" where
  "vmm_switch_user_aspace img s l3_tables l3_count =
     (let l0_desc = entry s (g_l0_table img) (l0_index XAIOS_USER_BASE)
      in if \<not> is_table l0_desc then s
         else let l1_desc = entry s (l0_desc AND PTE_ADDR_MASK) (l1_index XAIOS_USER_BASE)
         in if \<not> is_table l1_desc then s
         else let l2 = l1_desc AND PTE_ADDR_MASK; l2i = l2_index XAIOS_USER_BASE
         in case l3_tables of
              Some ts \<Rightarrow>
                if l3_count > 0
                then fold (\<lambda>i s. if i < unat l3_count \<and> ts ! i \<noteq> 0
                                 then set_entry s l2 (l2i + of_nat i) (table_descriptor (ts ! i)) else s)
                       [0 ..< 2] s
                else fold (\<lambda>i s. set_entry s l2 (l2i + of_nat i) 0) [0 ..< 2] s
            | None \<Rightarrow> fold (\<lambda>i s. set_entry s l2 (l2i + of_nat i) 0) [0 ..< 2] s)"

definition vmm_destroy_user_aspace :: "vm_state \<Rightarrow> u64 list \<Rightarrow> u32 \<Rightarrow> u64 list \<times> vm_state" where
  "vmm_destroy_user_aspace s l3_tables l3_count =
     fold (\<lambda>i (ts, s). if ts ! i \<noteq> 0
                        then (ts[i := 0], s\<lparr>vm_pmm := pmm_free_page (vm_pmm s) (ts ! i)\<rparr>) else (ts, s))
       [0 ..< unat l3_count] (l3_tables, s)"

end
