(* ===== verification/Page_Tables.thy ===== *)
theory Page_Tables
  imports Vmm
begin

text \<open>
  The page tables as a map. \<open>leaf\<close> gives the effective level-3 descriptor of every page, with the
  entries of an unsplit 2 MiB block computed as the split would; the tables of a state form a
  tree of distinct pages (\<open>vm_inv\<close>). Mapping and unmapping update \<open>leaf\<close> at one page, splitting a
  block or adding a table leaves it alone, and translation reads it.
\<close>

section \<open>Addresses and bits\<close>

abbreviation page_aligned :: "u64 \<Rightarrow> bool" where
  "page_aligned a \<equiv> a AND 0xfff = 0"

lemma page_mask_num: "PAGE_SIZE - 1 = 0xfff"
  by (simp add: PAGE_SIZE_def)

lemma fff_mask: "(0xfff :: u64) = mask 12"
  by (simp add: mask_eq_exp_minus_1)

lemma unat_and_mask: "unat ((a :: u64) AND mask n) = unat a mod 2 ^ n"
  by (simp add: unsigned_take_bit_eq flip: take_bit_eq_mask) (simp add: take_bit_eq_mod)

lemma page_aligned_unat: "page_aligned a \<longleftrightarrow> 4096 dvd unat a"
  unfolding fff_mask word_eq_unat unat_and_mask by (simp add: mod_eq_0_iff_dvd)

lemma unat_index: "unat (x AND (0x1ff :: u64)) = unat x mod 512"
proof -
  have "(0x1ff :: u64) = mask 9" by (simp add: mask_eq_exp_minus_1)
  then show ?thesis by (simp only: unat_and_mask) simp
qed

lemma index_bound [simp]: "x AND 0x1ff < (512 :: u64)"
  unfolding word_less_nat_alt unat_index by simp

lemma entry_address_inj:
  assumes "page_aligned a" "page_aligned b" "i < 512" "j < 512"
  shows "a + 8 * i = b + 8 * j \<longleftrightarrow> a = b \<and> i = (j :: u64)"
proof -
  have u: "unat (c + 8 * k) = unat c + 8 * unat k" if c: "page_aligned c" "k < 512" for c k :: u64
  proof -
    have k: "unat k < 512" using c(2) by (simp add: word_less_nat_alt)
    then have 8: "unat (8 * k) = 8 * unat k" by (simp add: unat_word_ariths)
    obtain m where m: "unat c = 4096 * m" using c(1) unfolding page_aligned_unat dvd_def by blast
    have "unat c < 2 ^ 64" using unsigned_less [of c] by simp
    then have "unat c + 8 * unat k < 2 ^ 64" using m k by simp
    then show ?thesis using 8 by (simp add: unat_word_ariths)
  qed
  obtain k l where kl: "unat a = 4096 * k" "unat b = 4096 * l"
    using assms(1,2) unfolding page_aligned_unat dvd_def by blast
  have ij: "unat i < 512" "unat j < 512" using assms(3,4) by (simp_all add: word_less_nat_alt)
  have "unat a + 8 * unat i = unat b + 8 * unat j \<longleftrightarrow> unat a = unat b \<and> unat i = unat j"
  proof
    assume "unat a + 8 * unat i = unat b + 8 * unat j"
    then have e: "512 * k + unat i = 512 * l + unat j" unfolding kl by simp
    then have "(512 * k + unat i) div 512 = (512 * l + unat j) div 512" by simp
    then have "k = l" using ij by simp
    then show "unat a = unat b \<and> unat i = unat j" using e kl by simp
  qed simp
  then show ?thesis unfolding word_eq_unat u [OF assms(1,3)] u [OF assms(2,4)] .
qed

section \<open>Reading and writing entries\<close>

lemma entry_set_entry:
  assumes "page_aligned t" "page_aligned t'" "i < 512" "j < 512"
  shows "entry (set_entry s t i v) t' j = (if t' = t \<and> j = i then v else entry s t' j)"
  using entry_address_inj [OF assms(2,1,4,3)] by (auto simp: entry_def set_entry_def)

lemma set_entry_fields [simp]:
  "pm_numa (vm_pmm (set_entry s t i v)) = pm_numa (vm_pmm s)"
  "g_mmio_start (set_entry s t i v) = g_mmio_start s" "g_mmio_end (set_entry s t i v) = g_mmio_end s"
  by (simp_all add: set_entry_def)

lemma fill_table_Suc:
  "fill_table s t (Suc n) f = set_entry (fill_table s t n f) t (of_nat n) (f (of_nat n))"
  by (simp add: fill_table_def)

lemma fill_table_fields [simp]:
  "pm_numa (vm_pmm (fill_table s t n f)) = pm_numa (vm_pmm s)"
  "g_mmio_start (fill_table s t n f) = g_mmio_start s" "g_mmio_end (fill_table s t n f) = g_mmio_end s"
  by (induction n) (simp_all add: fill_table_Suc, simp_all add: fill_table_def)

lemma entry_fill_table:
  assumes "page_aligned t" "page_aligned t'" "j < 512" "n \<le> 512"
  shows "entry (fill_table s t n f) t' j = (if t' = t \<and> unat j < n then f j else entry s t' j)"
  using assms(4)
proof (induction n)
  case 0
  then show ?case by (simp add: fill_table_def)
next
  case (Suc n)
  then have u: "unat (of_nat n :: u64) = n" by (intro unat_of_nat_small) simp
  then have "(of_nat n :: u64) < 512" using Suc.prems by (simp add: word_less_nat_alt)
  then show ?case
    using Suc unfolding fill_table_Suc
    by (subst entry_set_entry [OF assms(1,2) _ assms(3)]) (auto simp: word_eq_unat u less_Suc_eq)
qed

lemma entry_fill_page:
  assumes "page_aligned t" "page_aligned t'" "j < 512"
  shows "entry (fill_table s t 512 f) t' j = (if t' = t then f j else entry s t' j)"
  using entry_fill_table [OF assms, of 512] assms(3) by (simp add: word_less_nat_alt)

section \<open>Descriptors\<close>

lemma pte_bits:
  "PTE_VALID = 2 ^ 0" "PTE_TABLE = 2 ^ 1" "PTE_ATTR_DEVICE = 2 ^ 2" "PTE_ATTR_NORMAL = 0"
  "PTE_AP_EL0 = 2 ^ 6" "PTE_AP_RO = 2 ^ 7" "PTE_SH_INNER = 2 ^ 8 OR 2 ^ 9" "PTE_AF = 2 ^ 10"
  "PTE_NG = 2 ^ 11" "PTE_PXN = 2 ^ 53" "PTE_UXN = 2 ^ 54"
  "PTE_ADDR_MASK = push_bit 12 (mask 36)" "PTE_BLOCK_L2_ADDR_MASK = push_bit 21 (mask 27)"
  by (simp_all add: PTE_VALID_def PTE_TABLE_def PTE_ATTR_DEVICE_def PTE_ATTR_NORMAL_def PTE_AP_EL0_def PTE_AP_RO_def
      PTE_SH_INNER_def PTE_AF_def PTE_NG_def PTE_PXN_def PTE_UXN_def PTE_ADDR_MASK_def PTE_BLOCK_L2_ADDR_MASK_def
      mask_eq_exp_minus_1 push_bit_eq_mult)

lemma bit_pow: "bit (2 ^ k :: u64) n \<longleftrightarrow> n = k \<and> n < 64"
  by (simp add: bit_two_power)

lemma and_pow: "k < 64 \<Longrightarrow> (d AND (2 ^ k :: u64) = 0) = (\<not> bit d k)"
  unfolding word_and_0_iff bit_pow by blast

lemma pte_tests:
  "(d AND PTE_VALID = 0) = (\<not> bit d 0)" "(d AND PTE_TABLE = 0) = (\<not> bit d 1)"
  "(d AND PTE_AP_RO = 0) = (\<not> bit d 7)" "(d AND PTE_AP_EL0 = 0) = (\<not> bit d 6)" "(d AND PTE_PXN = 0) = (\<not> bit d 53)"
  unfolding pte_bits by (rule and_pow; simp)+

lemma bit_addr_mask: "bit PTE_ADDR_MASK n \<longleftrightarrow> 12 \<le> n \<and> n < 48"
  by (auto simp: pte_bits bit_push_bit_iff bit_mask_iff)

lemma bit_block_mask: "bit PTE_BLOCK_L2_ADDR_MASK n \<longleftrightarrow> 21 \<le> n \<and> n < 48"
  by (auto simp: pte_bits bit_push_bit_iff bit_mask_iff)

lemma word_bits_eq: "(a :: u64) = b \<longleftrightarrow> (\<forall>n. bit a n = bit b n)"
  by (auto intro: bit_word_eqI)

lemma is_table_bits: "is_table d \<longleftrightarrow> bit d 0 \<and> bit d 1"
proof -
  have b: "bit (PTE_VALID OR PTE_TABLE) n \<longleftrightarrow> n = 0 \<or> n = 1" for n
  proof -
    have "PTE_VALID OR PTE_TABLE = mask 2" by (simp add: PTE_VALID_def PTE_TABLE_def mask_eq_exp_minus_1)
    then show ?thesis by (simp only: bit_mask_iff) auto
  qed
  show ?thesis unfolding is_table_def word_bits_eq bit_and_iff b by blast
qed

lemma low_three_bits: "d AND 0x7 = (1 :: u64) \<longleftrightarrow> bit d 0 \<and> \<not> bit d 1 \<and> \<not> bit d 2"
proof -
  have 7: "bit (0x7 :: u64) n \<longleftrightarrow> n = 0 \<or> n = 1 \<or> n = 2" for n
  proof -
    have "(0x7 :: u64) = mask 3" by (simp add: mask_eq_exp_minus_1)
    then show ?thesis by (simp only: bit_mask_iff) auto
  qed
  have 1: "bit (1 :: u64) n \<longleftrightarrow> n = 0" for n by (simp add: bit_1_iff)
  have q: "d AND 0x7 = (1 :: u64) \<longleftrightarrow> (\<forall>n. (bit d n \<and> (n = 0 \<or> n = 1 \<or> n = 2)) = (n = 0))"
    unfolding word_bits_eq bit_and_iff 7 1 ..
  show ?thesis
  proof
    assume "d AND 0x7 = 1"
    note q [THEN iffD1, OF this, rule_format]
    from this [of 0] this [of 1] this [of 2] show "bit d 0 \<and> \<not> bit d 1 \<and> \<not> bit d 2" by simp
  next
    assume r: "bit d 0 \<and> \<not> bit d 1 \<and> \<not> bit d 2"
    have "(bit d n \<and> (n = 0 \<or> n = 1 \<or> n = 2)) = (n = 0)" for n
      using r by (cases "n = 0"; cases "n = 1"; cases "n = 2") simp_all
    then show "d AND 0x7 = 1" unfolding q by blast
  qed
qed

lemma attr_index_bits: "drop_bit 2 d AND 0x7 = (1 :: u64) \<longleftrightarrow> bit d 2 \<and> \<not> bit d 3 \<and> \<not> bit d 4"
  unfolding low_three_bits by (simp add: bit_drop_bit_eq numeral_eq_Suc)

text \<open>The flags of a descriptor depend on seven of its bits.\<close>

lemma flags_cong:
  assumes "\<And>n. n \<in> {0, 2, 3, 4, 6, 7, 53} \<Longrightarrow> bit d n = bit d' n"
    and "g_mmio_start s = g_mmio_start s'" "g_mmio_end s = g_mmio_end s'"
  shows "descriptor_to_flags s va d = descriptor_to_flags s' va d'"
  proof -
  have "(drop_bit 2 d AND 0x7 = 1) = (drop_bit 2 d' AND 0x7 = 1)" unfolding attr_index_bits using assms(1) by simp
  then show ?thesis unfolding descriptor_to_flags_def pte_tests using assms by simp
qed

lemma bit_pte [simp]:
  "bit PTE_VALID n \<longleftrightarrow> n = 0" "bit PTE_TABLE n \<longleftrightarrow> n = 1" "bit PTE_ATTR_DEVICE n \<longleftrightarrow> n = 2"
  "bit PTE_AP_EL0 n \<longleftrightarrow> n = 6" "bit PTE_AP_RO n \<longleftrightarrow> n = 7" "bit PTE_SH_INNER n \<longleftrightarrow> n = 8 \<or> n = 9"
  "bit PTE_AF n \<longleftrightarrow> n = 10" "bit PTE_NG n \<longleftrightarrow> n = 11" "bit PTE_PXN n \<longleftrightarrow> n = 53" "bit PTE_UXN n \<longleftrightarrow> n = 54"
  "\<not> bit PTE_ATTR_NORMAL n"
  unfolding pte_bits bit_or_iff bit_pow by auto

lemma bit_page_descriptor:
  "bit (page_descriptor a attrs) n \<longleftrightarrow> bit a n \<and> 12 \<le> n \<and> n < 48 \<or> bit attrs n \<or> n = 0 \<or> n = 1 \<or> n = 10"
  unfolding page_descriptor_def bit_or_iff bit_and_iff bit_addr_mask by auto

lemma bit_table_descriptor:
  "bit (table_descriptor a) n \<longleftrightarrow> bit a n \<and> 12 \<le> n \<and> n < 48 \<or> n = 0 \<or> n = 1"
  unfolding table_descriptor_def bit_or_iff bit_and_iff bit_addr_mask by auto

lemma bit_block_descriptor:
  "bit (block_descriptor a attrs) n \<longleftrightarrow> bit a n \<and> 21 \<le> n \<and> n < 48 \<or> bit attrs n \<or> n = 0 \<or> n = 10"
  unfolding block_descriptor_def bit_or_iff bit_and_iff bit_block_mask by auto

lemma bit_fff: "bit (0xfff :: u64) n \<longleftrightarrow> n < 12"
  unfolding fff_mask by (auto simp: bit_mask_iff)

lemma bit_1ff: "bit (0x1ff :: u64) n \<longleftrightarrow> n < 9"
proof -
  have "(0x1ff :: u64) = mask 9" by (simp add: mask_eq_exp_minus_1)
  then show ?thesis by (simp only: bit_mask_iff) auto
qed

lemma page_aligned_bits: "page_aligned a \<longleftrightarrow> (\<forall>n<12. \<not> bit a n)"
  unfolding word_and_0_iff bit_fff by blast

lemma small_bits: "a < 2 ^ k \<Longrightarrow> k \<le> n \<Longrightarrow> k < 64 \<Longrightarrow> \<not> bit (a :: u64) n"
proof
  assume a: "a < 2 ^ k" "k \<le> n" "k < 64" "bit a n"
  have "unat (of_nat (2 ^ k) :: u64) = 2 ^ k" by (intro unat_of_nat_small) (use a(3) power_strict_increasing [of k 64 "2 :: nat"] in simp)
  then have "unat a < 2 ^ k" using a(1) by (simp add: word_less_nat_alt)
  then have "unat a < 2 ^ n" using a(2) by (meson less_le_trans one_le_numeral power_increasing)
  then have "\<not> bit (unat a) n" by (simp add: bit_iff_odd)
  then show False using a(4) by (simp add: bit_unsigned_iff)
qed

definition table_addr :: "u64 \<Rightarrow> bool" where
  "table_addr a \<longleftrightarrow> page_aligned a \<and> a < 2 ^ 48"

lemma table_addr_aligned [simp]: "table_addr a \<Longrightarrow> page_aligned a"
  by (simp add: table_addr_def)

lemma table_addr_bits: "table_addr a \<Longrightarrow> bit a n \<Longrightarrow> 12 \<le> n \<and> n < 48"
proof -
  assume a: "table_addr a" "bit a n"
  then have "\<not> n < 12" by (simp only: table_addr_def page_aligned_bits) blast
  moreover have "\<not> 48 \<le> n" using small_bits [of a 48 n] a by (auto simp: table_addr_def)
  ultimately show ?thesis by simp
qed

lemma addr_mask_id: "table_addr a \<Longrightarrow> a AND PTE_ADDR_MASK = a"
  by (rule bit_word_eqI) (auto simp: bit_and_iff bit_addr_mask dest: table_addr_bits)

lemma table_descriptor_addr [simp]: "table_addr a \<Longrightarrow> table_descriptor a AND PTE_ADDR_MASK = a"
  by (rule bit_word_eqI) (auto simp: bit_and_iff bit_addr_mask bit_table_descriptor dest: table_addr_bits)

lemma is_table_descriptor [simp]: "is_table (table_descriptor a)"
  unfolding is_table_bits bit_table_descriptor by simp

lemma page_descriptor_addr:
  assumes "table_addr a" "\<And>n. bit attrs n \<Longrightarrow> \<not> (12 \<le> n \<and> n < 48)"
  shows "page_descriptor a attrs AND PTE_ADDR_MASK = a"
  by (rule bit_word_eqI) (use assms in \<open>auto simp: bit_and_iff bit_addr_mask bit_page_descriptor dest: table_addr_bits\<close>)

text \<open>Splitting a block keeps the translation of its pages.\<close>

definition block_page :: "u64 \<Rightarrow> u64 \<Rightarrow> u64" where
  "block_page d k = page_descriptor ((d AND PTE_BLOCK_L2_ADDR_MASK) + k * PAGE_SIZE) (d AND NOT PTE_BLOCK_L2_ADDR_MASK)"

lemma bit_block_address:
  assumes "k < 512"
  shows "bit ((d AND PTE_BLOCK_L2_ADDR_MASK) + k * PAGE_SIZE) n \<longleftrightarrow>
    bit d n \<and> 21 \<le> n \<and> n < 48 \<or> 12 \<le> n \<and> bit k (n - 12) \<and> n < 21"
proof -
  have k: "bit k m \<Longrightarrow> m < 9" for m using small_bits [of k 9 m] assms by (cases "m < 9") simp_all
  have p: "k * PAGE_SIZE = push_bit 12 k" by (simp add: PAGE_SIZE_def push_bit_eq_mult mult.commute)
  have "(d AND PTE_BLOCK_L2_ADDR_MASK) + push_bit 12 k = (d AND PTE_BLOCK_L2_ADDR_MASK) OR push_bit 12 k"
    by (rule disjunctive_add) (auto simp: bit_and_iff bit_block_mask bit_push_bit_iff dest: k)
  then show ?thesis unfolding p using k [of "n - 12"]
    by (auto simp: bit_or_iff bit_and_iff bit_block_mask bit_push_bit_iff)
qed

lemma bit_block_page:
  assumes "k < 512" "d AND 0x1ff000 = 0"
  shows "bit (block_page d k) n \<longleftrightarrow>
    12 \<le> n \<and> bit k (n - 12) \<and> n < 21 \<or> bit d n \<and> \<not> (12 \<le> n \<and> n < 21) \<or> n = 0 \<or> n = 1 \<or> n = 10"
proof -
  have m: "(0x1ff000 :: u64) = push_bit 12 0x1ff" by (simp add: push_bit_eq_mult)
  have z0: "\<not> (bit d n \<and> bit (push_bit 12 0x1ff :: u64) n)" for n using assms(2) unfolding m word_and_0_iff by blast
  have z: "12 \<le> n \<Longrightarrow> n < 21 \<Longrightarrow> \<not> bit d n" for n
  proof -
    assume n: "12 \<le> n" "n < 21"
    then have "bit (push_bit 12 0x1ff :: u64) n" unfolding bit_push_bit_iff bit_1ff by (simp add: less_diff_conv2)
    then show ?thesis using z0 [of n] by blast
  qed
  have "n < 64" if "bit d n" using bit_imp_le_length [OF that] by simp
  then show ?thesis
    unfolding block_page_def bit_page_descriptor bit_block_address [OF assms(1)] bit_and_iff bit_not_iff bit_block_mask
    using z [of n] by auto
qed

section \<open>The tables of a state\<close>

datatype table_role = L1_Table | L2_Table u64 | L3_Table u64 u64

definition l2_of :: "kernel_image \<Rightarrow> vm_state \<Rightarrow> u64 \<Rightarrow> u64 option" where
  "l2_of img s i =
     (if i < 512 \<and> is_table (entry s (g_l1_table img) i) then Some (entry s (g_l1_table img) i AND PTE_ADDR_MASK) else None)"

fun table_of :: "kernel_image \<Rightarrow> vm_state \<Rightarrow> table_role \<Rightarrow> u64 option" where
  "table_of img s L1_Table = Some (g_l1_table img)"
| "table_of img s (L2_Table i) = l2_of img s i"
| "table_of img s (L3_Table i j) =
     (case l2_of img s i of
        None \<Rightarrow> None
      | Some l2 \<Rightarrow> if j < 512 \<and> is_table (entry s l2 j) then Some (entry s l2 j AND PTE_ADDR_MASK) else None)"

text \<open>The descriptor of page \<open>(i, j, k)\<close>.\<close>

definition l2_leaf :: "vm_state \<Rightarrow> u64 \<Rightarrow> u64 \<Rightarrow> u64" where
  "l2_leaf s d k =
     (if is_table d then entry s (d AND PTE_ADDR_MASK) k
      else if d AND PTE_VALID = 0 then 0 else block_page d k)"

definition leaf :: "kernel_image \<Rightarrow> vm_state \<Rightarrow> u64 \<Rightarrow> u64 \<Rightarrow> u64 \<Rightarrow> u64" where
  "leaf img s i j k =
     (case l2_of img s i of None \<Rightarrow> 0 | Some l2 \<Rightarrow> l2_leaf s (entry s l2 j) k)"

definition vm_inv :: "kernel_image \<Rightarrow> vm_state \<Rightarrow> bool" where
  "vm_inv img s \<longleftrightarrow>
     numa_inv (pm_numa (vm_pmm s)) \<and>
     (\<forall>p \<in> managed_phys (pm_numa (vm_pmm s)). table_addr p) \<and>
     table_addr (g_l0_table img) \<and> g_l0_table img \<notin> free_phys (pm_numa (vm_pmm s)) \<and>
     entry s (g_l0_table img) 0 = table_descriptor (g_l1_table img) \<and>
     (\<forall>i. 0 < i \<and> i < 512 \<longrightarrow> \<not> is_table (entry s (g_l0_table img) i)) \<and>
     (\<forall>r a. table_of img s r = Some a \<longrightarrow>
        table_addr a \<and> a \<noteq> g_l0_table img \<and> a \<notin> free_phys (pm_numa (vm_pmm s))) \<and>
     (\<forall>r r' a. table_of img s r = Some a \<longrightarrow> table_of img s r' = Some a \<longrightarrow> r = r') \<and>
     (\<forall>i l2 j. l2_of img s i = Some l2 \<longrightarrow> j < 512 \<longrightarrow>
        is_table (entry s l2 j) \<or> entry s l2 j AND 0x1ff000 = 0)"

lemma vm_invD:
  assumes "vm_inv img s"
  shows "numa_inv (pm_numa (vm_pmm s))"
    and "p \<in> managed_phys (pm_numa (vm_pmm s)) \<Longrightarrow> table_addr p"
    and "table_addr (g_l0_table img)" "g_l0_table img \<notin> free_phys (pm_numa (vm_pmm s))"
    and "entry s (g_l0_table img) 0 = table_descriptor (g_l1_table img)"
    and "0 < i \<Longrightarrow> i < 512 \<Longrightarrow> \<not> is_table (entry s (g_l0_table img) i)"
    and "table_of img s r = Some a \<Longrightarrow> table_addr a"
    and "table_of img s r = Some a \<Longrightarrow> a \<noteq> g_l0_table img"
    and "table_of img s r = Some a \<Longrightarrow> a \<notin> free_phys (pm_numa (vm_pmm s))"
    and "table_of img s r = Some a \<Longrightarrow> table_of img s r' = Some a \<Longrightarrow> r = r'"
    and "l2_of img s i = Some l2 \<Longrightarrow> j < 512 \<Longrightarrow> is_table (entry s l2 j) \<or> entry s l2 j AND 0x1ff000 = 0"
  using assms unfolding vm_inv_def by blast+

lemmas vm_inv_table = vm_invD(7,8,9)

lemma l1_table_addr: "vm_inv img s \<Longrightarrow> table_addr (g_l1_table img)"
  using vm_inv_table(1) [of img s L1_Table] by simp

lemma l2_table_addr: "vm_inv img s \<Longrightarrow> l2_of img s i = Some l2 \<Longrightarrow> table_addr l2"
  using vm_inv_table(1) [of img s "L2_Table i"] by simp

lemma l2_of_bound: "l2_of img s i = Some l2 \<Longrightarrow> i < 512"
  by (simp add: l2_of_def split: if_splits)

lemma table_of_L3:
  "table_of img s (L3_Table i j) = Some l3 \<longleftrightarrow>
   (\<exists>l2. l2_of img s i = Some l2 \<and> j < 512 \<and> is_table (entry s l2 j) \<and> l3 = entry s l2 j AND PTE_ADDR_MASK)"
  by (auto split: option.splits if_splits)

lemma l2_leaf_table: "table_of img s (L3_Table i j) = Some l3 \<Longrightarrow> leaf img s i j k = entry s l3 k"
  unfolding table_of_L3 by (auto simp: leaf_def l2_leaf_def)

section \<open>Linking a new level-2 table\<close>

text \<open>Page \<open>p\<close> is filled with \<open>f\<close> and entry \<open>i\<close> of table \<open>t\<close> points to it.\<close>

definition linked :: "vm_state \<Rightarrow> u64 \<Rightarrow> u64 \<Rightarrow> u64 \<Rightarrow> (u64 \<Rightarrow> u64) \<Rightarrow> vm_state \<Rightarrow> bool" where
  "linked s t i p f s' \<longleftrightarrow> (\<forall>a j. page_aligned a \<longrightarrow> j < 512 \<longrightarrow>
     entry s' a j = (if a = p then f j else if a = t \<and> j = i then table_descriptor p else entry s a j))"

lemma linkedD:
  "linked s t i p f s' \<Longrightarrow> page_aligned a \<Longrightarrow> j < 512 \<Longrightarrow>
   entry s' a j = (if a = p then f j else if a = t \<and> j = i then table_descriptor p else entry s a j)"
  unfolding linked_def by blast

lemma link_l2_roles:
  assumes inv: "vm_inv img s" and i: "i < 512" "l2_of img s i = None"
    and p: "p \<in> free_phys (pm_numa (vm_pmm s))"
    and e0: "linked s (g_l1_table img) i p (\<lambda>_. 0) s'"
  shows "l2_of img s' = (l2_of img s)(i := Some p)"
    and "table_of img s' = (table_of img s)(L2_Table i := Some p)"
    and "\<And>i' j' k'. j' < 512 \<Longrightarrow> k' < 512 \<Longrightarrow> leaf img s' i' j' k' = leaf img s i' j' k'"
proof -
  note e = linkedD [OF e0]
  have pt: "table_of img s r \<noteq> Some p" for r using vm_inv_table(3) [OF inv] p by blast
  have tp: "table_addr p" using p vm_invD(1,2) [OF inv] pmm.free_managed by blast
  have l1: "table_addr (g_l1_table img)" "g_l1_table img \<noteq> p" using l1_table_addr [OF inv] pt [of L1_Table] by auto
  have e1: "entry s' (g_l1_table img) j = (if j = i then table_descriptor p else entry s (g_l1_table img) j)"
    if "j < 512" for j using e [of "g_l1_table img" j] l1 that by simp
  show l2: "l2_of img s' = (l2_of img s)(i := Some p)"
    using i e1 tp by (auto simp: l2_of_def fun_eq_iff split: if_splits)
  have e2: "entry s' l2 j = entry s l2 j" if "l2_of img s i' = Some l2" "j < 512" for i' l2 j
    using e [of l2 j] that pt [of "L2_Table i'"] vm_invD(10) [OF inv, of "L2_Table i'" l2 L1_Table]
      l2_table_addr [OF inv that(1)] by auto
  have e3: "entry s' l3 k = entry s l3 k" if "table_of img s (L3_Table i' j') = Some l3" "k < 512" for i' j' l3 k
    using e [of l3 k] that pt [of "L3_Table i' j'"] vm_invD(10) [OF inv, of "L3_Table i' j'" l3 L1_Table]
      vm_inv_table(1) [OF inv that(1)] by auto
  have z: "\<not> is_table 0" by (simp add: is_table_bits)
  have ep: "j < 512 \<Longrightarrow> entry s' p j = 0" for j using e [of p j] tp by simp
  have "table_of img s' r = ((table_of img s)(L2_Table i := Some p)) r" for r
  proof (cases r)
    case (L3_Table i' j')
    then show ?thesis using i(2) z ep e2 by (auto simp: l2 split: option.splits)
  qed (simp_all add: l2)
  then show "table_of img s' = (table_of img s)(L2_Table i := Some p)" ..
  show "leaf img s' i' j' k' = leaf img s i' j' k'" if "j' < 512" "k' < 512" for i' j' k'
  proof (cases "l2_of img s i'")
    case None
    then show ?thesis using that z ep by (auto simp: leaf_def l2 l2_leaf_def pte_tests)
  next
    case (Some l2)
    then have "i' \<noteq> i" using i by auto
    then show ?thesis using Some that e2 [OF Some] e3 [of i' j'] by (auto simp: leaf_def l2 l2_leaf_def)
  qed
qed

lemma link_l2_inv:
  assumes inv: "vm_inv img s" and i: "i < 512" "l2_of img s i = None"
    and p: "p \<in> free_phys (pm_numa (vm_pmm s))"
    and e0: "linked s (g_l1_table img) i p (\<lambda>_. 0) s'"
    and n: "numa_inv (pm_numa (vm_pmm s'))" "managed_phys (pm_numa (vm_pmm s')) = managed_phys (pm_numa (vm_pmm s))"
      "free_phys (pm_numa (vm_pmm s')) = free_phys (pm_numa (vm_pmm s)) - {p}"
  shows "vm_inv img s'"
proof -
  note r = link_l2_roles [OF inv i p e0] and e = linkedD [OF e0]
  have pt: "table_of img s r \<noteq> Some p" for r using vm_inv_table(3) [OF inv] p by blast
  have tp: "table_addr p" using p vm_invD(1,2) [OF inv] pmm.free_managed by blast
  have l0: "g_l0_table img \<noteq> p" "g_l1_table img \<noteq> g_l0_table img"
    using vm_invD(4) [OF inv] p vm_inv_table(2) [OF inv, of L1_Table] by auto
  have el0: "j < 512 \<Longrightarrow> entry s' (g_l0_table img) j = entry s (g_l0_table img) j" for j
    using e [of "g_l0_table img" j] vm_invD(3) [OF inv] l0 by auto
  show ?thesis
    unfolding vm_inv_def n(2,3) r(2)
  proof (intro conjI allI impI ballI)
    fix i' l2 j :: u64
    assume "l2_of img s' i' = Some l2" "j < 512"
    then show "is_table (entry s' l2 j) \<or> entry s' l2 j AND 0x1ff000 = 0"
      using e [of l2 j] tp vm_invD(11) [OF inv, of i' l2 j] l2_table_addr [OF inv, of i' l2]
        pt [of "L2_Table i'"] vm_invD(10) [OF inv, of "L2_Table i'" l2 L1_Table]
      by (auto simp: r(1) split: if_splits)
  qed (use n(1) vm_invD [OF inv] el0 pt tp l0 in \<open>auto split: if_splits\<close>)
qed

section \<open>Linking a new level-3 table\<close>

lemma link_l3_roles:
  assumes inv: "vm_inv img s" and l2: "l2_of img s i = Some l2" and j: "j < 512" "\<not> is_table (entry s l2 j)"
    and p: "p \<in> free_phys (pm_numa (vm_pmm s))"
    and e0: "linked s l2 j p (l2_leaf s (entry s l2 j)) s'"
  shows "l2_of img s' = l2_of img s"
    and "table_of img s' = (table_of img s)(L3_Table i j := Some p)"
    and "\<And>i' j' k'. j' < 512 \<Longrightarrow> k' < 512 \<Longrightarrow> leaf img s' i' j' k' = leaf img s i' j' k'"
proof -
  note e = linkedD [OF e0]
  have pt: "table_of img s r \<noteq> Some p" for r using vm_inv_table(3) [OF inv] p by blast
  have tp: "table_addr p" using p vm_invD(1,2) [OF inv] pmm.free_managed by blast
  note uniq = vm_invD(10) [OF inv]
  have e1: "j' < 512 \<Longrightarrow> entry s' (g_l1_table img) j' = entry s (g_l1_table img) j'" for j'
    using e [of "g_l1_table img" j'] l1_table_addr [OF inv] pt [of L1_Table] uniq [of L1_Table l2 "L2_Table i"] l2 by auto
  show 2: "l2_of img s' = l2_of img s"
    using e1 by (auto simp: l2_of_def fun_eq_iff)
  have e2: "entry s' l2' j' = (if i' = i \<and> j' = j then table_descriptor p else entry s l2' j')"
    if "l2_of img s i' = Some l2'" "j' < 512" for i' l2' j'
    using e [of l2' j'] that pt [of "L2_Table i'"] uniq [of "L2_Table i'" l2' "L2_Table i"] l2
      l2_table_addr [OF inv that(1)] by auto
  have e3: "entry s' l3 k = entry s l3 k" if "table_of img s (L3_Table i' j') = Some l3" "k < 512" for i' j' l3 k
    using e [of l3 k] that pt [of "L3_Table i' j'"] uniq [of "L3_Table i' j'" l3 "L2_Table i"] l2
      vm_inv_table(1) [OF inv that(1)] by auto
  have ep: "k < 512 \<Longrightarrow> entry s' p k = l2_leaf s (entry s l2 j) k" for k using e [of p k] tp by simp
  have "table_of img s' r = ((table_of img s)(L3_Table i j := Some p)) r" for r
  proof (cases r)
    case (L3_Table i' j')
    then show ?thesis using e2 tp l2 j by (auto simp: 2 split: option.splits)
  qed (simp_all add: 2)
  then show "table_of img s' = (table_of img s)(L3_Table i j := Some p)" ..
  show "leaf img s' i' j' k' = leaf img s i' j' k'" if b: "j' < 512" "k' < 512" for i' j' k'
  proof (cases "l2_of img s i'")
    case None
    then show ?thesis by (simp add: leaf_def 2)
  next
    case (Some l2')
    show ?thesis
    proof (cases "i' = i \<and> j' = j")
      case True
      then have "entry s' l2' j' = table_descriptor p" "l2' = l2" using e2 [OF Some b(1)] Some l2 by auto
      then show ?thesis using Some True tp ep [OF b(2)] by (simp add: leaf_def 2 l2_leaf_def)
    next
      case False
      then have "entry s' l2' j' = entry s l2' j'" using e2 [OF Some b(1)] by auto
      then show ?thesis using Some b e3 [of i' j' _ k'] by (auto simp: leaf_def 2 l2_leaf_def)
    qed
  qed
qed

lemma link_l3_inv:
  assumes inv: "vm_inv img s" and l2: "l2_of img s i = Some l2" and j: "j < 512" "\<not> is_table (entry s l2 j)"
    and p: "p \<in> free_phys (pm_numa (vm_pmm s))"
    and e0: "linked s l2 j p (l2_leaf s (entry s l2 j)) s'"
    and n: "numa_inv (pm_numa (vm_pmm s'))" "managed_phys (pm_numa (vm_pmm s')) = managed_phys (pm_numa (vm_pmm s))"
      "free_phys (pm_numa (vm_pmm s')) = free_phys (pm_numa (vm_pmm s)) - {p}"
  shows "vm_inv img s'"
proof -
  note r = link_l3_roles [OF inv l2 j p e0] and e = linkedD [OF e0]
  have pt: "table_of img s r \<noteq> Some p" for r using vm_inv_table(3) [OF inv] p by blast
  have tp: "table_addr p" using p vm_invD(1,2) [OF inv] pmm.free_managed by blast
  have l0: "g_l0_table img \<noteq> p" "l2 \<noteq> g_l0_table img"
    using vm_invD(4) [OF inv] p vm_inv_table(2) [OF inv, of "L2_Table i"] l2 by auto
  have el0: "j < 512 \<Longrightarrow> entry s' (g_l0_table img) j = entry s (g_l0_table img) j" for j
    using e [of "g_l0_table img" j] vm_invD(3) [OF inv] l0 by auto
  show ?thesis
    unfolding vm_inv_def n(2,3) r(1,2)
  proof (intro conjI allI impI ballI)
    fix i' l2' j' :: u64
    assume "l2_of img s i' = Some l2'" "j' < 512"
    then show "is_table (entry s' l2' j') \<or> entry s' l2' j' AND 0x1ff000 = 0"
      using e [of l2' j'] vm_invD(11) [OF inv, of i' l2' j'] l2_table_addr [OF inv, of i' l2'] pt [of "L2_Table i'"]
      by auto
  qed (use n(1) vm_invD [OF inv] el0 pt tp l0 in \<open>auto split: if_splits\<close>)
qed

section \<open>Writing a level-3 entry\<close>

lemma set_leaf:
  assumes inv: "vm_inv img s" and l3: "table_of img s (L3_Table i j) = Some l3" and k: "k < 512"
    and s': "s' = set_entry s l3 k v"
  shows "vm_inv img s'"
    and "\<And>i' j' k'. j' < 512 \<Longrightarrow> k' < 512 \<Longrightarrow>
      leaf img s' i' j' k' = (if i' = i \<and> j' = j \<and> k' = k then v else leaf img s i' j' k')"
    and "table_of img s' = table_of img s"
proof -
  note uniq = vm_invD(10) [OF inv]
  have t3: "table_addr l3" using vm_inv_table(1) [OF inv l3] .
  have e: "entry s' t k' = (if t = l3 \<and> k' = k then v else entry s t k')" if "page_aligned t" "k' < 512" for t k'
    unfolding s' using entry_set_entry [OF _ that(1) k that(2)] t3 by auto
  have e1: "j' < 512 \<Longrightarrow> entry s' (g_l1_table img) j' = entry s (g_l1_table img) j'" for j'
    using e [of "g_l1_table img" j'] l1_table_addr [OF inv] uniq [of L1_Table l3 "L3_Table i j"] l3 by auto
  have 2: "l2_of img s' = l2_of img s"
    using e1 by (auto simp: l2_of_def fun_eq_iff)
  have e2: "entry s' l2' j' = entry s l2' j'" if "l2_of img s i' = Some l2'" "j' < 512" for i' l2' j'
    using e [of l2' j'] that uniq [of "L2_Table i'" l2' "L3_Table i j"] l3 l2_table_addr [OF inv that(1)] by auto
  have "table_of img s' r = table_of img s r" for r
    by (cases r) (auto simp: 2 e2 split: option.splits)
  then show t: "table_of img s' = table_of img s" ..
  have n: "pm_numa (vm_pmm s') = pm_numa (vm_pmm s)" by (simp add: s')
  have el0: "j < 512 \<Longrightarrow> entry s' (g_l0_table img) j = entry s (g_l0_table img) j" for j
    using e [of "g_l0_table img" j] vm_invD(3) [OF inv] vm_inv_table(2) [OF inv l3] by auto
  show "vm_inv img s'"
    unfolding vm_inv_def n t 2 using vm_invD [OF inv] el0 e2 by auto
  show "leaf img s' i' j' k' = (if i' = i \<and> j' = j \<and> k' = k then v else leaf img s i' j' k')"
    if b: "j' < 512" "k' < 512" for i' j' k'
  proof (cases "table_of img s (L3_Table i' j')")
    case None
    then have "leaf img s' i' j' k' = leaf img s i' j' k'" "\<not> (i' = i \<and> j' = j)"
      using e2 b l3 by (auto simp: leaf_def 2 l2_leaf_def split: option.splits if_splits)
    then show ?thesis by auto
  next
    case (Some l3')
    then show ?thesis
      using e [of l3' k'] b l3 uniq [OF Some, of "L3_Table i j"] vm_inv_table(1) [OF inv Some]
        l2_leaf_table [of img s i' j' l3'] l2_leaf_table [of img s' i' j' l3'] by (auto simp: t)
  qed
qed

section \<open>The operations on the page map\<close>

abbreviation vm_free :: "vm_state \<Rightarrow> u64 set" where
  "vm_free s \<equiv> free_phys (pm_numa (vm_pmm s))"

abbreviation vm_managed :: "vm_state \<Rightarrow> u64 set" where
  "vm_managed s \<equiv> managed_phys (pm_numa (vm_pmm s))"

abbreviation same_mmio :: "vm_state \<Rightarrow> vm_state \<Rightarrow> bool" where
  "same_mmio s s' \<equiv> g_mmio_start s' = g_mmio_start s \<and> g_mmio_end s' = g_mmio_end s"

text \<open>The pages that hold data: neither free nor part of the tables. The operations leave their contents alone.\<close>

definition data_page :: "kernel_image \<Rightarrow> vm_state \<Rightarrow> u64 \<Rightarrow> bool" where
  "data_page img s a \<longleftrightarrow> page_aligned a \<and> a \<noteq> g_l0_table img \<and> a \<notin> vm_free s \<and> (\<forall>r. table_of img s r \<noteq> Some a)"

definition keeps_data :: "kernel_image \<Rightarrow> vm_state \<Rightarrow> vm_state \<Rightarrow> bool" where
  "keeps_data img s s' \<longleftrightarrow> (\<forall>a. data_page img s a \<longrightarrow> data_page img s' a \<and> (\<forall>j < 512. entry s' a j = entry s a j))"

lemma keeps_data_refl [simp]: "keeps_data img s s"
  by (simp add: keeps_data_def)

lemma keeps_data_trans: "keeps_data img s s1 \<Longrightarrow> keeps_data img s1 s2 \<Longrightarrow> keeps_data img s s2"
  by (auto simp: keeps_data_def)

lemma linked_keeps_data:
  assumes "linked s t i p f s'" "p \<in> vm_free s" "table_of img s r0 = Some t"
    and "table_of img s' = (table_of img s)(r := Some p)" "vm_free s' = vm_free s - {p}"
  shows "keeps_data img s s'"
  unfolding keeps_data_def data_page_def using assms linkedD [OF assms(1)] by auto

lemma table_page_spec:
  assumes inv: "vm_inv img s" and free: "vm_free s \<noteq> {}"
  obtains p s1 where "table_page s = Some (p, s1)" "p \<in> vm_free s" "numa_inv (pm_numa (vm_pmm s1))"
    "vm_managed s1 = vm_managed s" "vm_free s1 = vm_free s - {p}" "same_mmio s s1" "table_addr p"
    "\<And>a j. page_aligned a \<Longrightarrow> j < 512 \<Longrightarrow> entry s1 a j = (if a = p then 0 else entry s a j)"
proof -
  obtain p n where a: "pmm_alloc_page (pm_numa (vm_pmm s)) = Some (p, n)" "numa_inv n" "p = 0 \<longleftrightarrow> vm_free s = {}"
      "p = 0 \<or> p \<in> vm_free s" "free_phys n = vm_free s - {p}" "managed_phys n = vm_managed s"
    by (rule pmm.alloc_total [OF vm_invD(1) [OF inv]])
  let ?s1 = "zero_table (s\<lparr>vm_pmm := (vm_pmm s)\<lparr>pm_numa := n\<rparr>\<rparr>) p 512"
  have tp: "table_addr p" using a(3,4) free vm_invD(1,2) [OF inv] pmm.free_managed by blast
  have e: "entry ?s1 a j = (if a = p then 0 else entry s a j)" if "page_aligned a" "j < 512" for a j
    unfolding zero_table_def using entry_fill_page [of p a j] tp that by (simp add: entry_def)
  have "table_page s = Some (p, ?s1)" using a free by (simp add: table_page_def)
  then show ?thesis
    by (rule that) (use a free tp e in \<open>simp_all add: zero_table_def\<close>)
qed

lemma ensure_l2_spec:
  assumes inv: "vm_inv img s" and i: "i < 512" and free: "2 \<le> card (vm_free s)"
  obtains l2 s1 where "ensure_l2_table img s i = Some (l2, s1)" "vm_inv img s1" "l2_of img s1 i = Some l2"
    "\<And>i' j' k'. j' < 512 \<Longrightarrow> k' < 512 \<Longrightarrow> leaf img s1 i' j' k' = leaf img s i' j' k'"
    "vm_free s1 \<noteq> {}" "vm_managed s1 = vm_managed s" "vm_free s1 \<subseteq> vm_free s" "same_mmio s s1"
    "card (vm_free s) \<le> card (vm_free s1) + 1" "keeps_data img s s1"
proof (cases "is_table (entry s (g_l1_table img) i)")
  case True
  show ?thesis
    by (rule that [of "entry s (g_l1_table img) i AND PTE_ADDR_MASK" s])
       (use True inv i free in \<open>auto simp: ensure_l2_table_def l2_of_def\<close>)
next
  case False
  then have none: "l2_of img s i = None" by (simp add: l2_of_def)
  have "vm_free s \<noteq> {}" using free by auto
  then obtain p s1 where a: "table_page s = Some (p, s1)" "p \<in> vm_free s" "numa_inv (pm_numa (vm_pmm s1))"
    "vm_managed s1 = vm_managed s" "vm_free s1 = vm_free s - {p}" "same_mmio s s1" "table_addr p"
    "\<And>a j. page_aligned a \<Longrightarrow> j < 512 \<Longrightarrow> entry s1 a j = (if a = p then 0 else entry s a j)"
    using table_page_spec [OF inv] by metis
  define s2 where "s2 = set_entry s1 (g_l1_table img) i (table_descriptor p)"
  have l1: "page_aligned (g_l1_table img)" "g_l1_table img \<noteq> p"
    using l1_table_addr [OF inv] vm_inv_table(3) [OF inv, of L1_Table] a(2) by auto
  have e: "linked s (g_l1_table img) i p (\<lambda>_. 0) s2"
    unfolding linked_def s2_def using entry_set_entry [OF l1(1) _ i] a(8) l1(2) by auto
  note r = link_l2_roles [OF inv i none a(2) e]
  have "vm_inv img s2" by (rule link_l2_inv [OF inv i none a(2) e]) (use a in \<open>simp_all add: s2_def\<close>)
  moreover have "entry s2 (g_l1_table img) i = table_descriptor p"
    using linkedD [OF e l1(1) i] l1(2) by simp
  then have "ensure_l2_table img s i = Some (p, s2)"
    using False a(1,7) by (simp add: ensure_l2_table_def Let_def flip: s2_def)
  moreover have "vm_free s - {p} \<noteq> {}"
    using free card_mono [of "{p}" "vm_free s"] by auto
  moreover have "card (vm_free s) \<le> card (vm_free s - {p}) + 1" by (simp add: card_Diff_singleton_if) arith
  moreover have "keeps_data img s s2"
    by (rule linked_keeps_data [OF e a(2), of img L1_Table]) (use r(2) a(5) in \<open>simp_all add: s2_def\<close>)
  ultimately show ?thesis using that [of p s2] r a by (simp add: s2_def)
qed

lemma ensure_l3_spec:
  assumes inv: "vm_inv img s" and va: "l0_index va = 0" and free: "2 \<le> card (vm_free s)"
  obtains l3 s1 where "ensure_l3_table img s va = Some (l3, s1)" "vm_inv img s1"
    "table_of img s1 (L3_Table (l1_index va) (l2_index va)) = Some l3"
    "\<And>i' j' k'. j' < 512 \<Longrightarrow> k' < 512 \<Longrightarrow> leaf img s1 i' j' k' = leaf img s i' j' k'"
    "vm_managed s1 = vm_managed s" "vm_free s1 \<subseteq> vm_free s" "same_mmio s s1"
    "card (vm_free s) \<le> card (vm_free s1) + 2" "keeps_data img s s1"
proof -
  define j where "j = l2_index va"
  have j: "j < 512" by (simp add: j_def)
  obtain l2 s1 where 1: "ensure_l2_table img s (l1_index va) = Some (l2, s1)" "vm_inv img s1"
      "l2_of img s1 (l1_index va) = Some l2"
      "\<And>i' j' k'. j' < 512 \<Longrightarrow> k' < 512 \<Longrightarrow> leaf img s1 i' j' k' = leaf img s i' j' k'"
      "vm_free s1 \<noteq> {}" "vm_managed s1 = vm_managed s" "vm_free s1 \<subseteq> vm_free s" "same_mmio s s1"
      "card (vm_free s) \<le> card (vm_free s1) + 1" "keeps_data img s s1"
    using ensure_l2_spec [OF inv index_bound free] by metis
  define d where "d = entry s1 l2 j"
  show ?thesis
  proof (cases "is_table d")
    case True
    show ?thesis
      by (rule that [of "d AND PTE_ADDR_MASK" s1])
         (use True 1 va j in \<open>simp_all add: ensure_l3_table_def d_def Let_def flip: j_def\<close>)
  next
    case False
    then have nt: "\<not> is_table (entry s1 l2 j)" by (simp add: d_def)
    obtain p s2 where a: "table_page s1 = Some (p, s2)" "p \<in> vm_free s1" "numa_inv (pm_numa (vm_pmm s2))"
      "vm_managed s2 = vm_managed s1" "vm_free s2 = vm_free s1 - {p}" "same_mmio s1 s2" "table_addr p"
      "\<And>a j. page_aligned a \<Longrightarrow> j < 512 \<Longrightarrow> entry s2 a j = (if a = p then 0 else entry s1 a j)"
      using table_page_spec [OF 1(2,5)] by metis
    define s3 where "s3 = (if d AND PTE_VALID \<noteq> 0 \<and> d AND PTE_TABLE = 0 then fill_table s2 p 512 (block_page d) else s2)"
    define s4 where "s4 = set_entry s3 l2 j (table_descriptor p)"
    have l2: "page_aligned l2" "l2 \<noteq> p"
      using l2_table_addr [OF 1(2,3)] vm_inv_table(3) [OF 1(2), of "L2_Table (l1_index va)"] 1(3) a(2) by auto
    have valid: "d AND PTE_VALID \<noteq> 0 \<Longrightarrow> d AND PTE_TABLE = 0" using False by (auto simp: is_table_bits pte_tests)
    have e3: "entry s3 a k = (if a = p then l2_leaf s1 d k else entry s1 a k)" if "page_aligned a" "k < 512" for a k
      using that a(7,8) entry_fill_page [of p a k s2 "block_page d"] valid False
      by (auto simp: s3_def l2_leaf_def)
    have e: "linked s1 l2 j p (l2_leaf s1 (entry s1 l2 j)) s4"
      unfolding linked_def s4_def d_def [symmetric] using entry_set_entry [OF l2(1) _ j] e3 l2(2) by auto
    note r = link_l3_roles [OF 1(2,3) j nt a(2) e]
    have f: "vm_managed s4 = vm_managed s1" "vm_free s4 = vm_free s1 - {p}" "same_mmio s1 s4" "numa_inv (pm_numa (vm_pmm s4))"
      using a by (simp_all add: s4_def s3_def)
    have "vm_inv img s4" by (rule link_l3_inv [OF 1(2,3) j nt a(2) e]) (use f in simp_all)
    moreover have "ensure_l3_table img s va = Some (p, s4)"
      using 1(1) va a(1) False
      by (simp add: ensure_l3_table_def Let_def s4_def s3_def flip: j_def d_def) (simp add: block_page_def [abs_def] fun_eq_iff d_def)
    moreover have "vm_free s1 - {p} \<subseteq> vm_free s" using 1(7) by blast
    moreover have "card (vm_free s) \<le> card (vm_free s1 - {p}) + 2" using 1(9) by (simp add: card_Diff_singleton_if) arith
    moreover have "keeps_data img s1 s4"
      by (rule linked_keeps_data [OF e a(2), of img "L2_Table (l1_index va)"]) (use 1(3) r(2) f(2) in simp_all)
    then have "keeps_data img s s4" by (rule keeps_data_trans [OF 1(10)])
    ultimately show ?thesis using that [of p s4] r f 1 by (simp add: j_def)
  qed
qed

lemma set_leaf_keeps_data:
  assumes "vm_inv img s" "table_of img s (L3_Table i j) = Some l3" "k < 512" "s' = set_entry s l3 k v"
  shows "keeps_data img s s'"
  unfolding keeps_data_def data_page_def set_leaf(3) [OF assms]
  using assms entry_set_entry [of l3 _ k] vm_inv_table(1) [OF assms(1,2)] by (auto simp del: table_of.simps)

section \<open>Translation reads the map\<close>

definition leaf_translation :: "vm_state \<Rightarrow> u64 \<Rightarrow> u64 \<Rightarrow> (u64 \<times> u32) option" where
  "leaf_translation s va d =
     (if d AND PTE_VALID = 0 then None
      else map_option (\<lambda>flags. ((d AND PTE_ADDR_MASK) + (va AND 0xfff), flags)) (descriptor_to_flags s va d))"

lemma bit_l3_index: "bit (l3_index va) n \<longleftrightarrow> n < 9 \<and> bit va (n + 12)"
  unfolding bit_and_iff bit_1ff bit_drop_bit_eq comp_def by (auto simp: add.commute)

lemma block_offset:
  assumes d: "d AND 0x1ff000 = 0"
  shows "(block_page d (l3_index va) AND PTE_ADDR_MASK) + (va AND 0xfff) =
    (d AND PTE_BLOCK_L2_ADDR_MASK) + (va AND (L2_BLOCK_SIZE - 1))"
proof -
  have m: "bit (L2_BLOCK_SIZE - 1) n \<longleftrightarrow> n < 21" for n
  proof -
    have "L2_BLOCK_SIZE - 1 = mask 21" by (simp add: L2_BLOCK_SIZE_def mask_eq_exp_minus_1)
    then show ?thesis by (auto simp: bit_mask_iff)
  qed
  define k where "k = l3_index va"
  have k: "k < 512" "bit k n \<longleftrightarrow> n < 9 \<and> bit va (n + 12)" for n
    unfolding k_def by (rule index_bound) (rule bit_l3_index)
  have b: "bit (block_page d k AND PTE_ADDR_MASK) n \<longleftrightarrow>
      12 \<le> n \<and> n < 21 \<and> bit va n \<or> bit d n \<and> 21 \<le> n \<and> n < 48" for n
    unfolding bit_and_iff bit_addr_mask bit_block_page [OF k(1) d] k(2) by auto
  have v: "bit (va AND 0xfff) n \<longleftrightarrow> bit va n \<and> n < 12" "bit (va AND (L2_BLOCK_SIZE - 1)) n \<longleftrightarrow> bit va n \<and> n < 21"
    "bit (d AND PTE_BLOCK_L2_ADDR_MASK) n \<longleftrightarrow> bit d n \<and> 21 \<le> n \<and> n < 48" for n
    unfolding bit_and_iff bit_fff bit_block_mask m by (rule refl)+
  have "(block_page d k AND PTE_ADDR_MASK) + (va AND 0xfff) = (block_page d k AND PTE_ADDR_MASK) OR (va AND 0xfff)"
    by (rule disjunctive_add) (unfold b v, auto)
  also have "\<dots> = (d AND PTE_BLOCK_L2_ADDR_MASK) OR (va AND (L2_BLOCK_SIZE - 1))"
    by (rule bit_word_eqI) (unfold bit_or_iff b v, auto)
  also have "\<dots> = (d AND PTE_BLOCK_L2_ADDR_MASK) + (va AND (L2_BLOCK_SIZE - 1))"
    by (rule disjunctive_add [symmetric]) (unfold v, auto)
  finally show ?thesis unfolding k_def .
qed

lemma block_flags:
  assumes d: "d AND 0x1ff000 = 0" and k: "k < 512" and v: "d AND PTE_VALID \<noteq> 0"
  shows "descriptor_to_flags s va (block_page d k) = descriptor_to_flags s va d"
  by (rule flags_cong) (use v in \<open>auto simp: bit_block_page [OF k d] pte_tests\<close>)

lemma translate_leaf:
  assumes inv: "vm_inv img s"
  shows "vmm_translate img s va =
    (if l0_index va = 0 then leaf_translation s va (leaf img s (l1_index va) (l2_index va) (l3_index va)) else None)"
proof (cases "l0_index va = 0")
  case False
  then have "0 < l0_index va" by (simp add: word_neq_0_conv)
  then show ?thesis using vm_invD(6) [OF inv _ index_bound] False by (simp add: vmm_translate_def Let_def)
next
  case True
  note t = table_descriptor_addr [OF l1_table_addr [OF inv]]
  show ?thesis
  proof (cases "l2_of img s (l1_index va)")
    case None
    then have "\<not> is_table (entry s (g_l1_table img) (l1_index va))" by (simp add: l2_of_def split: if_splits)
    then show ?thesis
      using True None t by (simp add: vmm_translate_def vm_invD(5) [OF inv] leaf_def leaf_translation_def Let_def)
  next
    case (Some l2)
    then have l1: "is_table (entry s (g_l1_table img) (l1_index va))"
        "entry s (g_l1_table img) (l1_index va) AND PTE_ADDR_MASK = l2"
      by (simp_all add: l2_of_def split: if_splits)
    define d where "d = entry s l2 (l2_index va)"
    have d: "is_table d \<or> d AND 0x1ff000 = 0" unfolding d_def by (rule vm_invD(11) [OF inv Some index_bound])
    have w: "vmm_translate img s va =
        (if d AND PTE_VALID = 0 then None
         else if d AND PTE_TABLE = 0
         then map_option (\<lambda>flags. ((d AND PTE_BLOCK_L2_ADDR_MASK) + (va AND (L2_BLOCK_SIZE - 1)), flags))
                (descriptor_to_flags s va d)
         else leaf_translation s va (entry s (d AND PTE_ADDR_MASK) (l3_index va)))"
      using True l1 t by (simp add: vmm_translate_def vm_invD(5) [OF inv] leaf_translation_def Let_def d_def)
    have lf: "leaf img s (l1_index va) (l2_index va) (l3_index va) = l2_leaf s d (l3_index va)"
      using Some by (simp add: leaf_def d_def)
    show ?thesis
      unfolding lf w using True d block_offset [of d va] block_flags [of d "l3_index va" s va]
      by (auto simp: l2_leaf_def is_table_bits pte_tests leaf_translation_def bit_block_page)
  qed
qed

text \<open>Two addresses are on the same page.\<close>

definition same_page :: "u64 \<Rightarrow> u64 \<Rightarrow> bool" where
  "same_page va w \<longleftrightarrow> l0_index va = l0_index w \<and> l1_index va = l1_index w \<and> l2_index va = l2_index w \<and> l3_index va = l3_index w"

lemma update_leaf_spec:
  assumes inv: "vm_inv img s" and va: "l0_index va = 0" and free: "2 \<le> card (vm_free s)"
  obtains l3 s1 where "ensure_l3_table img s va = Some (l3, s1)"
    "vm_inv img (set_entry s1 l3 (l3_index va) v)" "same_mmio s (set_entry s1 l3 (l3_index va) v)"
    "vm_managed (set_entry s1 l3 (l3_index va) v) = vm_managed s"
    "vm_free (set_entry s1 l3 (l3_index va) v) \<subseteq> vm_free s"
    "card (vm_free s) \<le> card (vm_free (set_entry s1 l3 (l3_index va) v)) + 2"
    "\<And>w. vmm_translate img (set_entry s1 l3 (l3_index va) v) w =
      (if same_page va w then leaf_translation s w v else vmm_translate img s w)"
    "keeps_data img s (set_entry s1 l3 (l3_index va) v)"
proof -
  obtain l3 s1 where 1: "ensure_l3_table img s va = Some (l3, s1)" "vm_inv img s1"
      "table_of img s1 (L3_Table (l1_index va) (l2_index va)) = Some l3"
      "\<And>i' j' k'. j' < 512 \<Longrightarrow> k' < 512 \<Longrightarrow> leaf img s1 i' j' k' = leaf img s i' j' k'"
      "vm_managed s1 = vm_managed s" "vm_free s1 \<subseteq> vm_free s" "same_mmio s s1"
      "card (vm_free s) \<le> card (vm_free s1) + 2" "keeps_data img s s1"
    using ensure_l3_spec [OF inv va free] by metis
  define s2 where "s2 = set_entry s1 l3 (l3_index va) v"
  note l = set_leaf [OF 1(2,3) index_bound s2_def]
  have mm: "same_mmio s s2" using 1(7) by (simp add: s2_def)
  have fl: "descriptor_to_flags s2 w d = descriptor_to_flags s w d" for w d
    by (rule flags_cong) (use mm in auto)
  have lt: "leaf_translation s2 w d = leaf_translation s w d" for w d
    by (simp add: leaf_translation_def fl)
  have "vmm_translate img s2 w = (if same_page va w then leaf_translation s w v else vmm_translate img s w)" for w
    unfolding translate_leaf [OF l(1)] translate_leaf [OF inv] lt l(2) [OF index_bound index_bound]
      1(4) [OF index_bound index_bound] same_page_def using va by auto
  moreover have "keeps_data img s s2"
    by (rule keeps_data_trans [OF 1(9) set_leaf_keeps_data [OF 1(2,3) index_bound s2_def]])
  ultimately show ?thesis using that [OF 1(1)] l(1) mm 1(5,6,8) by (simp add: s2_def)
qed

end
