(* ===== verification/Address_Space.thy ===== *)
theory Address_Space
  imports Page_Tables
begin

text \<open>
  What the operations of \<^verbatim>\<open>mmu.c\<close> promise to the rest of the kernel, proved on the page map of
  \<open>Page_Tables\<close>: mapping and unmapping change one page, the flags read back, the validation of user
  buffers, and the mappings that do not come out as asked for.
\<close>

section \<open>Mapping\<close>

definition READ_BACK :: u32 where
  "READ_BACK = XAIOS_VMM_PRESENT OR XAIOS_VMM_WRITABLE OR XAIOS_VMM_DEVICE OR XAIOS_VMM_USER"

definition mmio_flag :: "vm_state \<Rightarrow> u64 \<Rightarrow> u32" where
  "mmio_flag s va = (if va \<ge> g_mmio_start s \<and> va < g_mmio_end s then XAIOS_VMM_DEVICE else 0)"

lemma flag_bits:
  "XAIOS_VMM_PRESENT = 2 ^ 0" "XAIOS_VMM_WRITABLE = 2 ^ 1" "XAIOS_VMM_EXECUTABLE = 2 ^ 2" "XAIOS_VMM_DEVICE = 2 ^ 3"
  "XAIOS_VMM_USER = 2 ^ 4"
  by (simp_all add: XAIOS_VMM_PRESENT_def XAIOS_VMM_WRITABLE_def XAIOS_VMM_EXECUTABLE_def XAIOS_VMM_DEVICE_def XAIOS_VMM_USER_def)

lemma and_pow32: "k < 32 \<Longrightarrow> (d AND (2 ^ k :: u32) = 0) = (\<not> bit d k)"
  unfolding word_and_0_iff bit_two_power by auto

lemma flag_tests:
  "(f AND XAIOS_VMM_PRESENT = 0) = (\<not> bit f 0)" "(f AND XAIOS_VMM_WRITABLE = 0) = (\<not> bit f 1)"
  "(f AND XAIOS_VMM_EXECUTABLE = 0) = (\<not> bit f 2)" "(f AND XAIOS_VMM_DEVICE = 0) = (\<not> bit f 3)"
  "(f AND XAIOS_VMM_USER = 0) = (\<not> bit f 4)"
  unfolding flag_bits by (rule and_pow32; simp)+

lemma bit_flag [simp]:
  "bit XAIOS_VMM_PRESENT n \<longleftrightarrow> n = 0" "bit XAIOS_VMM_WRITABLE n \<longleftrightarrow> n = 1" "bit XAIOS_VMM_EXECUTABLE n \<longleftrightarrow> n = 2"
  "bit XAIOS_VMM_DEVICE n \<longleftrightarrow> n = 3" "bit XAIOS_VMM_USER n \<longleftrightarrow> n = 4"
  unfolding flag_bits bit_two_power by auto

lemma bit_normal_device:
  "bit normal_rw_nx_attrs n \<longleftrightarrow> n \<in> {8, 9, 53, 54}" "bit device_rw_nx_attrs n \<longleftrightarrow> n \<in> {2, 53, 54}"
  unfolding normal_rw_nx_attrs_def device_rw_nx_attrs_def bit_or_iff bit_pte by auto

lemma bit_attrs_nx:
  assumes "\<not> bit flags 2"
  shows "bit (attrs_from_flags flags) n \<longleftrightarrow>
    n \<in> {53, 54} \<or> (if bit flags 3 then n = 2 else n \<in> {8, 9}) \<or> bit flags 4 \<and> n \<in> {6, 11} \<or> \<not> bit flags 1 \<and> n = 7"
  unfolding attrs_from_flags_def Let_def flag_tests using assms
  by (auto simp: bit_or_iff bit_normal_device split: if_splits)

lemma flags_read_back:
  assumes "bit flags 0" "\<not> bit flags 2"
  shows "descriptor_to_flags s va (page_descriptor pa (attrs_from_flags flags)) = Some (flags AND READ_BACK OR mmio_flag s va)"
proof -
  have b: "\<not> (12 \<le> (n :: nat)) \<or> n = 53 \<Longrightarrow> bit (page_descriptor pa (attrs_from_flags flags)) n \<longleftrightarrow>
      n = 0 \<or> n = 1 \<or> n = 10 \<or> bit (attrs_from_flags flags) n" for n
    unfolding bit_page_descriptor by auto
  have "descriptor_to_flags s va (page_descriptor pa (attrs_from_flags flags)) =
      Some (XAIOS_VMM_PRESENT OR (if bit flags 3 then XAIOS_VMM_DEVICE else 0) OR mmio_flag s va OR
        (if bit flags 1 then XAIOS_VMM_WRITABLE else 0) OR (if bit flags 4 then XAIOS_VMM_USER else 0))"
    unfolding descriptor_to_flags_def Let_def pte_tests attr_index_bits
    by (simp add: b bit_attrs_nx [OF assms(2)] mmio_flag_def or.assoc)
  also have "\<dots> = Some (flags AND READ_BACK OR mmio_flag s va)"
    unfolding option.inject
    by (rule bit_word_eqI) (use assms in \<open>auto simp: bit_or_iff bit_and_iff READ_BACK_def split: if_splits\<close>)
  finally show ?thesis .
qed

lemma mapped_leaf:
  assumes "table_addr pa" "bit flags 0" "\<not> bit flags 2"
  shows "leaf_translation s w (page_descriptor pa (attrs_from_flags flags)) =
    Some (pa + (w AND 0xfff), flags AND READ_BACK OR mmio_flag s w)"
proof -
  have "page_descriptor pa (attrs_from_flags flags) AND PTE_ADDR_MASK = pa"
    by (rule page_descriptor_addr [OF assms(1)]) (use bit_attrs_nx [OF assms(3)] in \<open>auto split: if_splits\<close>)
  then show ?thesis
    using flags_read_back [OF assms(2,3)] by (simp add: leaf_translation_def pte_tests bit_page_descriptor)
qed

lemma map_page_spec:
  assumes "vm_inv img s" "2 \<le> card (vm_free s)" "page_aligned va" "l0_index va = 0" "table_addr pa"
    and "flags AND XAIOS_VMM_PRESENT \<noteq> 0" "flags AND XAIOS_VMM_EXECUTABLE = 0"
  obtains s' where "vmm_map_page img s va pa flags = Some (XAIOS_OK, s')" "vm_inv img s'" "same_mmio s s'"
    "vm_free s' \<subseteq> vm_free s" "card (vm_free s) \<le> card (vm_free s') + 2"
    "\<And>w. vmm_translate img s' w =
       (if same_page va w then Some (pa + (w AND 0xfff), flags AND READ_BACK OR mmio_flag s w)
        else vmm_translate img s w)"
    "keeps_data img s s'"
proof -
  let ?v = "page_descriptor pa (attrs_from_flags flags)"
  obtain l3 s1 where e: "ensure_l3_table img s va = Some (l3, s1)"
      "vm_inv img (set_entry s1 l3 (l3_index va) ?v)" "same_mmio s (set_entry s1 l3 (l3_index va) ?v)"
      "vm_free (set_entry s1 l3 (l3_index va) ?v) \<subseteq> vm_free s"
      "card (vm_free s) \<le> card (vm_free (set_entry s1 l3 (l3_index va) ?v)) + 2"
      "\<And>w. vmm_translate img (set_entry s1 l3 (l3_index va) ?v) w =
        (if same_page va w then leaf_translation s w ?v else vmm_translate img s w)"
      "keeps_data img s (set_entry s1 l3 (l3_index va) ?v)"
    using update_leaf_spec [OF assms(1,4,2)] by metis
  have "leaf_translation s w ?v = Some (pa + (w AND 0xfff), flags AND READ_BACK OR mmio_flag s w)" for w
    by (rule mapped_leaf) (use assms in \<open>simp_all add: flag_tests\<close>)
  moreover have "vmm_map_page img s va pa flags = Some (XAIOS_OK, set_entry s1 l3 (l3_index va) ?v)"
    using assms e(1) by (simp add: vmm_map_page_def page_mask_num)
  ultimately show ?thesis using that e(2-7) by auto
qed


text \<open>
  C37: Unmapping removes exactly one page: its addresses no longer translate, every other address
  translates as before and the tables stay a tree.
\<close>

theorem unmap_page_removes_one_page:
  assumes "vm_inv img s" "2 \<le> card (vm_free s)" "page_aligned va" "l0_index va = 0"
  shows "\<exists>s'. vmm_unmap_page img s va = Some (XAIOS_OK, s') \<and> vm_inv img s' \<and>
    (\<forall>w. vmm_translate img s' w = (if same_page va w then None else vmm_translate img s w))"
proof -
  obtain l3 s1 where e: "ensure_l3_table img s va = Some (l3, s1)"
      "vm_inv img (set_entry s1 l3 (l3_index va) 0)"
      "\<And>w. vmm_translate img (set_entry s1 l3 (l3_index va) 0) w =
        (if same_page va w then leaf_translation s w 0 else vmm_translate img s w)"
    using update_leaf_spec [OF assms(1,4,2)] by metis
  have "vmm_unmap_page img s va = Some (XAIOS_OK, set_entry s1 l3 (l3_index va) 0)"
    using assms e(1) by (simp add: vmm_unmap_page_def page_mask_num)
  then show ?thesis using e(2,3) by (auto simp: leaf_translation_def)
qed

section \<open>Executable mappings\<close>

lemma attrs_executable:
  assumes "bit flags 2"
  shows "attrs_from_flags flags = 0"
proof -
  have hi: "bit (push_bit k (NOT 1 :: u64)) n \<longleftrightarrow> k < n \<and> n < 64" for k n
    by (auto simp: bit_push_bit_iff bit_not_iff bit_1_iff)
  have "\<not> bit (attrs_from_flags flags) n" for n
    unfolding attrs_from_flags_def Let_def flag_tests using assms
    by (auto simp: bit_or_iff bit_and_iff bit_normal_device hi split: if_splits)
  then show ?thesis by (simp add: word_0_iff)
qed

lemma executable_leaf:
  assumes "table_addr pa" "bit flags 2"
  shows "leaf_translation s w (page_descriptor pa (attrs_from_flags flags)) =
    Some (pa + (w AND 0xfff), XAIOS_VMM_PRESENT OR mmio_flag s w OR XAIOS_VMM_WRITABLE OR XAIOS_VMM_EXECUTABLE)"
proof -
  have "page_descriptor pa 0 AND PTE_ADDR_MASK = pa"
    by (rule page_descriptor_addr [OF assms(1)]) simp
  then show ?thesis
    unfolding attrs_executable [OF assms(2)] leaf_translation_def descriptor_to_flags_def Let_def pte_tests attr_index_bits
    by (simp add: bit_page_descriptor mmio_flag_def or.assoc)
qed

text \<open>
  C38: Every executable mapping loses all its other attributes. The macros \<^verbatim>\<open>PTE_UXN\<close> and \<^verbatim>\<open>PTE_PXN\<close> are
  not parenthesised, so \<^verbatim>\<open>attrs &= ~PTE_UXN\<close> keeps only the bits above 54. Whatever else was asked for,
  a page mapped executable translates as writable and executable for the kernel and not as a user page:
  read-only text is writable, and user text is not accessible to users.
\<close>

theorem executable_mapping_is_kernel_rwx:
  assumes "vm_inv img s" "2 \<le> card (vm_free s)" "page_aligned va" "l0_index va = 0" "table_addr pa"
    and "flags AND XAIOS_VMM_PRESENT \<noteq> 0" "flags AND XAIOS_VMM_EXECUTABLE \<noteq> 0"
  shows "\<exists>s'. vmm_map_page img s va pa flags = Some (XAIOS_OK, s') \<and>
    vmm_translate img s' va =
      Some (pa, XAIOS_VMM_PRESENT OR mmio_flag s va OR XAIOS_VMM_WRITABLE OR XAIOS_VMM_EXECUTABLE)"
proof -
  let ?v = "page_descriptor pa (attrs_from_flags flags)"
  obtain l3 s1 where e: "ensure_l3_table img s va = Some (l3, s1)"
      "\<And>w. vmm_translate img (set_entry s1 l3 (l3_index va) ?v) w =
        (if same_page va w then leaf_translation s w ?v else vmm_translate img s w)"
    using update_leaf_spec [OF assms(1,4,2)] by metis
  have "leaf_translation s va ?v =
      Some (pa + (va AND 0xfff), XAIOS_VMM_PRESENT OR mmio_flag s va OR XAIOS_VMM_WRITABLE OR XAIOS_VMM_EXECUTABLE)"
    by (rule executable_leaf) (use assms in \<open>simp_all add: flag_tests\<close>)
  moreover have "vmm_map_page img s va pa flags = Some (XAIOS_OK, set_entry s1 l3 (l3_index va) ?v)"
    using assms e(1) by (simp add: vmm_map_page_def page_mask_num)
  ultimately show ?thesis using e(2) [of va] assms(3) by (auto simp: same_page_def)
qed

section \<open>Pages by number\<close>

lemma unat_va_index:
  "unat (l1_index va) = unat va div 1073741824 mod 512" "unat (l2_index va) = unat va div 2097152 mod 512"
  "unat (l3_index va) = unat va div 4096 mod 512" "unat (l0_index va) = unat va div 549755813888 mod 512"
  by (simp_all add: unat_index unat_drop_bit_eq) (simp_all add: drop_bit_eq_div)

lemma digits_eq: "(m :: nat) mod 512 = n mod 512 \<Longrightarrow> m div 512 = n div 512 \<Longrightarrow> m = n"
  by (metis div_mult_mod_eq)

lemma same_page_iff:
  assumes "unat v < 2 ^ 48" "unat w < 2 ^ 48"
  shows "same_page v w \<longleftrightarrow> unat v div 4096 = unat w div 4096"
proof -
  define m n where "m = unat v div 4096" and "n = unat w div 4096"
  have d: "unat x div 2097152 = unat x div 4096 div 512" "unat x div 1073741824 = unat x div 4096 div 512 div 512"
    "unat x div 549755813888 = unat x div 4096 div 512 div 512 div 512" for x :: u64
    by (simp_all add: div_mult2_eq [symmetric])
  have b: "m div 512 div 512 div 512 < 512" "n div 512 div 512 div 512 < 512"
    using assms by (simp_all add: m_def n_def div_mult2_eq [symmetric] div_less_iff_less_mult)
  have "same_page v w \<longleftrightarrow> m div 512 div 512 div 512 mod 512 = n div 512 div 512 div 512 mod 512 \<and>
      m div 512 div 512 mod 512 = n div 512 div 512 mod 512 \<and> m div 512 mod 512 = n div 512 mod 512 \<and> m mod 512 = n mod 512"
    unfolding same_page_def word_eq_unat unat_va_index d m_def n_def ..
  also have "\<dots> \<longleftrightarrow> m = n" using b digits_eq by (metis mod_less)
  finally show ?thesis by (simp add: m_def n_def)
qed

lemma vm_inv_alloc:
  assumes inv: "vm_inv img s" and a: "pmm_alloc_page (pm_numa (vm_pmm s)) = Some (p, n)" "p \<noteq> 0"
    and s': "s' = s\<lparr>vm_pmm := (vm_pmm s)\<lparr>pm_numa := n\<rparr>\<rparr>"
  shows "vm_inv img s'" "vm_free s' = vm_free s - {p}" "p \<in> vm_free s" "table_addr p" "same_mmio s s'"
    "vmm_translate img s' w = vmm_translate img s w"
proof -
  obtain p' n' where al: "pmm_alloc_page (pm_numa (vm_pmm s)) = Some (p', n')" "numa_inv n'" "p' = 0 \<longleftrightarrow> vm_free s = {}"
      "p' = 0 \<or> p' \<in> vm_free s" "free_phys n' = vm_free s - {p'}" "managed_phys n' = vm_managed s"
    by (rule pmm.alloc_total [OF vm_invD(1) [OF inv]])
  then have n: "numa_inv n" "p \<in> vm_free s" "free_phys n = vm_free s - {p}" "managed_phys n = vm_managed s" using a by auto
  have e: "entry s' = entry s" by (simp add: s' entry_def fun_eq_iff)
  have l2: "l2_of img s' = l2_of img s" by (simp add: l2_of_def fun_eq_iff e)
  have t: "table_of img s' = table_of img s"
  proof
    show "table_of img s' r = table_of img s r" for r by (cases r) (simp_all add: l2 e split: option.split)
  qed
  show "vm_free s' = vm_free s - {p}" "p \<in> vm_free s" "same_mmio s s'" using n by (simp_all add: s')
  show "table_addr p" using n(2) vm_invD(1,2) [OF inv] pmm.free_managed by blast
  show "vm_inv img s'"
    unfolding vm_inv_def t l2 e using vm_invD [OF inv] n by (auto simp: s')
  have "descriptor_to_flags s' w = descriptor_to_flags s w" by (rule ext, rule flags_cong) (auto simp: s')
  then show "vmm_translate img s' w = vmm_translate img s w" by (simp add: vmm_translate_def e Let_def)
qed

section \<open>User pages\<close>

lemma l2_index_8:
  assumes "l2_index va = 8" "0x41000000 \<le> va" "va < 0x50000000"
  shows "va < 0x41200000"
proof -
  define q where "q = unat va div 2097152"
  have "unat (l2_index va) = 8" using assms(1) by simp
  then have "drop_bit 21 (unat va) mod 512 = 8" by (simp only: unat_index unat_drop_bit_eq)
  then have 8: "q mod 512 = 8" by (simp add: drop_bit_eq_div q_def)
  have r: "0x41000000 \<le> unat va" "unat va < 0x50000000"
    using assms(2,3) by (simp_all add: word_le_nat_alt word_less_nat_alt)
  then have q: "520 \<le> q" "q < 640" unfolding q_def by (simp_all add: less_eq_div_iff_mult_less_eq div_less_iff_less_mult)
  then have "q mod 512 = q - 512" by (simp add: le_mod_geq)
  then have "q = 520" using 8 q by simp
  then have "unat va < 0x41200000" unfolding q_def by simp
  then show ?thesis by (simp add: word_less_nat_alt)
qed

text \<open>
  No page above the first 2 MiB of the user window can be mapped into a process. The level-2 index
  check admits one level-2 entry only, so every other address is rejected, the user stack below
  \<^verbatim>\<open>XAIOS_USER_STACK_TOP\<close> included, and the second table of a process, meant for the stack, is never written.
\<close>

theorem user_pages_in_first_block_only:
  assumes "0x41200000 \<le> va"
  shows "vmm_map_user_page img s va pa flags l3_tables l3_count = Some (XAIOS_ERR_INVALID, s)"
proof -
  have "l2_index va = 8 \<Longrightarrow> 0x41000000 \<le> va \<Longrightarrow> \<not> va < 0x50000000"
    using l2_index_8 [of va] assms by (auto simp: not_less [symmetric])
  then show ?thesis
    by (auto simp: vmm_map_user_page_def USER_L2_INDEX_def XAIOS_USER_BASE_def XAIOS_USER_LIMIT_def not_le not_less)
qed

lemma user_pages_in_first_block_only_witness:
  "(0x41200000 :: u64) \<le> 0x4efff000 \<and>
   (\<forall>img s. vmm_map_user_page img s 0x4efff000 0x100000 19 [0x1000, 0x2000] 2 = Some (XAIOS_ERR_INVALID, s))"
proof -
  have "(0x41200000 :: u64) \<le> 0x4efff000" by simp
  then show ?thesis using user_pages_in_first_block_only by blast
qed

section \<open>User buffers\<close>

definition user_access :: "kernel_image \<Rightarrow> vm_state \<Rightarrow> u32 \<Rightarrow> u64 \<Rightarrow> bool" where
  "user_access img s required va \<longleftrightarrow>
     (\<exists>pa fl. vmm_translate img s va = Some (pa, fl) \<and> fl AND XAIOS_VMM_USER \<noteq> 0 \<and> fl AND required = required)"

lemma drop_page: "12 \<le> k \<Longrightarrow> drop_bit k (align_down w PAGE_SIZE) = drop_bit k w"
  unfolding align_down_def page_mask
  by (rule bit_word_eqI) (auto simp: bit_drop_bit_eq bit_and_iff bit_not_iff bit_mask_iff dest: bit_imp_le_length)

lemma aligned_compare:
  assumes "page_aligned m"
  shows "m \<le> align_down w PAGE_SIZE \<longleftrightarrow> m \<le> w" "align_down w PAGE_SIZE < m \<longleftrightarrow> w < m"
proof -
  obtain k where "unat m = 4096 * k" using assms unfolding page_aligned_unat dvd_def by blast
  then show "m \<le> align_down w PAGE_SIZE \<longleftrightarrow> m \<le> w"
    unfolding word_le_nat_alt unat_align_down
    by (simp add: mult.commute less_eq_div_iff_mult_less_eq [symmetric])
  then show "align_down w PAGE_SIZE < m \<longleftrightarrow> w < m" by (simp add: not_le [symmetric])
qed

lemma flags_page:
  assumes "page_aligned (g_mmio_start s)" "page_aligned (g_mmio_end s)"
  shows "descriptor_to_flags s (align_down w PAGE_SIZE) d = descriptor_to_flags s w d"
  unfolding descriptor_to_flags_def aligned_compare [OF assms(1)] aligned_compare [OF assms(2)] ..

lemma access_page:
  assumes "page_aligned (g_mmio_start s)" "page_aligned (g_mmio_end s)"
  shows "user_access img s required (align_down w PAGE_SIZE) = user_access img s required w"
proof -
  have "map_option snd (vmm_translate img s (align_down w PAGE_SIZE)) = map_option snd (vmm_translate img s w)"
    unfolding vmm_translate_def Let_def flags_page [OF assms] by (simp add: drop_page option.map_comp comp_def)
  moreover have "user_access img s required v \<longleftrightarrow>
      (\<exists>fl. map_option snd (vmm_translate img s v) = Some fl \<and> fl AND XAIOS_VMM_USER \<noteq> 0 \<and> fl AND required = required)" for v
    by (auto simp: user_access_def)
  ultimately show ?thesis by (simp only:)
qed

lemma buffer_pages_spec:
  assumes "b * 4096 < 2 ^ 32" "a \<le> b"
  shows "buffer_pages img s required (of_nat (b * 4096)) (of_nat (a * 4096)) =
    Some (if \<forall>c. a \<le> c \<longrightarrow> c < b \<longrightarrow> user_access img s required (of_nat (c * 4096)) then XAIOS_OK else XAIOS_ERR_INVALID)"
  using assms(2)
proof (induction "b - a" arbitrary: a)
  case 0
  then show ?case by (subst buffer_pages.simps) simp
next
  case (Suc n)
  have u: "unat (of_nat (c * 4096) :: u64) = c * 4096" if "c \<le> b" for c
    by (rule unat_of_nat_small) (use that assms(1) in simp)
  have lt: "(of_nat (a * 4096) :: u64) < of_nat (b * 4096)"
    unfolding word_less_nat_alt using u [of a] u [of b] Suc by simp
  have step: "of_nat (a * 4096) + PAGE_SIZE = (of_nat (Suc a * 4096) :: u64)" by (simp add: PAGE_SIZE_def)
  have all: "(\<forall>c. a \<le> c \<longrightarrow> c < b \<longrightarrow> P c) \<longleftrightarrow> P a \<and> (\<forall>c. Suc a \<le> c \<longrightarrow> c < b \<longrightarrow> P c)" for P
    using Suc.hyps(2) by (metis Suc_leD Suc_leI le_eq_less_or_eq zero_less_Suc zero_less_diff)
  have ih: "buffer_pages img s required (of_nat (b * 4096)) (of_nat (Suc a * 4096)) =
    Some (if \<forall>c. Suc a \<le> c \<longrightarrow> c < b \<longrightarrow> user_access img s required (of_nat (c * 4096)) then XAIOS_OK else XAIOS_ERR_INVALID)"
    by (rule Suc.hyps(1)) (use Suc in simp_all)
  show ?case
    unfolding all [of "\<lambda>c. user_access img s required (of_nat (c * 4096))"]
    by (subst buffer_pages.simps) (use lt ih in \<open>auto simp: user_access_def step simp del: of_nat_mult split: option.splits\<close>)
qed

lemma page_number: "align_down w PAGE_SIZE = of_nat (unat w div 4096 * 4096)"
  unfolding word_eq_unat unat_align_down
  by (rule unat_of_nat_small [symmetric]) (rule le_less_trans [OF _ unsigned_less [of w]], simp)

lemma page_number_eq: "unat w div 4096 = c \<Longrightarrow> align_down w PAGE_SIZE = of_nat (c * 4096)"
  using page_number [of w] by simp

lemma bytes_by_page:
  assumes page: "\<And>w. P (align_down w PAGE_SIZE) = P w" and e: "e \<le> 2 ^ 63" "unat va < e"
  shows "(\<forall>c. unat va div 4096 \<le> c \<longrightarrow> c < (e + 4095) div 4096 \<longrightarrow> P (of_nat (c * 4096))) \<longleftrightarrow>
    (\<forall>w. va \<le> w \<longrightarrow> unat w < e \<longrightarrow> P w)" (is "?l = ?r")
proof
  assume l: ?l
  show ?r
  proof (intro allI impI)
    fix w assume w: "va \<le> w" "unat w < e"
    have "unat va div 4096 \<le> unat w div 4096" using w(1) by (simp add: word_le_nat_alt div_le_mono)
    moreover have "unat w div 4096 < (e + 4095) div 4096" using w(2) by linarith
    ultimately show "P w" using l page [of w] page_number [of w] by simp
  qed
next
  assume r: ?r
  show ?l
  proof (intro allI impI)
    fix c assume c: "unat va div 4096 \<le> c" "c < (e + 4095) div 4096"
    have cb: "c * 4096 < e" using c(2) by linarith
    define m where "m = max (unat va) (c * 4096)"
    have m: "m < e" "unat va \<le> m" "m div 4096 = c" using cb e(2) c(1) by (auto simp: m_def max_def)
    have w: "unat (of_nat m :: u64) = m" by (rule unat_of_nat_small) (use m(1) e(1) in simp)
    then have "P (of_nat m)" using r m by (simp add: word_le_nat_alt)
    then show "P (of_nat (c * 4096))" using page [of "of_nat m"] page_number_eq [of "of_nat m" c] w m(3) by simp
  qed
qed

lemma buffer_bounds:
  fixes va sz :: u64
  assumes "unat va + unat sz \<le> 0x50000000"
  shows "unat (va + sz) = unat va + unat sz"
    and "align_down va PAGE_SIZE = of_nat (unat va div 4096 * 4096)"
    and "align_up (va + sz) PAGE_SIZE = of_nat ((unat va + unat sz + 4095) div 4096 * 4096)"
proof -
  show u: "unat (va + sz) = unat va + unat sz" using assms by (simp add: unat_word_ariths)
  show "align_down va PAGE_SIZE = of_nat (unat va div 4096 * 4096)" by (rule page_number)
  have "unat (align_up (va + sz) PAGE_SIZE) = (unat va + unat sz + 4095) div 4096 * 4096"
    using assms u by (subst unat_align_up) simp_all
  moreover have "unat (of_nat ((unat va + unat sz + 4095) div 4096 * 4096) :: u64) = (unat va + unat sz + 4095) div 4096 * 4096"
    by (rule unat_of_nat_small) (use assms in simp)
  ultimately show "align_up (va + sz) PAGE_SIZE = of_nat ((unat va + unat sz + 4095) div 4096 * 4096)"
    unfolding word_eq_unat by simp
qed

lemma buffer_wrap:
  fixes va sz :: u64
  assumes "\<not> unat va + unat sz \<le> 0x50000000"
  shows "va + sz < va \<or> 0x50000000 < va + sz"
proof (cases "unat va + unat sz < 2 ^ 64")
  case True
  then have "unat (va + sz) = unat va + unat sz" by (simp add: unat_word_ariths)
  then show ?thesis using assms by (simp add: word_less_nat_alt)
next
  case False
  have "unat va < 2 ^ 64" "unat sz < 2 ^ 64" using unsigned_less [of va] unsigned_less [of sz] by simp_all
  then have "unat (va + sz) = unat va + unat sz - 2 ^ 64"
    using False by (simp add: unat_word_ariths mod_if)
  then have "unat (va + sz) < unat va" using \<open>unat sz < 2 ^ 64\<close> False by linarith
  then show ?thesis by (simp add: word_less_nat_alt)
qed

text \<open>
  C6: The validation of a user buffer is sound and complete, and its page loop ends. The kernel accepts
  a buffer exactly when it is not empty, lies in the user window without wrapping, and every single byte of
  it translates to a user page that has all the required flags.
\<close>

theorem validate_user_buffer_exact:
  assumes "page_aligned (g_mmio_start s)" "page_aligned (g_mmio_end s)"
  shows "vmm_validate_user_buffer img s va sz required = Some
    (if sz \<noteq> 0 \<and> XAIOS_USER_BASE \<le> va \<and> unat va + unat sz \<le> unat XAIOS_USER_LIMIT \<and>
        (\<forall>w. va \<le> w \<longrightarrow> unat w < unat va + unat sz \<longrightarrow> user_access img s required w)
     then XAIOS_OK else XAIOS_ERR_INVALID)"
proof (cases "sz \<noteq> 0 \<and> XAIOS_USER_BASE \<le> va \<and> unat va + unat sz \<le> 0x50000000")
  case False
  then have "sz = 0 \<or> va < XAIOS_USER_BASE \<or> va + sz < va \<or> 0x50000000 < va + sz"
    using buffer_wrap [of va sz] by (auto simp: not_le)
  then show ?thesis using False by (auto simp: vmm_validate_user_buffer_def XAIOS_USER_LIMIT_def)
next
  case True
  let ?a = "unat va div 4096" and ?b = "(unat va + unat sz + 4095) div 4096"
  have lim: "unat va + unat sz \<le> 0x50000000" using True by simp
  note bd = buffer_bounds [OF lim]
  have sz: "0 < unat sz" using True by (simp add: unat_gt_0)
  have nw: "\<not> (sz = 0 \<or> va < XAIOS_USER_BASE \<or> va + sz < va \<or> XAIOS_USER_LIMIT < va + sz)"
    using True bd(1) by (simp add: word_less_nat_alt XAIOS_USER_LIMIT_def word_le_nat_alt)
  have "vmm_validate_user_buffer img s va sz required = buffer_pages img s required (of_nat (?b * 4096)) (of_nat (?a * 4096))"
    unfolding vmm_validate_user_buffer_def bd(2,3) by (rule if_not_P [OF nw])
  also have "\<dots> = Some (if \<forall>c. ?a \<le> c \<longrightarrow> c < ?b \<longrightarrow> user_access img s required (of_nat (c * 4096))
      then XAIOS_OK else XAIOS_ERR_INVALID)"
  proof (rule buffer_pages_spec)
    have "(unat va + unat sz + 4095) div 4096 * 4096 \<le> unat va + unat sz + 4095" by simp
    then show "?b * 4096 < 2 ^ 32" using lim by simp
  qed (simp add: div_le_mono)
  also have "(\<forall>c. ?a \<le> c \<longrightarrow> c < ?b \<longrightarrow> user_access img s required (of_nat (c * 4096))) \<longleftrightarrow>
      (\<forall>w. va \<le> w \<longrightarrow> unat w < unat va + unat sz \<longrightarrow> user_access img s required w)"
    by (rule bytes_by_page, rule access_page [OF assms]) (use True sz in simp_all)
  finally show ?thesis using True by (simp add: XAIOS_USER_LIMIT_def)
qed

section \<open>A concrete machine\<close>

text \<open>A node with 64 free pages at 1 MiB, and empty tables at \<^verbatim>\<open>0x2000\<close> and \<^verbatim>\<open>0x3000\<close>.\<close>

definition pool_node :: xaios_numa_node where
  "pool_node = \<lparr>nn_node_id = 0, nn_online = 1, nn_phys_start = 0x100000, nn_phys_end = 0x140000,
     nn_total_pages = 64, nn_free_count = 64, nn_cpu_mask = 1, nn_alloc_hint = 0,
     nn_bitmap = (\<lambda>w. if w = 0 then - 1 else 0)\<rparr>"

definition pool_numa :: numa_state where
  "pool_numa = \<lparr>g_numa_nodes = replicate 8 pool_node, g_numa_node_count = 1\<rparr>"

definition demo_image :: kernel_image where
  "demo_image = \<lparr>im_text_start = 0, im_text_end = 0, im_rodata_start = 0, im_rodata_end = 0, im_data_start = 0,
     im_data_end = 0, im_bss_start = 0, im_bss_end = 0, im_user_text_start = 0, im_user_text_end = 0,
     im_user_rodata_start = 0, im_user_rodata_end = 0, im_user_stack_start = 0, im_user_stack_end = 0,
     g_l0_table = 0x2000, g_l1_table = 0x3000, g_l2_tables = 0x4000, g_kernel_l3_tables = 0x8000\<rparr>"

definition demo_vm :: vm_state where
  "demo_vm = \<lparr>vm_pmm = demo_pmm\<lparr>pm_numa := pool_numa, pm_mem := (\<lambda>a. if a = 0x2000 then table_descriptor 0x3000 else 0)\<rparr>,
     g_mmio_start = 0x9000000, g_mmio_end = 0x9200000\<rparr>"

lemma pool_node_sets: "free_pages pool_node = {..<64}" "node_pages pool_node = 64"
proof -
  show "free_pages pool_node = {..<64}"
    by (auto simp: free_pages_def pool_node_def div_eq_0_iff split: if_splits)
qed (simp add: node_pages_def pool_node_def)

lemma pool_node_inv: "node_inv pool_node"
proof -
  have "free_pages pool_node \<subseteq> {..<64}" "unat (nn_free_count pool_node) = card (free_pages pool_node)"
    unfolding pool_node_sets by (auto simp: pool_node_def)
  then show ?thesis by (simp add: node_inv_def pool_node_sets) (simp add: pool_node_def)
qed

lemma pool_numa_inv: "numa_inv pool_numa"
  by (simp add: numa_inv_def pool_numa_def pool_node_inv)

lemma pool_numa_sets: "free_phys pool_numa = managed_phys pool_numa" "card (free_phys pool_numa) = 64"
  "a \<in> managed_phys pool_numa \<Longrightarrow> 4096 dvd unat a \<and> 0x100000 \<le> unat a \<and> unat a < 0x140000"
proof -
  have f: "free_phys pool_numa = node_free_set pool_node" "managed_phys pool_numa = node_managed pool_node"
    by (simp_all add: free_phys_def managed_phys_def pool_numa_def lessThan_Suc)
  show "free_phys pool_numa = managed_phys pool_numa"
    unfolding f by (simp add: node_free_set_def node_managed_def pool_node_sets)
  show "card (free_phys pool_numa) = 64"
    unfolding f card_node_free [OF pool_node_inv] by (simp add: pool_node_def)
  assume "a \<in> managed_phys pool_numa"
  then obtain p where p: "p < 64" "a = page_addr pool_node p" unfolding f by (auto simp: node_managed_def pool_node_sets)
  then have "unat a = 0x100000 + p * 4096"
    using page_addr_unat(1) [OF pool_node_inv, of p] by (simp add: pool_node_sets) (simp add: pool_node_def)
  then show "4096 dvd unat a \<and> 0x100000 \<le> unat a \<and> unat a < 0x140000"
    using p(1) by (simp add: dvd_add)
qed

lemma demo_vm_fields [simp]:
  "pm_numa (vm_pmm demo_vm) = pool_numa" "g_mmio_start demo_vm = 0x9000000" "g_mmio_end demo_vm = 0x9200000"
  "g_l0_table demo_image = 0x2000" "g_l1_table demo_image = 0x3000"
  by (simp_all add: demo_vm_def demo_image_def)

lemma demo_entry: "page_aligned t \<Longrightarrow> j < 512 \<Longrightarrow> entry demo_vm t j = (if t = 0x2000 \<and> j = 0 then table_descriptor 0x3000 else 0)"
  using entry_address_inj [of t "0x2000" j 0] by (simp add: entry_def demo_vm_def)

lemma demo_tables: "table_of demo_image demo_vm r = (if r = L1_Table then Some 0x3000 else None)"
  by (cases r) (auto simp: l2_of_def demo_entry is_table_bits)

lemma demo_vm_inv: "vm_inv demo_image demo_vm"
proof -
  have l2: "l2_of demo_image demo_vm i = None" for i using demo_tables [of "L2_Table i"] by simp
  have m: "table_addr a" "a \<noteq> 0x2000" "a \<noteq> 0x3000" if "a \<in> managed_phys pool_numa" for a
  proof -
    have "unat a < 0x140000" "0x100000 \<le> unat a" "4096 dvd unat a" using pool_numa_sets(3) [OF that] by auto
    then show "table_addr a" "a \<noteq> 0x2000" "a \<noteq> 0x3000"
      unfolding table_addr_def page_aligned_unat by (auto simp: word_less_nat_alt)
  qed
  have t: "table_addr 0x2000" "table_addr 0x3000" by (simp_all add: table_addr_def)
  have i0: "0 < i \<Longrightarrow> i < 512 \<Longrightarrow> \<not> is_table (entry demo_vm 0x2000 i)" for i by (auto simp: demo_entry is_table_bits)
  have e0: "entry demo_vm 0x2000 0 = table_descriptor 0x3000" by (simp add: demo_entry)
  show ?thesis
    unfolding vm_inv_def demo_tables l2 demo_vm_fields
    using pool_numa_inv m t i0 e0 pool_numa_sets(1) by (auto split: if_splits)
qed


theorem unmap_page_removes_one_page_witness:
  "\<exists>s'. vmm_unmap_page demo_image demo_vm 0x41000000 = Some (XAIOS_OK, s') \<and>
     vmm_translate demo_image s' 0x41000004 = None \<and> vm_inv demo_image s'"
proof -
  have a: "2 \<le> card (vm_free demo_vm)" using pool_numa_sets(2) by simp
  have b: "page_aligned 0x41000000" "l0_index 0x41000000 = 0" "same_page 0x41000000 0x41000004"
    by (simp_all add: same_page_def drop_bit_eq_div)
  then show ?thesis using unmap_page_removes_one_page [OF demo_vm_inv a b(1,2)] by auto
qed

theorem executable_mapping_is_kernel_rwx_witness:
  "\<exists>s'. vmm_map_page demo_image demo_vm 0x41000000 0x180000 21 = Some (XAIOS_OK, s') \<and>
     vmm_translate demo_image s' 0x41000000 = Some (0x180000, 7)"
proof -
  have f: "2 \<le> card (vm_free demo_vm)" using pool_numa_sets(2) by simp
  have a: "page_aligned 0x41000000" "l0_index 0x41000000 = 0" "table_addr 0x180000"
    "(21 :: u32) AND XAIOS_VMM_PRESENT \<noteq> 0" "(21 :: u32) AND XAIOS_VMM_EXECUTABLE \<noteq> 0"
    by (simp_all add: table_addr_def XAIOS_VMM_PRESENT_def XAIOS_VMM_EXECUTABLE_def drop_bit_eq_div)
  have "XAIOS_VMM_PRESENT OR mmio_flag demo_vm 0x41000000 OR XAIOS_VMM_WRITABLE OR XAIOS_VMM_EXECUTABLE = 7"
    by (simp add: mmio_flag_def XAIOS_VMM_PRESENT_def XAIOS_VMM_WRITABLE_def XAIOS_VMM_EXECUTABLE_def)
  then show ?thesis using executable_mapping_is_kernel_rwx [OF demo_vm_inv f a] by simp
qed

theorem validate_user_buffer_exact_witness:
  "vmm_validate_user_buffer demo_image demo_vm 0x41000ff8 16 XAIOS_VMM_WRITABLE = Some XAIOS_ERR_INVALID"
proof -
  have a: "page_aligned (g_mmio_start demo_vm)" "page_aligned (g_mmio_end demo_vm)" by simp_all
  have "vmm_translate demo_image demo_vm 0x41000ff8 = None"
    by (simp add: vmm_translate_def demo_entry is_table_bits drop_bit_eq_div bit_table_descriptor table_addr_def)
  then have "\<not> user_access demo_image demo_vm XAIOS_VMM_WRITABLE 0x41000ff8" by (simp add: user_access_def)
  moreover have "(0x41000ff8 :: u64) \<le> 0x41000ff8" "unat (0x41000ff8 :: u64) < unat (0x41000ff8 :: u64) + unat (16 :: u64)" by simp_all
  ultimately have "\<not> (\<forall>w. 0x41000ff8 \<le> w \<longrightarrow> unat w < unat (0x41000ff8 :: u64) + unat (16 :: u64) \<longrightarrow>
      user_access demo_image demo_vm XAIOS_VMM_WRITABLE w)" by blast
  then show ?thesis using validate_user_buffer_exact [OF a, of demo_image "0x41000ff8" 16 XAIOS_VMM_WRITABLE] by auto
qed

end
