(* ===== verification/Vmm_Boot.thy ===== *)
theory Vmm_Boot
  imports Address_Space
begin

text \<open>
  The tables \<^verbatim>\<open>vmm_init\<close> of \<^verbatim>\<open>mmu.c\<close> builds: the two mapping loops as folds over the 2 MiB blocks, the
  memory they leave behind, and the address space that results, an identity map of the first 4 GiB.
\<close>

section \<open>The image\<close>

text \<open>The 22 static tables by number: level 0, level 1, the four level-2 and the sixteen level-3 tables.\<close>

definition static_table :: "kernel_image \<Rightarrow> nat \<Rightarrow> u64" where
  "static_table img k =
     (if k = 0 then g_l0_table img else if k = 1 then g_l1_table img
      else if k < 6 then l2_row img (of_nat (k - 2)) else kernel_l3_row img (of_nat (k - 6)))"

definition image_ok :: "kernel_image \<Rightarrow> vm_state \<Rightarrow> bool" where
  "image_ok img s \<longleftrightarrow> numa_inv (pm_numa (vm_pmm s)) \<and> (\<forall>p \<in> vm_managed s. table_addr p) \<and>
     inj_on (static_table img) {..<22} \<and> (\<forall>k<22. table_addr (static_table img k) \<and> static_table img k \<notin> vm_free s)"

lemma static_table_simps:
  "g_l0_table img = static_table img 0" "g_l1_table img = static_table img 1"
  "i < 4 \<Longrightarrow> l2_row img (of_nat i) = static_table img (i + 2)"
  "kernel_l3_row img (of_nat j) = static_table img (j + 6)"
  by (simp_all add: static_table_def)

lemma image_okD:
  assumes "image_ok img s"
  shows "numa_inv (pm_numa (vm_pmm s))" "p \<in> vm_managed s \<Longrightarrow> table_addr p"
    and "k < 22 \<Longrightarrow> table_addr (static_table img k)" "k < 22 \<Longrightarrow> static_table img k \<notin> vm_free s"
    and "k < 22 \<Longrightarrow> k' < 22 \<Longrightarrow> static_table img k = static_table img k' \<longleftrightarrow> k = k'"
proof -
  show "k < 22 \<Longrightarrow> k' < 22 \<Longrightarrow> static_table img k = static_table img k' \<longleftrightarrow> k = k'"
    using assms inj_on_eq_iff [of "static_table img" "{..<22}" k k'] unfolding image_ok_def by simp
qed (use assms in \<open>auto simp: image_ok_def\<close>)

section \<open>Blocks\<close>

definition block_addr :: "nat \<Rightarrow> u64" where
  "block_addr q = of_nat (q * 2097152)"

lemma unat_block_addr: "q \<le> 2048 \<Longrightarrow> unat (block_addr q) = q * 2097152"
  unfolding block_addr_def by (rule unat_of_nat_small) simp

lemma block_addr_Suc: "block_addr q + L2_BLOCK_SIZE = block_addr (Suc q)"
  by (simp add: block_addr_def L2_BLOCK_SIZE_def)

lemma block_index:
  assumes "q < 2048"
  shows "l1_index (block_addr q) = of_nat (q div 512)" "l2_index (block_addr q) = of_nat (q mod 512)"
proof -
  have u: "unat (block_addr q) = q * 2097152" using assms by (simp add: unat_block_addr)
  have "q * 2097152 div 1073741824 = q div 512" by (simp add: div_mult_swap)
  then have "unat (l1_index (block_addr q)) = q div 512" using assms by (simp add: unat_va_index u)
  moreover have "unat (of_nat (q div 512) :: u64) = q div 512" by (rule unat_of_nat_small) (use assms in simp)
  ultimately show "l1_index (block_addr q) = of_nat (q div 512)" by (simp add: word_eq_unat)
  have "unat (l2_index (block_addr q)) = q mod 512" by (simp add: unat_va_index u)
  moreover have "unat (of_nat (q mod 512) :: u64) = q mod 512" by (rule unat_of_nat_small) simp
  ultimately show "l2_index (block_addr q) = of_nat (q mod 512)" by (simp add: word_eq_unat)
qed

definition set_block :: "kernel_image \<Rightarrow> (nat \<Rightarrow> u64) \<Rightarrow> nat \<Rightarrow> vm_state \<Rightarrow> vm_state" where
  "set_block img f q s = set_entry s (l2_row img (of_nat (q div 512))) (of_nat (q mod 512)) (f q)"

lemma identity_loop:
  assumes "n \<le> m" "m \<le> 2048"
  shows "map_identity_l2_blocks img (block_addr n) (block_addr m) attrs s =
    Some (fold (set_block img (\<lambda>q. block_descriptor (block_addr q) attrs)) [n ..< m] s)"
  using assms(1)
proof (induction "m - n" arbitrary: n s)
  case 0
  then show ?case by (subst map_identity_l2_blocks.simps) simp
next
  case (Suc d)
  then have n: "n < m" "n < 2048" using assms(2) by auto
  have lt: "block_addr n < block_addr m" using n assms(2) by (simp add: word_less_nat_alt unat_block_addr)
  have "unat (of_nat (n div 512) :: u64) = n div 512" by (rule unat_of_nat_small) (use n in simp)
  then have l1: "l1_index (block_addr n) < EARLY_L1_TABLES"
    using n by (simp add: block_index EARLY_L1_TABLES_def word_less_nat_alt)
  have "[n ..< m] = n # [Suc n ..< m]" using n by (simp add: upt_conv_Cons)
  moreover have "d = m - Suc n" "Suc n \<le> m" using Suc.hyps(2) n by simp_all
  ultimately show ?case
    using lt l1 n by (subst map_identity_l2_blocks.simps) (simp add: block_addr_Suc Suc.hyps(1) set_block_def block_index)
qed

text \<open>One region of the kernel: its level-3 table is filled, then linked.\<close>

definition kernel_page :: "kernel_image \<Rightarrow> nat \<Rightarrow> u64 \<Rightarrow> u64" where
  "kernel_page img q k = page_descriptor (block_addr q + k * PAGE_SIZE) (kernel_page_attrs img (block_addr q + k * PAGE_SIZE))"

definition set_region :: "kernel_image \<Rightarrow> nat \<Rightarrow> nat \<Rightarrow> vm_state \<Rightarrow> vm_state" where
  "set_region img base q s =
     set_block img (\<lambda>q. table_descriptor (kernel_l3_row img (of_nat (q - base)))) q
       (fill_table s (kernel_l3_row img (of_nat (q - base))) 512 (kernel_page img q))"

lemma kernel_loop:
  assumes "n \<le> m" "m \<le> 2048" "base \<le> n" "m \<le> base + 16"
  shows "kernel_regions img (block_addr n) (block_addr m) (of_nat (n - base)) s =
    Some (fold (set_region img base) [n ..< m] s)"
  using assms(1,3)
proof (induction "m - n" arbitrary: n s)
  case 0
  then show ?case by (subst kernel_regions.simps) simp
next
  case (Suc d)
  then have n: "n < m" "n < 2048" using assms(2) by auto
  have lt: "block_addr n < block_addr m" using n assms(2) by (simp add: word_less_nat_alt unat_block_addr)
  have "unat (of_nat (n - base) :: u64) = n - base" by (rule unat_of_nat_small) (use n in simp)
  then have t: "(of_nat (n - base) :: u64) < EARLY_KERNEL_L3_TABLES"
    using n assms(4) by (simp add: EARLY_KERNEL_L3_TABLES_def word_less_nat_alt)
  have t1: "(of_nat (n - base) :: u64) + 1 = of_nat (Suc n - base)" using Suc.prems(2) by (simp add: Suc_diff_le)
  have d: "d = m - Suc n" "Suc n \<le> m" "base \<le> Suc n" using Suc.hyps(2) n Suc.prems by simp_all
  have "[n ..< m] = n # [Suc n ..< m]" using n by (simp add: upt_conv_Cons)
  then show ?case
    using lt t n by (subst kernel_regions.simps)
      (simp add: block_addr_Suc t1 Suc.hyps(1) [OF d] set_region_def set_block_def block_index Let_def
        kernel_page_def [abs_def] del: of_nat_diff)
qed

section \<open>The memory after the loops\<close>

lemma entry_set_block:
  assumes ok: "image_ok img s0" and q: "q < 2048" and k: "k < 22" and j: "j < 512"
  shows "entry (set_block img f q s) (static_table img k) j =
    (if k = q div 512 + 2 \<and> unat j = q mod 512 then f q else entry s (static_table img k) j)"
proof -
  have d: "q div 512 < 4" using q by simp
  have m: "unat (of_nat (q mod 512) :: u64) = q mod 512" by (rule unat_of_nat_small) simp
  then have b: "(of_nat (q mod 512) :: u64) < 512" by (simp add: word_less_nat_alt)
  have a: "page_aligned (static_table img (q div 512 + 2))" "page_aligned (static_table img k)"
    using image_okD(3) [OF ok] d k by simp_all
  have i: "static_table img k = static_table img (q div 512 + 2) \<longleftrightarrow> k = q div 512 + 2"
    by (rule image_okD(5) [OF ok k]) (use d in simp)
  show ?thesis
    unfolding set_block_def static_table_simps(3) [OF d] entry_set_entry [OF a b j] i
    by (auto simp: word_eq_unat m)
qed

lemma entry_set_blocks:
  assumes ok: "image_ok img s0" and m: "m \<le> 2048" and k: "k < 22" and j: "j < 512"
  shows "entry (fold (set_block img f) [n ..< m] s) (static_table img k) j =
    (if 2 \<le> k \<and> k < 6 \<and> n \<le> (k - 2) * 512 + unat j \<and> (k - 2) * 512 + unat j < m
     then f ((k - 2) * 512 + unat j) else entry s (static_table img k) j)"
  using m
proof (induction m)
  case (Suc m)
  have j': "unat j < 512" using j by (simp add: word_less_nat_alt)
  show ?case
  proof (cases "n \<le> m")
    case True
    have "k = m div 512 + 2 \<and> unat j = m mod 512 \<longleftrightarrow> 2 \<le> k \<and> (k - 2) * 512 + unat j = m"
      using j' by auto
    moreover have "m div 512 < 4" using Suc.prems by simp
    ultimately show ?thesis
      using Suc True entry_set_block [OF ok _ k j, of m f] by (auto simp: less_Suc_eq)
  qed (use Suc in auto)
qed simp

lemma entry_set_region:
  assumes ok: "image_ok img s0" and q: "q < 2048" "base \<le> q" "q < base + 16" and k: "k < 22" and j: "j < 512"
  shows "entry (set_region img base q s) (static_table img k) j =
    (if k = q div 512 + 2 \<and> unat j = q mod 512 then table_descriptor (static_table img (q - base + 6))
     else if k = q - base + 6 then kernel_page img q j else entry s (static_table img k) j)"
proof -
  have b: "q - base + 6 < 22" using q by simp
  have a: "page_aligned (static_table img (q - base + 6))" "page_aligned (static_table img k)"
    using image_okD(3) [OF ok] b k by simp_all
  show ?thesis
    unfolding set_region_def entry_set_block [OF ok q(1) k j] static_table_simps(4) entry_fill_page [OF a j]
      image_okD(5) [OF ok k b] ..
qed

lemma entry_set_regions:
  assumes ok: "image_ok img s0" and m: "m \<le> 2048" "m \<le> base + 16" and k: "k < 22" and j: "j < 512"
  shows "entry (fold (set_region img base) [base ..< m] s) (static_table img k) j =
    (if 2 \<le> k \<and> k < 6 \<and> base \<le> (k - 2) * 512 + unat j \<and> (k - 2) * 512 + unat j < m
     then table_descriptor (static_table img ((k - 2) * 512 + unat j - base + 6))
     else if 6 \<le> k \<and> k - 6 + base < m then kernel_page img (k - 6 + base) j else entry s (static_table img k) j)"
  using m
proof (induction m)
  case (Suc m)
  have j': "unat j < 512" using j by (simp add: word_less_nat_alt)
  show ?case
  proof (cases "base \<le> m")
    case True
    have b: "m < 2048" "m < base + 16" using Suc.prems True by simp_all
    have l2: "k = m div 512 + 2 \<and> unat j = m mod 512 \<longleftrightarrow> 2 \<le> k \<and> k < 6 \<and> (k - 2) * 512 + unat j = m"
      using j' Suc.prems(1) by auto
    have l3: "k = m - base + 6 \<longleftrightarrow> 6 \<le> k \<and> k - 6 + base = m" using True by auto
    have "entry (fold (set_region img base) [base ..< Suc m] s) (static_table img k) j =
        entry (set_region img base m (fold (set_region img base) [base ..< m] s)) (static_table img k) j"
      using True by simp
    also have "\<dots> = (if 2 \<le> k \<and> k < 6 \<and> (k - 2) * 512 + unat j = m then table_descriptor (static_table img (m - base + 6))
     else if 6 \<le> k \<and> k - 6 + base = m then kernel_page img m j
     else entry (fold (set_region img base) [base ..< m] s) (static_table img k) j)"
      unfolding entry_set_region [OF ok b(1) True b(2) k j] l2 l3 ..
    finally show ?thesis using Suc.IH Suc.prems True by (auto simp: less_Suc_eq)
  qed (use Suc in auto)
qed simp

lemma set_block_fields [simp]:
  "pm_numa (vm_pmm (set_block img f q s)) = pm_numa (vm_pmm s)"
  "g_mmio_start (set_block img f q s) = g_mmio_start s" "g_mmio_end (set_block img f q s) = g_mmio_end s"
  by (simp_all add: set_block_def)

lemma set_region_fields [simp]:
  "pm_numa (vm_pmm (set_region img b q s)) = pm_numa (vm_pmm s)"
  "g_mmio_start (set_region img b q s) = g_mmio_start s" "g_mmio_end (set_region img b q s) = g_mmio_end s"
  by (simp_all add: set_region_def)

lemma zero_table_fields [simp]:
  "pm_numa (vm_pmm (zero_table s t n)) = pm_numa (vm_pmm s)"
  "g_mmio_start (zero_table s t n) = g_mmio_start s" "g_mmio_end (zero_table s t n) = g_mmio_end s"
  by (simp_all add: zero_table_def)

lemma fold_fields:
  assumes "\<And>q s. pm_numa (vm_pmm (f q s)) = pm_numa (vm_pmm s) \<and> g_mmio_start (f q s) = g_mmio_start s \<and> g_mmio_end (f q s) = g_mmio_end s"
  shows "pm_numa (vm_pmm (fold f xs s)) = pm_numa (vm_pmm s) \<and>
    g_mmio_start (fold f xs s) = g_mmio_start s \<and> g_mmio_end (fold f xs s) = g_mmio_end s"
  using assms by (induction xs arbitrary: s) simp_all

text \<open>After clearing, every static table is zero; then level 0 and level 1 are linked.\<close>

definition cleared :: "kernel_image \<Rightarrow> vm_state \<Rightarrow> vm_state" where
  "cleared img s = fold (\<lambda>k s. zero_table s (static_table img k) 512) [0 ..< 22] s"

lemma entry_cleared:
  assumes ok: "image_ok img s0" and k: "k < 22" and j: "j < 512"
  shows "entry (cleared img s) (static_table img k) j = 0"
proof -
  have "n \<le> 22 \<Longrightarrow> entry (fold (\<lambda>k s. zero_table s (static_table img k) 512) [0 ..< n] s) (static_table img k) j =
    (if k < n then 0 else entry s (static_table img k) j)" for n
  proof (induction n)
    case (Suc n)
    have a: "page_aligned (static_table img n)" "page_aligned (static_table img k)"
      using image_okD(3) [OF ok] k Suc.prems by simp_all
    have u: "unat (512 :: u64) = 512" by simp
    have n: "n < 22" using Suc.prems by simp
    show ?case
      using Suc unfolding zero_table_def u
      by (simp add: entry_fill_page [OF a j] image_okD(5) [OF ok k n] less_Suc_eq)
  qed simp
  then show ?thesis using k by (simp add: cleared_def)
qed

lemma cleared_eq:
  "cleared img s =
    fold (\<lambda>i s. zero_table s (kernel_l3_row img (of_nat i)) 512) [0 ..< unat EARLY_KERNEL_L3_TABLES]
      (fold (\<lambda>i s. zero_table s (l2_row img (of_nat i)) 512) [0 ..< unat EARLY_L1_TABLES]
         (zero_table (zero_table s (g_l0_table img) 512) (g_l1_table img) 512))"
proof -
  have u: "[0 ..< 22] = [0, 1] @ map (\<lambda>i. i + 2) [0 ..< 4] @ map (\<lambda>i. i + 6) [0 ..< 16]"
    by (simp add: upt_rec)
  have c: "fold (\<lambda>i s. zero_table s (l2_row img (of_nat i)) 512) [0 ..< 4] =
      fold (\<lambda>i s. zero_table s (static_table img (i + 2)) 512) [0 ..< 4]"
    by (rule ext, rule fold_cong) (simp_all add: static_table_simps)
  have e: "unat EARLY_KERNEL_L3_TABLES = 16" "unat EARLY_L1_TABLES = 4"
    by (simp_all add: EARLY_KERNEL_L3_TABLES_def EARLY_L1_TABLES_def)
  show ?thesis
    unfolding cleared_def u e c fold_append fold_map comp_def static_table_simps(1,2,4) by simp
qed

section \<open>The state after building\<close>

definition boot_layout :: "kernel_image \<Rightarrow> nat \<Rightarrow> nat \<Rightarrow> vm_state \<Rightarrow> bool" where
  "boot_layout img ks ke s \<longleftrightarrow> (\<forall>k<22. \<forall>j<512. entry s (static_table img k) j =
     (if k = 0 then if j = 0 then table_descriptor (static_table img 1) else 0
      else if k = 1 then if unat j < 4 then table_descriptor (static_table img (unat j + 2)) else 0
      else if k < 6
      then if ks \<le> (k - 2) * 512 + unat j \<and> (k - 2) * 512 + unat j < ke
           then table_descriptor (static_table img ((k - 2) * 512 + unat j - ks + 6))
           else block_descriptor (block_addr ((k - 2) * 512 + unat j)) normal_rw_nx_attrs
      else if k - 6 + ks < ke then kernel_page img (k - 6 + ks) j else 0))"

lemma align_down_block: "unat v div 2097152 \<le> 2048 \<Longrightarrow> align_down v L2_BLOCK_SIZE = block_addr (unat v div 2097152)"
proof -
  assume le: "unat v div 2097152 \<le> 2048"
  have m: "L2_BLOCK_SIZE - 1 = mask 21" by (simp add: L2_BLOCK_SIZE_def mask_eq_exp_minus_1)
  have "v AND NOT (mask 21) = push_bit 21 (drop_bit 21 v)"
    by (rule bit_word_eqI) (auto simp: bit_and_iff bit_not_iff bit_mask_iff bit_push_bit_iff bit_drop_bit_eq)
  then have "align_down v L2_BLOCK_SIZE = 2097152 * drop_bit 21 v"
    by (simp add: align_down_def m push_bit_eq_mult)
  moreover have "unat (drop_bit 21 v) = unat v div 2097152" by (simp add: unat_drop_bit_eq) (simp add: drop_bit_eq_div)
  ultimately have "unat (align_down v L2_BLOCK_SIZE) = 2097152 * (unat v div 2097152)"
    using le by (simp add: unat_word_ariths)
  then show ?thesis using le by (simp add: word_eq_unat unat_block_addr)
qed

lemma align_up_block:
  assumes "unat v \<le> 2 ^ 32"
  shows "align_up v L2_BLOCK_SIZE = block_addr ((unat v + 2097151) div 2097152)"
proof -
  have u: "unat (v + 2097151) = unat v + 2097151" using assms by (simp add: unat_word_ariths)
  have "align_up v L2_BLOCK_SIZE = align_down (v + 2097151) L2_BLOCK_SIZE"
    by (simp add: align_up_def align_down_def L2_BLOCK_SIZE_def add.commute)
  also have "\<dots> = block_addr (unat (v + 2097151) div 2097152)"
    by (rule align_down_block) (use assms u in simp)
  finally show ?thesis by (simp add: u)
qed

definition boot_ok :: "xaios_boot_info \<Rightarrow> bool" where
  "boot_ok boot \<longleftrightarrow> unat (bi_uart_base boot) + 4096 \<le> 2 ^ 32 \<and>
     bi_kernel_phys_base boot \<le> bi_kernel_phys_end boot \<and> unat (bi_kernel_phys_end boot) \<le> 2 ^ 32 \<and>
     (unat (bi_kernel_phys_end boot) + 2097151) div 2097152 \<le> unat (bi_kernel_phys_base boot) div 2097152 + 16"

definition kernel_first :: "xaios_boot_info \<Rightarrow> nat" where
  "kernel_first boot = unat (bi_kernel_phys_base boot) div 2097152"

definition kernel_last :: "xaios_boot_info \<Rightarrow> nat" where
  "kernel_last boot = (unat (bi_kernel_phys_end boot) + 2097151) div 2097152"

definition uart_first :: "xaios_boot_info \<Rightarrow> nat" where
  "uart_first boot = unat (bi_uart_base boot) div 2097152"

definition uart_last :: "xaios_boot_info \<Rightarrow> nat" where
  "uart_last boot = (unat (bi_uart_base boot) + 4096 + 2097151) div 2097152"

definition linked_l1 :: "kernel_image \<Rightarrow> vm_state \<Rightarrow> vm_state" where
  "linked_l1 img s = fill_table (set_entry (cleared img s) (g_l0_table img) 0 (table_descriptor (g_l1_table img)))
     (g_l1_table img) (unat EARLY_L1_TABLES) (\<lambda>i. table_descriptor (l2_row img i))"

abbreviation identity_block :: "nat \<Rightarrow> u64" where
  "identity_block q \<equiv> block_descriptor (block_addr q) normal_rw_nx_attrs"

definition built :: "kernel_image \<Rightarrow> xaios_boot_info \<Rightarrow> vm_state \<Rightarrow> vm_state" where
  "built img boot s =
     fold (set_region img (kernel_first boot)) [kernel_first boot ..< kernel_last boot]
       (fold (set_block img identity_block) [uart_first boot ..< uart_last boot]
         ((fold (set_block img identity_block) [0 ..< 2048] (linked_l1 img s))
            \<lparr>g_mmio_start := block_addr (uart_first boot), g_mmio_end := block_addr (uart_last boot)\<rparr>))"

lemma boot_okD:
  assumes "boot_ok boot"
  shows "uart_first boot \<le> uart_last boot" "uart_last boot \<le> 2048" "kernel_first boot \<le> kernel_last boot" "kernel_last boot \<le> 2048"
    "kernel_last boot \<le> kernel_first boot + 16" "unat (bi_kernel_phys_end boot) \<le> 2 ^ 32" "uart_first boot \<le> 2048"
    "kernel_first boot \<le> 2048" "unat (bi_uart_base boot + PAGE_SIZE) = unat (bi_uart_base boot) + 4096"
proof -
  have b: "unat (bi_uart_base boot) + 4096 \<le> 4294967296" "unat (bi_kernel_phys_base boot) \<le> unat (bi_kernel_phys_end boot)"
    "unat (bi_kernel_phys_end boot) \<le> 4294967296" "kernel_last boot \<le> kernel_first boot + 16"
    using assms by (simp_all add: boot_ok_def word_le_nat_alt kernel_first_def kernel_last_def)
  show "uart_first boot \<le> uart_last boot" "uart_last boot \<le> 2048" "kernel_first boot \<le> kernel_last boot" "kernel_last boot \<le> 2048"
    "kernel_last boot \<le> kernel_first boot + 16" "unat (bi_kernel_phys_end boot) \<le> 2 ^ 32" "uart_first boot \<le> 2048"
    "kernel_first boot \<le> 2048"
    using b unfolding kernel_first_def kernel_last_def uart_first_def uart_last_def by simp_all
  show "unat (bi_uart_base boot + PAGE_SIZE) = unat (bi_uart_base boot) + 4096"
    using b(1) by (simp add: unat_word_ariths PAGE_SIZE_def)
qed

lemma build_tables_eq:
  assumes boot: "boot_ok boot"
  shows "build_tables img boot s = Some (built img boot s)"
proof -
  note b = boot_okD [OF boot]
  have z: "map_identity_l2_blocks img 0 EARLY_IDENTITY_SIZE normal_rw_nx_attrs s1 =
      Some (fold (set_block img identity_block) [0 ..< 2048] s1)" for s1
    using identity_loop [of 0 2048 img normal_rw_nx_attrs s1] by (simp add: block_addr_def EARLY_IDENTITY_SIZE_def)
  have u: "align_down (bi_uart_base boot) L2_BLOCK_SIZE = block_addr (uart_first boot)"
    "align_up (bi_uart_base boot + PAGE_SIZE) L2_BLOCK_SIZE = block_addr (uart_last boot)"
    using align_down_block [OF b(7) [unfolded uart_first_def]] align_up_block [of "bi_uart_base boot + PAGE_SIZE"] b(9) boot
    by (simp_all add: boot_ok_def uart_first_def uart_last_def)
  have k: "map_kernel_pages img (bi_kernel_phys_base boot) (bi_kernel_phys_end boot) s1 =
      Some (fold (set_region img (kernel_first boot)) [kernel_first boot ..< kernel_last boot] s1)" for s1
    using kernel_loop [OF b(3,4) order_refl b(5), of img s1]
    by (simp add: map_kernel_pages_def align_down_block [OF b(8) [unfolded kernel_first_def]] align_up_block [OF b(6)]
        flip: kernel_first_def kernel_last_def)
  show ?thesis
    unfolding build_tables_def Let_def
    by (simp add: z u k identity_loop [OF b(1,2)] built_def linked_l1_def flip: cleared_eq)
qed

lemma built_fields:
  "pm_numa (vm_pmm (built img boot s)) = pm_numa (vm_pmm s)"
  "g_mmio_start (built img boot s) = block_addr (uart_first boot)" "g_mmio_end (built img boot s) = block_addr (uart_last boot)"
proof -
  have c: "pm_numa (vm_pmm (linked_l1 img s)) = pm_numa (vm_pmm s)"
    using fold_fields [of "\<lambda>k s. zero_table s (static_table img k) 512"] by (simp add: linked_l1_def cleared_def)
  show "pm_numa (vm_pmm (built img boot s)) = pm_numa (vm_pmm s)"
    "g_mmio_start (built img boot s) = block_addr (uart_first boot)" "g_mmio_end (built img boot s) = block_addr (uart_last boot)"
    using fold_fields [of "set_region img (kernel_first boot)"] fold_fields [of "set_block img identity_block"] c
    by (simp_all add: built_def)
qed

lemma entry_linked_l1:
  assumes ok: "image_ok img s0" and k: "k < 22" and j: "j < 512"
  shows "entry (linked_l1 img s) (static_table img k) j =
    (if k = 0 \<and> j = 0 then table_descriptor (static_table img 1)
     else if k = 1 \<and> unat j < 4 then table_descriptor (static_table img (unat j + 2)) else 0)"
proof -
  have a: "page_aligned (static_table img 0)" "page_aligned (static_table img 1)" "page_aligned (static_table img k)"
    using image_okD(3) [OF ok] k by simp_all
  have r: "l2_row img j = static_table img (unat j + 2)" if "unat j < 4"
    using static_table_simps(3) [OF that, of img] by simp
  have e4: "unat EARLY_L1_TABLES = 4" by (simp add: EARLY_L1_TABLES_def)
  show ?thesis
    unfolding linked_l1_def static_table_simps(1,2) e4
    using entry_fill_table [OF a(2,3) j, of 4] entry_set_entry [OF a(1,3) _ j, of 0]
      image_okD(5) [OF ok k, of 0] image_okD(5) [OF ok k, of 1] entry_cleared [OF ok k j] r
    by auto
qed

lemma entry_mmio [simp]: "entry (s\<lparr>g_mmio_start := a, g_mmio_end := b\<rparr>) t j = entry s t j"
  by (simp add: entry_def)

lemma built_layout:
  assumes ok: "image_ok img s" and boot: "boot_ok boot"
  shows "boot_layout img (kernel_first boot) (kernel_last boot) (built img boot s)"
proof -
  note b = boot_okD [OF boot]
  have "entry (built img boot s) (static_table img k) j =
     (if k = 0 then if j = 0 then table_descriptor (static_table img 1) else 0
      else if k = 1 then if unat j < 4 then table_descriptor (static_table img (unat j + 2)) else 0
      else if k < 6
      then if kernel_first boot \<le> (k - 2) * 512 + unat j \<and> (k - 2) * 512 + unat j < kernel_last boot
           then table_descriptor (static_table img ((k - 2) * 512 + unat j - kernel_first boot + 6))
           else block_descriptor (block_addr ((k - 2) * 512 + unat j)) normal_rw_nx_attrs
      else if k - 6 + kernel_first boot < kernel_last boot then kernel_page img (k - 6 + kernel_first boot) j else 0)"
    if k: "k < 22" and j: "j < 512" for k j
  proof -
    have "k < 6 \<Longrightarrow> (k - 2) * 512 + unat j < 2048" using j by (auto simp: word_less_nat_alt)
    then show ?thesis
      unfolding built_def entry_set_regions [OF ok b(4,5) k j] entry_set_blocks [OF ok b(2) k j] entry_mmio
        entry_set_blocks [OF ok order_refl k j] entry_linked_l1 [OF ok k j] by auto
  qed
  then show ?thesis unfolding boot_layout_def by blast
qed

section \<open>The tables of the boot address space\<close>

lemma boot_layoutD:
  assumes "boot_layout img ks ke s"
  shows "j < 512 \<Longrightarrow> entry s (static_table img 0) j = (if j = 0 then table_descriptor (static_table img 1) else 0)"
    and "j < 512 \<Longrightarrow> entry s (static_table img 1) j = (if unat j < 4 then table_descriptor (static_table img (unat j + 2)) else 0)"
    and "j < 512 \<Longrightarrow> n < 4 \<Longrightarrow> entry s (static_table img (n + 2)) j =
      (if ks \<le> n * 512 + unat j \<and> n * 512 + unat j < ke then table_descriptor (static_table img (n * 512 + unat j - ks + 6))
       else identity_block (n * 512 + unat j))"
    and "j < 512 \<Longrightarrow> n < 16 \<Longrightarrow> n + ks < ke \<Longrightarrow> entry s (static_table img (n + 6)) j = kernel_page img (n + ks) j"
  using assms unfolding boot_layout_def by simp_all

lemma not_table [simp]: "\<not> is_table 0" "\<not> is_table (identity_block q)"
  by (simp_all add: is_table_bits bit_block_descriptor bit_normal_device)

lemma block_hole: "identity_block q AND 0x1ff000 = 0"
proof -
  have m: "(0x1ff000 :: u64) = push_bit 12 0x1ff" by (simp add: push_bit_eq_mult)
  have b: "bit (push_bit 12 0x1ff :: u64) n \<Longrightarrow> 12 \<le> n \<and> n < 21" for n
    unfolding bit_push_bit_iff bit_1ff by auto
  show ?thesis
    unfolding m word_and_0_iff bit_block_descriptor bit_normal_device using b by fastforce
qed

lemma layout_l2:
  assumes "boot_layout img ks ke s" "\<forall>k<22. table_addr (static_table img k)"
  shows "l2_of img s i = (if unat i < 4 then Some (static_table img (unat i + 2)) else None)"
proof -
  have "unat i < 4 \<Longrightarrow> i < 512" by (simp add: word_less_nat_alt)
  moreover have "unat i < 4 \<Longrightarrow> table_addr (static_table img (unat i + 2))" using assms(2) by simp
  ultimately show ?thesis
    using boot_layoutD(2) [OF assms(1), of i] by (auto simp: l2_of_def static_table_simps(2) split: if_splits)
qed

lemma layout_l3:
  assumes l: "boot_layout img ks ke s" and t: "\<forall>k<22. table_addr (static_table img k)" and k: "ke \<le> ks + 16"
  shows "table_of img s (L3_Table i j) =
    (if unat i < 4 \<and> j < 512 \<and> ks \<le> unat i * 512 + unat j \<and> unat i * 512 + unat j < ke
     then Some (static_table img (unat i * 512 + unat j - ks + 6)) else None)"
proof (cases "unat i < 4 \<and> j < 512 \<and> ks \<le> unat i * 512 + unat j \<and> unat i * 512 + unat j < ke")
  case True
  then have "table_addr (static_table img (unat i * 512 + unat j - ks + 6))" using k by (intro t [rule_format]) linarith
  then show ?thesis using True boot_layoutD(3) [OF l, of j "unat i"] by (simp add: layout_l2 [OF l t])
next
  case False
  then show ?thesis using boot_layoutD(3) [OF l, of j "unat i"] by (auto simp: layout_l2 [OF l t])
qed

text \<open>The number of the static table in each role.\<close>

fun role_number :: "nat \<Rightarrow> table_role \<Rightarrow> nat" where
  "role_number ks L1_Table = 1"
| "role_number ks (L2_Table i) = unat i + 2"
| "role_number ks (L3_Table i j) = unat i * 512 + unat j - ks + 6"

lemma layout_role:
  assumes l: "boot_layout img ks ke s" and t: "\<forall>k<22. table_addr (static_table img k)" and k: "ke \<le> ks + 16"
    and r: "table_of img s r = Some a"
  shows "a = static_table img (role_number ks r) \<and> 0 < role_number ks r \<and> role_number ks r < 22"
  using r k by (cases r) (auto simp: layout_l2 [OF l t] layout_l3 [OF l t k] static_table_simps(2) simp del: table_of.simps(3) split: if_splits)

lemma layout_role_inj:
  assumes l: "boot_layout img ks ke s" and t: "\<forall>k<22. table_addr (static_table img k)" and k: "ke \<le> ks + 16"
    and r: "table_of img s r = Some a" "table_of img s r' = Some a'" and e: "role_number ks r = role_number ks r'"
  shows "r = r'"
proof -
  have q: "i = i' \<and> j = j'" if "unat i * 512 + unat j = unat i' * 512 + unat j'" "j < 512" "j' < 512" for i j i' j' :: u64
  proof -
    have b: "unat j < 512" "unat j' < 512" using that by (simp_all add: word_less_nat_alt)
    then have "unat i = unat i'" using arg_cong [OF that(1), of "\<lambda>n. n div 512"] by simp
    then show ?thesis using that(1) by (simp add: word_eq_unat)
  qed
  show ?thesis
  proof (cases "\<exists>i j i' j'. r = L3_Table i j \<and> r' = L3_Table i' j'")
    case True
    then obtain i j i' j' where rr: "r = L3_Table i j" "r' = L3_Table i' j'" by blast
    have b: "ks \<le> unat i * 512 + unat j" "j < 512" "ks \<le> unat i' * 512 + unat j'" "j' < 512"
      using r [unfolded rr layout_l3 [OF l t k]] by (simp_all split: if_splits)
    moreover have "unat i * 512 + unat j = unat i' * 512 + unat j'" using e b by (simp add: rr)
    ultimately have "unat i * 512 + unat j = unat i' * 512 + unat j'" "j < 512" "j' < 512" by simp_all
    then show ?thesis using q rr by blast
  next
    case False
    then show ?thesis
      using r e by (cases r; cases r')
        (auto simp: layout_l2 [OF l t] layout_l3 [OF l t k] word_eq_unat simp del: table_of.simps(3) split: if_splits)
  qed
qed

lemma layout_inv:
  assumes l: "boot_layout img ks ke s" and ok: "image_ok img s" and k: "ke \<le> ks + 16"
  shows "vm_inv img s"
proof -
  have t: "\<forall>k<22. table_addr (static_table img k)" using image_okD(3) [OF ok] by blast
  note role = layout_role [OF l t k]
  have l2: "is_table (entry s l2 j) \<or> entry s l2 j AND 0x1ff000 = 0" if "l2_of img s i = Some l2" "j < 512" for i l2 j
    using that boot_layoutD(3) [OF l that(2), of "unat i"] by (auto simp: layout_l2 [OF l t] block_hole split: if_splits)
  have a: "table_addr a \<and> a \<noteq> static_table img 0 \<and> a \<notin> vm_free s" if "table_of img s r = Some a" for r a
    using role [OF that] t image_okD(4,5) [OF ok] by (metis less_numeral_extra(3) zero_less_numeral)
  have u: "r = r'" if "table_of img s r = Some a" "table_of img s r' = Some a" for r r' a
    using role [OF that(1)] role [OF that(2)] image_okD(5) [OF ok] layout_role_inj [OF l t k that] by metis
  show ?thesis
    unfolding vm_inv_def static_table_simps(1,2)
    using image_okD(1,2) [OF ok] t [rule_format, of 0] image_okD(4) [OF ok, of 0] boot_layoutD(1) [OF l] a u l2 by auto
qed

section \<open>The boot address space\<close>

lemma identity_block_page:
  assumes "q < 2048" "k < 512"
  shows "block_page (identity_block q) k = page_descriptor (block_addr q + k * PAGE_SIZE) normal_rw_nx_attrs"
proof -
  have m: "identity_block q AND PTE_BLOCK_L2_ADDR_MASK = block_addr q AND PTE_BLOCK_L2_ADDR_MASK"
    unfolding word_bits_eq bit_and_iff bit_block_mask bit_block_descriptor bit_normal_device by auto
  have "block_addr q AND PTE_BLOCK_L2_ADDR_MASK = block_addr q"
  proof (rule bit_word_eqI)
    fix n
    have e: "block_addr q = push_bit 21 (of_nat q)" by (simp add: block_addr_def push_bit_eq_mult)
    have hi: "\<not> bit (of_nat q :: u64) n" if "27 \<le> n" for n
    proof (rule small_bits)
      have "unat (of_nat q :: u64) = q" by (rule unat_of_nat_small) (use assms(1) in simp)
      then show "(of_nat q :: u64) < 2 ^ 27" using assms(1) by (simp add: word_less_nat_alt)
    qed (use that in simp_all)
    have "bit (block_addr q) n \<Longrightarrow> 21 \<le> n \<and> n < 48"
      unfolding e bit_push_bit_iff using hi [of "n - 21"] by (cases "n < 48") simp_all
    then show "bit (block_addr q AND PTE_BLOCK_L2_ADDR_MASK) n = bit (block_addr q) n"
      unfolding bit_and_iff bit_block_mask by auto
  qed
  then have a: "identity_block q AND PTE_BLOCK_L2_ADDR_MASK = block_addr q" by (simp add: m)
  show ?thesis
    unfolding block_page_def a
    by (rule bit_word_eqI) (auto simp: bit_page_descriptor bit_and_iff bit_not_iff bit_block_mask bit_block_descriptor bit_normal_device)
qed

definition boot_attrs :: "kernel_image \<Rightarrow> nat \<Rightarrow> nat \<Rightarrow> u64 \<Rightarrow> u64" where
  "boot_attrs img ks ke va =
     (if ks \<le> unat va div 2097152 \<and> unat va div 2097152 < ke then kernel_page_attrs img (align_down va PAGE_SIZE)
      else normal_rw_nx_attrs)"

lemma va_page:
  assumes "unat va < 2 ^ 32"
  shows "block_addr (unat va div 2097152) + l3_index va * PAGE_SIZE = align_down va PAGE_SIZE"
proof -
  have b: "unat (block_addr (unat va div 2097152)) = unat va div 2097152 * 2097152"
    by (rule unat_block_addr) (use assms in simp)
  have k: "unat (l3_index va * PAGE_SIZE) = unat va div 4096 mod 512 * 4096"
    by (simp add: unat_word_ariths unat_va_index PAGE_SIZE_def)
  have d: "unat va div 2097152 = unat va div 4096 div 512" by (simp add: div_mult2_eq [symmetric])
  have "unat va div 2097152 * 2097152 + unat va div 4096 mod 512 * 4096 = unat va div 4096 * 4096"
    unfolding d using div_mult_mod_eq [of "unat va div 4096" 512] by linarith
  moreover have "unat va div 4096 * 4096 \<le> unat va" by simp
  ultimately have "unat (block_addr (unat va div 2097152) + l3_index va * PAGE_SIZE) = unat va div 4096 * 4096"
    using b k assms by (subst unat_add_le) simp_all
  then show ?thesis by (simp add: word_eq_unat unat_align_down)
qed

lemma layout_leaf:
  assumes l: "boot_layout img ks ke s" and t: "\<forall>k<22. table_addr (static_table img k)" and k: "ke \<le> ks + 16" "ke \<le> 2048"
    and va: "unat va < 2 ^ 32"
  shows "leaf img s (l1_index va) (l2_index va) (l3_index va) = page_descriptor (align_down va PAGE_SIZE) (boot_attrs img ks ke va)"
proof -
  define q where "q = unat va div 2097152"
  have q: "q < 2048" using va by (simp add: q_def)
  have i: "unat (l1_index va) = q div 512" "unat (l2_index va) = q mod 512"
    using q by (simp_all add: unat_va_index q_def div_mult2_eq [symmetric])
  have e: "unat (l1_index va) * 512 + unat (l2_index va) = q" "unat (l1_index va) < 4" using q by (simp_all add: i)
  note p = va_page [OF va, folded q_def]
  show ?thesis
  proof (cases "ks \<le> q \<and> q < ke")
    case True
    then have "table_of img s (L3_Table (l1_index va) (l2_index va)) = Some (static_table img (q - ks + 6))"
      using e by (simp add: layout_l3 [OF l t k(1)] del: table_of.simps)
    then have "leaf img s (l1_index va) (l2_index va) (l3_index va) = kernel_page img (q - ks + ks) (l3_index va)"
      using boot_layoutD(4) [OF l index_bound, of "q - ks" "drop_bit 12 va"] True k(1) by (simp add: l2_leaf_table)
    then show ?thesis using True p by (simp add: kernel_page_def boot_attrs_def flip: q_def)
  next
    case False
    then have "leaf img s (l1_index va) (l2_index va) (l3_index va) = block_page (identity_block q) (l3_index va)"
      using e boot_layoutD(3) [OF l index_bound e(2), of "drop_bit 21 va"]
      by (auto simp: leaf_def layout_l2 [OF l t] l2_leaf_def pte_tests bit_block_descriptor)
    then show ?thesis
      using False p q by (auto simp: identity_block_page boot_attrs_def simp flip: q_def)
  qed
qed

text \<open>The permissions of the sections, in the order \<^verbatim>\<open>kernel_page_attrs\<close> tests them.\<close>

definition section_flags :: "kernel_image \<Rightarrow> u64 \<Rightarrow> u32" where
  "section_flags img a =
     (if overlaps a (a + PAGE_SIZE) (im_user_text_start img) (im_user_text_end img)
      then XAIOS_VMM_PRESENT OR XAIOS_VMM_WRITABLE OR XAIOS_VMM_USER
      else if overlaps a (a + PAGE_SIZE) (im_user_rodata_start img) (im_user_rodata_end img)
      then XAIOS_VMM_PRESENT OR XAIOS_VMM_USER
      else if overlaps a (a + PAGE_SIZE) (im_user_stack_start img) (im_user_stack_end img)
      then XAIOS_VMM_PRESENT OR XAIOS_VMM_WRITABLE OR XAIOS_VMM_USER
      else if in_range a (im_text_start img) (im_text_end img)
      then XAIOS_VMM_PRESENT OR XAIOS_VMM_WRITABLE OR XAIOS_VMM_EXECUTABLE
      else if in_range a (im_rodata_start img) (im_rodata_end img) then XAIOS_VMM_PRESENT
      else XAIOS_VMM_PRESENT OR XAIOS_VMM_WRITABLE)"

definition boot_flags :: "kernel_image \<Rightarrow> xaios_boot_info \<Rightarrow> u64 \<Rightarrow> u32" where
  "boot_flags img boot va =
     (if va < 4096 then XAIOS_VMM_PRESENT
      else if kernel_first boot \<le> unat va div 2097152 \<and> unat va div 2097152 < kernel_last boot
      then section_flags img (align_down va PAGE_SIZE)
      else XAIOS_VMM_PRESENT OR XAIOS_VMM_WRITABLE)"

lemma bit_section_attrs:
  "bit normal_ro_nx_attrs n \<longleftrightarrow> n \<in> {7, 8, 9, 53, 54}" "bit normal_rx_attrs n \<longleftrightarrow> n \<in> {8, 9, 54}"
  "bit user_rx_attrs n \<longleftrightarrow> n \<in> {6, 8, 9, 53}" "bit user_ro_nx_attrs n \<longleftrightarrow> n \<in> {6, 7, 8, 9, 53, 54}"
  "bit user_rw_nx_attrs n \<longleftrightarrow> n \<in> {6, 8, 9, 53, 54}"
  unfolding normal_ro_nx_attrs_def normal_rx_attrs_def user_rx_attrs_def user_ro_nx_attrs_def user_rw_nx_attrs_def bit_or_iff bit_pte
  by auto

lemmas bit_boot_attrs = bit_section_attrs bit_normal_device

lemma attrs_translation:
  assumes a: "table_addr a" and n: "\<And>n. bit attrs n \<Longrightarrow> n \<in> {6, 7, 8, 9, 53, 54}"
  shows "leaf_translation s va (page_descriptor a attrs) =
    Some (a + (va AND 0xfff), XAIOS_VMM_PRESENT OR mmio_flag s va OR (if bit attrs 7 then 0 else XAIOS_VMM_WRITABLE) OR
      (if bit attrs 53 then 0 else XAIOS_VMM_EXECUTABLE) OR (if bit attrs 6 then XAIOS_VMM_USER else 0))"
proof -
  have "page_descriptor a attrs AND PTE_ADDR_MASK = a"
    by (rule page_descriptor_addr [OF a]) (use n in fastforce)
  moreover have "\<not> bit attrs 2" using n [of 2] by auto
  ultimately show ?thesis
    unfolding leaf_translation_def descriptor_to_flags_def Let_def pte_tests attr_index_bits
    by (simp add: bit_page_descriptor mmio_flag_def or.assoc)
qed

lemma kernel_page_flags:
  assumes "table_addr a"
  shows "leaf_translation s va (page_descriptor a (kernel_page_attrs img a)) =
    Some (a + (va AND 0xfff), section_flags img a OR mmio_flag s va)"
proof -
  have o: "f OR (mmio_flag s va OR g) = f OR (g OR mmio_flag s va)" "mmio_flag s va OR f = f OR mmio_flag s va" for f g
    by (simp_all add: ac_simps)
  have b: "bit (kernel_page_attrs img a) n \<Longrightarrow> n \<in> {6, 7, 8, 9, 53, 54}" for n
    by (auto simp: kernel_page_attrs_def Let_def bit_boot_attrs split: if_splits)
  show ?thesis
    by (subst attrs_translation [OF assms b])
      (assumption, simp add: kernel_page_attrs_def section_flags_def Let_def bit_boot_attrs o or.assoc)
qed

lemma normal_page_flags:
  assumes "table_addr a"
  shows "leaf_translation s va (page_descriptor a normal_rw_nx_attrs) =
    Some (a + (va AND 0xfff), (XAIOS_VMM_PRESENT OR XAIOS_VMM_WRITABLE) OR mmio_flag s va)"
  by (subst attrs_translation [OF assms]) (auto simp: bit_boot_attrs ac_simps)

lemma page_split: "align_down va PAGE_SIZE + (va AND 0xfff) = va"
proof -
  have "unat (va AND 0xfff) = unat va mod 4096" unfolding fff_mask unat_and_mask by simp
  moreover have "unat va div 4096 * 4096 + unat va mod 4096 = unat va" by simp
  moreover have "unat va < 2 ^ 64" using unsigned_less [of va] by simp
  ultimately show ?thesis unfolding word_eq_unat by (subst unat_add_le) (simp_all add: unat_align_down)
qed

lemma va_page_addr: "unat va < 2 ^ 32 \<Longrightarrow> table_addr (align_down va PAGE_SIZE)"
proof -
  assume "unat va < 2 ^ 32"
  moreover have "unat va div 4096 * 4096 \<le> unat va" by simp
  ultimately show ?thesis
    unfolding table_addr_def page_aligned_unat by (simp add: unat_align_down word_less_nat_alt)
qed

lemma built_image: "image_ok img s \<Longrightarrow> image_ok img (built img boot s)"
  by (simp add: image_ok_def built_fields)

lemma built_translate:
  assumes ok: "image_ok img s" and boot: "boot_ok boot"
  shows "unat va < 2 ^ 32 \<Longrightarrow> vmm_translate img (built img boot s) va =
      leaf_translation (built img boot s) va
        (page_descriptor (align_down va PAGE_SIZE) (boot_attrs img (kernel_first boot) (kernel_last boot) va))"
    and "2 ^ 32 \<le> unat va \<Longrightarrow> unat va < 2 ^ 48 \<Longrightarrow> vmm_translate img (built img boot s) va = None"
proof -
  note b = boot_okD [OF boot]
  have t: "\<forall>k<22. table_addr (static_table img k)" using image_okD(3) [OF ok] by blast
  note lay = built_layout [OF ok boot]
  note tr = translate_leaf [OF layout_inv [OF lay built_image [OF ok] b(5)]]
  show "vmm_translate img (built img boot s) va = leaf_translation (built img boot s) va
        (page_descriptor (align_down va PAGE_SIZE) (boot_attrs img (kernel_first boot) (kernel_last boot) va))"
    if "unat va < 2 ^ 32"
  proof -
    have "unat (l0_index va) = 0" using that by (simp add: unat_va_index)
    then show ?thesis
      unfolding tr layout_leaf [OF lay t b(5,4) that] by (simp add: unat_eq_0)
  qed
  assume hi: "2 ^ 32 \<le> unat va" "unat va < 2 ^ 48"
  show "vmm_translate img (built img boot s) va = None"
  proof (cases "l0_index va = 0")
    case True
    then have "unat va div 549755813888 mod 512 = 0" using unat_va_index(4) [of va] by simp
    then have "unat va < 549755813888" using hi(2) by (simp add: div_eq_0_iff)
    then have "4 \<le> unat (l1_index va)" using hi(1) by (simp add: unat_va_index)
    then have "leaf img (built img boot s) (l1_index va) (l2_index va) (l3_index va) = 0"
      by (simp add: leaf_def layout_l2 [OF lay t])
    then show ?thesis by (simp add: tr leaf_translation_def)
  qed (simp add: tr)
qed

lemma null_guard:
  assumes inv: "vm_inv img s" and free: "2 \<le> card (vm_free s)"
  obtains s' where "map_option snd (vmm_map_page img s 0 0 XAIOS_VMM_PRESENT) = Some s'" "vm_inv img s'" "same_mmio s s'"
    "\<And>w. vmm_translate img s' w =
      (if same_page 0 w then Some (w AND 0xfff, XAIOS_VMM_PRESENT OR mmio_flag s w) else vmm_translate img s w)"
    "vm_free s' \<subseteq> vm_free s" "card (vm_free s) \<le> card (vm_free s') + 2"
proof -
  let ?v = "page_descriptor 0 (attrs_from_flags XAIOS_VMM_PRESENT)"
  have z: "l0_index 0 = 0" "table_addr 0" by (simp_all add: table_addr_def)
  obtain l3 s2 where e: "ensure_l3_table img s 0 = Some (l3, s2)" "vm_inv img (set_entry s2 l3 (l3_index 0) ?v)"
      "same_mmio s (set_entry s2 l3 (l3_index 0) ?v)"
      "\<And>w. vmm_translate img (set_entry s2 l3 (l3_index 0) ?v) w =
        (if same_page 0 w then leaf_translation s w ?v else vmm_translate img s w)"
      "vm_free (set_entry s2 l3 (l3_index 0) ?v) \<subseteq> vm_free s"
      "card (vm_free s) \<le> card (vm_free (set_entry s2 l3 (l3_index 0) ?v)) + 2"
    using update_leaf_spec [OF inv z(1) free, where v = ?v] by metis
  have "XAIOS_VMM_PRESENT \<noteq> 0" by (simp add: XAIOS_VMM_PRESENT_def)
  then have "map_option snd (vmm_map_page img s 0 0 XAIOS_VMM_PRESENT) = Some (set_entry s2 l3 (l3_index 0) ?v)"
    using e(1) by (simp add: vmm_map_page_def)
  moreover have "XAIOS_VMM_PRESENT AND READ_BACK = XAIOS_VMM_PRESENT"
    by (rule bit_word_eqI) (auto simp: READ_BACK_def bit_and_iff bit_or_iff)
  then have "leaf_translation s w ?v = Some (w AND 0xfff, XAIOS_VMM_PRESENT OR mmio_flag s w)" for w
    using mapped_leaf [OF z(2), of XAIOS_VMM_PRESENT s w] by simp
  ultimately show ?thesis using that e(2-6) by simp
qed

lemma index_zero:
  assumes "(n :: nat) < 512 * d" "n div d mod 512 = 0"
  shows "n < d"
proof -
  have "n div d < 512" using assms(1) by (simp add: less_mult_imp_div_less mult.commute)
  then have "n div d = 0" using assms(2) by simp
  then show ?thesis using assms(1) by (auto simp: div_eq_0_iff)
qed

lemma same_page_0:
  assumes va: "unat va < 2 ^ 48"
  shows "same_page 0 va \<longleftrightarrow> unat va < 4096"
proof
  assume s: "same_page 0 va"
  have z: "unat va div 549755813888 mod 512 = 0" "unat va div 1073741824 mod 512 = 0" "unat va div 2097152 mod 512 = 0"
      "unat va div 4096 mod 512 = 0"
    unfolding unat_va_index [symmetric] using s by (simp_all add: same_page_def)
  have "unat va < 549755813888" using index_zero [OF _ z(1)] va by simp
  then have "unat va < 1073741824" using index_zero [OF _ z(2)] by simp
  then have "unat va < 2097152" using index_zero [OF _ z(3)] by simp
  then show "unat va < 4096" using index_zero [OF _ z(4)] by simp
next
  assume "unat va < 4096"
  then have "unat (l0_index va) = 0" "unat (l1_index va) = 0" "unat (l2_index va) = 0" "unat (l3_index va) = 0"
    by (simp_all only: unat_va_index)
  then show "same_page 0 va" by (simp add: same_page_def unat_eq_0)
qed

lemma boot_page_flags:
  assumes "unat va < 2 ^ 32"
  shows "leaf_translation s va (page_descriptor (align_down va PAGE_SIZE) (boot_attrs img (kernel_first boot) (kernel_last boot) va)) =
    Some (va, (if kernel_first boot \<le> unat va div 2097152 \<and> unat va div 2097152 < kernel_last boot
      then section_flags img (align_down va PAGE_SIZE) else XAIOS_VMM_PRESENT OR XAIOS_VMM_WRITABLE) OR mmio_flag s va)"
proof -
  note a = va_page_addr [OF assms]
  show ?thesis
  proof (cases "kernel_first boot \<le> unat va div 2097152 \<and> unat va div 2097152 < kernel_last boot")
    case True
    show ?thesis unfolding boot_attrs_def if_P [OF True] kernel_page_flags [OF a] page_split ..
  next
    case False
    show ?thesis unfolding boot_attrs_def if_not_P [OF False] normal_page_flags [OF a] page_split ..
  qed
qed

lemma low_page: "unat va < 4096 \<Longrightarrow> va AND 0xfff = (va :: u64)"
  unfolding fff_mask word_eq_unat unat_and_mask by simp

lemma vmm_init_spec:
  assumes "image_ok img s" "boot_ok boot" "2 \<le> card (vm_free s)"
  shows "\<exists>s'. vmm_init img boot s = Some s' \<and> vm_inv img s' \<and>
    (\<forall>va. unat va < 2 ^ 32 \<longrightarrow> vmm_translate img s' va = Some (va, boot_flags img boot va OR mmio_flag s' va)) \<and>
    (\<forall>va. 2 ^ 32 \<le> unat va \<longrightarrow> unat va < 2 ^ 48 \<longrightarrow> vmm_translate img s' va = None) \<and>
    same_mmio (built img boot s) s' \<and> vm_free s' \<subseteq> vm_free s \<and> card (vm_free s) \<le> card (vm_free s') + 2"
proof -
  define s1 where "s1 = built img boot s"
  have inv: "vm_inv img s1" unfolding s1_def
    by (rule layout_inv [OF built_layout [OF assms(1,2)] built_image [OF assms(1)] boot_okD(5) [OF assms(2)]])
  have fr: "2 \<le> card (vm_free s1)" using assms(3) by (simp add: s1_def built_fields)
  obtain s' where e: "map_option snd (vmm_map_page img s1 0 0 XAIOS_VMM_PRESENT) = Some s'" "vm_inv img s'" "same_mmio s1 s'"
      "\<And>w. vmm_translate img s' w =
        (if same_page 0 w then Some (w AND 0xfff, XAIOS_VMM_PRESENT OR mmio_flag s1 w) else vmm_translate img s1 w)"
      "vm_free s' \<subseteq> vm_free s1" "card (vm_free s1) \<le> card (vm_free s') + 2"
    using null_guard [OF inv fr] by metis
  have m: "mmio_flag s' w = mmio_flag s1 w" for w using e(3) by (simp add: mmio_flag_def)
  have "vmm_init img boot s = Some s'"
    using e(1) by (simp add: vmm_init_def build_tables_eq [OF assms(2)] flip: s1_def)
  moreover have "vmm_translate img s' va = Some (va, boot_flags img boot va OR mmio_flag s' va)" if "unat va < 2 ^ 32" for va
    using e(4) [of va] that same_page_0 [of va] low_page [of va] boot_page_flags [OF that]
      built_translate(1) [OF assms(1,2) that, folded s1_def]
    by (simp add: boot_flags_def word_less_nat_alt m)
  moreover have "vmm_translate img s' va = None" if "2 ^ 32 \<le> unat va" "unat va < 2 ^ 48" for va
    using e(4) [of va] that same_page_0 [of va] built_translate(2) [OF assms(1,2) that, folded s1_def] by simp
  moreover have "vm_free s1 = vm_free s" by (simp add: s1_def built_fields)
  ultimately show ?thesis using e(2,3,5,6) unfolding s1_def by auto
qed

text \<open>
  C12: \<^verbatim>\<open>vmm_init\<close> builds the identity map. For an image of at most sixteen 2 MiB regions below 4 GiB and
  distinct, unused static tables, initialisation ends without a failed assertion, the tables form a tree, every address
  below 4 GiB translates to itself with the permissions of its section, and no address from 4 GiB up to the
  48-bit limit translates. Page 0 stays mapped readable, and kernel text is writable as well as executable.
\<close>

theorem vmm_init_identity:
  assumes "image_ok img s" "boot_ok boot" "2 \<le> card (vm_free s)"
  shows "\<exists>s'. vmm_init img boot s = Some s' \<and> vm_inv img s' \<and>
    (\<forall>va. unat va < 2 ^ 32 \<longrightarrow> vmm_translate img s' va = Some (va, boot_flags img boot va OR mmio_flag s' va)) \<and>
    (\<forall>va. 2 ^ 32 \<le> unat va \<longrightarrow> unat va < 2 ^ 48 \<longrightarrow> vmm_translate img s' va = None)"
  using vmm_init_spec [OF assms] by blast

section \<open>A concrete boot\<close>

definition vm_demo_boot :: xaios_boot_info where
  "vm_demo_boot = \<lparr>bi_magic = 0, bi_version = 1, bi_reserved = 0, bi_memory_map = 0, bi_memory_map_size = 0,
     bi_memory_descriptor_size = 0, bi_memory_descriptor_version = 0, bi_kernel_phys_base = 0x40080000,
     bi_kernel_phys_end = 0x40300000, bi_uart_base = 0x9000000\<rparr>"

lemma demo_static: "k < 22 \<Longrightarrow> static_table demo_image k = of_nat ((k + 2) * 4096)"
  by (simp add: static_table_def demo_image_def l2_row_def kernel_l3_row_def PAGE_SIZE_def of_nat_diff)

lemma unat_demo_static: "k < 22 \<Longrightarrow> unat (static_table demo_image k) = (k + 2) * 4096"
  unfolding demo_static by (rule unat_of_nat_small) simp

lemma demo_static_addr:
  assumes "k < 22"
  shows "table_addr (static_table demo_image k)" "static_table demo_image k \<notin> managed_phys pool_numa"
proof -
  note u = unat_demo_static [OF assms]
  show "table_addr (static_table demo_image k)"
    unfolding table_addr_def page_aligned_unat word_less_nat_alt u using assms by simp
  show "static_table demo_image k \<notin> managed_phys pool_numa"
    using pool_numa_sets(3) [of "static_table demo_image k"] u assms by fastforce
qed

lemma demo_image_ok: "image_ok demo_image demo_vm"
proof -
  have i: "inj_on (static_table demo_image) {..<22}"
  proof (rule inj_onI)
    fix k k' assume "k \<in> {..<22}" "k' \<in> {..<22}" "static_table demo_image k = static_table demo_image k'"
    then have "(k + 2) * 4096 = (k' + 2) * 4096" by (metis lessThan_iff unat_demo_static)
    then show "k = k'" by simp
  qed
  have m: "\<forall>p \<in> managed_phys pool_numa. table_addr p" using vm_invD(2) [OF demo_vm_inv] by simp
  show ?thesis unfolding image_ok_def demo_vm_fields pool_numa_sets(1)
    by (intro conjI allI impI pool_numa_inv m i demo_static_addr)
qed

definition demo_booted :: vm_state where
  "demo_booted = the (vmm_init demo_image vm_demo_boot demo_vm)"

lemma demo_boot_ok: "boot_ok vm_demo_boot"
  by (simp add: boot_ok_def vm_demo_boot_def)

text \<open>After this boot the free pages are still mapped to themselves, writable.\<close>

lemma demo_booted:
  "vm_inv demo_image demo_booted" "62 \<le> card (vm_free demo_booted)" "mmio_flag demo_booted 0x4c201004 = 0"
  "p \<in> vm_free demo_booted \<Longrightarrow> 0x100000 \<le> unat p \<and> unat p < 0x140000 \<and>
     (\<exists>f. vmm_translate demo_image demo_booted p = Some (p, f) \<and> f AND XAIOS_VMM_WRITABLE \<noteq> 0)"
proof -
  have f: "2 \<le> card (vm_free demo_vm)" using pool_numa_sets(2) by simp
  from vmm_init_spec [OF demo_image_ok demo_boot_ok f]
  have s: "vm_inv demo_image demo_booted"
      "\<And>va. unat va < 2 ^ 32 \<Longrightarrow> vmm_translate demo_image demo_booted va =
         Some (va, boot_flags demo_image vm_demo_boot va OR mmio_flag demo_booted va)"
      "same_mmio (built demo_image vm_demo_boot demo_vm) demo_booted" "vm_free demo_booted \<subseteq> vm_free demo_vm"
      "card (vm_free demo_vm) \<le> card (vm_free demo_booted) + 2"
    unfolding demo_booted_def by auto
  show "vm_inv demo_image demo_booted" by (rule s(1))
  show "62 \<le> card (vm_free demo_booted)" using s(5) pool_numa_sets(2) by simp
  show "mmio_flag demo_booted 0x4c201004 = 0" using s(3)
    by (simp add: mmio_flag_def built_fields block_addr_def uart_first_def uart_last_def vm_demo_boot_def)
  assume "p \<in> vm_free demo_booted"
  then have p: "0x100000 \<le> unat p" "unat p < 0x140000" using s(4) pool_numa_sets(1,3) by auto
  then have "boot_flags demo_image vm_demo_boot p = XAIOS_VMM_PRESENT OR XAIOS_VMM_WRITABLE"
    by (simp add: boot_flags_def kernel_first_def vm_demo_boot_def word_less_nat_alt)
  moreover have "((XAIOS_VMM_PRESENT OR XAIOS_VMM_WRITABLE) OR m) AND XAIOS_VMM_WRITABLE \<noteq> 0" for m
    by (simp add: flag_tests bit_or_iff)
  ultimately show "0x100000 \<le> unat p \<and> unat p < 0x140000 \<and>
      (\<exists>f. vmm_translate demo_image demo_booted p = Some (p, f) \<and> f AND XAIOS_VMM_WRITABLE \<noteq> 0)"
    using s(2) [of p] p by simp
qed

theorem vmm_init_identity_witness:
  "\<exists>s'. vmm_init demo_image vm_demo_boot demo_vm = Some s' \<and> vm_inv demo_image s' \<and>
     (\<exists>flags. vmm_translate demo_image s' 0x40080123 = Some (0x40080123, flags))"
proof -
  have f: "2 \<le> card (vm_free demo_vm)" using pool_numa_sets(2) by simp
  have "unat (0x40080123 :: u64) < 2 ^ 32" by simp
  then show ?thesis using vmm_init_identity [OF demo_image_ok demo_boot_ok f] by blast
qed

end
