(* ===== verification/Kheap.thy ===== *)
theory Kheap
  imports Page_Tables
begin

text \<open>
  \<^verbatim>\<open>kernel/mm/kheap.c\<close>: the kernel heap, a free list searched best-fit in front of a bump allocator
  whose pages are mapped on demand. The 16-byte headers are a store by header address, the user
  bytes a second one. Pointers to the pointer cells of the free list (\<^verbatim>\<open>kheap_header_t **\<close>) are a
  datatype. The heap lock serialises the calls, so each call is one step. \<open>None\<close> stands for a call
  that does not return: a failed assertion of the page-table code, or an endless search.
\<close>

section \<open>Model\<close>

definition KHEAP_BASE :: u64 where
  "KHEAP_BASE = 0x4a000000"

definition KHEAP_SIZE :: u64 where
  "KHEAP_SIZE = 0x01000000"

definition KHEAP_LIMIT :: u64 where
  "KHEAP_LIMIT = KHEAP_BASE + KHEAP_SIZE"

definition KHEAP_HEADER_SIZE :: u64 where
  "KHEAP_HEADER_SIZE = 16"

record kheap_header =
  kh_size :: u64
  kh_next_free :: u64

record kheap_state =
  kh_vm :: vm_state
  g_heap_next :: u64
  g_heap_mapped_end :: u64
  g_heap_pages :: u64
  g_heap_bytes_allocated :: u64
  g_free_list :: u64
  kh_headers :: "u64 \<Rightarrow> kheap_header"
  kh_bytes :: "u64 \<Rightarrow> u8"

definition kheap_init :: "kheap_state \<Rightarrow> kheap_state" where
  "kheap_init s = s\<lparr>g_heap_next := KHEAP_BASE, g_heap_mapped_end := KHEAP_BASE, g_heap_pages := 0,
     g_heap_bytes_allocated := 0, g_free_list := 0\<rparr>"

text \<open>The mapping loop; its address is a local variable that is stored only when the loop succeeds.\<close>

partial_function (option) map_loop ::
  "kernel_image \<Rightarrow> u64 \<Rightarrow> u64 \<Rightarrow> kheap_state \<Rightarrow> (xaios_status \<times> kheap_state) option" where
  "map_loop img stop mapped s =
     (if mapped < stop
      then case pmm_alloc_page (pm_numa (vm_pmm (kh_vm s))) of
             None \<Rightarrow> None
           | Some (page, n) \<Rightarrow>
               let vm = (kh_vm s)\<lparr>vm_pmm := (vm_pmm (kh_vm s))\<lparr>pm_numa := n\<rparr>\<rparr>
               in if page = 0 then Some (XAIOS_ERR_NO_MEMORY, s\<lparr>kh_vm := vm\<rparr>)
                  else case vmm_map_page img vm mapped page (XAIOS_VMM_PRESENT OR XAIOS_VMM_WRITABLE) of
                    None \<Rightarrow> None
                  | Some (st, vm1) \<Rightarrow>
                      if st \<noteq> XAIOS_OK
                      then Some (XAIOS_ERR_INVALID, s\<lparr>kh_vm := vm1\<lparr>vm_pmm := pmm_free_page (vm_pmm vm1) page\<rparr>\<rparr>)
                      else map_loop img stop (mapped + PAGE_SIZE)
                             (s\<lparr>kh_vm := vm1, g_heap_pages := g_heap_pages s + 1\<rparr>)
      else Some (XAIOS_OK, s\<lparr>g_heap_mapped_end := mapped\<rparr>))"

definition ensure_mapped :: "kernel_image \<Rightarrow> kheap_state \<Rightarrow> u64 \<Rightarrow> (xaios_status \<times> kheap_state) option" where
  "ensure_mapped img s stop = map_loop img stop (g_heap_mapped_end s) s"

datatype link = Head_Link | Next_Link u64

definition set_link :: "link \<Rightarrow> u64 \<Rightarrow> kheap_state \<Rightarrow> kheap_state" where
  "set_link l v s =
     (case l of
        Head_Link \<Rightarrow> s\<lparr>g_free_list := v\<rparr>
      | Next_Link h \<Rightarrow> s\<lparr>kh_headers := (kh_headers s)(h := (kh_headers s h)\<lparr>kh_next_free := v\<rparr>)\<rparr>)"

text \<open>
  The search of the free list. A block that is large enough but misaligned is left by \<^verbatim>\<open>continue\<close>,
  which skips the update of \<^verbatim>\<open>prev\<close>.
\<close>

partial_function (option) free_scan ::
  "(u64 \<Rightarrow> kheap_header) \<Rightarrow> u64 \<Rightarrow> u64 \<Rightarrow> link \<Rightarrow> (u64 \<times> link) option \<Rightarrow> u64 \<Rightarrow> (u64 \<times> link) option option" where
  "free_scan hs sz align prev best cur =
     (if cur = 0 then Some best
      else if kh_size (hs cur) \<ge> sz
      then if (cur + KHEAP_HEADER_SIZE) AND (align - 1) \<noteq> 0
           then free_scan hs sz align prev best (kh_next_free (hs cur))
           else free_scan hs sz align (Next_Link cur)
                  (case best of
                     None \<Rightarrow> Some (cur, prev)
                   | Some (b, l) \<Rightarrow> if kh_size (hs cur) < kh_size (hs b) then Some (cur, prev) else best)
                  (kh_next_free (hs cur))
      else free_scan hs sz align (Next_Link cur) best (kh_next_free (hs cur)))"

definition bump_alloc :: "kernel_image \<Rightarrow> kheap_state \<Rightarrow> u64 \<Rightarrow> u64 \<Rightarrow> (u64 \<times> kheap_state) option" where
  "bump_alloc img s sz align =
     (let data_start = align_up (g_heap_next s + KHEAP_HEADER_SIZE) align;
          header_addr = data_start - KHEAP_HEADER_SIZE;
          stop = data_start + sz
      in if stop < data_start \<or> stop > KHEAP_LIMIT then Some (0, s)
         else case ensure_mapped img s (align_up stop PAGE_SIZE) of
           None \<Rightarrow> None
         | Some (st, s1) \<Rightarrow>
             if st \<noteq> XAIOS_OK then Some (0, s1)
             else Some (data_start,
               s1\<lparr>kh_headers := (kh_headers s1)(header_addr := \<lparr>kh_size = sz, kh_next_free = 0\<rparr>),
                  g_heap_next := stop, g_heap_bytes_allocated := g_heap_bytes_allocated s1 + sz\<rparr>))"

definition take_block :: "kheap_state \<Rightarrow> u64 \<Rightarrow> link \<Rightarrow> u64 \<Rightarrow> u64 \<times> kheap_state" where
  "take_block s best best_prev sz =
     (let s1 = set_link best_prev (kh_next_free (kh_headers s best)) s;
          s2 = set_link (Next_Link best) 0 s1
      in (best + KHEAP_HEADER_SIZE, s2\<lparr>g_heap_bytes_allocated := g_heap_bytes_allocated s2 + sz\<rparr>))"

definition kheap_alloc :: "kernel_image \<Rightarrow> kheap_state \<Rightarrow> u64 \<Rightarrow> u64 \<Rightarrow> (u64 \<times> kheap_state) option" where
  "kheap_alloc img s sz align0 =
     (if sz = 0 \<or> align0 = 0 \<or> align0 AND (align0 - 1) \<noteq> 0 then Some (0, s)
      else let align = (if align0 < KHEAP_HEADER_SIZE then KHEAP_HEADER_SIZE else align0)
      in case free_scan (kh_headers s) sz align Head_Link None (g_free_list s) of
           None \<Rightarrow> None
         | Some (Some (best, best_prev)) \<Rightarrow> Some (take_block s best best_prev sz)
         | Some None \<Rightarrow> bump_alloc img s sz align)"

definition kheap_free :: "kheap_state \<Rightarrow> u64 \<Rightarrow> kheap_state" where
  "kheap_free s ptr =
     (if ptr = 0 then s
      else let hdr = ptr - KHEAP_HEADER_SIZE;
               s1 = set_link (Next_Link hdr) (g_free_list s) s;
               s2 = set_link Head_Link hdr s1
           in if g_heap_bytes_allocated s2 \<ge> kh_size (kh_headers s2 hdr)
              then s2\<lparr>g_heap_bytes_allocated := g_heap_bytes_allocated s2 - kh_size (kh_headers s2 hdr)\<rparr>
              else s2)"

definition kheap_calloc :: "kernel_image \<Rightarrow> kheap_state \<Rightarrow> u64 \<Rightarrow> u64 \<Rightarrow> (u64 \<times> kheap_state) option" where
  "kheap_calloc img s sz align =
     (case kheap_alloc img s sz align of
        None \<Rightarrow> None
      | Some (result, s1) \<Rightarrow>
          if result = 0 then Some (0, s1)
          else Some (result, s1\<lparr>kh_bytes := (\<lambda>a. if a - result < sz then 0 else kh_bytes s1 a)\<rparr>))"

definition kheap_pages_allocated :: "kheap_state \<Rightarrow> u64" where
  "kheap_pages_allocated s = g_heap_pages s"

definition kheap_bytes_allocated :: "kheap_state \<Rightarrow> u64" where
  "kheap_bytes_allocated s = g_heap_bytes_allocated s"

end
