(* ===== verification/Kheap_Safety.thy ===== *)
theory Kheap_Safety
  imports Kheap Address_Space
begin

text \<open>
  Safety of the kernel heap. The free list in memory is described by the list of its headers; the
  blocks handed out by the bump allocator are disjoint, and reuse from the free list keeps the live
  allocations of every client disjoint from each other and from all headers. Two defects of the
  free list are proved as well: a search loses misaligned blocks, and a double free makes every later
  search endless.
\<close>

section \<open>Lists in the heap\<close>

fun path :: "(u64 \<Rightarrow> kheap_header) \<Rightarrow> u64 \<Rightarrow> u64 list \<Rightarrow> u64 \<Rightarrow> bool" where
  "path hs p [] q = (p = q)"
| "path hs p (a # as) q = (p \<noteq> 0 \<and> a = p \<and> path hs (kh_next_free (hs a)) as q)"

abbreviation free_chain :: "(u64 \<Rightarrow> kheap_header) \<Rightarrow> u64 \<Rightarrow> u64 list \<Rightarrow> bool" where
  "free_chain hs p as \<equiv> path hs p as 0"

lemma path_append [simp]: "path hs p (as @ bs) q \<longleftrightarrow> (\<exists>r. path hs p as r \<and> path hs r bs q)"
  by (induction as arbitrary: p) auto

lemma path_cong:
  "\<forall>a \<in> set as. kh_next_free (hs' a) = kh_next_free (hs a) \<Longrightarrow> path hs' p as q = path hs p as q"
  by (induction as arbitrary: p) auto

lemma path_0 [simp]: "path hs 0 as q \<longleftrightarrow> as = [] \<and> q = 0"
  by (cases as) auto

text \<open>The cell that holds the pointer to what follows the list \<open>as\<close>.\<close>

definition link_after :: "u64 list \<Rightarrow> link" where
  "link_after as = (if as = [] then Head_Link else Next_Link (last as))"

lemma link_after_snoc [simp]: "link_after (as @ [a]) = Next_Link a" "link_after [] = Head_Link"
  by (simp_all add: link_after_def)

section \<open>The search on lists\<close>

fun scan_list ::
  "(u64 \<Rightarrow> kheap_header) \<Rightarrow> u64 \<Rightarrow> u64 \<Rightarrow> link \<Rightarrow> (u64 \<times> link) option \<Rightarrow> u64 list \<Rightarrow> (u64 \<times> link) option" where
  "scan_list hs sz align prev best [] = best"
| "scan_list hs sz align prev best (cur # rest) =
     (if kh_size (hs cur) \<ge> sz
      then if (cur + KHEAP_HEADER_SIZE) AND (align - 1) \<noteq> 0 then scan_list hs sz align prev best rest
           else scan_list hs sz align (Next_Link cur)
                  (case best of
                     None \<Rightarrow> Some (cur, prev)
                   | Some (b, l) \<Rightarrow> if kh_size (hs cur) < kh_size (hs b) then Some (cur, prev) else best) rest
      else scan_list hs sz align (Next_Link cur) best rest)"

lemma free_scan_list:
  "free_chain hs cur as \<Longrightarrow> free_scan hs sz align prev best cur = Some (scan_list hs sz align prev best as)"
  by (induction as arbitrary: cur prev best) (subst free_scan.simps, simp)+

text \<open>
  What the search returns: a fitting block of the list, and the cell after a part \<open>A\<close> of the list that
  need not end right before the block.
\<close>

definition fits :: "(u64 \<Rightarrow> kheap_header) \<Rightarrow> u64 \<Rightarrow> u64 \<Rightarrow> u64 \<Rightarrow> bool" where
  "fits hs sz align b \<longleftrightarrow> sz \<le> kh_size (hs b) \<and> (b + KHEAP_HEADER_SIZE) AND (align - 1) = 0"

definition found_in :: "(u64 \<Rightarrow> kheap_header) \<Rightarrow> u64 \<Rightarrow> u64 \<Rightarrow> u64 list \<Rightarrow> u64 \<times> link \<Rightarrow> bool" where
  "found_in hs sz align fs r \<longleftrightarrow>
     (\<exists>A B C. fs = A @ B @ fst r # C \<and> snd r = link_after A) \<and> fits hs sz align (fst r)"

lemma scan_list_found:
  assumes "scan_list hs sz align prev best suf = Some r"
    and "fs = A @ B @ suf" "prev = link_after A" "\<And>r. best = Some r \<Longrightarrow> found_in hs sz align fs r"
  shows "found_in hs sz align fs r"
  using assms
proof (induction suf arbitrary: prev best A B)
  case (Cons cur rest)
  show ?case
  proof (cases "sz \<le> kh_size (hs cur) \<and> (cur + KHEAP_HEADER_SIZE) AND (align - 1) \<noteq> 0")
    case True
    then show ?thesis using Cons.IH [of prev best A "B @ [cur]"] Cons.prems by simp
  next
    case False
    let ?best = "if sz \<le> kh_size (hs cur) then case best of None \<Rightarrow> Some (cur, prev)
        | Some (b, l) \<Rightarrow> if kh_size (hs cur) < kh_size (hs b) then Some (cur, prev) else best else best"
    have "scan_list hs sz align (Next_Link cur) ?best rest = Some r" using Cons.prems(1) False by (simp split: if_splits)
    moreover have "fs = (A @ B @ [cur]) @ [] @ rest" "Next_Link cur = link_after (A @ B @ [cur])"
      using Cons.prems(2) link_after_snoc(1) [of "A @ B" cur] by simp_all
    moreover have "found_in hs sz align fs (cur, prev)" if "sz \<le> kh_size (hs cur)"
      using Cons.prems(2,3) False that by (auto simp: found_in_def fits_def)
    then have "?best = Some x \<Longrightarrow> found_in hs sz align fs x" for x
      using Cons.prems(4) by (auto split: if_splits option.splits)
    ultimately show ?thesis using Cons.IH by blast
  qed
qed simp

section \<open>Unlinking\<close>

lemma set_link_fields [simp]:
  "kh_vm (set_link l v s) = kh_vm s" "g_heap_next (set_link l v s) = g_heap_next s"
  "kh_size (kh_headers (set_link l v s) h) = kh_size (kh_headers s h)"
  "g_heap_mapped_end (set_link l v s) = g_heap_mapped_end s"
  by (simp_all add: set_link_def split: link.splits)

lemma unlink_chain:
  assumes c: "free_chain (kh_headers s) (g_free_list s) (A @ B @ b # C)" and d: "distinct (A @ B @ b # C)"
    and s': "s' = set_link (Next_Link b) 0 (set_link (link_after A) (kh_next_free (kh_headers s b)) s)"
  shows "free_chain (kh_headers s') (g_free_list s') (A @ C)"
proof -
  have "free_chain (kh_headers s) (kh_next_free (kh_headers s b)) C" using c by auto
  then have tail: "free_chain (kh_headers s') (kh_next_free (kh_headers s b)) C"
  proof (subst path_cong)
    show "\<forall>a\<in>set C. kh_next_free (kh_headers s' a) = kh_next_free (kh_headers s a)"
      using d by (cases A rule: rev_cases) (auto simp: s' set_link_def)
  qed
  show ?thesis
  proof (cases A rule: rev_cases)
    case Nil
    then show ?thesis using tail by (simp add: s' set_link_def)
  next
    case (snoc A' a)
    then have "path (kh_headers s) (g_free_list s) A' a" "a \<noteq> 0" using c by auto
    moreover have "\<forall>x\<in>set A'. kh_next_free (kh_headers s' x) = kh_next_free (kh_headers s x)"
      using d snoc by (auto simp: s' set_link_def)
    moreover have "g_free_list s' = g_free_list s" "kh_next_free (kh_headers s' a) = kh_next_free (kh_headers s b)"
      using d snoc by (auto simp: s' set_link_def)
    ultimately show ?thesis using tail path_cong [of A' "kh_headers s'" "kh_headers s"] by (simp add: snoc)
  qed
qed

section \<open>Alignment\<close>

lemma align_up_aligned: "align_up v a AND (a - 1) = 0"
proof -
  have "((v + a - 1) AND NOT (a - 1)) AND (a - 1) = 0"
    unfolding word_and_0_iff by (auto simp: bit_and_iff bit_not_iff)
  then show ?thesis by (simp add: align_up_def)
qed

lemma unat_and_le: "unat (a AND b :: u64) \<le> unat b"
proof -
  have "uint (a AND b) \<le> uint b" by (simp add: unsigned_and_eq AND_upper2)
  then show ?thesis using nat_mono [of "uint (a AND b)" "uint b"] by (simp only: nat_uint_eq)
qed

lemma align_up_ge:
  assumes "unat v + unat (a - 1) < 2 ^ 64"
  shows "unat v \<le> unat (align_up v a)"
proof -
  let ?y = "v + (a - 1)"
  have y: "unat ?y = unat v + unat (a - 1)" using assms by (simp add: unat_word_ariths)
  have s: "?y = (?y AND NOT (a - 1)) + (?y AND (a - 1))"
    by (simp add: disjunctive_add [of "?y AND NOT (a - 1)" "?y AND (a - 1)"] bit_and_iff bit_not_iff)
       (rule bit_word_eqI, auto simp: bit_or_iff bit_and_iff bit_not_iff)
  have "unat ?y \<le> unat (?y AND NOT (a - 1)) + unat (?y AND (a - 1))"
    using unat_plus_bound [of "?y AND NOT (a - 1)" "?y AND (a - 1)"] s by metis
  then have "unat v \<le> unat (?y AND NOT (a - 1))" using y unat_and_le [of ?y "a - 1"] by linarith
  then show ?thesis by (simp add: align_up_def add_diff_eq)
qed

lemma aligned_coarser:
  assumes "p AND (16 - 1) = (0 :: u64)" "a < 16" "a \<noteq> 0"
  shows "p AND (a - 1) = 0"
proof -
  have m: "bit (16 - 1 :: u64) n \<longleftrightarrow> n < 4" for n
  proof -
    have "(16 - 1 :: u64) = mask 4" by (simp add: mask_eq_exp_minus_1)
    then show ?thesis by (simp only: bit_mask_iff) auto
  qed
  have "unat (a - 1) < 16" using assms by (simp add: word_less_nat_alt unat_minus_one)
  then have "a - 1 < 2 ^ 4" by (simp add: word_less_nat_alt)
  then have "bit (a - 1) n \<Longrightarrow> n < 4" for n using small_bits [of "a - 1" 4 n] by (cases "n < 4") auto
  then show ?thesis using assms(1) unfolding word_and_0_iff m by blast
qed

section \<open>The heap invariant\<close>

text \<open>The addresses a block occupies, header included.\<close>

definition block_range :: "(u64 \<Rightarrow> kheap_header) \<Rightarrow> u64 \<Rightarrow> nat set" where
  "block_range hs h = {unat h ..< unat h + 16 + unat (kh_size (hs h))}"

text \<open>\<open>bs\<close> are the headers of all blocks ever created, \<open>fs\<close> the free list.\<close>

definition kheap_inv :: "kheap_state \<Rightarrow> u64 set \<Rightarrow> u64 list \<Rightarrow> bool" where
  "kheap_inv s bs fs \<longleftrightarrow>
     free_chain (kh_headers s) (g_free_list s) fs \<and> distinct fs \<and> set fs \<subseteq> bs \<and>
     unat KHEAP_BASE \<le> unat (g_heap_next s) \<and> unat (g_heap_next s) \<le> unat KHEAP_LIMIT \<and>
     (\<forall>h \<in> bs. unat KHEAP_BASE \<le> unat h \<and> unat h + 16 + unat (kh_size (kh_headers s h)) \<le> unat (g_heap_next s)) \<and>
     (\<forall>h \<in> bs. \<forall>h' \<in> bs. h \<noteq> h' \<longrightarrow> block_range (kh_headers s) h \<inter> block_range (kh_headers s) h' = {})"

lemma kheap_limits: "unat KHEAP_BASE = 0x4a000000" "unat KHEAP_LIMIT = 0x4b000000"
  by (simp_all add: KHEAP_BASE_def KHEAP_LIMIT_def KHEAP_SIZE_def)

lemma kheap_invD:
  assumes "kheap_inv s bs fs"
  shows "free_chain (kh_headers s) (g_free_list s) fs" "distinct fs" "set fs \<subseteq> bs"
    "unat KHEAP_BASE \<le> unat (g_heap_next s)" "unat (g_heap_next s) \<le> unat KHEAP_LIMIT"
    "h \<in> bs \<Longrightarrow> unat KHEAP_BASE \<le> unat h"
    "h \<in> bs \<Longrightarrow> unat h + 16 + unat (kh_size (kh_headers s h)) \<le> unat (g_heap_next s)"
    "h \<in> bs \<Longrightarrow> h' \<in> bs \<Longrightarrow> h \<noteq> h' \<Longrightarrow> block_range (kh_headers s) h \<inter> block_range (kh_headers s) h' = {}"
  using assms unfolding kheap_inv_def by blast+

lemma kheap_inv_init: "kheap_inv (kheap_init s) {} []"
  by (simp add: kheap_inv_def kheap_init_def KHEAP_BASE_def KHEAP_LIMIT_def KHEAP_SIZE_def)

lemma unat_data:
  assumes "kheap_inv s bs fs" "h \<in> bs"
  shows "unat (h + KHEAP_HEADER_SIZE) = unat h + 16"
proof -
  have "unat h + 16 < 2 ^ 64" using kheap_invD(5) [OF assms(1)] kheap_invD(7) [OF assms] kheap_limits by simp
  then show ?thesis by (simp add: unat_word_ariths KHEAP_HEADER_SIZE_def)
qed

text \<open>Taking a block from the free list.\<close>

lemma take_block_inv:
  assumes inv: "kheap_inv s bs fs" and f: "found_in (kh_headers s) sz align fs (b, l)"
  obtains fs' s' where "take_block s b l sz = (b + KHEAP_HEADER_SIZE, s')" "kheap_inv s' bs fs'"
    "set fs' \<subseteq> set fs - {b}" "b \<in> set fs" "kh_size \<circ> kh_headers s' = kh_size \<circ> kh_headers s"
proof -
  obtain A B C where fs: "fs = A @ B @ b # C" "l = link_after A" using f by (auto simp: found_in_def)
  define s1 where "s1 = set_link (Next_Link b) 0 (set_link (link_after A) (kh_next_free (kh_headers s b)) s)"
  define s' where "s' = s1\<lparr>g_heap_bytes_allocated := g_heap_bytes_allocated s1 + sz\<rparr>"
  have t: "take_block s b l sz = (b + KHEAP_HEADER_SIZE, s')"
    by (simp add: take_block_def s'_def s1_def fs(2) Let_def)
  have c: "free_chain (kh_headers s') (g_free_list s') (A @ C)"
    using unlink_chain [OF _ _ s1_def, of B C] kheap_invD(1,2) [OF inv] fs(1) by (simp add: s'_def del: path_append)
  have sz: "kh_size (kh_headers s' h) = kh_size (kh_headers s h)" for h by (simp add: s'_def s1_def)
  have r: "block_range (kh_headers s') h = block_range (kh_headers s) h" for h by (simp add: block_range_def sz)
  have n: "g_heap_next s' = g_heap_next s" by (simp add: s'_def s1_def)
  have d: "distinct (A @ C)" "set (A @ C) \<subseteq> set fs - {b}" using kheap_invD(2) [OF inv] fs(1) by auto
  have "kheap_inv s' bs (A @ C)"
    unfolding kheap_inv_def r sz n using c d kheap_invD [OF inv] by (auto simp del: path_append)
  then show ?thesis using that t d(2) fs(1) sz by (auto simp: fun_eq_iff)
qed

text \<open>Mapping more pages leaves the heap data alone.\<close>

lemma map_loop_heap:
  assumes "map_loop img stop mapped s = Some (st, s')"
  shows "kh_headers s' = kh_headers s \<and> g_free_list s' = g_free_list s \<and> g_heap_next s' = g_heap_next s"
proof -
  define keeps where "keeps = (\<lambda>(s :: kheap_state) (r :: xaios_status \<times> kheap_state). kh_headers (snd r) = kh_headers s \<and>
    g_free_list (snd r) = g_free_list s \<and> g_heap_next (snd r) = g_heap_next s)"
  have "keeps s (st, s')"
    by (rule map_loop.raw_induct [where P = "\<lambda>img stop mapped s r. keeps s r", OF _ assms])
       (fastforce simp: keeps_def Let_def split: if_splits option.splits prod.splits)
  then show ?thesis by (simp add: keeps_def)
qed

text \<open>A block from the bump allocator lies above every other block.\<close>

lemma data_start_ge:
  assumes inv: "kheap_inv s bs fs" and a: "16 \<le> align" "unat align \<le> 2 ^ 63"
  shows "unat (g_heap_next s) + 16 \<le> unat (align_up (g_heap_next s + KHEAP_HEADER_SIZE) align)"
proof -
  note lim = kheap_invD(4,5) [OF inv] kheap_limits
  have n16: "unat (g_heap_next s + KHEAP_HEADER_SIZE) = unat (g_heap_next s) + 16"
    using lim by (simp add: unat_word_ariths KHEAP_HEADER_SIZE_def)
  have "align \<noteq> 0" using a(1) by auto
  then have "unat (align - 1) < unat align" by (simp add: unat_minus_one unat_gt_0)
  then show ?thesis using align_up_ge [of "g_heap_next s + KHEAP_HEADER_SIZE" align] n16 lim a(2) by simp
qed

lemma bump_inv:
  assumes inv: "kheap_inv s bs fs" and r: "bump_alloc img s sz align = Some (p, s')" "p \<noteq> 0"
    and a: "16 \<le> align" "unat align \<le> 2 ^ 63"
  shows "kheap_inv s' (insert (p - KHEAP_HEADER_SIZE) bs) fs" "p - KHEAP_HEADER_SIZE \<notin> bs" "p AND (align - 1) = 0"
    "kh_size (kh_headers s' (p - KHEAP_HEADER_SIZE)) = sz" "\<forall>h \<in> bs. kh_size (kh_headers s' h) = kh_size (kh_headers s h)"
    "unat (p - KHEAP_HEADER_SIZE) + 16 = unat p"
proof -
  define h where "h = p - KHEAP_HEADER_SIZE"
  obtain s1 where p: "p = align_up (g_heap_next s + KHEAP_HEADER_SIZE) align" "\<not> (p + sz < p \<or> p + sz > KHEAP_LIMIT)"
    and m: "map_loop img (align_up (p + sz) PAGE_SIZE) (g_heap_mapped_end s) s = Some (XAIOS_OK, s1)"
    and s': "s' = s1\<lparr>kh_headers := (kh_headers s1)(h := \<lparr>kh_size = sz, kh_next_free = 0\<rparr>),
                  g_heap_next := p + sz, g_heap_bytes_allocated := g_heap_bytes_allocated s1 + sz\<rparr>"
    using r by (auto simp: bump_alloc_def Let_def ensure_mapped_def h_def split: if_splits option.splits)
  have s1: "kh_headers s1 = kh_headers s" "g_free_list s1 = g_free_list s" using map_loop_heap [OF m] by auto
  note lim = kheap_invD(4,5) [OF inv] kheap_limits
  have ge: "unat (g_heap_next s) + 16 \<le> unat p" using data_start_ge [OF inv a] by (simp add: p(1))
  then have hp: "unat h + 16 = unat p" by (simp add: h_def KHEAP_HEADER_SIZE_def unat_sub_le word_le_nat_alt)
  have "p \<le> p + sz" using p(2) by (simp add: not_less)
  then have ps: "unat (p + sz) = unat p + unat sz" by (simp add: unat_plus_simple)
  have fresh: "unat h' + 16 + unat (kh_size (kh_headers s h')) \<le> unat h" if "h' \<in> bs" for h'
    using kheap_invD(7) [OF inv that] ge hp by simp
  then have nb: "h \<notin> bs" by fastforce
  have same: "kh_headers s' h' = kh_headers s h'" if "h' \<in> bs" for h' using that nb by (auto simp: s' s1)
  have c: "free_chain (kh_headers s') (g_free_list s') fs"
    using kheap_invD(1,3) [OF inv] nb by (subst path_cong [of _ _ "kh_headers s"]) (auto simp: s' s1)
  have dj: "block_range (kh_headers s') h \<inter> block_range (kh_headers s') h' = {}" if "h' \<in> bs" for h'
    using fresh [OF that] same [OF that] by (auto simp: block_range_def)
  have rs: "block_range (kh_headers s') h' = block_range (kh_headers s) h'" if "h' \<in> bs" for h'
    using same [OF that] by (simp add: block_range_def)
  have top: "unat (p + sz) \<le> unat KHEAP_LIMIT" "unat (g_heap_next s) \<le> unat (p + sz)"
    using p(2) ge ps by (auto simp: word_le_nat_alt not_less)
  have bd: "unat KHEAP_BASE \<le> unat h' \<and> unat h' + 16 + unat (kh_size (kh_headers s' h')) \<le> unat (p + sz)" if "h' \<in> insert h bs" for h'
    using that kheap_invD(6,7) [OF inv, of h'] same [of h'] lim ge hp ps top by (auto simp: s')
  show "kheap_inv s' (insert (p - KHEAP_HEADER_SIZE) bs) fs"
    unfolding h_def [symmetric] kheap_inv_def
    using c kheap_invD(2,3,8) [OF inv] bd dj rs top lim by (auto simp: s' Int_commute)
  show "p - KHEAP_HEADER_SIZE \<notin> bs" "\<forall>h \<in> bs. kh_size (kh_headers s' h) = kh_size (kh_headers s h)"
    "unat (p - KHEAP_HEADER_SIZE) + 16 = unat p"
    using nb same hp by (auto simp: h_def)
  show "p AND (align - 1) = 0" using align_up_aligned p(1) by simp
  show "kh_size (kh_headers s' (p - KHEAP_HEADER_SIZE)) = sz" by (simp add: s' flip: h_def)
qed

section \<open>Clients\<close>

lemma top_bit: "bit (a :: u64) 63 \<longleftrightarrow> 2 ^ 63 \<le> unat a"
proof -
  have "unat a < 2 ^ 64" using unsigned_less [of a] by simp
  then have "unat a div 2 ^ 63 < 2" by (simp add: div_less_iff_less_mult)
  then have "odd (unat a div 2 ^ 63) \<longleftrightarrow> unat a div 2 ^ 63 = 1" by (auto simp: less_2_cases_iff)
  also have "\<dots> \<longleftrightarrow> 2 ^ 63 \<le> unat a" using \<open>unat a div 2 ^ 63 < 2\<close> by (auto simp: less_2_cases_iff div_eq_0_iff)
  finally have "bit (unat a) 63 \<longleftrightarrow> 2 ^ 63 \<le> unat a" unfolding bit_iff_odd [of "unat a"] .
  then show ?thesis by (simp add: bit_unsigned_iff)
qed

lemma power_of_two_bound:
  assumes "align AND (align - 1) = (0 :: u64)" "align \<noteq> 0"
  shows "unat align \<le> 2 ^ 63"
proof (rule ccontr)
  assume n: "\<not> ?thesis"
  have "unat (align - 1) = unat align - 1" using assms(2) by (simp add: unat_minus_one)
  then have "2 ^ 63 \<le> unat align" "2 ^ 63 \<le> unat (align - 1)" using n by simp_all
  then show False using assms(1) unfolding word_and_0_iff top_bit [symmetric] by blast
qed

lemma kheap_alloc_inv:
  assumes inv: "kheap_inv s bs fs" and r: "kheap_alloc img s sz align = Some (p, s')" "p \<noteq> 0"
  obtains bs' fs' where "kheap_inv s' bs' fs'" "p - KHEAP_HEADER_SIZE \<in> bs'" "bs \<subseteq> bs'"
    "p - KHEAP_HEADER_SIZE \<notin> bs - set fs" "set fs' \<subseteq> set fs - {p - KHEAP_HEADER_SIZE}"
    "\<forall>h \<in> bs. kh_size (kh_headers s' h) = kh_size (kh_headers s h)"
    "sz \<le> kh_size (kh_headers s' (p - KHEAP_HEADER_SIZE))" "p AND (align - 1) = 0" "unat (p - KHEAP_HEADER_SIZE) + 16 = unat p"
proof -
  let ?al = "if align < KHEAP_HEADER_SIZE then KHEAP_HEADER_SIZE else align"
  have v: "sz \<noteq> 0" "align \<noteq> 0" "align AND (align - 1) = 0"
    using r by (auto simp: kheap_alloc_def split: if_splits)
  have al: "16 \<le> ?al" by (auto simp: KHEAP_HEADER_SIZE_def not_less)
  have al2: "unat ?al \<le> 2 ^ 63" using power_of_two_bound [OF v(3,2)] by (auto simp: KHEAP_HEADER_SIZE_def)
  have fine: "p AND (align - 1) = 0" if "p AND (?al - 1) = 0"
    using that aligned_coarser [of p align] v(2) by (auto simp: KHEAP_HEADER_SIZE_def split: if_splits)
  have sc: "free_scan (kh_headers s) sz ?al Head_Link None (g_free_list s) =
      Some (scan_list (kh_headers s) sz ?al Head_Link None fs)"
    by (rule free_scan_list [OF kheap_invD(1) [OF inv]])
  show ?thesis
  proof (cases "scan_list (kh_headers s) sz ?al Head_Link None fs")
    case None
    then have b: "bump_alloc img s sz ?al = Some (p, s')"
      using r(1) v sc by (simp add: kheap_alloc_def Let_def)
    note bi = bump_inv [OF inv b r(2) al al2]
    show ?thesis
    proof (rule that [of "insert (p - KHEAP_HEADER_SIZE) bs" fs])
      show "set fs \<subseteq> set fs - {p - KHEAP_HEADER_SIZE}" using bi(2) kheap_invD(3) [OF inv] by blast
    qed (use bi fine in auto)
  next
    case (Some br)
    then obtain b l where bl: "br = (b, l)" by (cases br)
    have f: "found_in (kh_headers s) sz ?al fs (b, l)"
      by (rule scan_list_found [OF Some [unfolded bl], of fs "[]" "[]"]) simp_all
    obtain fs' s1 where t: "take_block s b l sz = (b + KHEAP_HEADER_SIZE, s1)" "kheap_inv s1 bs fs'"
        "set fs' \<subseteq> set fs - {b}" "b \<in> set fs" "kh_size \<circ> kh_headers s1 = kh_size \<circ> kh_headers s"
      using take_block_inv [OF inv f] by metis
    have p: "p = b + KHEAP_HEADER_SIZE" "s' = s1" using r(1) v sc Some bl t(1) by (simp_all add: kheap_alloc_def Let_def)
    have bb: "b \<in> bs" using t(4) kheap_invD(3) [OF inv] by blast
    have szs: "kh_size (kh_headers s1 h) = kh_size (kh_headers s h)" for h using t(5) by (simp add: fun_eq_iff)
    have "unat b + 16 = unat p" using unat_data [OF inv bb] p(1) by simp
    moreover have "sz \<le> kh_size (kh_headers s b)" "p AND (?al - 1) = 0" using f p(1) by (simp_all add: found_in_def fits_def)
    ultimately show ?thesis using that [of bs fs'] t bb szs p fine by auto
  qed
qed

datatype heap_op = Heap_Alloc u64 u64 | Heap_Free u64

text \<open>
  A client holds allocations with the size and alignment it asked for, and frees only pointers it holds.
\<close>

type_synonym allocation = "u64 \<times> u64 \<times> u64"

fun heap_run :: "kernel_image \<Rightarrow> kheap_state \<Rightarrow> allocation list \<Rightarrow> heap_op list \<Rightarrow> (kheap_state \<times> allocation list) option" where
  "heap_run img s live [] = Some (s, live)"
| "heap_run img s live (Heap_Alloc sz align # ops) =
     (case kheap_alloc img s sz align of
        None \<Rightarrow> None
      | Some (p, s') \<Rightarrow> heap_run img s' (if p = 0 then live else (p, sz, align) # live) ops)"
| "heap_run img s live (Heap_Free p # ops) =
     (if p \<in> fst ` set live then heap_run img (kheap_free s p) (filter (\<lambda>a. fst a \<noteq> p) live) ops
      else heap_run img s live ops)"

definition live_inv :: "kheap_state \<Rightarrow> u64 set \<Rightarrow> u64 list \<Rightarrow> allocation list \<Rightarrow> bool" where
  "live_inv s bs fs live \<longleftrightarrow> kheap_inv s bs fs \<and> distinct (map fst live) \<and>
     (\<forall>(p, sz, align) \<in> set live. p - KHEAP_HEADER_SIZE \<in> bs - set fs \<and>
        sz \<le> kh_size (kh_headers s (p - KHEAP_HEADER_SIZE)) \<and> p AND (align - 1) = 0 \<and>
        unat (p - KHEAP_HEADER_SIZE) + 16 = unat p)"

lemma kheap_alloc_null:
  assumes inv: "kheap_inv s bs fs" and r: "kheap_alloc img s sz align = Some (0, s')"
  shows "kheap_inv s' bs fs \<and> kh_headers s' = kh_headers s"
proof -
  have sc: "free_scan (kh_headers s) sz al Head_Link None (g_free_list s) = Some (scan_list (kh_headers s) sz al Head_Link None fs)" for al
    by (rule free_scan_list [OF kheap_invD(1) [OF inv]])
  have ds: "align_up (g_heap_next s + KHEAP_HEADER_SIZE) (if align < KHEAP_HEADER_SIZE then KHEAP_HEADER_SIZE else align) \<noteq> 0"
    if "align \<noteq> 0" "align AND (align - 1) = 0"
  proof -
    define al where "al = (if align < KHEAP_HEADER_SIZE then KHEAP_HEADER_SIZE else align)"
    have "16 \<le> al" "unat al \<le> 2 ^ 63"
      using power_of_two_bound [OF that(2,1)] by (auto simp: al_def KHEAP_HEADER_SIZE_def not_less)
    then have "unat (align_up (g_heap_next s + KHEAP_HEADER_SIZE) al) \<noteq> 0" using data_start_ge [OF inv] by fastforce
    then show ?thesis by (auto simp flip: al_def)
  qed
  have nn: "take_block s b l sz \<noteq> (0, x)" if "scan_list (kh_headers s) sz al Head_Link None fs = Some (b, l)" for b l al x
  proof -
    have "found_in (kh_headers s) sz al fs (b, l)" by (rule scan_list_found [OF that, of fs "[]" "[]"]) simp_all
    then have "b \<in> bs" using kheap_invD(3) [OF inv] by (auto simp: found_in_def)
    then have "unat (b + KHEAP_HEADER_SIZE) \<noteq> 0" using unat_data [OF inv] by simp
    then show ?thesis by (auto simp: take_block_def Let_def)
  qed
  have "s' = s \<or> (\<exists>stop st. ensure_mapped img s stop = Some (st, s'))"
    using r nn sc ds by (auto simp: kheap_alloc_def bump_alloc_def Let_def split: if_splits option.splits)
  then have "kh_headers s' = kh_headers s \<and> g_free_list s' = g_free_list s \<and> g_heap_next s' = g_heap_next s"
    by (auto simp: ensure_mapped_def dest!: map_loop_heap)
  then show ?thesis using inv by (simp add: kheap_inv_def)
qed

lemma kheap_free_inv:
  assumes inv: "kheap_inv s bs fs" and h: "p - KHEAP_HEADER_SIZE \<in> bs - set fs" "unat (p - KHEAP_HEADER_SIZE) + 16 = unat p"
  shows "kheap_inv (kheap_free s p) bs ((p - KHEAP_HEADER_SIZE) # fs)"
    "kh_size (kh_headers (kheap_free s p) h') = kh_size (kh_headers s h')"
proof -
  define h where "h = p - KHEAP_HEADER_SIZE"
  define s1 where "s1 = set_link Head_Link h (set_link (Next_Link h) (g_free_list s) s)"
  have "p \<noteq> 0" "h \<noteq> 0" using h(2) kheap_invD(6) [OF inv, of h] h(1) kheap_limits by (auto simp: h_def)
  have f: "kh_headers (kheap_free s p) = kh_headers s1" "g_free_list (kheap_free s p) = g_free_list s1"
    "g_heap_next (kheap_free s p) = g_heap_next s1"
    using \<open>p \<noteq> 0\<close> by (simp_all add: kheap_free_def Let_def s1_def h_def)
  have sz: "kh_size (kh_headers s1 x) = kh_size (kh_headers s x)" for x by (simp add: s1_def)
  have c: "free_chain (kh_headers s1) (g_free_list s1) (h # fs)"
  proof -
    have "free_chain (kh_headers s1) (g_free_list s) fs"
      using kheap_invD(1) [OF inv] h(1) by (subst path_cong [of _ _ "kh_headers s"]) (auto simp: s1_def set_link_def h_def)
    then show ?thesis using \<open>h \<noteq> 0\<close> by (simp add: s1_def set_link_def)
  qed
  have n: "g_heap_next s1 = g_heap_next s" by (simp add: s1_def)
  have r: "block_range (kh_headers s1) x = block_range (kh_headers s) x" for x by (simp add: block_range_def sz)
  have "distinct (h # fs)" "set (h # fs) \<subseteq> bs" using kheap_invD(2,3) [OF inv] h(1) by (auto simp: h_def)
  then show "kheap_inv (kheap_free s p) bs ((p - KHEAP_HEADER_SIZE) # fs)"
    unfolding h_def [symmetric] kheap_inv_def f r n sz
    using c kheap_invD(4-8) [OF inv] by (simp del: path.simps)
  show "kh_size (kh_headers (kheap_free s p) h') = kh_size (kh_headers s h')" by (simp add: f sz)
qed

lemma heap_run_inv:
  "live_inv s bs fs live \<Longrightarrow> heap_run img s live ops = Some (s', live') \<Longrightarrow> \<exists>bs' fs'. live_inv s' bs' fs' live'"
proof (induction ops arbitrary: s bs fs live)
  case (Cons x ops)
  note inv = Cons.prems(1) [unfolded live_inv_def, THEN conjunct1]
    and live = Cons.prems(1) [unfolded live_inv_def, THEN conjunct2]
  show ?case
  proof (cases x)
    case (Heap_Alloc sz align)
    then obtain p s1 where a: "kheap_alloc img s sz align = Some (p, s1)"
        "heap_run img s1 (if p = 0 then live else (p, sz, align) # live) ops = Some (s', live')"
      using Cons.prems(2) by (auto split: option.splits)
    show ?thesis
    proof (cases "p = 0")
      case True
      then have "live_inv s1 bs fs live" using kheap_alloc_null [OF inv] a(1) live by (simp add: live_inv_def)
      then show ?thesis using Cons.IH a(2) True by simp
    next
      case False
      obtain bs' fs' where k: "kheap_inv s1 bs' fs'" "p - KHEAP_HEADER_SIZE \<in> bs'" "bs \<subseteq> bs'"
        "p - KHEAP_HEADER_SIZE \<notin> bs - set fs" "set fs' \<subseteq> set fs - {p - KHEAP_HEADER_SIZE}"
        "\<forall>h \<in> bs. kh_size (kh_headers s1 h) = kh_size (kh_headers s h)"
        "sz \<le> kh_size (kh_headers s1 (p - KHEAP_HEADER_SIZE))" "p AND (align - 1) = 0" "unat (p - KHEAP_HEADER_SIZE) + 16 = unat p"
        using kheap_alloc_inv [OF inv a(1) False] by metis
      have "p \<notin> fst ` set live" using live k(4) by fastforce
      then have "live_inv s1 bs' fs' ((p, sz, align) # live)"
        using live k by (fastforce simp: live_inv_def)
      then show ?thesis using Cons.IH a(2) False by simp
    qed
  next
    case (Heap_Free p)
    show ?thesis
    proof (cases "p \<in> fst ` set live")
      case True
      then have p: "p - KHEAP_HEADER_SIZE \<in> bs - set fs" "unat (p - KHEAP_HEADER_SIZE) + 16 = unat p" using live by auto
      have "q - KHEAP_HEADER_SIZE \<noteq> p - KHEAP_HEADER_SIZE" if "q \<noteq> p" for q using that by simp
      then have "live_inv (kheap_free s p) bs ((p - KHEAP_HEADER_SIZE) # fs) (filter (\<lambda>a. fst a \<noteq> p) live)"
        using kheap_free_inv [OF inv p] live by (fastforce simp: live_inv_def distinct_map_filter)
      then show ?thesis using Cons.IH Cons.prems(2) Heap_Free True by auto
    next
      case False
      then show ?thesis using Cons.IH [OF Cons.prems(1)] Cons.prems(2) Heap_Free by simp
    qed
  qed
qed auto

section \<open>Properties\<close>

lemma ranges_apart:
  assumes "{a ..< b} \<inter> {c ..< d} = {}" "a < b" "c < (d :: nat)"
  shows "b \<le> c \<or> d \<le> a"
proof (rule ccontr)
  assume "\<not> ?thesis"
  then have "max a c \<in> {a ..< b} \<inter> {c ..< d}" using assms(2,3) by auto
  then show False using assms(1) by blast
qed

lemma live_apart:
  assumes "live_inv s bs fs live" "(p, sz, al) \<in> set live" "(q, tz, bl) \<in> set live" "p \<noteq> q"
  shows "unat p + unat sz + 16 \<le> unat q \<or> unat q + unat tz + 16 \<le> unat p"
proof -
  let ?h = "p - KHEAP_HEADER_SIZE" and ?k = "q - KHEAP_HEADER_SIZE"
  have inv: "kheap_inv s bs fs" using assms(1) by (simp add: live_inv_def)
  have l: "?h \<in> bs" "?k \<in> bs" "sz \<le> kh_size (kh_headers s ?h)" "tz \<le> kh_size (kh_headers s ?k)"
    "unat ?h + 16 = unat p" "unat ?k + 16 = unat q"
    using assms(1-3) by (auto simp: live_inv_def)
  have "?h \<noteq> ?k" using assms(4) by simp
  from kheap_invD(8) [OF inv l(1,2) this, unfolded block_range_def]
  have "unat ?h + 16 + unat (kh_size (kh_headers s ?h)) \<le> unat ?k \<or> unat ?k + 16 + unat (kh_size (kh_headers s ?k)) \<le> unat ?h"
    by (rule ranges_apart) simp_all
  then show ?thesis using l(3-6) by (auto simp: word_le_nat_alt)
qed

lemma self_loop_scan:
  assumes "kh_next_free (hs h) = h" "h \<noteq> 0"
  shows "free_scan hs sz align prev best h = None"
proof (cases "free_scan hs sz align prev best h")
  case (Some r)
  have "\<not> (h = h \<and> kh_next_free (hs h) = h)"
    by (rule free_scan.raw_induct [where P = "\<lambda>hs sz align prev best c r. \<not> (c = h \<and> kh_next_free (hs h) = h)", OF _ Some])
       (use assms(2) in \<open>auto split: if_splits\<close>)
  then show ?thesis using assms(1) by blast
qed

text \<open>
  A double free makes the heap unusable. After freeing the same pointer twice its header is its own
  successor, and no valid allocation request ever returns again.
\<close>

theorem double_free_hangs:
  assumes "p \<noteq> 0" "p \<noteq> KHEAP_HEADER_SIZE" "sz \<noteq> 0" "align \<noteq> 0" "align AND (align - 1) = 0"
  shows "kheap_alloc img (kheap_free (kheap_free s p) p) sz align = None"
proof -
  let ?s = "kheap_free (kheap_free s p) p" and ?h = "p - KHEAP_HEADER_SIZE"
  have "?h \<noteq> 0" using assms(2) by simp
  moreover have "g_free_list ?s = ?h" "kh_next_free (kh_headers ?s ?h) = ?h"
    using assms(1) by (simp_all add: kheap_free_def set_link_def Let_def)
  ultimately show ?thesis using assms(3-5) self_loop_scan by (simp add: kheap_alloc_def Let_def)
qed

text \<open>
  The search loses free blocks. When a block on the free list is large enough but misaligned for the
  request, and a later block fits, unlinking the later block goes through a stale cell and also removes the
  misaligned one: here both blocks leave the list, although only one was allocated.
\<close>

theorem misaligned_free_block_lost:
  assumes "free_chain (kh_headers s) (g_free_list s) [x, y]" "x \<noteq> y"
    and "sz \<noteq> 0" "16 \<le> align" "align AND (align - 1) = 0"
    and "sz \<le> kh_size (kh_headers s x)" "(x + KHEAP_HEADER_SIZE) AND (align - 1) \<noteq> 0"
    and "fits (kh_headers s) sz align y"
  shows "\<exists>s'. kheap_alloc img s sz align = Some (y + KHEAP_HEADER_SIZE, s') \<and> g_free_list s' = 0"
proof -
  have "scan_list (kh_headers s) sz align Head_Link None [x, y] = Some (y, Head_Link)"
    using assms(6-8) by (simp add: fits_def)
  moreover have "\<not> align < KHEAP_HEADER_SIZE" "align \<noteq> 0" using assms(4) by (auto simp: KHEAP_HEADER_SIZE_def)
  moreover have "kh_next_free (kh_headers s y) = 0" using assms(1) by auto
  ultimately show ?thesis
    using free_scan_list [OF assms(1), of sz align Head_Link None] assms(3,5)
    by (simp add: kheap_alloc_def Let_def take_block_def set_link_def)
qed

text \<open>A heap with two free blocks of 64 bytes, the first not aligned to 32.\<close>

definition demo_free_list :: kheap_state where
  "demo_free_list = \<lparr>kh_vm = demo_vm, g_heap_next = 0x4a0000a0, g_heap_mapped_end = 0x4a001000, g_heap_pages = 1,
     g_heap_bytes_allocated = 0, g_free_list = 0x4a000000,
     kh_headers = (\<lambda>a. \<lparr>kh_size = 64, kh_next_free = if a = 0x4a000000 then 0x4a000050 else 0\<rparr>), kh_bytes = (\<lambda>_. 0)\<rparr>"

theorem double_free_hangs_witness:
  "kheap_alloc demo_image (kheap_free (kheap_free demo_free_list 0x4a0000b0) 0x4a0000b0) 8 16 = None"
  by (rule double_free_hangs) (simp_all add: KHEAP_HEADER_SIZE_def)

theorem misaligned_free_block_lost_witness:
  "\<exists>s'. kheap_alloc demo_image demo_free_list 48 32 = Some (0x4a000060, s') \<and> g_free_list s' = 0"
  using misaligned_free_block_lost [of demo_free_list "0x4a000000" "0x4a000050" 48 32 demo_image]
  by (simp add: demo_free_list_def fits_def KHEAP_HEADER_SIZE_def)

end
