(* ===== verification/Kheap_Paging.thy ===== *)
theory Kheap_Paging
  imports Kheap_Safety
begin

text \<open>
  The heap on top of the page tables: its mapping loop maps every page it counts, so that a heap whose
  window is mapped stays mapped, and an allocation that fits succeeds and is writable byte by byte.
\<close>

abbreviation KHEAP_FLAGS :: u32 where
  "KHEAP_FLAGS \<equiv> XAIOS_VMM_PRESENT OR XAIOS_VMM_WRITABLE"

lemma kheap_flags:
  "KHEAP_FLAGS AND XAIOS_VMM_PRESENT \<noteq> 0" "KHEAP_FLAGS AND XAIOS_VMM_EXECUTABLE = 0"
  "(KHEAP_FLAGS AND READ_BACK OR mmio_flag s w) AND XAIOS_VMM_WRITABLE \<noteq> 0"
proof -
  show "KHEAP_FLAGS AND XAIOS_VMM_PRESENT \<noteq> 0" by (simp add: XAIOS_VMM_PRESENT_def XAIOS_VMM_WRITABLE_def)
qed (simp_all add: flag_tests bit_or_iff bit_and_iff READ_BACK_def)

definition writable_at :: "kernel_image \<Rightarrow> vm_state \<Rightarrow> u64 \<Rightarrow> bool" where
  "writable_at img vm w \<longleftrightarrow> (\<exists>pa fl. vmm_translate img vm w = Some (pa, fl) \<and> fl AND XAIOS_VMM_WRITABLE \<noteq> 0)"

definition page_at :: "nat \<Rightarrow> u64" where
  "page_at a = of_nat (a * 4096)"

lemma page_at_facts:
  assumes "a * 4096 < 2 ^ 32"
  shows "unat (page_at a) = a * 4096" "page_aligned (page_at a)" "l0_index (page_at a) = 0" "page_at a + PAGE_SIZE = page_at (Suc a)"
proof -
  show u: "unat (page_at a) = a * 4096" unfolding page_at_def by (rule unat_of_nat_small) (use assms in simp)
  then show "page_aligned (page_at a)" unfolding page_aligned_unat by simp
  have "unat (l0_index (page_at a)) = 0" unfolding unat_va_index u using assms by simp
  then show "l0_index (page_at a) = 0" by (simp add: unat_eq_0)
  show "page_at a + PAGE_SIZE = page_at (Suc a)" by (simp add: PAGE_SIZE_def page_at_def)
qed

lemma map_loop_spec:
  assumes "vm_inv img (kh_vm s)" "a \<le> b" "b * 4096 < 2 ^ 32" "3 * (b - a) \<le> card (vm_free (kh_vm s))"
  shows "\<exists>s'. map_loop img (page_at b) (page_at a) s = Some (XAIOS_OK, s') \<and> vm_inv img (kh_vm s') \<and>
    g_heap_mapped_end s' = page_at b \<and> card (vm_free (kh_vm s)) \<le> card (vm_free (kh_vm s')) + 3 * (b - a) \<and>
    vm_free (kh_vm s') \<subseteq> vm_free (kh_vm s) \<and> same_mmio (kh_vm s) (kh_vm s') \<and>
    (\<forall>w. unat w < 2 ^ 32 \<longrightarrow> (if a * 4096 \<le> unat w \<and> unat w < b * 4096 then writable_at img (kh_vm s') w
       else vmm_translate img (kh_vm s') w = vmm_translate img (kh_vm s) w))"
  using assms(1,2,4)
proof (induction "b - a" arbitrary: a s)
  case 0
  then have "a = b" by simp
  then show ?case using 0 by (subst map_loop.simps) auto
next
  case (Suc d)
  let ?vm = "kh_vm s"
  have ab: "a < b" "a * 4096 < 2 ^ 32" using Suc.hyps(2) assms(3) by simp_all
  note pa = page_at_facts [OF ab(2)]
  have lt: "page_at a < page_at b"
    using ab(1) page_at_facts(1) [OF assms(3)] pa(1) by (simp add: word_less_nat_alt)
  have c3: "3 \<le> card (vm_free ?vm)" using Suc.prems(3) ab(1) by simp
  then have ne: "vm_free ?vm \<noteq> {}" by auto
  obtain p n where al: "pmm_alloc_page (pm_numa (vm_pmm ?vm)) = Some (p, n)" "p = 0 \<longleftrightarrow> vm_free ?vm = {}"
    by (rule pmm.alloc_total [OF vm_invD(1) [OF Suc.prems(1)]])
  have p0: "p \<noteq> 0" using al(2) ne by simp
  define vm where "vm = ?vm\<lparr>vm_pmm := (vm_pmm ?vm)\<lparr>pm_numa := n\<rparr>\<rparr>"
  note v = vm_inv_alloc [OF Suc.prems(1) al(1) p0 vm_def]
  have cv: "card (vm_free ?vm) \<le> card (vm_free vm) + 1" using v(2,3) c3 by (simp add: card_Diff_singleton)
  then have c2: "2 \<le> card (vm_free vm)" using c3 by simp
  obtain vm1 where m: "vmm_map_page img vm (page_at a) p KHEAP_FLAGS = Some (XAIOS_OK, vm1)" "vm_inv img vm1"
      "card (vm_free vm) \<le> card (vm_free vm1) + 2" "vm_free vm1 \<subseteq> vm_free vm" "same_mmio vm vm1"
      "\<And>w. vmm_translate img vm1 w =
        (if same_page (page_at a) w then Some (p + (w AND 0xfff), KHEAP_FLAGS AND READ_BACK OR mmio_flag vm w)
         else vmm_translate img vm w)"
    using map_page_spec [OF v(1) c2 pa(2,3) v(4) kheap_flags(1,2)] by metis
  define s1 where "s1 = s\<lparr>kh_vm := vm1, g_heap_pages := g_heap_pages s + 1\<rparr>"
  have "\<exists>s'. map_loop img (page_at b) (page_at (Suc a)) s1 = Some (XAIOS_OK, s') \<and> vm_inv img (kh_vm s') \<and>
    g_heap_mapped_end s' = page_at b \<and> card (vm_free (kh_vm s1)) \<le> card (vm_free (kh_vm s')) + 3 * (b - Suc a) \<and>
    vm_free (kh_vm s') \<subseteq> vm_free (kh_vm s1) \<and> same_mmio (kh_vm s1) (kh_vm s') \<and>
    (\<forall>w. unat w < 2 ^ 32 \<longrightarrow> (if Suc a * 4096 \<le> unat w \<and> unat w < b * 4096 then writable_at img (kh_vm s') w
       else vmm_translate img (kh_vm s') w = vmm_translate img (kh_vm s1) w))"
    by (rule Suc.hyps(1)) (use Suc.hyps(2) m(2,3) cv Suc.prems(3) in \<open>auto simp: s1_def\<close>)
  then obtain s' where r: "map_loop img (page_at b) (page_at (Suc a)) s1 = Some (XAIOS_OK, s')" "vm_inv img (kh_vm s')"
    "g_heap_mapped_end s' = page_at b"
    "card (vm_free (kh_vm s1)) \<le> card (vm_free (kh_vm s')) + 3 * (b - Suc a)"
    "vm_free (kh_vm s') \<subseteq> vm_free (kh_vm s1)" "same_mmio (kh_vm s1) (kh_vm s')"
    "\<And>w. unat w < 2 ^ 32 \<Longrightarrow> (if Suc a * 4096 \<le> unat w \<and> unat w < b * 4096 then writable_at img (kh_vm s') w
       else vmm_translate img (kh_vm s') w = vmm_translate img (kh_vm s1) w)" by blast
  have run: "map_loop img (page_at b) (page_at a) s = Some (XAIOS_OK, s')"
    using lt al(1) p0 m(1) r(1) pa(4) by (subst map_loop.simps) (simp add: Let_def s1_def flip: vm_def)
  have "if a * 4096 \<le> unat w \<and> unat w < b * 4096 then writable_at img (kh_vm s') w
       else vmm_translate img (kh_vm s') w = vmm_translate img ?vm w" if w: "unat w < 2 ^ 32" for w
  proof -
    have sp: "same_page (page_at a) w \<longleftrightarrow> a * 4096 \<le> unat w \<and> unat w < Suc a * 4096"
      using same_page_iff [of "page_at a" w] w pa(1) ab(2) by auto
    show ?thesis
      using r(7) [OF w] m(6) [of w] v(6) [of w] sp ab(1) kheap_flags(3)
      by (auto simp: writable_at_def s1_def split: if_splits)
  qed
  moreover have "card (vm_free ?vm) \<le> card (vm_free (kh_vm s')) + 3 * (b - a)" "vm_free (kh_vm s') \<subseteq> vm_free ?vm"
      "same_mmio ?vm (kh_vm s')"
    using r(4-6) m(3-5) v(2,5) cv ab(1) by (auto simp: s1_def)
  ultimately show ?case using run r(2,3) by blast
qed

section \<open>Allocation\<close>

text \<open>
  The heap and its pages: the window from \<^verbatim>\<open>KHEAP_BASE\<close> to \<^verbatim>\<open>g_heap_mapped_end\<close> is mapped writable and
  covers everything allocated so far.
\<close>

definition heap_mapped :: "kernel_image \<Rightarrow> kheap_state \<Rightarrow> bool" where
  "heap_mapped img s \<longleftrightarrow> vm_inv img (kh_vm s) \<and>
     (\<exists>m. g_heap_mapped_end s = page_at m \<and> m * 4096 \<le> unat KHEAP_LIMIT \<and> unat KHEAP_BASE \<le> m * 4096 \<and>
        unat (g_heap_next s) \<le> m * 4096 \<and>
        (\<forall>w. unat KHEAP_BASE \<le> unat w \<longrightarrow> unat w < m * 4096 \<longrightarrow> writable_at img (kh_vm s) w))"

lemma align_up_page:
  assumes "unat v \<le> unat KHEAP_LIMIT"
  shows "align_up v PAGE_SIZE = page_at ((unat v + 4095) div 4096)"
proof -
  have "unat (align_up v PAGE_SIZE) = (unat v + 4095) div 4096 * 4096"
    using assms kheap_limits by (intro unat_align_up) simp
  moreover have b: "(unat v + 4095) div 4096 * 4096 < 2 ^ 32" using assms kheap_limits by simp
  ultimately show ?thesis unfolding word_eq_unat page_at_facts(1) [OF b] by simp
qed

text \<open>
  What an allocation does to the page tables: the free pages shrink by at most three per new heap page, and no
  translation outside the heap window changes.
\<close>

definition heap_frame :: "kernel_image \<Rightarrow> nat \<Rightarrow> vm_state \<Rightarrow> vm_state \<Rightarrow> bool" where
  "heap_frame img n vm vm' \<longleftrightarrow> card (vm_free vm) \<le> card (vm_free vm') + 3 * n \<and> vm_free vm' \<subseteq> vm_free vm \<and> same_mmio vm vm' \<and>
     (\<forall>w. unat w < 2 ^ 32 \<longrightarrow> unat w < unat KHEAP_BASE \<or> unat KHEAP_LIMIT \<le> unat w \<longrightarrow> vmm_translate img vm' w = vmm_translate img vm w)"

lemma ensure_mapped_spec:
  assumes m: "heap_mapped img s" and v: "unat v \<le> unat KHEAP_LIMIT"
    and n: "n = (unat v + 4095) div 4096 - unat (g_heap_mapped_end s) div 4096" "3 * n \<le> card (vm_free (kh_vm s))"
  obtains s' m' where "ensure_mapped img s (align_up v PAGE_SIZE) = Some (XAIOS_OK, s')" "vm_inv img (kh_vm s')"
    "g_heap_mapped_end s' = page_at m'" "m' * 4096 < 2 ^ 32" "unat v \<le> m' * 4096" "unat (g_heap_next s) \<le> m' * 4096"
    "\<And>w. unat KHEAP_BASE \<le> unat w \<Longrightarrow> unat w < m' * 4096 \<Longrightarrow> writable_at img (kh_vm s') w"
    "heap_frame img n (kh_vm s) (kh_vm s')" "m' * 4096 \<le> unat KHEAP_LIMIT"
proof -
  obtain a where a: "g_heap_mapped_end s = page_at a" "a * 4096 < 2 ^ 32" "unat (g_heap_next s) \<le> a * 4096"
    "unat KHEAP_BASE \<le> a * 4096" "a * 4096 \<le> unat KHEAP_LIMIT"
    "\<And>w. unat KHEAP_BASE \<le> unat w \<Longrightarrow> unat w < a * 4096 \<Longrightarrow> writable_at img (kh_vm s) w"
    using m by (auto simp: heap_mapped_def kheap_limits)
  have inv: "vm_inv img (kh_vm s)" using m by (simp add: heap_mapped_def)
  define b where "b = (unat v + 4095) div 4096"
  have b: "b * 4096 < 2 ^ 32" "unat v \<le> b * 4096" "b * 4096 \<le> unat KHEAP_LIMIT" using v kheap_limits by (auto simp: b_def)
  have up: "align_up v PAGE_SIZE = page_at b" using align_up_page [OF v] by (simp add: b_def)
  have ua: "unat (g_heap_mapped_end s) div 4096 = a" using a(1) page_at_facts(1) [OF a(2)] by simp
  show ?thesis
  proof (cases "a \<le> b")
    case False
    then have "\<not> page_at a < page_at b" using page_at_facts(1) [OF a(2)] page_at_facts(1) [OF b(1)] by (simp add: word_less_nat_alt)
    then have "ensure_mapped img s (align_up v PAGE_SIZE) = Some (XAIOS_OK, s\<lparr>g_heap_mapped_end := page_at a\<rparr>)"
      by (simp add: ensure_mapped_def a(1) up) (subst map_loop.simps, simp)
    then show ?thesis by (rule that [of _ a]) (use inv a b False in \<open>auto simp: heap_frame_def\<close>)
  next
    case True
    have na: "n = b - a" using n(1) ua by (simp add: b_def)
    obtain s' where r: "map_loop img (page_at b) (page_at a) s = Some (XAIOS_OK, s')" "vm_inv img (kh_vm s')"
      "g_heap_mapped_end s' = page_at b" "card (vm_free (kh_vm s)) \<le> card (vm_free (kh_vm s')) + 3 * (b - a)"
      "vm_free (kh_vm s') \<subseteq> vm_free (kh_vm s)" "same_mmio (kh_vm s) (kh_vm s')"
      "\<And>w. unat w < 2 ^ 32 \<Longrightarrow> (if a * 4096 \<le> unat w \<and> unat w < b * 4096 then writable_at img (kh_vm s') w
         else vmm_translate img (kh_vm s') w = vmm_translate img (kh_vm s) w)"
      using map_loop_spec [OF inv True b(1)] n(2) na by auto
    have "writable_at img (kh_vm s') w" if "unat KHEAP_BASE \<le> unat w" "unat w < b * 4096" for w
      using r(7) [of w] a(6) [of w] that b(1) by (auto simp: writable_at_def split: if_splits)
    moreover have "vmm_translate img (kh_vm s') w = vmm_translate img (kh_vm s) w"
      if "unat w < 2 ^ 32" "unat w < unat KHEAP_BASE \<or> unat KHEAP_LIMIT \<le> unat w" for w
      using r(7) [OF that(1)] that(2) a(4) b(3) by (auto split: if_splits)
    then have "heap_frame img n (kh_vm s) (kh_vm s')" using r(4-6) na by (simp add: heap_frame_def)
    ultimately show ?thesis using that [of s' b] r a b True by (simp add: ensure_mapped_def up)
  qed
qed

lemma reuse_usable:
  assumes inv: "kheap_inv s bs fs" and m: "heap_mapped img s" and f: "found_in (kh_headers s) sz align fs (b, l)"
    and t: "take_block s b l sz = (p, s')"
  shows "p \<noteq> 0 \<and> heap_mapped img s' \<and> kh_vm s' = kh_vm s \<and>
    (\<forall>w. unat p \<le> unat w \<longrightarrow> unat w < unat p + unat sz \<longrightarrow> writable_at img (kh_vm s') w)"
proof -
  have k: "kh_vm s' = kh_vm s" "g_heap_next s' = g_heap_next s" "g_heap_mapped_end s' = g_heap_mapped_end s" "p = b + KHEAP_HEADER_SIZE"
    using t by (auto simp: take_block_def Let_def)
  have b: "b \<in> bs" "sz \<le> kh_size (kh_headers s b)" using f kheap_invD(3) [OF inv] by (auto simp: found_in_def fits_def)
  have "unat p = unat b + 16" using unat_data [OF inv b(1)] k(4) by simp
  then have "unat KHEAP_BASE \<le> unat p" "unat p + unat sz \<le> unat (g_heap_next s)" "p \<noteq> 0"
    using kheap_invD(6,7) [OF inv b(1)] b(2) by (auto simp: word_le_nat_alt)
  then show ?thesis using m k unfolding heap_mapped_def by fastforce
qed

lemma bump_usable:
  assumes inv: "kheap_inv s bs fs" and m: "heap_mapped img s" and al: "16 \<le> align" "unat align \<le> 2 ^ 63"
    and d: "data = align_up (g_heap_next s + KHEAP_HEADER_SIZE) align" "unat data + unat sz \<le> unat KHEAP_LIMIT"
    and n: "n = (unat data + unat sz + 4095) div 4096 - unat (g_heap_mapped_end s) div 4096" "3 * n \<le> card (vm_free (kh_vm s))"
  obtains s' where "bump_alloc img s sz align = Some (data, s')" "data \<noteq> 0" "heap_mapped img s'" "g_heap_next s' = data + sz"
    "heap_frame img n (kh_vm s) (kh_vm s')"
    "\<And>w. unat data \<le> unat w \<Longrightarrow> unat w < unat data + unat sz \<Longrightarrow> writable_at img (kh_vm s') w"
proof -
  have u: "unat (data + sz) = unat data + unat sz" using d(2) kheap_limits by (simp add: unat_word_ariths)
  have ge: "unat (g_heap_next s) + 16 \<le> unat data" using data_start_ge [OF inv al] d(1) by simp
  obtain s1 m' where e: "ensure_mapped img s (align_up (data + sz) PAGE_SIZE) = Some (XAIOS_OK, s1)" "vm_inv img (kh_vm s1)"
    "g_heap_mapped_end s1 = page_at m'" "m' * 4096 < 2 ^ 32" "unat (data + sz) \<le> m' * 4096" "m' * 4096 \<le> unat KHEAP_LIMIT"
    "\<And>w. unat KHEAP_BASE \<le> unat w \<Longrightarrow> unat w < m' * 4096 \<Longrightarrow> writable_at img (kh_vm s1) w"
    "heap_frame img n (kh_vm s) (kh_vm s1)"
    using ensure_mapped_spec [OF m, of "data + sz" n] d(2) n u by metis
  define s' where "s' = s1\<lparr>kh_headers := (kh_headers s1)(data - KHEAP_HEADER_SIZE := \<lparr>kh_size = sz, kh_next_free = 0\<rparr>),
      g_heap_next := data + sz, g_heap_bytes_allocated := g_heap_bytes_allocated s1 + sz\<rparr>"
  have "\<not> (data + sz < data \<or> data + sz > KHEAP_LIMIT)" using u d(2) by (simp add: word_less_nat_alt)
  then have "bump_alloc img s sz align = Some (data, s')" using e(1) by (simp add: bump_alloc_def Let_def s'_def flip: d(1))
  moreover have k: "unat KHEAP_BASE \<le> unat data" using ge kheap_invD(4) [OF inv] by simp
  moreover have "heap_mapped img s'" using e(2-7) u k by (auto simp: heap_mapped_def s'_def)
  moreover have "writable_at img (kh_vm s') w" if "unat data \<le> unat w" "unat w < unat data + unat sz" for w
    using e(5,7) that u k by (simp add: s'_def)
  moreover have "data \<noteq> 0" using ge by auto
  ultimately show ?thesis using that [of s'] e(8) by (simp add: s'_def)
qed

lemma kheap_alloc_spec:
  assumes "kheap_inv s bs fs" "heap_mapped img s" "sz \<noteq> 0" "16 \<le> align" "align AND (align - 1) = 0"
    and "data = align_up (g_heap_next s + KHEAP_HEADER_SIZE) align" "unat data + unat sz \<le> unat KHEAP_LIMIT"
    and "n = (unat data + unat sz + 4095) div 4096 - unat (g_heap_mapped_end s) div 4096" "3 * n \<le> card (vm_free (kh_vm s))"
  obtains p s' where "kheap_alloc img s sz align = Some (p, s')" "p \<noteq> 0" "heap_mapped img s'" "heap_frame img n (kh_vm s) (kh_vm s')"
    "\<And>w. unat p \<le> unat w \<Longrightarrow> unat w < unat p + unat sz \<Longrightarrow> writable_at img (kh_vm s') w"
proof -
  have al: "\<not> align < KHEAP_HEADER_SIZE" "align \<noteq> 0" using assms(4) by (auto simp: KHEAP_HEADER_SIZE_def)
  note sc = free_scan_list [OF kheap_invD(1) [OF assms(1)], of sz align Head_Link None]
  show ?thesis
  proof (cases "scan_list (kh_headers s) sz align Head_Link None fs")
    case (Some br)
    then obtain b l where bl: "br = (b, l)" by (cases br)
    obtain p s' where t: "take_block s b l sz = (p, s')" by (cases "take_block s b l sz")
    have "found_in (kh_headers s) sz align fs (b, l)"
      by (rule scan_list_found [OF Some [unfolded bl], of fs "[]" "[]"]) simp_all
    then have r: "p \<noteq> 0" "heap_mapped img s'" "kh_vm s' = kh_vm s"
        "\<And>w. unat p \<le> unat w \<Longrightarrow> unat w < unat p + unat sz \<Longrightarrow> writable_at img (kh_vm s') w"
      using reuse_usable [OF assms(1,2) _ t] by blast+
    moreover have "kheap_alloc img s sz align = Some (p, s')" using t Some bl sc al assms(3,5) by (simp add: kheap_alloc_def Let_def)
    ultimately show ?thesis using that by (simp add: heap_frame_def)
  next
    case None
    then have "kheap_alloc img s sz align = bump_alloc img s sz align" using sc al assms(3,5) by (simp add: kheap_alloc_def Let_def)
    moreover obtain s' where "bump_alloc img s sz align = Some (data, s')" "data \<noteq> 0" "heap_mapped img s'"
        "heap_frame img n (kh_vm s) (kh_vm s')"
        "\<And>w. unat data \<le> unat w \<Longrightarrow> unat w < unat data + unat sz \<Longrightarrow> writable_at img (kh_vm s') w"
      using bump_usable [OF assms(1,2,4) power_of_two_bound [OF assms(5) al(2)] assms(6-9)] by metis
    ultimately show ?thesis using that by metis
  qed
qed

text \<open>
  C20: An allocation that fits succeeds and can be used. On a well-formed heap with a mapped window, a
  request with a non-zero size and a power-of-two alignment of at least 16 that fits below the heap limit returns a non-null
  pointer as soon as three free pages are available for every page still to be mapped, every byte of the allocation
  is mapped writable, and the heap stays mapped.
\<close>

theorem heap_alloc_succeeds:
  assumes "kheap_inv s bs fs" "heap_mapped img s"
    and "sz \<noteq> 0" "16 \<le> align" "align AND (align - 1) = 0"
    and "data = align_up (g_heap_next s + KHEAP_HEADER_SIZE) align" "unat data + unat sz \<le> unat KHEAP_LIMIT"
    and "3 * ((unat data + unat sz + 4095) div 4096 - unat (g_heap_mapped_end s) div 4096) \<le> card (vm_free (kh_vm s))"
  shows "\<exists>p s'. kheap_alloc img s sz align = Some (p, s') \<and> p \<noteq> 0 \<and> heap_mapped img s' \<and>
    (\<forall>w. unat p \<le> unat w \<longrightarrow> unat w < unat p + unat sz \<longrightarrow> writable_at img (kh_vm s') w)"
  by (rule kheap_alloc_spec [OF assms(1-7) refl assms(8)]) blast

section \<open>Disjoint allocations\<close>

text \<open>
  C3: Live heap allocations never overlap. After any sequence of allocations and of frees of held
  pointers, starting from an initialised heap, the pointers a client holds are distinct, aligned as
  requested, inside the heap window, and any two allocations are separated by at least the 16 bytes of
  a header, so that no client can reach another one's bytes or header by writing inside its own.
\<close>

theorem heap_allocations_disjoint:
  assumes "heap_run img (kheap_init s) [] ops = Some (s', live)"
  shows "distinct (map fst live) \<and>
    (\<forall>(p, sz, align) \<in> set live. p AND (align - 1) = 0 \<and> unat KHEAP_BASE + 16 \<le> unat p \<and>
       unat p + unat sz \<le> unat KHEAP_LIMIT) \<and>
    (\<forall>(p, sz, _) \<in> set live. \<forall>(q, tz, _) \<in> set live. p \<noteq> q \<longrightarrow>
       unat p + unat sz + 16 \<le> unat q \<or> unat q + unat tz + 16 \<le> unat p)"
proof -
  have "live_inv (kheap_init s) {} [] []" using kheap_inv_init by (simp add: live_inv_def)
  then obtain bs fs where l: "live_inv s' bs fs live" using heap_run_inv assms by blast
  then have inv: "kheap_inv s' bs fs" by (simp add: live_inv_def)
  have "p AND (al - 1) = 0 \<and> unat KHEAP_BASE + 16 \<le> unat p \<and> unat p + unat sz \<le> unat KHEAP_LIMIT"
    if "(p, sz, al) \<in> set live" for p sz al
  proof -
    let ?h = "p - KHEAP_HEADER_SIZE"
    have h: "?h \<in> bs" "sz \<le> kh_size (kh_headers s' ?h)" "unat ?h + 16 = unat p" "p AND (al - 1) = 0"
      using l that by (auto simp: live_inv_def)
    then show ?thesis
      using kheap_invD(6,7) [OF inv h(1)] kheap_invD(5) [OF inv] by (simp add: word_le_nat_alt)
  qed
  then show ?thesis using l live_apart [OF l] by (fastforce simp: live_inv_def)
qed

section \<open>Example runs\<close>

lemma alloc_fresh:
  assumes inv: "kheap_inv s bs []" and m: "heap_mapped img s" and r: "sz \<noteq> 0" "16 \<le> align" "align AND (align - 1) = 0"
    and d: "data = align_up (g_heap_next s + KHEAP_HEADER_SIZE) align" "unat data + unat sz \<le> unat KHEAP_LIMIT"
    and c: "3 * ((unat data + unat sz + 4095) div 4096 - unat (g_heap_mapped_end s) div 4096) \<le> card (vm_free (kh_vm s))"
  obtains s' bs' where "kheap_alloc img s sz align = Some (data, s')" "data \<noteq> 0" "kheap_inv s' bs' []" "heap_mapped img s'"
    "g_heap_next s' = data + sz"
proof -
  have al: "\<not> align < KHEAP_HEADER_SIZE" "align \<noteq> 0" using r(2) by (auto simp: KHEAP_HEADER_SIZE_def)
  note b = power_of_two_bound [OF r(3) al(2)]
  obtain s' where s': "bump_alloc img s sz align = Some (data, s')" "data \<noteq> 0" "heap_mapped img s'" "g_heap_next s' = data + sz"
    using bump_usable [OF inv m r(2) b d refl c] by metis
  moreover have "g_free_list s = 0" using kheap_invD(1) [OF inv] by simp
  then have "kheap_alloc img s sz align = bump_alloc img s sz align"
    using al r by (simp add: kheap_alloc_def Let_def free_scan.simps)
  ultimately show thesis using that bump_inv(1) [OF inv s'(1,2) r(2) b] by simp
qed

definition demo_heap :: kheap_state where
  "demo_heap = kheap_init demo_free_list"

lemma demo_heap_ok:
  "kheap_inv demo_heap {} []" "heap_mapped demo_image demo_heap" "g_heap_next demo_heap = 0x4a000000"
  "g_heap_mapped_end demo_heap = 0x4a000000" "card (vm_free (kh_vm demo_heap)) = 64"
proof -
  show "heap_mapped demo_image demo_heap" unfolding heap_mapped_def
    by (intro conjI exI [of _ "0x4a000"])
       (simp_all add: demo_heap_def kheap_init_def demo_free_list_def page_at_def KHEAP_BASE_def KHEAP_LIMIT_def KHEAP_SIZE_def demo_vm_inv)
  show "kheap_inv demo_heap {} []" unfolding demo_heap_def by (rule kheap_inv_init)
qed (simp_all add: demo_heap_def kheap_init_def demo_free_list_def KHEAP_BASE_def pool_numa_sets(2))

theorem heap_alloc_succeeds_witness:
  "\<exists>p s'. kheap_alloc demo_image demo_heap 5000 64 = Some (p, s') \<and> p \<noteq> 0 \<and> writable_at demo_image (kh_vm s') p"
proof -
  have d: "align_up (g_heap_next demo_heap + KHEAP_HEADER_SIZE) 64 = 0x4a000040"
    by (simp add: demo_heap_ok KHEAP_HEADER_SIZE_def align_up_def)
  show ?thesis
    using heap_alloc_succeeds [OF demo_heap_ok(1,2), of 5000 64 "0x4a000040"] d
    by (fastforce simp: demo_heap_ok kheap_limits)
qed

lemma demo_align: "align_up (0x4a000000 + KHEAP_HEADER_SIZE) 16 = 0x4a000010" "align_up (0x4a000050 + KHEAP_HEADER_SIZE) 64 = 0x4a000080"
  by (simp_all add: KHEAP_HEADER_SIZE_def align_up_def)

lemma demo_run:
  obtains s2 where "heap_run demo_image (kheap_init demo_free_list) [] [Heap_Alloc 64 16, Heap_Alloc 100 64] =
     Some (s2, [(0x4a000080, 100, 64), (0x4a000010, 64, 16)])"
proof -
  obtain s1 bs where s1: "kheap_alloc demo_image demo_heap 64 16 = Some (0x4a000010, s1)" "kheap_inv s1 bs []"
      "heap_mapped demo_image s1" "g_heap_next s1 = 0x4a000010 + 64"
    by (rule alloc_fresh [OF demo_heap_ok(1,2), of 64 16 "0x4a000010"]) (simp_all add: demo_heap_ok demo_align kheap_limits)
  obtain m where m: "g_heap_mapped_end s1 = page_at m" "m * 4096 < 2 ^ 32" "unat (g_heap_next s1) \<le> m * 4096"
    using s1(3) by (auto simp: heap_mapped_def kheap_limits)
  have n: "g_heap_next s1 = 0x4a000050" using s1(4) by simp
  have "0x4a001 \<le> unat (g_heap_mapped_end s1) div 4096"
    using m(3) unfolding m(1) page_at_facts(1) [OF m(2)] n by simp
  then obtain s2 where s2: "kheap_alloc demo_image s1 100 64 = Some (0x4a000080, s2)"
    by (rule_tac alloc_fresh [OF s1(2,3), of 100 64 "0x4a000080"]) (simp_all add: n demo_align kheap_limits)
  have "heap_run demo_image (kheap_init demo_free_list) [] [Heap_Alloc 64 16, Heap_Alloc 100 64] =
     Some (s2, [(0x4a000080, 100, 64), (0x4a000010, 64, 16)])"
    using s1(1) s2 by (simp flip: demo_heap_def)
  then show thesis by (rule that)
qed

theorem heap_allocations_disjoint_witness:
  "\<exists>s'. heap_run demo_image (kheap_init demo_free_list) [] [Heap_Alloc 64 16, Heap_Alloc 100 64] =
     Some (s', [(0x4a000080, 100, 64), (0x4a000010, 64, 16)]) \<and>
   (unat (0x4a000010 :: u64) + unat (64 :: u64) + 16 \<le> unat (0x4a000080 :: u64) \<or>
    unat (0x4a000080 :: u64) + unat (100 :: u64) + 16 \<le> unat (0x4a000010 :: u64))"
proof -
  obtain s2 where r: "heap_run demo_image (kheap_init demo_free_list) [] [Heap_Alloc 64 16, Heap_Alloc 100 64] =
     Some (s2, [(0x4a000080, 100, 64), (0x4a000010, 64, 16)])" by (rule demo_run)
  from heap_allocations_disjoint [OF this] show ?thesis using r by fastforce
qed

end
