(* ===== verification/Arena.thy ===== *)
theory Arena
  imports Kheap
begin

text \<open>
  \<^verbatim>\<open>kernel/mm/arena.c\<close>: page-backed memory arenas at fixed virtual addresses, on top of the heap (the array
  of page pointers), the physical allocator (the pages) and the page tables (their mappings). The array
  behind \<^verbatim>\<open>entry->pages\<close> has no other owner, so it is a list in the arena record; \<open>None\<close> is the null
  pointer. A page is cleared through the mapping of the address equal to its physical one, as the code does.
  A failed assertion and a page fault give \<open>None\<close>. The pointer a caller gets is the index of the arena.
\<close>

section \<open>Model\<close>

definition MAX_ARENAS :: u32 where
  "MAX_ARENAS = 32"

definition ARENA_VA_BASE :: u64 where
  "ARENA_VA_BASE = 0x4c000000"

definition ARENA_VA_STRIDE :: u64 where
  "ARENA_VA_STRIDE = 0x00200000"

definition ARENA_VA_LIMIT :: u64 where
  "ARENA_VA_LIMIT = 0x50000000"

definition XAIOS_ARENA_NAME_MAX :: u32 where
  "XAIOS_ARENA_NAME_MAX = 32"

definition XAIOS_ARENA_FLAG_READ_ONLY :: u32 where
  "XAIOS_ARENA_FLAG_READ_ONLY = 1"

definition XAIOS_ARENA_FLAG_SHARED :: u32 where
  "XAIOS_ARENA_FLAG_SHARED = push_bit 1 1"

definition XAIOS_ARENA_FLAG_PREFaultED :: u32 where
  "XAIOS_ARENA_FLAG_PREFaultED = push_bit 2 1"

definition XAIOS_ARENA_FLAG_USER_VISIBLE :: u32 where
  "XAIOS_ARENA_FLAG_USER_VISIBLE = push_bit 3 1"

text \<open>The kind is the number of the enumerator; 0 is no kind and is rejected.\<close>

definition XAIOS_ARENA_MODEL_WEIGHTS :: u32 where
  "XAIOS_ARENA_MODEL_WEIGHTS = 1"

definition XAIOS_ARENA_KV_CACHE :: u32 where
  "XAIOS_ARENA_KV_CACHE = 2"

definition XAIOS_ARENA_SOURCE_INDEX :: u32 where
  "XAIOS_ARENA_SOURCE_INDEX = 3"

definition XAIOS_ARENA_BUILD_OUTPUT :: u32 where
  "XAIOS_ARENA_BUILD_OUTPUT = 4"

definition XAIOS_ARENA_LOG :: u32 where
  "XAIOS_ARENA_LOG = 5"

definition XAIOS_ARENA_TELEMETRY :: u32 where
  "XAIOS_ARENA_TELEMETRY = 6"

datatype xaios_arena_state = XAIOS_ARENA_EMPTY | XAIOS_ARENA_READY | XAIOS_ARENA_DESTROYED

record xaios_arena =
  ar_arena_id :: u32
  ar_kind :: u32
  ar_state :: xaios_arena_state
  ar_owner_id :: u32
  ar_name :: string
  ar_base :: u64
  ar_size :: u64
  ar_page_count :: u64
  ar_flags :: u32
  ar_ref_count :: u32
  ar_fault_count :: u64
  ar_pages :: "u64 list option"

record arena_state =
  ar_heap :: kheap_state
  g_arenas :: "xaios_arena list"
  g_committed_pages :: u64
  g_arena_active_count :: u64

abbreviation ar_vm :: "arena_state \<Rightarrow> vm_state" where
  "ar_vm s \<equiv> kh_vm (ar_heap s)"

definition set_ar_vm :: "arena_state \<Rightarrow> vm_state \<Rightarrow> arena_state" where
  "set_ar_vm s vm = s\<lparr>ar_heap := (ar_heap s)\<lparr>kh_vm := vm\<rparr>\<rparr>"

definition arena_at :: "arena_state \<Rightarrow> u32 \<Rightarrow> xaios_arena" where
  "arena_at s i = g_arenas s ! unat i"

definition put_arena :: "arena_state \<Rightarrow> u32 \<Rightarrow> xaios_arena \<Rightarrow> arena_state" where
  "put_arena s i a = s\<lparr>g_arenas := (g_arenas s)[unat i := a]\<rparr>"

definition str_nonempty :: "cstr \<Rightarrow> bool" where
  "str_nonempty v = (case v of None \<Rightarrow> False | Some t \<Rightarrow> t \<noteq> [])"

definition copy_name :: "string \<Rightarrow> string" where
  "copy_name src = take (unat XAIOS_ARENA_NAME_MAX - 1) src"

definition vmm_flags_from_arena :: "u32 \<Rightarrow> u32" where
  "vmm_flags_from_arena arena_flags =
     (let f1 = (if arena_flags AND XAIOS_ARENA_FLAG_READ_ONLY = 0 then XAIOS_VMM_PRESENT OR XAIOS_VMM_WRITABLE
                else XAIOS_VMM_PRESENT)
      in if arena_flags AND XAIOS_ARENA_FLAG_USER_VISIBLE \<noteq> 0 then f1 OR XAIOS_VMM_USER else f1)"

text \<open>The initialiser keeps what follows the first byte of the old name, which no reader sees.\<close>

definition arena_manager_init :: "arena_state \<Rightarrow> arena_state" where
  "arena_manager_init s =
     s\<lparr>g_arenas := map (\<lambda>i. \<lparr>ar_arena_id = of_nat i, ar_kind = 0, ar_state = XAIOS_ARENA_EMPTY, ar_owner_id = 0, ar_name = [],
          ar_base = 0, ar_size = 0, ar_page_count = 0, ar_flags = 0, ar_ref_count = 0, ar_fault_count = 0, ar_pages = None\<rparr>)
          [0 ..< unat MAX_ARENAS],
        g_committed_pages := 0, g_arena_active_count := 0\<rparr>"

definition arena_base :: "u32 \<Rightarrow> u64" where
  "arena_base arena_id = ARENA_VA_BASE + ucast arena_id * ARENA_VA_STRIDE"

definition arena_validate_create :: "arena_state \<Rightarrow> u32 \<Rightarrow> u32 \<Rightarrow> cstr \<Rightarrow> u64 \<Rightarrow> xaios_status" where
  "arena_validate_create s arena_id kind name sz =
     (if arena_id \<ge> MAX_ARENAS \<or> kind = 0 \<or> \<not> str_nonempty name \<or> sz = 0 \<or> ar_state (arena_at s arena_id) = XAIOS_ARENA_READY
      then XAIOS_ERR_INVALID
      else if arena_base arena_id + align_up sz PAGE_SIZE > ARENA_VA_LIMIT then XAIOS_ERR_NO_MEMORY
      else XAIOS_OK)"

text \<open>
  The loop stores through the pointer, so the bytes that change are those the current mapping of the buffer leads to,
  and a buffer that is not mapped writable faults. The only caller passes one whole page; a buffer that crosses a page
  boundary is not modelled.
\<close>

definition clear_bytes :: "vm_state \<Rightarrow> u64 \<Rightarrow> u64 \<Rightarrow> vm_state" where
  "clear_bytes vm pa sz = vm\<lparr>vm_pmm := (vm_pmm vm)\<lparr>pm_mem := (\<lambda>a. if a - pa < sz then 0 else pm_mem (vm_pmm vm) a)\<rparr>\<rparr>"

definition arena_zero :: "kernel_image \<Rightarrow> vm_state \<Rightarrow> u64 \<Rightarrow> u64 \<Rightarrow> vm_state option" where
  "arena_zero img vm buffer sz =
     (case vmm_translate img vm buffer of
        None \<Rightarrow> None
      | Some (pa, flags) \<Rightarrow>
          if flags AND XAIOS_VMM_WRITABLE = 0 \<or> PAGE_SIZE < (buffer AND 0xfff) + sz then None
          else Some (clear_bytes vm pa sz))"

definition set_page :: "arena_state \<Rightarrow> u32 \<Rightarrow> nat \<Rightarrow> u64 \<Rightarrow> arena_state" where
  "set_page s arena_id i page =
     put_arena s arena_id ((arena_at s arena_id)\<lparr>ar_pages := map_option (\<lambda>ps. ps[i := page]) (ar_pages (arena_at s arena_id))\<rparr>)"

fun unmap_loop :: "kernel_image \<Rightarrow> u32 \<Rightarrow> nat list \<Rightarrow> arena_state \<Rightarrow> arena_state option" where
  "unmap_loop img arena_id [] s = Some s"
| "unmap_loop img arena_id (i # is) s =
     (case vmm_unmap_page img (ar_vm s) (ar_base (arena_at s arena_id) + of_nat i * PAGE_SIZE) of
        None \<Rightarrow> None
      | Some (st, vm) \<Rightarrow>
          if st \<noteq> XAIOS_OK then None
          else let page = the (ar_pages (arena_at s arena_id)) ! i
               in if page \<noteq> 0
                  then let s1 = set_ar_vm s (vm\<lparr>vm_pmm := pmm_free_page (vm_pmm vm) page\<rparr>)
                       in unmap_loop img arena_id is
                            (set_page (s1\<lparr>g_committed_pages := g_committed_pages s1 - 1\<rparr>) arena_id i 0)
                  else unmap_loop img arena_id is (set_ar_vm s vm))"

definition arena_unmap_pages :: "kernel_image \<Rightarrow> arena_state \<Rightarrow> u32 \<Rightarrow> arena_state option" where
  "arena_unmap_pages img s arena_id =
     (if ar_pages (arena_at s arena_id) = None then Some s
      else unmap_loop img arena_id [0 ..< unat (ar_page_count (arena_at s arena_id))] s)"

text \<open>Giving up a creation: the pages are unmapped and the entry is empty again.\<close>

definition abandon_create :: "kernel_image \<Rightarrow> arena_state \<Rightarrow> u32 \<Rightarrow> xaios_status \<Rightarrow> (xaios_status \<times> arena_state) option" where
  "abandon_create img s arena_id st =
     (case arena_unmap_pages img s arena_id of
        None \<Rightarrow> None
      | Some s1 \<Rightarrow> Some (st, put_arena s1 arena_id ((arena_at s1 arena_id)\<lparr>ar_state := XAIOS_ARENA_EMPTY\<rparr>)))"

fun create_loop :: "kernel_image \<Rightarrow> u32 \<Rightarrow> nat list \<Rightarrow> arena_state \<Rightarrow> (xaios_status \<times> arena_state) option" where
  "create_loop img arena_id [] s = Some (XAIOS_OK, s)"
| "create_loop img arena_id (i # is) s =
     (case pmm_alloc_page (pm_numa (vm_pmm (ar_vm s))) of
        None \<Rightarrow> None
      | Some (page, n) \<Rightarrow>
          let s1 = set_page (set_ar_vm s ((ar_vm s)\<lparr>vm_pmm := (vm_pmm (ar_vm s))\<lparr>pm_numa := n\<rparr>\<rparr>)) arena_id i page
          in if page = 0 then abandon_create img s1 arena_id XAIOS_ERR_NO_MEMORY
             else case arena_zero img (ar_vm s1) page PAGE_SIZE of
               None \<Rightarrow> None
             | Some vm0 \<Rightarrow>
                 (case vmm_map_page img vm0 (ar_base (arena_at s1 arena_id) + of_nat i * PAGE_SIZE) page
                         (vmm_flags_from_arena (ar_flags (arena_at s1 arena_id))) of
                    None \<Rightarrow> None
                  | Some (st, vm) \<Rightarrow>
                      let s2 = set_ar_vm s1 vm
                      in if st \<noteq> XAIOS_OK then abandon_create img s2 arena_id XAIOS_ERR_INVALID
                         else create_loop img arena_id is (s2\<lparr>g_committed_pages := g_committed_pages s2 + 1\<rparr>)))"

definition arena_create ::
  "kernel_image \<Rightarrow> arena_state \<Rightarrow> u32 \<Rightarrow> u32 \<Rightarrow> u32 \<Rightarrow> cstr \<Rightarrow> u64 \<Rightarrow> u32 \<Rightarrow> (xaios_status \<times> arena_state) option" where
  "arena_create img s arena_id kind owner_id name sz flags =
     (if arena_validate_create s arena_id kind name sz \<noteq> XAIOS_OK then Some (XAIOS_ERR_INVALID, s)
      else let mapped_size = align_up sz PAGE_SIZE;
               page_count = mapped_size div PAGE_SIZE
      in case kheap_calloc img (ar_heap s) (8 * page_count) 16 of
           None \<Rightarrow> None
         | Some (pages, h) \<Rightarrow>
             if pages = 0 then Some (XAIOS_ERR_NO_MEMORY, s\<lparr>ar_heap := h\<rparr>)
             else let entry = (arena_at s arena_id)\<lparr>ar_kind := kind, ar_owner_id := owner_id, ar_name := copy_name (the name),
                        ar_base := arena_base arena_id, ar_size := sz, ar_page_count := page_count,
                        ar_flags := flags OR XAIOS_ARENA_FLAG_PREFaultED, ar_ref_count := 0, ar_fault_count := 0,
                        ar_pages := Some (replicate (unat page_count) 0)\<rparr>
                  in case create_loop img arena_id [0 ..< unat page_count] (put_arena (s\<lparr>ar_heap := h\<rparr>) arena_id entry) of
                       None \<Rightarrow> None
                     | Some (st, s1) \<Rightarrow>
                         if st \<noteq> XAIOS_OK then Some (st, s1)
                         else let s2 = put_arena s1 arena_id ((arena_at s1 arena_id)\<lparr>ar_state := XAIOS_ARENA_READY\<rparr>)
                              in Some (XAIOS_OK, s2\<lparr>g_arena_active_count := g_arena_active_count s2 + 1\<rparr>))"

definition arena_ready :: "arena_state \<Rightarrow> u32 \<Rightarrow> bool" where
  "arena_ready s arena_id \<longleftrightarrow> arena_id < MAX_ARENAS \<and> ar_state (arena_at s arena_id) = XAIOS_ARENA_READY"

definition arena_acquire :: "arena_state \<Rightarrow> u32 \<Rightarrow> xaios_status \<times> arena_state" where
  "arena_acquire s arena_id =
     (if \<not> arena_ready s arena_id then (XAIOS_ERR_INVALID, s)
      else (XAIOS_OK, put_arena s arena_id ((arena_at s arena_id)\<lparr>ar_ref_count := ar_ref_count (arena_at s arena_id) + 1\<rparr>)))"

definition arena_release :: "arena_state \<Rightarrow> u32 \<Rightarrow> xaios_status \<times> arena_state" where
  "arena_release s arena_id =
     (if \<not> arena_ready s arena_id \<or> ar_ref_count (arena_at s arena_id) = 0 then (XAIOS_ERR_INVALID, s)
      else (XAIOS_OK, put_arena s arena_id ((arena_at s arena_id)\<lparr>ar_ref_count := ar_ref_count (arena_at s arena_id) - 1\<rparr>)))"

definition arena_destroy :: "kernel_image \<Rightarrow> arena_state \<Rightarrow> u32 \<Rightarrow> (xaios_status \<times> arena_state) option" where
  "arena_destroy img s arena_id =
     (if \<not> arena_ready s arena_id \<or> ar_ref_count (arena_at s arena_id) \<noteq> 0 then Some (XAIOS_ERR_INVALID, s)
      else case arena_unmap_pages img s arena_id of
        None \<Rightarrow> None
      | Some s1 \<Rightarrow>
          let s2 = put_arena s1 arena_id ((arena_at s1 arena_id)\<lparr>ar_state := XAIOS_ARENA_DESTROYED, ar_base := 0, ar_size := 0,
                     ar_page_count := 0, ar_flags := 0, ar_pages := None\<rparr>)
          in Some (XAIOS_OK, s2\<lparr>g_arena_active_count := g_arena_active_count s2 - 1\<rparr>))"

definition arena_record_fault :: "arena_state \<Rightarrow> u32 \<Rightarrow> xaios_status \<times> arena_state" where
  "arena_record_fault s arena_id =
     (if \<not> arena_ready s arena_id then (XAIOS_ERR_INVALID, s)
      else (XAIOS_OK, put_arena s arena_id ((arena_at s arena_id)\<lparr>ar_fault_count := ar_fault_count (arena_at s arena_id) + 1\<rparr>)))"

definition arena_committed_pages :: "arena_state \<Rightarrow> u64" where
  "arena_committed_pages s = g_committed_pages s"

definition arena_active_count :: "arena_state \<Rightarrow> u64" where
  "arena_active_count s = g_arena_active_count s"

end
