(* ===== verification/Arena_Mapping.thy ===== *)
theory Arena_Mapping
  imports Arena Kheap_Paging Vmm_Boot
begin

text \<open>
  Arenas on top of the heap, the page allocator and the page tables: creating an arena allocates fresh
  pages, clears them and maps them at the virtual range of the arena, and changes no other mapping
  below 4 GiB outside the heap window. Clearing works through the mapping of the address equal to the physical one, so
  the free frames have to be identity-mapped, as they are after boot outside the heap and arena windows.
\<close>

section \<open>Fresh pages\<close>

lemma page_aligned_diff: "page_aligned a \<Longrightarrow> page_aligned p \<Longrightarrow> page_aligned (a - p)"
  unfolding page_aligned_unat by (auto simp: unat_sub_if_size word_size intro!: dvd_diff_nat dvd_add)

lemma entry_clear_bytes:
  assumes "page_aligned a" "page_aligned p" "j < 512"
  shows "entry (clear_bytes vm p PAGE_SIZE) a j = (if a = p then 0 else entry vm a j)"
proof -
  have j: "unat (8 * j) = 8 * unat j" "unat j < 512" using assms(3) by (auto simp: unat_word_ariths word_less_nat_alt)
  have d: "a + 8 * j - p = (a - p) + 8 * j" by simp
  have "4096 dvd unat (a - p)" using page_aligned_diff [OF assms(1,2)] by (simp only: page_aligned_unat)
  then obtain q where q: "unat (a - p) = 4096 * q" ..
  moreover have "unat (a - p) < 2 ^ LENGTH(64)" by (rule unsigned_less)
  ultimately have "4096 * q < 2 ^ 64" by simp
  then have "unat (a - p) + unat (8 * j) < 2 ^ 64" using j q by simp
  then have u: "unat (a - p + 8 * j) = 4096 * q + 8 * unat j" using q j unat_add_le [of "a - p" "8 * j"] by simp
  have "a - p + 8 * j < PAGE_SIZE \<longleftrightarrow> q = 0" using j(2) unfolding word_less_nat_alt u by (auto simp: PAGE_SIZE_def)
  moreover have "q = 0 \<longleftrightarrow> a = p" using q by (auto simp: unat_eq_0)
  ultimately show ?thesis by (simp add: entry_def clear_bytes_def d)
qed

lemma vm_inv_same_tables:
  assumes inv: "vm_inv img s" and f: "pm_numa (vm_pmm s') = pm_numa (vm_pmm s)" "same_mmio s s'"
    and p: "p \<noteq> g_l0_table img" "\<And>r. table_of img s r \<noteq> Some p"
    and e: "\<And>a j. page_aligned a \<Longrightarrow> j < 512 \<Longrightarrow> a \<noteq> p \<Longrightarrow> entry s' a j = entry s a j"
  shows "vm_inv img s'" "table_of img s' = table_of img s" "vmm_translate img s' w = vmm_translate img s w"
proof -
  have e0: "j < 512 \<Longrightarrow> entry s' (g_l0_table img) j = entry s (g_l0_table img) j" for j
    by (rule e) (use p vm_invD(3) [OF inv] in auto)
  have et: "table_of img s r = Some t \<Longrightarrow> j < 512 \<Longrightarrow> entry s' t j = entry s t j" for r t j
    by (rule e) (use p vm_inv_table(1) [OF inv] in auto)
  have l2: "l2_of img s' = l2_of img s" using et [of L1_Table] by (auto simp: l2_of_def fun_eq_iff)
  have e2: "l2_of img s i = Some t \<Longrightarrow> j < 512 \<Longrightarrow> entry s' t j = entry s t j" for i t j using et [of "L2_Table i"] by simp
  have "table_of img s' r = table_of img s r" for r by (cases r) (auto simp: l2 e2 split: option.split)
  then show t: "table_of img s' = table_of img s" ..
  show v: "vm_inv img s'" unfolding vm_inv_def t l2 f(1) using vm_invD [OF inv] e0 e2 by auto
  have lf: "leaf img s' i j k = leaf img s i j k" if "j < 512" "k < 512" for i j k
    using that e2 [of i] et [of "L3_Table i j"] by (auto simp: leaf_def l2 l2_leaf_def split: option.splits)
  have "leaf_translation s' w d = leaf_translation s w d" for d
  proof -
    have "descriptor_to_flags s' w d = descriptor_to_flags s w d" by (rule flags_cong) (use f(2) in auto)
    then show ?thesis by (simp add: leaf_translation_def)
  qed
  then show "vmm_translate img s' w = vmm_translate img s w"
    by (simp add: translate_leaf [OF v] translate_leaf [OF inv] lf)
qed

lemma fresh_page_zeroed:
  assumes inv: "vm_inv img s" and a: "pmm_alloc_page (pm_numa (vm_pmm s)) = Some (p, n)" "p \<noteq> 0"
    and s': "s' = clear_bytes (s\<lparr>vm_pmm := (vm_pmm s)\<lparr>pm_numa := n\<rparr>\<rparr>) p PAGE_SIZE"
  shows "vm_inv img s'" "vm_free s' = vm_free s - {p}" "p \<in> vm_free s" "table_addr p" "same_mmio s s'"
    "\<And>w. vmm_translate img s' w = vmm_translate img s w" "keeps_data img s s'" "data_page img s' p"
    "\<And>j. j < 512 \<Longrightarrow> entry s' p j = 0"
proof -
  define s1 where "s1 = s\<lparr>vm_pmm := (vm_pmm s)\<lparr>pm_numa := n\<rparr>\<rparr>"
  have z: "s' = clear_bytes s1 p PAGE_SIZE" by (simp add: s' s1_def)
  note v = vm_inv_alloc [OF inv a s1_def]
  have e1: "entry s1 = entry s" by (simp add: s1_def entry_def fun_eq_iff)
  have l2: "l2_of img s1 = l2_of img s" by (simp add: l2_of_def fun_eq_iff e1)
  have t1: "table_of img s1 r = table_of img s r" for r by (cases r) (simp_all add: l2 e1 split: option.split)
  have p0: "p \<noteq> g_l0_table img" "table_of img s1 r \<noteq> Some p" for r
    using v(3) vm_invD(4) [OF inv] vm_inv_table(3) [OF inv] unfolding t1 by auto
  have f: "pm_numa (vm_pmm s') = pm_numa (vm_pmm s1)" "same_mmio s1 s'" by (simp_all add: z clear_bytes_def)
  have e: "entry s' a j = (if a = p then 0 else entry s a j)" if "page_aligned a" "j < 512" for a j
    unfolding z using entry_clear_bytes [OF that(1) _ that(2), of p s1] v(4) by (simp add: e1)
  note w = vm_inv_same_tables [OF v(1) f p0]
  have e': "page_aligned a \<Longrightarrow> j < 512 \<Longrightarrow> a \<noteq> p \<Longrightarrow> entry s' a j = entry s1 a j" for a j using e by (simp add: e1)
  have t: "table_of img s' = table_of img s1" by (rule w(2)) (simp_all add: e')
  show "vm_inv img s'" by (rule w(1)) (simp_all add: e')
  show "vmm_translate img s' w = vmm_translate img s w" for w using w(3) [OF e'] v(6) by simp
  show vf: "vm_free s' = vm_free s - {p}" "p \<in> vm_free s" "table_addr p" "same_mmio s s'" using v f by simp_all
  show "j < 512 \<Longrightarrow> entry s' p j = 0" for j using e [of p j] v(4) by simp
  show "keeps_data img s s'" unfolding keeps_data_def data_page_def vf(1) t t1 using e vf(2) by auto
  show "data_page img s' p" unfolding data_page_def vf(1) t using p0 v(4) by auto
qed

section \<open>Clearing through the mapping\<close>

text \<open>The free frames are mapped to themselves, writable, below 4 GiB and outside the pages \<open>lo ..< hi\<close>.\<close>

definition identity_frames :: "kernel_image \<Rightarrow> nat \<Rightarrow> nat \<Rightarrow> vm_state \<Rightarrow> bool" where
  "identity_frames img lo hi vm \<longleftrightarrow> (\<forall>p \<in> vm_free vm. unat p < 2 ^ 32 \<and> \<not> (lo \<le> unat p div 4096 \<and> unat p div 4096 < hi) \<and>
     (\<exists>f. vmm_translate img vm p = Some (p, f) \<and> f AND XAIOS_VMM_WRITABLE \<noteq> 0))"

lemma identity_frames_step:
  assumes "identity_frames img lo hi vm" "vm_free vm' \<subseteq> vm_free vm"
    and "\<And>p. p \<in> vm_free vm \<Longrightarrow> unat p < 2 ^ 32 \<Longrightarrow> \<not> (lo \<le> unat p div 4096 \<and> unat p div 4096 < hi) \<Longrightarrow>
      vmm_translate img vm' p = vmm_translate img vm p"
  shows "identity_frames img lo hi vm'"
  using assms unfolding identity_frames_def by (metis subsetD)

lemma arena_zero_identity:
  assumes inv: "vm_inv img vm" and id: "identity_frames img lo hi vm"
    and a: "pmm_alloc_page (pm_numa (vm_pmm vm)) = Some (p, n)" "p \<noteq> 0" and s1: "s1 = vm\<lparr>vm_pmm := (vm_pmm vm)\<lparr>pm_numa := n\<rparr>\<rparr>"
  shows "arena_zero img s1 p PAGE_SIZE = Some (clear_bytes s1 p PAGE_SIZE)"
proof -
  note v = vm_inv_alloc [OF inv a s1]
  obtain f where f: "vmm_translate img vm p = Some (p, f)" "f AND XAIOS_VMM_WRITABLE \<noteq> 0"
    using id v(3) unfolding identity_frames_def by blast
  have "p AND 0xfff = 0" using v(4) by (simp add: table_addr_def)
  then show ?thesis using f v(6) by (simp add: arena_zero_def)
qed

section \<open>The mapping loop\<close>

text \<open>The pages \<open>qs\<close> are mapped with flags \<open>fl\<close> from page number \<open>a\<close> on; nothing else below 4 GiB changes.\<close>

definition mapped_from :: "kernel_image \<Rightarrow> u32 \<Rightarrow> nat \<Rightarrow> u64 list \<Rightarrow> vm_state \<Rightarrow> vm_state \<Rightarrow> bool" where
  "mapped_from img fl a qs vm vm' \<longleftrightarrow> same_mmio vm vm' \<and>
     (\<forall>w. unat w < 2 ^ 32 \<longrightarrow> vmm_translate img vm' w =
        (if a \<le> unat w div 4096 \<and> unat w div 4096 < a + length qs
         then Some (qs ! (unat w div 4096 - a) + (w AND 0xfff), fl AND READ_BACK OR mmio_flag vm w)
         else vmm_translate img vm w))"

lemma mapped_fromD:
  assumes "mapped_from img fl a qs vm vm'" "unat w < 2 ^ 32" "n = unat w div 4096"
  shows "vmm_translate img vm' w =
    (if a \<le> n \<and> n < a + length qs then Some (qs ! (n - a) + (w AND 0xfff), fl AND READ_BACK OR mmio_flag vm w)
     else vmm_translate img vm w)"
  using assms unfolding mapped_from_def by blast

lemma mapped_from_Nil: "mapped_from img fl a [] vm vm"
  by (auto simp: mapped_from_def)

lemma mapped_from_Cons:
  assumes "mapped_from img fl a [p] vm vm1" "mapped_from img fl (Suc a) qs vm1 vm'"
  shows "mapped_from img fl a (p # qs) vm vm'"
proof -
  have m: "mmio_flag vm1 w = mmio_flag vm w" for w using assms(1) by (simp add: mapped_from_def mmio_flag_def)
  have n: "(p # qs) ! (n - a) = (if n < Suc a then p else qs ! (n - Suc a))" if "a \<le> n" for n
    using that by (auto simp: nth_Cons')
  have "vmm_translate img vm' w =
      (if a \<le> n \<and> n < a + length (p # qs) then Some ((p # qs) ! (n - a) + (w AND 0xfff), fl AND READ_BACK OR mmio_flag vm w)
       else vmm_translate img vm w)" if w: "unat w < 2 ^ 32" "n = unat w div 4096" for w n
    using mapped_fromD [OF assms(1) w] mapped_fromD [OF assms(2) w] n [of n] unfolding m by (cases "n = a") auto
  then show ?thesis using assms unfolding mapped_from_def by simp
qed

lemma map_one_page:
  assumes "vm_inv img vm" "2 \<le> card (vm_free vm)" "table_addr p" "a * 4096 < 2 ^ 32"
    and "fl AND XAIOS_VMM_PRESENT \<noteq> 0" "fl AND XAIOS_VMM_EXECUTABLE = 0"
  obtains vm' where "vmm_map_page img vm (page_at a) p fl = Some (XAIOS_OK, vm')" "vm_inv img vm'"
    "vm_free vm' \<subseteq> vm_free vm" "card (vm_free vm) \<le> card (vm_free vm') + 2" "mapped_from img fl a [p] vm vm'" "keeps_data img vm vm'"
proof -
  note pa = page_at_facts [OF assms(4)]
  obtain vm' where m: "vmm_map_page img vm (page_at a) p fl = Some (XAIOS_OK, vm')" "vm_inv img vm'" "same_mmio vm vm'"
    "vm_free vm' \<subseteq> vm_free vm" "card (vm_free vm) \<le> card (vm_free vm') + 2"
    "\<And>w. vmm_translate img vm' w =
       (if same_page (page_at a) w then Some (p + (w AND 0xfff), fl AND READ_BACK OR mmio_flag vm w) else vmm_translate img vm w)"
    "keeps_data img vm vm'"
    using map_page_spec [OF assms(1,2) pa(2,3) assms(3,5,6)] by metis
  have "same_page (page_at a) w \<longleftrightarrow> a = unat w div 4096" if "unat w < 2 ^ 32" for w
    using same_page_iff [of "page_at a" w] that pa(1) assms(4) by auto
  then have "vmm_translate img vm' w = (if a \<le> n \<and> n < a + length [p]
        then Some ([p] ! (n - a) + (w AND 0xfff), fl AND READ_BACK OR mmio_flag vm w) else vmm_translate img vm w)"
    if "unat w < 2 ^ 32" "n = unat w div 4096" for w n
    using m(6) [of w] that by auto
  then have "mapped_from img fl a [p] vm vm'" using m(3) by (simp add: mapped_from_def)
  then show ?thesis using that m by blast
qed

lemma arena_flags:
  "vmm_flags_from_arena f AND XAIOS_VMM_PRESENT \<noteq> 0" "vmm_flags_from_arena f AND XAIOS_VMM_EXECUTABLE = 0"
  "vmm_flags_from_arena (f OR XAIOS_ARENA_FLAG_PREFaultED) = vmm_flags_from_arena f"
proof -
  show "vmm_flags_from_arena f AND XAIOS_VMM_PRESENT \<noteq> 0" "vmm_flags_from_arena f AND XAIOS_VMM_EXECUTABLE = 0"
    by (simp_all add: flag_tests vmm_flags_from_arena_def Let_def bit_or_iff)
  have "(f OR 4) AND 1 = f AND 1" "(f OR 4) AND 8 = f AND 8" by (simp_all add: bit.conj_disj_distrib2)
  then show "vmm_flags_from_arena (f OR XAIOS_ARENA_FLAG_PREFaultED) = vmm_flags_from_arena f"
    by (simp add: vmm_flags_from_arena_def XAIOS_ARENA_FLAG_READ_ONLY_def XAIOS_ARENA_FLAG_USER_VISIBLE_def XAIOS_ARENA_FLAG_PREFaultED_def)
qed

lemma set_ar_vm_fields [simp]:
  "ar_vm (set_ar_vm s vm) = vm" "g_arenas (set_ar_vm s vm) = g_arenas s" "arena_at (set_ar_vm s vm) i = arena_at s i"
  "g_committed_pages (set_ar_vm s vm) = g_committed_pages s" "g_arena_active_count (set_ar_vm s vm) = g_arena_active_count s"
  by (simp_all add: set_ar_vm_def arena_at_def)

lemma put_arena_fields [simp]:
  "ar_heap (put_arena s i a) = ar_heap s" "g_arenas (put_arena s i a) = (g_arenas s)[unat i := a]"
  "g_committed_pages (put_arena s i a) = g_committed_pages s" "g_arena_active_count (put_arena s i a) = g_arena_active_count s"
  by (simp_all add: put_arena_def)

lemma arena_at_put [simp]: "unat i < length (g_arenas s) \<Longrightarrow> arena_at (put_arena s i a) i = a"
  by (simp add: arena_at_def)

lemma put_arena_twice [simp]: "(g_arenas s)[unat i := arena_at s i] = g_arenas s"
  by (simp add: arena_at_def)

text \<open>What the loop from page \<open>i\<close> on achieves: the pages \<open>qs\<close> are fresh, cleared and mapped.\<close>

definition pages_created ::
  "kernel_image \<Rightarrow> u32 \<Rightarrow> nat \<Rightarrow> u64 list \<Rightarrow> vm_state \<Rightarrow> vm_state \<Rightarrow> bool" where
  "pages_created img fl a qs vm vm' \<longleftrightarrow> vm_inv img vm' \<and> distinct qs \<and> set qs \<subseteq> vm_free vm \<and> vm_free vm' \<subseteq> vm_free vm - set qs \<and>
     mapped_from img fl a qs vm vm' \<and> keeps_data img vm vm' \<and>
     (\<forall>q \<in> set qs. data_page img vm' q \<and> (\<forall>j < 512. entry vm' q j = 0))"

lemma pages_created_Cons:
  assumes al: "vm_inv img vm" "pmm_alloc_page (pm_numa (vm_pmm vm)) = Some (p, n)" "p \<noteq> 0"
    and z: "vm1 = clear_bytes (vm\<lparr>vm_pmm := (vm_pmm vm)\<lparr>pm_numa := n\<rparr>\<rparr>) p PAGE_SIZE"
    and m: "vm_inv img vm2" "vm_free vm2 \<subseteq> vm_free vm1" "mapped_from img fl a [p] vm1 vm2" "keeps_data img vm1 vm2"
    and c: "pages_created img fl (Suc a) qs vm2 vm'"
  shows "pages_created img fl a (p # qs) vm vm'"
proof -
  note f = fresh_page_zeroed [OF al z]
  have "mapped_from img fl a [p] vm vm2"
    using m(3) f(5,6) by (simp add: mapped_from_def mmio_flag_def)
  then have "mapped_from img fl a (p # qs) vm vm'"
    by (rule mapped_from_Cons) (use c in \<open>simp add: pages_created_def\<close>)
  moreover have k: "keeps_data img vm1 vm'" "keeps_data img vm vm'"
    using c m(4) f(7) keeps_data_trans unfolding pages_created_def by blast+
  moreover have "data_page img vm' p \<and> (\<forall>j < 512. entry vm' p j = 0)"
    using k(1) f(8,9) by (auto simp: keeps_data_def)
  ultimately show ?thesis using c f(2,3) m(2) by (auto simp: pages_created_def)
qed

lemma create_loop_spec:
  assumes "vm_inv img (ar_vm s)" "arena_id < MAX_ARENAS" "length (g_arenas s) = 32" "A = arena_at s arena_id"
    and "ar_base A = page_at a" "ar_pages A = Some ps" "length ps = pc" "(a + pc) * 4096 \<le> 2 ^ 32" "i \<le> pc"
    and "3 * (pc - i) \<le> card (vm_free (ar_vm s))" "fl = vmm_flags_from_arena (ar_flags A)" "identity_frames img a (a + pc) (ar_vm s)"
  shows "\<exists>s' qs. create_loop img arena_id [i ..< pc] s = Some (XAIOS_OK, s') \<and> length qs = pc - i \<and>
    pages_created img fl (a + i) qs (ar_vm s) (ar_vm s') \<and>
    g_arenas s' = (g_arenas s)[unat arena_id := A\<lparr>ar_pages := Some (take i ps @ qs)\<rparr>] \<and>
    g_committed_pages s' = g_committed_pages s + of_nat (pc - i) \<and> g_arena_active_count s' = g_arena_active_count s"
  using assms
proof (induction "pc - i" arbitrary: i s ps A)
  case 0
  have "A\<lparr>ar_pages := Some ps\<rparr> = A" using 0(7) by (cases A) simp
  then have "(g_arenas s)[unat arena_id := A\<lparr>ar_pages := Some ps\<rparr>] = g_arenas s" using 0(5) by (simp add: arena_at_def)
  moreover have "pages_created img fl (a + i) [] (ar_vm s) (ar_vm s)"
    using 0(2) by (simp add: pages_created_def mapped_from_Nil)
  ultimately show ?case using 0(1,8,10) by simp
next
  case (Suc d)
  let ?vm = "ar_vm s"
  have i: "i < pc" "[i ..< pc] = i # [Suc i ..< pc]" "(a + i) * 4096 < 2 ^ 32"
    using Suc.hyps(2) Suc.prems(8) by (auto simp: upt_conv_Cons)
  have id: "unat arena_id < length (g_arenas s)" using Suc.prems(2,3) by (simp add: MAX_ARENAS_def word_less_nat_alt)
  have c3: "3 \<le> card (vm_free ?vm)" using Suc.prems(10) i(1) by simp
  then have "vm_free ?vm \<noteq> {}" by auto
  then obtain p n where al: "pmm_alloc_page (pm_numa (vm_pmm ?vm)) = Some (p, n)" "p \<noteq> 0"
    using pmm.alloc_total [OF vm_invD(1) [OF Suc.prems(1)]] by metis
  define vm1 where "vm1 = clear_bytes (?vm\<lparr>vm_pmm := (vm_pmm ?vm)\<lparr>pm_numa := n\<rparr>\<rparr>) p PAGE_SIZE"
  note f = fresh_page_zeroed [OF Suc.prems(1) al vm1_def]
  have zero: "arena_zero img (?vm\<lparr>vm_pmm := (vm_pmm ?vm)\<lparr>pm_numa := n\<rparr>\<rparr>) p PAGE_SIZE = Some vm1"
    unfolding vm1_def by (rule arena_zero_identity [OF Suc.prems(1,12) al refl])
  have cv: "card (vm_free ?vm) \<le> card (vm_free vm1) + 1" using f(2,3) c3 by (simp add: card_Diff_singleton)
  have c2: "2 \<le> card (vm_free vm1)" using cv c3 by simp
  obtain vm2 where m: "vmm_map_page img vm1 (page_at (a + i)) p fl = Some (XAIOS_OK, vm2)" "vm_inv img vm2"
    "vm_free vm2 \<subseteq> vm_free vm1" "card (vm_free vm1) \<le> card (vm_free vm2) + 2" "mapped_from img fl (a + i) [p] vm1 vm2"
    "keeps_data img vm1 vm2"
    by (rule map_one_page [OF f(1) c2 f(4) i(3), of fl]) (use Suc.prems(11) arena_flags in auto)
  define s1 where "s1 = set_page (set_ar_vm s (?vm\<lparr>vm_pmm := (vm_pmm ?vm)\<lparr>pm_numa := n\<rparr>\<rparr>)) arena_id i p"
  define s2 where "s2 = (set_ar_vm s1 vm2)\<lparr>g_committed_pages := g_committed_pages s1 + 1\<rparr>"
  have A1: "arena_at s1 arena_id = A\<lparr>ar_pages := Some (ps[i := p])\<rparr>"
    using id Suc.prems(4,6) by (simp add: s1_def set_page_def)
  have va: "ar_base A + of_nat i * PAGE_SIZE = page_at (a + i)"
    using Suc.prems(5) by (simp add: page_at_def PAGE_SIZE_def algebra_simps)
  have v1: "ar_vm s1 = ?vm\<lparr>vm_pmm := (vm_pmm ?vm)\<lparr>pm_numa := n\<rparr>\<rparr>" by (simp add: s1_def set_page_def)
  have run: "create_loop img arena_id [i ..< pc] s = create_loop img arena_id [Suc i ..< pc] s2"
    using al m(1) A1 v1 va zero Suc.prems(11) by (simp add: i(2) Let_def s2_def flip: s1_def)
  have idf: "identity_frames img a (a + pc) vm2"
  proof (rule identity_frames_step [OF Suc.prems(12)])
    show "vm_free vm2 \<subseteq> vm_free ?vm" using m(3) f(2) by blast
    show "vmm_translate img vm2 q = vmm_translate img ?vm q"
      if "unat q < 2 ^ 32" "\<not> (a \<le> unat q div 4096 \<and> unat q div 4096 < a + pc)" for q
      using mapped_fromD [OF m(5) that(1) refl] f(6) that(2) i(1) by auto
  qed
  have g: "g_arenas s2 = (g_arenas s)[unat arena_id := A\<lparr>ar_pages := Some (ps[i := p])\<rparr>]" "ar_vm s2 = vm2"
      "arena_at s2 arena_id = A\<lparr>ar_pages := Some (ps[i := p])\<rparr>" "g_committed_pages s2 = g_committed_pages s + 1"
      "g_arena_active_count s2 = g_arena_active_count s"
    using A1 Suc.prems(4,6) by (simp_all add: s2_def s1_def set_page_def arena_at_def)
  have cs: "3 * (pc - Suc i) \<le> card (vm_free (ar_vm s2))" using m(4) cv Suc.prems(10) i(1) unfolding g(2) by simp
  have dd: "d = pc - Suc i" using Suc.hyps(2) by simp
  obtain s' qs where r: "create_loop img arena_id [Suc i ..< pc] s2 = Some (XAIOS_OK, s')" "length qs = pc - Suc i"
    "pages_created img fl (a + Suc i) qs vm2 (ar_vm s')"
    "g_arenas s' = (g_arenas s2)[unat arena_id := A\<lparr>ar_pages := Some (take (Suc i) (ps[i := p]) @ qs)\<rparr>]"
    "g_committed_pages s' = g_committed_pages s2 + of_nat (pc - Suc i)" "g_arena_active_count s' = g_arena_active_count s2"
    using Suc.hyps(1) [of "Suc i" s2 "A\<lparr>ar_pages := Some (ps[i := p])\<rparr>" "ps[i := p]"] dd Suc.prems m(2) g i(1) cs idf
    by auto
  have "take (Suc i) (ps[i := p]) = take i ps @ [p]"
    using i(1) Suc.prems(7) by (simp add: take_Suc_conv_app_nth)
  moreover have "pages_created img fl (a + i) (p # qs) ?vm (ar_vm s')"
    by (rule pages_created_Cons [OF Suc.prems(1) al vm1_def m(2,3,5,6)]) (use r(3) in simp)
  moreover have "of_nat (pc - i) = (1 + of_nat (pc - Suc i) :: u64)" using i(1) by (metis Suc_diff_Suc of_nat_Suc)
  ultimately show ?case using run r g i(1) by (intro exI [of _ s'] exI [of _ "p # qs"]) simp
qed

section \<open>Creating an arena\<close>

lemma arena_base_page:
  assumes "arena_id < MAX_ARENAS"
  shows "arena_base arena_id = page_at (0x4c000 + unat arena_id * 512)" "unat (arena_base arena_id) = 0x4c000000 + unat arena_id * 0x200000"
proof -
  have id: "unat arena_id < 32" using assms by (simp add: MAX_ARENAS_def word_less_nat_alt)
  have "unat (ucast arena_id :: u64) = unat arena_id" by (rule unat_ucast_small) (use id in simp)
  then show u: "unat (arena_base arena_id) = 0x4c000000 + unat arena_id * 0x200000"
    using id by (simp add: arena_base_def ARENA_VA_BASE_def ARENA_VA_STRIDE_def unat_word_ariths)
  show "arena_base arena_id = page_at (0x4c000 + unat arena_id * 512)"
    unfolding word_eq_unat u by (subst page_at_facts(1)) (use id in simp_all)
qed

lemma arena_create_spec:
  assumes "kheap_inv (ar_heap s) bs fs" "heap_mapped img (ar_heap s)" "length (g_arenas s) = 32"
    and "arena_validate_create s arena_id kind name sz = XAIOS_OK" "pc = (unat sz + 4095) div 4096"
    and "data = align_up (g_heap_next (ar_heap s) + KHEAP_HEADER_SIZE) 16" "unat data + 8 * pc \<le> unat KHEAP_LIMIT"
    and "n = (unat data + 8 * pc + 4095) div 4096 - unat (g_heap_mapped_end (ar_heap s)) div 4096"
    and "3 * pc + 3 * n \<le> card (vm_free (ar_vm s))"
    and "identity_frames img (unat KHEAP_BASE div 4096) (unat KHEAP_LIMIT div 4096) (ar_vm s)"
    and "identity_frames img (unat ARENA_VA_BASE div 4096) (unat ARENA_VA_LIMIT div 4096) (ar_vm s)"
  shows "\<exists>s' ps. arena_create img s arena_id kind owner name sz flags = Some (XAIOS_OK, s') \<and>
    ar_state (arena_at s' arena_id) = XAIOS_ARENA_READY \<and> ar_pages (arena_at s' arena_id) = Some ps \<and>
    length ps = pc \<and> distinct ps \<and> set ps \<subseteq> vm_free (ar_vm s) \<and> set ps \<inter> vm_free (ar_vm s') = {} \<and>
    (\<forall>p \<in> set ps. \<forall>j < 512. entry (ar_vm s') p j = 0) \<and>
    (\<forall>w. unat w < 2 ^ 32 \<longrightarrow> unat w < unat KHEAP_BASE \<or> unat KHEAP_LIMIT \<le> unat w \<longrightarrow>
       vmm_translate img (ar_vm s') w =
         (let i = unat w div 4096 - unat (arena_base arena_id) div 4096
          in if arena_base arena_id \<le> w \<and> i < pc
             then Some (ps ! i + (w AND 0xfff), vmm_flags_from_arena flags AND READ_BACK OR mmio_flag (ar_vm s) w)
             else vmm_translate img (ar_vm s) w))"
proof -
  define a where "a = 0x4c000 + unat arena_id * 512"
  have v: "arena_id < MAX_ARENAS" "name \<noteq> None" "sz \<noteq> 0" "arena_base arena_id + align_up sz PAGE_SIZE \<le> ARENA_VA_LIMIT"
    using assms(4) by (auto simp: arena_validate_create_def str_nonempty_def split: if_splits option.splits)
  note ab = arena_base_page [OF v(1), folded a_def]
  have id: "unat arena_id < 32" using v(1) by (simp add: MAX_ARENAS_def word_less_nat_alt)
  have pc: "8 * pc \<le> 0x4b000000" "0 < pc" using assms(5,7) kheap_limits v(3) by (auto simp: unat_gt_0 [symmetric])
  then have szb: "unat sz \<le> 0x9600000 * 4096" using assms(5) by simp
  then have up: "unat (align_up sz PAGE_SIZE) = pc * 4096" using unat_align_up [of sz] assms(5) by simp
  have "unat (arena_base arena_id + align_up sz PAGE_SIZE) = unat (arena_base arena_id) + pc * 4096"
    unfolding up [symmetric] by (rule unat_add_le) (use up ab(2) id pc in simp)
  then have lim': "(a + pc) * 4096 \<le> 0x50000000"
    using v(4) ab(2) by (simp add: word_le_nat_alt ARENA_VA_LIMIT_def a_def)
  then have lim: "(a + pc) * 4096 \<le> 2 ^ 32" by simp
  define cnt where "cnt = align_up sz PAGE_SIZE div PAGE_SIZE"
  have cnt: "unat cnt = pc" using up by (simp add: cnt_def unat_div PAGE_SIZE_def)
  then have c8: "unat (8 * cnt) = 8 * pc" using pc by (simp add: unat_word_ariths)
  then have c80: "8 * cnt \<noteq> 0" using pc(2) by auto
  have pow: "(16 :: u64) AND (16 - 1) = 0" by simp
  obtain p h where h: "kheap_alloc img (ar_heap s) (8 * cnt) 16 = Some (p, h)" "p \<noteq> 0" "heap_mapped img h" "heap_frame img n (ar_vm s) (kh_vm h)"
    by (rule kheap_alloc_spec [OF assms(1,2) c80 _ pow assms(6)]) (use assms(7-9) c8 in auto)
  define h1 where "h1 = h\<lparr>kh_bytes := (\<lambda>b. if b - p < 8 * cnt then 0 else kh_bytes h b)\<rparr>"
  have cal: "kheap_calloc img (ar_heap s) (8 * cnt) 16 = Some (p, h1)" using h(1,2) by (simp add: kheap_calloc_def h1_def)
  define A where "A = (arena_at s arena_id)\<lparr>ar_kind := kind, ar_owner_id := owner, ar_name := copy_name (the name),
      ar_base := arena_base arena_id, ar_size := sz, ar_page_count := cnt, ar_flags := flags OR XAIOS_ARENA_FLAG_PREFaultED,
      ar_ref_count := 0, ar_fault_count := 0, ar_pages := Some (replicate (unat cnt) 0)\<rparr>"
  define s1 where "s1 = put_arena (s\<lparr>ar_heap := h1\<rparr>) arena_id A"
  have s1: "ar_vm s1 = kh_vm h" "arena_at s1 arena_id = A" "length (g_arenas s1) = 32"
    using id assms(3) by (simp_all add: s1_def h1_def)
  have fr: "3 * pc \<le> card (vm_free (ar_vm s1))" using h(4) assms(9) s1(1) by (simp add: heap_frame_def)
  have inv: "vm_inv img (ar_vm s1)" using h(3) s1(1) by (simp add: heap_mapped_def)
  have idf: "identity_frames img a (a + pc) (ar_vm s1)" unfolding s1(1)
  proof (rule identity_frames_step [where vm = "ar_vm s"])
    have "a + pc \<le> unat ARENA_VA_LIMIT div 4096" "unat ARENA_VA_BASE div 4096 \<le> a"
      using lim' by (simp_all add: a_def ARENA_VA_LIMIT_def ARENA_VA_BASE_def)
    then show "identity_frames img a (a + pc) (ar_vm s)"
      using assms(11) unfolding identity_frames_def by (meson order.strict_trans2 order.trans)
    show "vm_free (kh_vm h) \<subseteq> vm_free (ar_vm s)" using h(4) by (simp add: heap_frame_def)
    show "vmm_translate img (kh_vm h) p = vmm_translate img (ar_vm s) p" if p: "p \<in> vm_free (ar_vm s)" "unat p < 2 ^ 32" for p
    proof -
      have "\<not> (unat KHEAP_BASE div 4096 \<le> unat p div 4096 \<and> unat p div 4096 < unat KHEAP_LIMIT div 4096)"
        using assms(10) p(1) by (simp add: identity_frames_def)
      then have "unat p < unat KHEAP_BASE \<or> unat KHEAP_LIMIT \<le> unat p"
        by (auto simp: KHEAP_BASE_def KHEAP_LIMIT_def KHEAP_SIZE_def)
      then show ?thesis using h(4) p(2) by (auto simp: heap_frame_def)
    qed
  qed
  obtain s2 qs where r: "create_loop img arena_id [0 ..< pc] s1 = Some (XAIOS_OK, s2)" "length qs = pc"
      "pages_created img (vmm_flags_from_arena flags) a qs (kh_vm h) (ar_vm s2)"
      "g_arenas s2 = (g_arenas s1)[unat arena_id := A\<lparr>ar_pages := Some qs\<rparr>]"
    using create_loop_spec [OF inv v(1) s1(3) s1(2) [symmetric], of a "replicate pc 0" pc 0] lim fr ab(1) cnt s1(1) arena_flags(3) idf
    by (auto simp: A_def)
  define s3 where "s3 = (put_arena s2 arena_id ((arena_at s2 arena_id)\<lparr>ar_state := XAIOS_ARENA_READY\<rparr>))
      \<lparr>g_arena_active_count := g_arena_active_count s2 + 1\<rparr>"
  have "arena_create img s arena_id kind owner name sz flags = Some (XAIOS_OK, s3)"
    using assms(4) cal h(2) r(1) cnt by (simp add: arena_create_def Let_def s3_def A_def s1_def flip: cnt_def)
  moreover have "arena_at s2 arena_id = A\<lparr>ar_pages := Some qs\<rparr>" "length (g_arenas s2) = 32"
    using r(4) s1(3) id by (simp_all add: arena_at_def)
  then have "arena_at s3 arena_id = A\<lparr>ar_pages := Some qs, ar_state := XAIOS_ARENA_READY\<rparr>" "ar_vm s3 = ar_vm s2"
    using id by (simp_all add: s3_def arena_at_def)
  moreover have "vmm_translate img (ar_vm s2) w =
         (let i = unat w div 4096 - unat (arena_base arena_id) div 4096
          in if arena_base arena_id \<le> w \<and> i < pc
             then Some (qs ! i + (w AND 0xfff), vmm_flags_from_arena flags AND READ_BACK OR mmio_flag (ar_vm s) w)
             else vmm_translate img (ar_vm s) w)"
    if w: "unat w < 2 ^ 32" "unat w < unat KHEAP_BASE \<or> unat KHEAP_LIMIT \<le> unat w" for w
  proof -
    define m where "m = unat w div 4096"
    have "vmm_translate img (kh_vm h) w = vmm_translate img (ar_vm s) w" "mmio_flag (kh_vm h) w = mmio_flag (ar_vm s) w"
      using h(4) w by (auto simp: heap_frame_def mmio_flag_def)
    moreover have "arena_base arena_id \<le> w \<longleftrightarrow> a \<le> m" "unat (arena_base arena_id) div 4096 = a"
      using ab(2) by (auto simp: word_le_nat_alt a_def m_def less_eq_div_iff_mult_less_eq)
    ultimately show ?thesis
      using mapped_fromD [of img "vmm_flags_from_arena flags" a qs "kh_vm h" "ar_vm s2" w m] r(2,3) w(1)
      by (auto simp: pages_created_def Let_def simp flip: m_def)
  qed
  moreover have "vm_free (kh_vm h) \<subseteq> vm_free (ar_vm s)" using h(4) by (simp add: heap_frame_def)
  ultimately show ?thesis
    using r(2,3) by (intro exI [of _ s3] exI [of _ qs]) (auto simp: pages_created_def)
qed


text \<open>The heap and the arena manager started after the boot of the example machine.\<close>

definition demo_boot_heap :: kheap_state where
  "demo_boot_heap = kheap_init (demo_free_list\<lparr>kh_vm := demo_booted\<rparr>)"

definition demo_arenas :: arena_state where
  "demo_arenas = arena_manager_init \<lparr>ar_heap = demo_boot_heap, g_arenas = [], g_committed_pages = 0, g_arena_active_count = 0\<rparr>"

lemma demo_boot_heap_ok:
  "kheap_inv demo_boot_heap {} []" "heap_mapped demo_image demo_boot_heap" "g_heap_next demo_boot_heap = 0x4a000000"
  "g_heap_mapped_end demo_boot_heap = 0x4a000000" "kh_vm demo_boot_heap = demo_booted"
proof -
  show "heap_mapped demo_image demo_boot_heap" unfolding heap_mapped_def
    by (intro conjI exI [of _ "0x4a000"])
       (simp_all add: demo_boot_heap_def kheap_init_def page_at_def KHEAP_BASE_def KHEAP_LIMIT_def KHEAP_SIZE_def demo_booted)
  show "kheap_inv demo_boot_heap {} []" unfolding demo_boot_heap_def by (rule kheap_inv_init)
qed (simp_all add: demo_boot_heap_def kheap_init_def KHEAP_BASE_def)

lemma demo_arenas_facts:
  "ar_heap demo_arenas = demo_boot_heap" "length (g_arenas demo_arenas) = 32"
  "i < 32 \<Longrightarrow> ar_state (arena_at demo_arenas i) = XAIOS_ARENA_EMPTY"
  "align_up (g_heap_next demo_boot_heap + KHEAP_HEADER_SIZE) 16 = 0x4a000010"
  unfolding demo_boot_heap_ok(3)
  by (simp_all add: demo_align demo_arenas_def arena_manager_init_def MAX_ARENAS_def arena_at_def word_less_nat_alt)

lemma demo_arenas_identity: "0x140 \<le> lo \<Longrightarrow> identity_frames demo_image lo hi demo_booted"
  unfolding identity_frames_def using demo_booted(4) by fastforce

lemma demo_arena_create:
  assumes "arena_validate_create demo_arenas arena_id kind name sz = XAIOS_OK" "pc = (unat sz + 4095) div 4096" "pc \<le> 16"
  shows "kheap_inv (ar_heap demo_arenas) {} []" "heap_mapped demo_image (ar_heap demo_arenas)"
    "0x4a000010 = align_up (g_heap_next (ar_heap demo_arenas) + KHEAP_HEADER_SIZE) 16"
    "unat (0x4a000010 :: u64) + 8 * pc \<le> unat KHEAP_LIMIT"
    "1 = (unat (0x4a000010 :: u64) + 8 * pc + 4095) div 4096 - unat (g_heap_mapped_end (ar_heap demo_arenas)) div 4096"
    "3 * pc + 3 * 1 \<le> card (vm_free (ar_vm demo_arenas))"
    "identity_frames demo_image (unat KHEAP_BASE div 4096) (unat KHEAP_LIMIT div 4096) (ar_vm demo_arenas)"
    "identity_frames demo_image (unat ARENA_VA_BASE div 4096) (unat ARENA_VA_LIMIT div 4096) (ar_vm demo_arenas)"
  unfolding demo_arenas_facts(1) demo_boot_heap_ok(4,5)
  using assms(3) demo_boot_heap_ok(1,2) demo_arenas_facts(4) kheap_limits demo_booted(2)
    demo_arenas_identity [of "unat KHEAP_BASE div 4096"] demo_arenas_identity [of "unat ARENA_VA_BASE div 4096"]
  by (auto simp: KHEAP_BASE_def ARENA_VA_BASE_def)


end
