(* ===== verification/Sandbox.thy ===== *)
theory Sandbox
  imports Arena Security
begin

text \<open>
  \<^verbatim>\<open>kernel/runtime/sandbox.c\<close>: build sandboxes with an exclusive workspace, an owner cell and a build arena, and
  the bytecode machine that writes build output into the arena. The bytes at the virtual addresses of the
  arenas are a store of their own. The machine's 64-bit registers are words; an overflow of the signed addition
  or multiplication, which C leaves undefined, wraps as on the target. \<open>None\<close> stands for a failed assertion of
  the memory code or for a call that does not return.
\<close>

section \<open>Model\<close>

definition XAIOS_SANDBOX_VM_MAX_INSTRUCTIONS :: u32 where
  "XAIOS_SANDBOX_VM_MAX_INSTRUCTIONS = 4096"

definition XAIOS_SANDBOX_VM_REGISTERS :: u32 where
  "XAIOS_SANDBOX_VM_REGISTERS = 8"

definition MAX_SANDBOXES :: u32 where
  "MAX_SANDBOXES = 4"

definition SANDBOX_BUILD_ARENA_BASE :: u32 where
  "SANDBOX_BUILD_ARENA_BASE = 25"

definition SANDBOX_MAX_ARTIFACT_BYTES :: u64 where
  "SANDBOX_MAX_ARTIFACT_BYTES = 262144"

definition XAIOS_SANDBOX_VM_OP_NOP :: u8 where
  "XAIOS_SANDBOX_VM_OP_NOP = 0"

definition XAIOS_SANDBOX_VM_OP_LOAD_IMM :: u8 where
  "XAIOS_SANDBOX_VM_OP_LOAD_IMM = 1"

definition XAIOS_SANDBOX_VM_OP_ADD :: u8 where
  "XAIOS_SANDBOX_VM_OP_ADD = 2"

definition XAIOS_SANDBOX_VM_OP_MUL :: u8 where
  "XAIOS_SANDBOX_VM_OP_MUL = 3"

definition XAIOS_SANDBOX_VM_OP_EMIT :: u8 where
  "XAIOS_SANDBOX_VM_OP_EMIT = 4"

definition XAIOS_SANDBOX_VM_OP_CMP :: u8 where
  "XAIOS_SANDBOX_VM_OP_CMP = 5"

definition XAIOS_SANDBOX_VM_OP_JNZ :: u8 where
  "XAIOS_SANDBOX_VM_OP_JNZ = 6"

definition XAIOS_SANDBOX_VM_OP_HALT :: u8 where
  "XAIOS_SANDBOX_VM_OP_HALT = 7"

definition XAIOS_SANDBOX_VM_OP_EMIT_STR :: u8 where
  "XAIOS_SANDBOX_VM_OP_EMIT_STR = 8"

lemmas vm_op_defs = XAIOS_SANDBOX_VM_OP_NOP_def XAIOS_SANDBOX_VM_OP_LOAD_IMM_def XAIOS_SANDBOX_VM_OP_ADD_def
  XAIOS_SANDBOX_VM_OP_MUL_def XAIOS_SANDBOX_VM_OP_EMIT_def XAIOS_SANDBOX_VM_OP_CMP_def XAIOS_SANDBOX_VM_OP_JNZ_def
  XAIOS_SANDBOX_VM_OP_HALT_def XAIOS_SANDBOX_VM_OP_EMIT_STR_def

record xaios_sandbox_vm_insn =
  insn_op :: u8
  insn_dst :: u8
  insn_src1 :: u8
  insn_src2 :: u8
  insn_imm :: u32

datatype xaios_sandbox_state =
    XAIOS_SANDBOX_EMPTY
  | XAIOS_SANDBOX_CREATED
  | XAIOS_SANDBOX_BUILDING
  | XAIOS_SANDBOX_BUILT
  | XAIOS_SANDBOX_ROLLED_BACK
  | XAIOS_SANDBOX_FAILED

record xaios_sandbox_manifest =
  mf_sandbox_id :: u32
  mf_cell_id :: u32
  mf_workspace_id :: u32
  mf_repo_path :: cstr
  mf_worktree_path :: cstr
  mf_build_dir :: cstr
  mf_artifact_dir :: cstr
  mf_source_revision :: cstr
  mf_max_artifact_bytes :: u64
  mf_allow_network :: u32

record xaios_sandbox =
  sb_state :: xaios_sandbox_state
  sb_manifest :: xaios_sandbox_manifest
  sb_build_arena_id :: u32
  sb_build_arena_base :: u64
  sb_build_generation :: u64
  sb_rollback_generation :: u64
  sb_last_good_revision :: cstr
  sb_current_revision :: cstr

record sandbox_state =
  sb_arena :: arena_state
  sb_security :: security_state
  sb_memory :: "u64 \<Rightarrow> u8"
  g_sandboxes :: "xaios_sandbox list"
  g_workspace_owner :: "u8 list"
  g_transition_count :: u64
  g_sandbox_active_count :: u64
  g_vm_exec_count :: u64

definition sandbox_at :: "sandbox_state \<Rightarrow> u32 \<Rightarrow> xaios_sandbox" where
  "sandbox_at s i = g_sandboxes s ! unat i"

definition put_sandbox :: "sandbox_state \<Rightarrow> u32 \<Rightarrow> xaios_sandbox \<Rightarrow> sandbox_state" where
  "put_sandbox s i b = s\<lparr>g_sandboxes := (g_sandboxes s)[unat i := b]\<rparr>"

fun str_prefix_loop :: "string \<Rightarrow> string \<Rightarrow> bool" where
  "str_prefix_loop v [] = True"
| "str_prefix_loop [] (p # ps) = False"
| "str_prefix_loop (c # cs) (p # ps) = (if c \<noteq> p then False else str_prefix_loop cs ps)"

definition str_prefix :: "cstr \<Rightarrow> cstr \<Rightarrow> bool" where
  "str_prefix v pre =
     (if \<not> str_nonempty v \<or> \<not> str_nonempty pre then False else str_prefix_loop (the v) (the pre))"

text \<open>The four path checks run in order and stop at the first failure; each one counts in the security state.\<close>

fun validate_paths :: "security_state \<Rightarrow> cstr list \<Rightarrow> xaios_status \<times> security_state" where
  "validate_paths sec [] = (XAIOS_OK, sec)"
| "validate_paths sec (p # ps) =
     (let (st, sec1) = security_validate_sandbox_path sec p
      in if st \<noteq> XAIOS_OK then (XAIOS_ERR_INVALID, sec1) else validate_paths sec1 ps)"

definition manifest_fields_ok :: "xaios_sandbox_manifest \<Rightarrow> bool" where
  "manifest_fields_ok m \<longleftrightarrow>
     \<not> (mf_sandbox_id m \<ge> MAX_SANDBOXES \<or> mf_cell_id m \<ge> MAX_SANDBOXES \<or> mf_workspace_id m = 0 \<or>
        mf_workspace_id m > MAX_SANDBOXES \<or> \<not> str_prefix (mf_repo_path m) (Some ''/repo/'') \<or>
        \<not> str_prefix (mf_worktree_path m) (Some ''/workspace/'') \<or> \<not> str_prefix (mf_build_dir m) (Some ''/workspace/'') \<or>
        \<not> str_prefix (mf_artifact_dir m) (Some ''/artifacts/'') \<or> \<not> str_nonempty (mf_source_revision m) \<or>
        mf_max_artifact_bytes m = 0 \<or> mf_max_artifact_bytes m > SANDBOX_MAX_ARTIFACT_BYTES \<or> mf_allow_network m \<noteq> 0)"

definition validate_manifest :: "security_state \<Rightarrow> xaios_sandbox_manifest option \<Rightarrow> xaios_status \<times> security_state" where
  "validate_manifest sec manifest =
     (case manifest of
        None \<Rightarrow> (XAIOS_ERR_INVALID, sec)
      | Some m \<Rightarrow>
          if \<not> manifest_fields_ok m then (XAIOS_ERR_INVALID, sec)
          else validate_paths sec [mf_repo_path m, mf_worktree_path m, mf_build_dir m, mf_artifact_dir m])"

definition fill_manifest :: "u32 \<Rightarrow> u32 \<Rightarrow> cstr \<Rightarrow> u32 \<Rightarrow> xaios_sandbox_manifest" where
  "fill_manifest sandbox_id workspace_id repo_path allow_network =
     \<lparr>mf_sandbox_id = sandbox_id, mf_cell_id = 0, mf_workspace_id = workspace_id, mf_repo_path = repo_path,
      mf_worktree_path = Some ''/workspace/1/app'', mf_build_dir = Some ''/workspace/1/build'',
      mf_artifact_dir = Some ''/artifacts/1'', mf_source_revision = Some ''rev-good'',
      mf_max_artifact_bytes = 64 * 1024, mf_allow_network = allow_network\<rparr>"

definition sandbox_runtime_init :: "sandbox_state \<Rightarrow> sandbox_state" where
  "sandbox_runtime_init s =
     s\<lparr>g_sandboxes := map (\<lambda>b. b\<lparr>sb_state := XAIOS_SANDBOX_EMPTY, sb_build_arena_id := 0, sb_build_arena_base := 0,
          sb_build_generation := 0, sb_rollback_generation := 0, sb_last_good_revision := None, sb_current_revision := None\<rparr>)
          (g_sandboxes s),
        g_workspace_owner := replicate (unat MAX_SANDBOXES + 1) 0,
        g_transition_count := 0, g_sandbox_active_count := 0, g_vm_exec_count := 0\<rparr>"

definition sandbox_create ::
  "kernel_image \<Rightarrow> sandbox_state \<Rightarrow> xaios_sandbox_manifest option \<Rightarrow> (xaios_status \<times> sandbox_state) option" where
  "sandbox_create img s manifest =
     (let (st, sec) = validate_manifest (sb_security s) manifest;
          s0 = s\<lparr>sb_security := sec\<rparr>;
          m = the manifest
      in if st \<noteq> XAIOS_OK then Some (XAIOS_ERR_INVALID, s0)
         else if sb_state (sandbox_at s0 (mf_sandbox_id m)) \<noteq> XAIOS_SANDBOX_EMPTY \<or>
                 g_workspace_owner s0 ! unat (mf_workspace_id m) \<noteq> 0
         then Some (XAIOS_ERR_BUSY, s0)
         else let arena_id = SANDBOX_BUILD_ARENA_BASE + mf_sandbox_id m
         in case arena_create img (sb_arena s0) arena_id XAIOS_ARENA_BUILD_OUTPUT (mf_sandbox_id m) (Some ''sandbox-build'')
                   (mf_max_artifact_bytes m) 0 of
              None \<Rightarrow> None
            | Some (ast, ar) \<Rightarrow>
                if ast \<noteq> XAIOS_OK then Some (XAIOS_ERR_NO_MEMORY, s0\<lparr>sb_arena := ar\<rparr>)
                else let s1 = put_sandbox (s0\<lparr>sb_arena := ar\<rparr>) (mf_sandbox_id m)
                           ((sandbox_at s0 (mf_sandbox_id m))\<lparr>sb_state := XAIOS_SANDBOX_CREATED, sb_manifest := m,
                              sb_build_arena_id := arena_id, sb_build_arena_base := ar_base (arena_at ar arena_id),
                              sb_build_generation := 0, sb_rollback_generation := 0,
                              sb_last_good_revision := mf_source_revision m, sb_current_revision := mf_source_revision m\<rparr>)
                     in Some (XAIOS_OK,
                          s1\<lparr>g_workspace_owner := (g_workspace_owner s1)[unat (mf_workspace_id m) := ucast (mf_sandbox_id m + 1)],
                             g_transition_count := g_transition_count s1 + 1,
                             g_sandbox_active_count := g_sandbox_active_count s1 + 1\<rparr>))"

definition sandbox_start_build_as :: "sandbox_state \<Rightarrow> u32 \<Rightarrow> u32 \<Rightarrow> xaios_status \<times> sandbox_state" where
  "sandbox_start_build_as s actor_cell_id sandbox_id =
     (if sandbox_id \<ge> MAX_SANDBOXES \<or> sb_state (sandbox_at s sandbox_id) \<noteq> XAIOS_SANDBOX_CREATED then (XAIOS_ERR_INVALID, s)
      else let (st, sec) = security_authorize_sandbox (sb_security s) sandbox_id
                             (mf_cell_id (sb_manifest (sandbox_at s sandbox_id))) actor_cell_id (Some ''build'');
               s1 = s\<lparr>sb_security := sec\<rparr>
           in if st \<noteq> XAIOS_OK then (XAIOS_ERR_INVALID, s1)
              else let s2 = put_sandbox s1 sandbox_id ((sandbox_at s1 sandbox_id)\<lparr>sb_state := XAIOS_SANDBOX_BUILDING,
                              sb_build_generation := sb_build_generation (sandbox_at s1 sandbox_id) + 1\<rparr>)
                   in (XAIOS_OK, s2\<lparr>g_transition_count := g_transition_count s2 + 1\<rparr>))"

definition sandbox_start_build :: "sandbox_state \<Rightarrow> u32 \<Rightarrow> xaios_status \<times> sandbox_state" where
  "sandbox_start_build s sandbox_id =
     (if sandbox_id \<ge> MAX_SANDBOXES then (XAIOS_ERR_INVALID, s)
      else sandbox_start_build_as s (mf_cell_id (sb_manifest (sandbox_at s sandbox_id))) sandbox_id)"

definition sandbox_finish_build :: "sandbox_state \<Rightarrow> u32 \<Rightarrow> cstr \<Rightarrow> xaios_status \<times> sandbox_state" where
  "sandbox_finish_build s sandbox_id artifact_revision =
     (if sandbox_id \<ge> MAX_SANDBOXES \<or> sb_state (sandbox_at s sandbox_id) \<noteq> XAIOS_SANDBOX_BUILDING \<or> \<not> str_nonempty artifact_revision
      then (XAIOS_ERR_INVALID, s)
      else let s1 = put_sandbox s sandbox_id ((sandbox_at s sandbox_id)\<lparr>sb_state := XAIOS_SANDBOX_BUILT,
                      sb_current_revision := artifact_revision\<rparr>)
           in (XAIOS_OK, s1\<lparr>g_transition_count := g_transition_count s1 + 1\<rparr>))"

definition sandbox_rollback_as :: "sandbox_state \<Rightarrow> u32 \<Rightarrow> u32 \<Rightarrow> xaios_status \<times> sandbox_state" where
  "sandbox_rollback_as s actor_cell_id sandbox_id =
     (if sandbox_id \<ge> MAX_SANDBOXES \<or> sb_state (sandbox_at s sandbox_id) \<noteq> XAIOS_SANDBOX_BUILT then (XAIOS_ERR_INVALID, s)
      else let owner = mf_cell_id (sb_manifest (sandbox_at s sandbox_id));
               (st, sec) = security_authorize_sandbox (sb_security s) sandbox_id owner actor_cell_id (Some ''rollback'')
           in if st \<noteq> XAIOS_OK then (XAIOS_ERR_INVALID, s\<lparr>sb_security := sec\<rparr>)
              else let (st2, sec2) = security_authorize_rollback sec (Some ''sandbox'') (of_bool (actor_cell_id = owner));
                       s1 = s\<lparr>sb_security := sec2\<rparr>
                   in if st2 \<noteq> XAIOS_OK then (XAIOS_ERR_INVALID, s1)
                      else let b = sandbox_at s1 sandbox_id;
                               s2 = put_sandbox s1 sandbox_id (b\<lparr>sb_state := XAIOS_SANDBOX_ROLLED_BACK,
                                      sb_current_revision := sb_last_good_revision b,
                                      sb_rollback_generation := sb_rollback_generation b + 1\<rparr>)
                           in (XAIOS_OK, s2\<lparr>g_transition_count := g_transition_count s2 + 1\<rparr>))"

definition sandbox_rollback :: "sandbox_state \<Rightarrow> u32 \<Rightarrow> xaios_status \<times> sandbox_state" where
  "sandbox_rollback s sandbox_id =
     (if sandbox_id \<ge> MAX_SANDBOXES then (XAIOS_ERR_INVALID, s)
      else sandbox_rollback_as s (mf_cell_id (sb_manifest (sandbox_at s sandbox_id))) sandbox_id)"

definition sandbox_transition_count :: "sandbox_state \<Rightarrow> u64" where
  "sandbox_transition_count s = g_transition_count s"

definition sandbox_active_count :: "sandbox_state \<Rightarrow> u64" where
  "sandbox_active_count s = g_sandbox_active_count s"

definition sandbox_vm_exec_count :: "sandbox_state \<Rightarrow> u64" where
  "sandbox_vm_exec_count s = g_vm_exec_count s"

section \<open>The bytecode machine\<close>

text \<open>The local variables of the interpreter loop and the memory it writes to.\<close>

record sandbox_vm =
  vm_regs :: "u64 list"
  vm_out_pos :: u64
  vm_pc :: u32
  vm_cycles :: u32
  vm_memory :: "u64 \<Rightarrow> u8"

text \<open>The output buffer: its address, 0 without an arena, and its capacity.\<close>

definition vm_emit :: "u64 \<Rightarrow> u64 \<Rightarrow> sandbox_vm \<Rightarrow> sandbox_vm" where
  "vm_emit arena_out v m = m\<lparr>vm_memory := (vm_memory m)(arena_out + vm_out_pos m := ucast v), vm_out_pos := vm_out_pos m + 1\<rparr>"

fun emit_str_loop :: "u64 \<Rightarrow> u64 \<Rightarrow> u8 \<Rightarrow> nat \<Rightarrow> u32 \<Rightarrow> sandbox_vm \<Rightarrow> sandbox_vm" where
  "emit_str_loop arena_out arena_cap src1 0 ri m = m"
| "emit_str_loop arena_out arena_cap src1 (Suc left) ri m =
     (if arena_out \<noteq> 0 \<and> vm_out_pos m < arena_cap
      then emit_str_loop arena_out arena_cap src1 left (ri + 1)
             (vm_emit arena_out (vm_regs m ! unat ((ucast src1 + ri) mod XAIOS_SANDBOX_VM_REGISTERS)) m)
      else m)"

definition reg_of :: "u8 \<Rightarrow> nat" where
  "reg_of r = unat (ucast r mod XAIOS_SANDBOX_VM_REGISTERS)"

definition vm_set_reg :: "u8 \<Rightarrow> u64 \<Rightarrow> sandbox_vm \<Rightarrow> sandbox_vm" where
  "vm_set_reg r v m = m\<lparr>vm_regs := (vm_regs m)[reg_of r := v], vm_pc := vm_pc m + 1\<rparr>"

text \<open>One pass through the switch; \<open>None\<close> is the default case.\<close>

definition vm_step :: "u64 \<Rightarrow> u64 \<Rightarrow> u32 \<Rightarrow> xaios_sandbox_vm_insn \<Rightarrow> sandbox_vm \<Rightarrow> sandbox_vm option" where
  "vm_step arena_out arena_cap insn_count insn m0 =
     (let m = m0\<lparr>vm_cycles := vm_cycles m0 + 1\<rparr>;
          d = vm_regs m ! reg_of (insn_dst insn);
          a = vm_regs m ! reg_of (insn_src1 insn);
          b = vm_regs m ! reg_of (insn_src2 insn);
          next = (\<lambda>m. m\<lparr>vm_pc := vm_pc m + 1\<rparr>)
      in if insn_op insn = XAIOS_SANDBOX_VM_OP_NOP then Some (next m)
         else if insn_op insn = XAIOS_SANDBOX_VM_OP_LOAD_IMM then Some (vm_set_reg (insn_dst insn) (scast (insn_imm insn)) m)
         else if insn_op insn = XAIOS_SANDBOX_VM_OP_ADD then Some (vm_set_reg (insn_dst insn) (a + b) m)
         else if insn_op insn = XAIOS_SANDBOX_VM_OP_MUL then Some (vm_set_reg (insn_dst insn) (a * b) m)
         else if insn_op insn = XAIOS_SANDBOX_VM_OP_EMIT
         then Some (next (if arena_out \<noteq> 0 \<and> vm_out_pos m < arena_cap then vm_emit arena_out d m else m))
         else if insn_op insn = XAIOS_SANDBOX_VM_OP_CMP
         then Some (vm_set_reg (insn_dst insn) (if a = b then 0 else 1) m)
         else if insn_op insn = XAIOS_SANDBOX_VM_OP_JNZ
         then Some (if d \<noteq> 0 then m\<lparr>vm_pc := insn_imm insn\<rparr> else next m)
         else if insn_op insn = XAIOS_SANDBOX_VM_OP_HALT then Some (m\<lparr>vm_pc := insn_count\<rparr>)
         else if insn_op insn = XAIOS_SANDBOX_VM_OP_EMIT_STR
         then Some (next (emit_str_loop arena_out arena_cap (insn_src1 insn) (unat (insn_imm insn)) 0 m))
         else None)"

text \<open>The interpreter loop; the flag tells whether it ended without an illegal instruction.\<close>

partial_function (option) vm_loop ::
  "xaios_sandbox_vm_insn list \<Rightarrow> u64 \<Rightarrow> u64 \<Rightarrow> u32 \<Rightarrow> u32 \<Rightarrow> sandbox_vm \<Rightarrow> (bool \<times> sandbox_vm) option" where
  "vm_loop program arena_out arena_cap insn_count max_cycles m =
     (if vm_pc m < insn_count \<and> vm_cycles m < max_cycles
      then case vm_step arena_out arena_cap insn_count (program ! unat (vm_pc m)) m of
             None \<Rightarrow> Some (False, m)
           | Some m1 \<Rightarrow> vm_loop program arena_out arena_cap insn_count max_cycles m1
      else Some (True, m))"

text \<open>
  The result carries the new value of \<^verbatim>\<open>*output_bytes\<close>, \<open>None\<close> when it is not written;
  \<open>output_ptr\<close> tells whether that pointer is non-null.
\<close>

definition sandbox_execute_build ::
  "sandbox_state \<Rightarrow> u32 \<Rightarrow> xaios_sandbox_vm_insn list option \<Rightarrow> u32 \<Rightarrow> bool \<Rightarrow> (xaios_status \<times> u64 option \<times> sandbox_state) option" where
  "sandbox_execute_build s sandbox_id program insn_count output_ptr =
     (if sandbox_id \<ge> MAX_SANDBOXES \<or> program = None \<or> insn_count = 0 \<or> insn_count > XAIOS_SANDBOX_VM_MAX_INSTRUCTIONS \<or> \<not> output_ptr
      then Some (XAIOS_ERR_INVALID, None, s)
      else let sb = sandbox_at s sandbox_id
      in if sb_state sb \<noteq> XAIOS_SANDBOX_BUILDING then Some (XAIOS_ERR_INVALID, None, s)
         else let arena_out = sb_build_arena_base sb;
                  arena_cap = (if arena_out \<noteq> 0 then mf_max_artifact_bytes (sb_manifest sb) else 0);
                  max_cycles = insn_count * 64
         in case vm_loop (the program) arena_out arena_cap insn_count max_cycles
                   \<lparr>vm_regs = replicate (unat XAIOS_SANDBOX_VM_REGISTERS) 0, vm_out_pos = 0, vm_pc = 0, vm_cycles = 0,
                    vm_memory = sb_memory s\<rparr> of
              None \<Rightarrow> None
            | Some (fin, m) \<Rightarrow>
                Some (if fin then XAIOS_OK else XAIOS_ERR_INVALID, Some (vm_out_pos m),
                      s\<lparr>sb_memory := vm_memory m, g_vm_exec_count := g_vm_exec_count s + 1\<rparr>))"

end
