(* ===== verification/Sandbox_Safety.thy ===== *)
theory Sandbox_Safety
  imports Sandbox Arena_Mapping
begin

text \<open>
  Sandboxes: the bytecode machine stops on every program within its cycle budget and writes only into the
  output buffer, and the life cycle of the sandboxes keeps workspaces exclusive and owners in control.
\<close>

section \<open>The bytecode machine\<close>

text \<open>The machine state during a run: eight registers, and changed bytes only in the part of the buffer already written.\<close>

definition vm_ok :: "u64 \<Rightarrow> u64 \<Rightarrow> (u64 \<Rightarrow> u8) \<Rightarrow> sandbox_vm \<Rightarrow> bool" where
  "vm_ok base cap mem0 m \<longleftrightarrow> length (vm_regs m) = 8 \<and> vm_out_pos m \<le> cap \<and>
     (\<forall>a. vm_memory m a \<noteq> mem0 a \<longrightarrow> a - base < vm_out_pos m)"

lemma vm_ok_cong:
  "vm_ok base cap mem0 m \<Longrightarrow> length (vm_regs m') = 8 \<Longrightarrow> vm_out_pos m' = vm_out_pos m \<Longrightarrow> vm_memory m' = vm_memory m \<Longrightarrow>
   vm_ok base cap mem0 m'"
  by (simp add: vm_ok_def)

lemma vm_emit_ok:
  assumes "vm_ok base cap mem0 m" "vm_out_pos m < cap"
  shows "vm_ok base cap mem0 (vm_emit base v m)" "vm_cycles (vm_emit base v m) = vm_cycles m"
proof -
  have n: "vm_out_pos m < vm_out_pos m + 1" "vm_out_pos m + 1 \<le> cap"
    using assms(2) unat_inc_less [OF assms(2)] by (auto intro: inc_le simp: word_less_nat_alt)
  have "a - base < vm_out_pos m + 1" if "vm_memory (vm_emit base v m) a \<noteq> mem0 a" for a
  proof (cases "a = base + vm_out_pos m")
    case False
    then have "a - base < vm_out_pos m" using assms(1) that by (auto simp: vm_ok_def vm_emit_def)
    then show ?thesis using n(1) by simp
  qed (use n(1) in simp)
  then show "vm_ok base cap mem0 (vm_emit base v m)" using assms(1) n(2) by (simp add: vm_ok_def vm_emit_def)
  show "vm_cycles (vm_emit base v m) = vm_cycles m" by (simp add: vm_emit_def)
qed

lemma emit_str_loop_ok:
  "vm_ok base cap mem0 m \<Longrightarrow> vm_ok base cap mem0 (emit_str_loop base cap src left ri m) \<and>
   vm_cycles (emit_str_loop base cap src left ri m) = vm_cycles m"
proof (induction left arbitrary: ri m)
  case (Suc left)
  then show ?case using vm_emit_ok [OF Suc.prems] by simp
qed simp

lemma vm_step_ok:
  assumes "vm_ok base cap mem0 m" "vm_step base cap n insn m = Some m'"
  shows "vm_ok base cap mem0 m'" "vm_cycles m' = vm_cycles m + 1"
proof -
  let ?m = "m\<lparr>vm_cycles := vm_cycles m + 1\<rparr>"
  have i: "vm_ok base cap mem0 ?m" using assms(1) by (simp add: vm_ok_def)
  have next_ok: "vm_ok base cap mem0 (x\<lparr>vm_pc := p\<rparr>)" if "vm_ok base cap mem0 x" for x p using that by (simp add: vm_ok_def)
  have reg: "vm_ok base cap mem0 (vm_set_reg r v ?m)" for r v using i by (simp add: vm_ok_def vm_set_reg_def)
  have "vm_ok base cap mem0 m' \<and> vm_cycles m' = vm_cycles m + 1"
    using assms(2) i reg next_ok vm_emit_ok [OF i] emit_str_loop_ok [OF i]
    by (auto simp: vm_step_def Let_def vm_set_reg_def split: if_splits)
  then show "vm_ok base cap mem0 m'" "vm_cycles m' = vm_cycles m + 1" by auto
qed

lemma vm_loop_stops:
  assumes "vm_ok base cap mem0 m" "vm_cycles m \<le> limit"
  shows "\<exists>fin m'. vm_loop program base cap n limit m = Some (fin, m') \<and> vm_ok base cap mem0 m' \<and> vm_cycles m' \<le> limit"
  using assms
proof (induction "unat limit - unat (vm_cycles m)" arbitrary: m)
  case 0
  then have "\<not> vm_cycles m < limit" by (simp add: word_less_nat_alt word_le_nat_alt)
  then show ?case using 0 by (subst vm_loop.simps) auto
next
  case (Suc d)
  show ?case
  proof (cases "vm_pc m < n")
    case False
    then show ?thesis using Suc.prems by (subst vm_loop.simps) auto
  next
    case True
    have lt: "vm_cycles m < limit" using Suc.hyps(2) by (simp add: word_less_nat_alt)
    show ?thesis
    proof (cases "vm_step base cap n (program ! unat (vm_pc m)) m")
      case None
      then show ?thesis using Suc.prems by (subst vm_loop.simps) auto
    next
      case (Some m1)
      note st = vm_step_ok [OF Suc.prems(1) Some]
      have "unat (vm_cycles m + 1) = unat (vm_cycles m) + 1"
        by (rule unat_inc_less [OF lt])
      then have "d = unat limit - unat (vm_cycles m1)" "vm_cycles m1 \<le> limit"
        using Suc.hyps(2) lt st(2) by (auto simp: word_less_nat_alt word_le_nat_alt)
      then show ?thesis using Suc.hyps(1) [of m1] st(1) True lt Some by (subst vm_loop.simps) simp
    qed
  qed
qed

text \<open>
  C21: Building in a sandbox always ends. Every call of \<^verbatim>\<open>sandbox_execute_build\<close> returns, whatever the program, jumps
  and illegal instructions included. A call that is refused changes nothing and leaves the output length alone;
  any other reports at most the artifact limit of the sandbox, changes only the bytes of the build arena it reports,
  and counts one execution. The interpreter stops within its budget of 64 cycles per instruction.
\<close>

theorem sandbox_execute_build_terminates:
  "(\<exists>st out s'. sandbox_execute_build s sandbox_id program insn_count output_ptr = Some (st, out, s') \<and>
     (case out of
        None \<Rightarrow> st = XAIOS_ERR_INVALID \<and> s' = s
      | Some k \<Rightarrow>
          k \<le> mf_max_artifact_bytes (sb_manifest (sandbox_at s sandbox_id)) \<and>
          {a. sb_memory s' a \<noteq> sb_memory s a} \<subseteq> {a. a - sb_build_arena_base (sandbox_at s sandbox_id) < k} \<and>
          s' = s\<lparr>sb_memory := sb_memory s', g_vm_exec_count := g_vm_exec_count s + 1\<rparr>)) \<and>
   (\<exists>fin m. vm_loop prog base cap insn_count (insn_count * 64)
       \<lparr>vm_regs = replicate 8 0, vm_out_pos = 0, vm_pc = 0, vm_cycles = 0, vm_memory = mem0\<rparr> = Some (fin, m) \<and>
     vm_cycles m \<le> insn_count * 64)"
proof -
  have run: "\<exists>fin m. vm_loop prog base cap insn_count (insn_count * 64)
       \<lparr>vm_regs = replicate 8 0, vm_out_pos = 0, vm_pc = 0, vm_cycles = 0, vm_memory = mem0\<rparr> = Some (fin, m) \<and>
     vm_ok base cap mem0 m \<and> vm_cycles m \<le> insn_count * 64" for prog base cap mem0
    by (rule vm_loop_stops) (simp_all add: vm_ok_def)
  let ?b = "sandbox_at s sandbox_id"
  define lim where "lim = (if sb_build_arena_base ?b \<noteq> 0 then mf_max_artifact_bytes (sb_manifest ?b) else 0)"
  obtain fin m where m: "vm_loop (the program) (sb_build_arena_base ?b) lim insn_count (insn_count * 64)
       \<lparr>vm_regs = replicate 8 0, vm_out_pos = 0, vm_pc = 0, vm_cycles = 0, vm_memory = sb_memory s\<rparr> = Some (fin, m)"
     "vm_ok (sb_build_arena_base ?b) lim (sb_memory s) m"
    using run by blast
  have k: "vm_out_pos m \<le> mf_max_artifact_bytes (sb_manifest ?b)"
    using m(2) by (auto simp: vm_ok_def lim_def split: if_splits)
  have w: "{a. vm_memory m a \<noteq> sb_memory s a} \<subseteq> {a. a - sb_build_arena_base ?b < vm_out_pos m}"
    using m(2) by (auto simp: vm_ok_def)
  show ?thesis (is "?A \<and> ?B")
  proof
    show ?B using run by blast
    show ?A using m(1) k w
      by (auto simp: sandbox_execute_build_def Let_def XAIOS_SANDBOX_VM_REGISTERS_def simp flip: lim_def)
  qed
qed

section \<open>The life cycle\<close>

text \<open>All states the calls of the sandbox interface lead to.\<close>

inductive sandbox_reach :: "kernel_image \<Rightarrow> sandbox_state \<Rightarrow> bool" for img where
  boot: "length (g_sandboxes s) = 4 \<Longrightarrow> sandbox_reach img (sandbox_runtime_init s)"
| create: "sandbox_reach img s \<Longrightarrow> sandbox_create img s manifest = Some (st, s') \<Longrightarrow> sandbox_reach img s'"
| start: "sandbox_reach img s \<Longrightarrow> sandbox_reach img (snd (sandbox_start_build_as s actor sandbox_id))"
| finish: "sandbox_reach img s \<Longrightarrow> sandbox_reach img (snd (sandbox_finish_build s sandbox_id revision))"
| rollback: "sandbox_reach img s \<Longrightarrow> sandbox_reach img (snd (sandbox_rollback_as s actor sandbox_id))"
| execute: "sandbox_reach img s \<Longrightarrow> sandbox_execute_build s sandbox_id program n ptr = Some (st, out, s') \<Longrightarrow> sandbox_reach img s'"

definition manifest_ok :: "xaios_sandbox_manifest \<Rightarrow> bool" where
  "manifest_ok m \<longleftrightarrow> manifest_fields_ok m \<and>
     (\<forall>sec. \<forall>p \<in> {mf_repo_path m, mf_worktree_path m, mf_build_dir m, mf_artifact_dir m}. fst (security_validate_sandbox_path sec p) = XAIOS_OK)"

definition sandbox_ok :: "u8 list \<Rightarrow> nat \<Rightarrow> xaios_sandbox \<Rightarrow> bool" where
  "sandbox_ok owners i b \<longleftrightarrow> sb_state b = XAIOS_SANDBOX_EMPTY \<or>
     manifest_ok (sb_manifest b) \<and> unat (mf_sandbox_id (sb_manifest b)) = i \<and>
     owners ! unat (mf_workspace_id (sb_manifest b)) = of_nat (i + 1) \<and>
     (sb_state b = XAIOS_SANDBOX_ROLLED_BACK \<longrightarrow> sb_current_revision b = sb_last_good_revision b) \<and>
     sb_last_good_revision b = mf_source_revision (sb_manifest b)"

definition owners_ok :: "u8 list \<Rightarrow> xaios_sandbox list \<Rightarrow> bool" where
  "owners_ok owners bs \<longleftrightarrow> (\<forall>w \<le> 4. owners ! w = 0 \<or>
     (\<exists>i < 4. owners ! w = of_nat (i + 1) \<and> sb_state (bs ! i) \<noteq> XAIOS_SANDBOX_EMPTY \<and>
        unat (mf_workspace_id (sb_manifest (bs ! i))) = w))"

definition sandbox_inv :: "sandbox_state \<Rightarrow> bool" where
  "sandbox_inv s \<longleftrightarrow> length (g_sandboxes s) = 4 \<and> length (g_workspace_owner s) = 5 \<and>
     (\<forall>i < 4. sandbox_ok (g_workspace_owner s) i (g_sandboxes s ! i)) \<and> owners_ok (g_workspace_owner s) (g_sandboxes s)"

lemma path_status_stateless: "fst (security_validate_sandbox_path sec p) = fst (security_validate_sandbox_path sec' p)"
  by (auto simp: security_validate_sandbox_path_def security_reject_credential_material_def reject_security_operation_def Let_def
      split: option.split)

lemma validate_paths_OK:
  "fst (validate_paths sec ps) = XAIOS_OK \<longleftrightarrow> (\<forall>p \<in> set ps. \<forall>sec. fst (security_validate_sandbox_path sec p) = XAIOS_OK)"
proof (induction ps arbitrary: sec)
  case (Cons p ps)
  have "fst (security_validate_sandbox_path sec p) = XAIOS_OK \<longleftrightarrow> (\<forall>sec. fst (security_validate_sandbox_path sec p) = XAIOS_OK)"
    using path_status_stateless by metis
  then show ?case using Cons by (auto split: prod.split)
qed simp

lemma validate_manifest_OK:
  "fst (validate_manifest sec (Some m)) = XAIOS_OK \<longleftrightarrow> manifest_ok m"
  by (auto simp: validate_manifest_def manifest_ok_def validate_paths_OK simp del: validate_paths.simps)

lemma manifest_bounds:
  "manifest_ok m \<Longrightarrow> unat (mf_sandbox_id m) < 4" "manifest_ok m \<Longrightarrow> 0 < unat (mf_workspace_id m) \<and> unat (mf_workspace_id m) \<le> 4"
  by (auto simp: manifest_ok_def manifest_fields_ok_def MAX_SANDBOXES_def word_less_nat_alt word_le_nat_alt unat_gt_0)

text \<open>A transition of one sandbox that keeps its manifest and does not empty it.\<close>

lemma sandbox_inv_update:
  assumes "sandbox_inv s" "g_sandboxes s' = (g_sandboxes s)[i := b']" "g_workspace_owner s' = g_workspace_owner s"
    and "i < 4 \<Longrightarrow> sb_state (g_sandboxes s ! i) \<noteq> XAIOS_SANDBOX_EMPTY" "sb_state b' \<noteq> XAIOS_SANDBOX_EMPTY"
    and "sb_manifest b' = sb_manifest (g_sandboxes s ! i)" "sb_last_good_revision b' = sb_last_good_revision (g_sandboxes s ! i)"
    and "sb_state b' = XAIOS_SANDBOX_ROLLED_BACK \<Longrightarrow> sb_current_revision b' = sb_last_good_revision b'"
  shows "sandbox_inv s'"
proof -
  have k: "g_sandboxes s' ! j = (if j = i \<and> j < 4 then b' else g_sandboxes s ! j)" for j
    using assms(1,2) by (simp add: sandbox_inv_def nth_update_if)
  have "sandbox_ok (g_workspace_owner s) j (g_sandboxes s' ! j)" if "j < 4" for j
    using assms(1,4-8) that by (auto simp: k sandbox_inv_def sandbox_ok_def)
  moreover have "owners_ok (g_workspace_owner s) (g_sandboxes s')"
    using assms(1,5,6) unfolding owners_ok_def k sandbox_inv_def by auto
  ultimately show ?thesis using assms(1-3) by (simp add: sandbox_inv_def)
qed

lemma sandbox_inv_same:
  "sandbox_inv s \<Longrightarrow> g_sandboxes s' = g_sandboxes s \<Longrightarrow> g_workspace_owner s' = g_workspace_owner s \<Longrightarrow> sandbox_inv s'"
  by (simp add: sandbox_inv_def)

lemma sandbox_create_inv:
  assumes inv: "sandbox_inv s" and r: "sandbox_create img s manifest = Some (st, s')"
  shows "sandbox_inv s'"
proof (cases "st = XAIOS_OK")
  case False
  then have "g_sandboxes s' = g_sandboxes s" "g_workspace_owner s' = g_workspace_owner s"
    using r by (auto simp: sandbox_create_def Let_def split: prod.splits if_splits option.splits)
  then show ?thesis by (rule sandbox_inv_same [OF inv])
next
  case True
  then obtain m where m: "manifest = Some m" "manifest_ok m"
    using r validate_manifest_OK [of "sb_security s" "the manifest"]
    by (cases manifest) (auto simp: sandbox_create_def Let_def validate_manifest_def split: prod.splits if_splits)
  define i w where "i = unat (mf_sandbox_id m)" and "w = unat (mf_workspace_id m)"
  have iw: "i < 4" "0 < w" "w \<le> 4" using manifest_bounds [OF m(2)] by (auto simp: i_def w_def)
  have free: "sb_state (g_sandboxes s ! i) = XAIOS_SANDBOX_EMPTY" "g_workspace_owner s ! w = 0"
    using r True m(1) by (auto simp: sandbox_create_def Let_def sandbox_at_def i_def w_def split: prod.splits if_splits option.splits)
  obtain b where b: "g_sandboxes s' = (g_sandboxes s)[i := b]" "sb_state b = XAIOS_SANDBOX_CREATED" "sb_manifest b = m"
      "sb_last_good_revision b = mf_source_revision m"
      "g_workspace_owner s' = (g_workspace_owner s)[w := ucast (mf_sandbox_id m + 1)]"
    using r True m(1) by (auto simp: sandbox_create_def Let_def put_sandbox_def i_def w_def split: prod.splits if_splits option.splits)
  have o: "(ucast (mf_sandbox_id m + 1) :: u8) = of_nat (i + 1)"
  proof -
    have "unat (mf_sandbox_id m + 1) = i + 1" using iw(1) by (simp add: i_def)
    moreover have "(ucast (mf_sandbox_id m + 1) :: u8) = of_nat (unat (mf_sandbox_id m + 1))" by simp
    ultimately show ?thesis by simp
  qed
  have k: "g_sandboxes s' ! j = (if j = i then b else g_sandboxes s ! j)" if "j < 4" for j
    using inv b(1) that iw(1) by (simp add: sandbox_inv_def nth_list_update)
  have v: "g_workspace_owner s' ! x = (if x = w then of_nat (i + 1) else g_workspace_owner s ! x)" for x
    using inv b(5) o iw(3) by (simp add: sandbox_inv_def nth_update_if)
  have "sandbox_ok (g_workspace_owner s') j (g_sandboxes s' ! j)" if j: "j < 4" for j
  proof (cases "j = i")
    case True
    then show ?thesis using m(2) b(2-4) k [OF j] v by (simp add: sandbox_ok_def i_def w_def)
  next
    case False
    have "sandbox_ok (g_workspace_owner s) j (g_sandboxes s ! j)" using inv j by (simp add: sandbox_inv_def)
    moreover have "unat (of_nat (j + 1) :: u8) = j + 1" by (rule unat_of_nat_small) (use j in simp)
    then have "(of_nat (j + 1) :: u8) \<noteq> 0" by force
    ultimately show ?thesis using False k [OF j] free(2) unfolding sandbox_ok_def v by auto
  qed
  moreover have "owners_ok (g_workspace_owner s') (g_sandboxes s')"
    unfolding owners_ok_def
  proof (intro allI impI)
    fix x :: nat
    assume x: "x \<le> 4"
    show "g_workspace_owner s' ! x = 0 \<or> (\<exists>j < 4. g_workspace_owner s' ! x = of_nat (j + 1) \<and>
        sb_state (g_sandboxes s' ! j) \<noteq> XAIOS_SANDBOX_EMPTY \<and> unat (mf_workspace_id (sb_manifest (g_sandboxes s' ! j))) = x)"
    proof (cases "x = w")
      case True
      then show ?thesis using v k [OF iw(1)] b(2,3) iw(1) w_def by auto
    next
      case False
      then show ?thesis using inv x free(1) k v unfolding sandbox_inv_def owners_ok_def by metis
    qed
  qed
  ultimately show ?thesis using inv b(1,5) by (simp add: sandbox_inv_def)
qed

lemma operation_names_clean: "credential_free ''build''" "credential_free ''rollback''" "credential_free ''sandbox''"
  by (simp_all add: credential_free_eval credential_patterns_def pattern_defs)

lemma authorize_sandbox:
  assumes "credential_free operation"
  obtains sec' where "security_authorize_sandbox sec i owner actor (Some operation) =
    (if actor = owner then (XAIOS_OK, sec) else (XAIOS_ERR_INVALID, sec'))"
  using that assms
  by (cases "actor = owner") (auto simp: security_authorize_sandbox_def reject_security_operation_def reject_credential_spec)

text \<open>What the transitions do to the sandboxes; the owners of the workspaces never change.\<close>

lemma start_build_as_result:
  assumes "b = sandbox_at s i"
  shows "g_workspace_owner (snd (sandbox_start_build_as s actor i)) = g_workspace_owner s"
    and "i < MAX_SANDBOXES \<Longrightarrow> sb_state b = XAIOS_SANDBOX_CREATED \<Longrightarrow> actor = mf_cell_id (sb_manifest b) \<Longrightarrow>
      fst (sandbox_start_build_as s actor i) = XAIOS_OK \<and> g_sandboxes (snd (sandbox_start_build_as s actor i)) =
        (g_sandboxes s)[unat i := b\<lparr>sb_state := XAIOS_SANDBOX_BUILDING, sb_build_generation := sb_build_generation b + 1\<rparr>]"
    and "\<not> (i < MAX_SANDBOXES \<and> sb_state b = XAIOS_SANDBOX_CREATED \<and> actor = mf_cell_id (sb_manifest b)) \<Longrightarrow>
      fst (sandbox_start_build_as s actor i) = XAIOS_ERR_INVALID \<and> g_sandboxes (snd (sandbox_start_build_as s actor i)) = g_sandboxes s"
proof -
  obtain sec' where "security_authorize_sandbox (sb_security s) i (mf_cell_id (sb_manifest b)) actor (Some ''build'') =
    (if actor = mf_cell_id (sb_manifest b) then (XAIOS_OK, sb_security s) else (XAIOS_ERR_INVALID, sec'))"
    by (rule authorize_sandbox [OF operation_names_clean(1)])
  note r = this [unfolded assms]
  show "g_workspace_owner (snd (sandbox_start_build_as s actor i)) = g_workspace_owner s"
    by (simp add: sandbox_start_build_as_def r Let_def put_sandbox_def)
  show "i < MAX_SANDBOXES \<Longrightarrow> sb_state b = XAIOS_SANDBOX_CREATED \<Longrightarrow> actor = mf_cell_id (sb_manifest b) \<Longrightarrow>
      fst (sandbox_start_build_as s actor i) = XAIOS_OK \<and> g_sandboxes (snd (sandbox_start_build_as s actor i)) =
        (g_sandboxes s)[unat i := b\<lparr>sb_state := XAIOS_SANDBOX_BUILDING, sb_build_generation := sb_build_generation b + 1\<rparr>]"
    using r by (simp add: sandbox_start_build_as_def Let_def put_sandbox_def assms sandbox_at_def not_le)
  show "\<not> (i < MAX_SANDBOXES \<and> sb_state b = XAIOS_SANDBOX_CREATED \<and> actor = mf_cell_id (sb_manifest b)) \<Longrightarrow>
      fst (sandbox_start_build_as s actor i) = XAIOS_ERR_INVALID \<and> g_sandboxes (snd (sandbox_start_build_as s actor i)) = g_sandboxes s"
    using r by (auto simp: sandbox_start_build_as_def Let_def assms)
qed

lemma rollback_as_result:
  assumes "b = sandbox_at s i"
  shows "g_workspace_owner (snd (sandbox_rollback_as s actor i)) = g_workspace_owner s"
    and "i < MAX_SANDBOXES \<Longrightarrow> sb_state b = XAIOS_SANDBOX_BUILT \<Longrightarrow> actor = mf_cell_id (sb_manifest b) \<Longrightarrow>
      fst (sandbox_rollback_as s actor i) = XAIOS_OK \<and> g_sandboxes (snd (sandbox_rollback_as s actor i)) =
        (g_sandboxes s)[unat i := b\<lparr>sb_state := XAIOS_SANDBOX_ROLLED_BACK, sb_current_revision := sb_last_good_revision b,
           sb_rollback_generation := sb_rollback_generation b + 1\<rparr>]"
    and "\<not> (i < MAX_SANDBOXES \<and> sb_state b = XAIOS_SANDBOX_BUILT \<and> actor = mf_cell_id (sb_manifest b)) \<Longrightarrow>
      fst (sandbox_rollback_as s actor i) = XAIOS_ERR_INVALID \<and> g_sandboxes (snd (sandbox_rollback_as s actor i)) = g_sandboxes s"
proof -
  obtain sec' where "security_authorize_sandbox (sb_security s) i (mf_cell_id (sb_manifest b)) actor (Some ''rollback'') =
    (if actor = mf_cell_id (sb_manifest b) then (XAIOS_OK, sb_security s) else (XAIOS_ERR_INVALID, sec'))"
    by (rule authorize_sandbox [OF operation_names_clean(2)])
  note r = this [unfolded assms]
  have q: "security_authorize_rollback sec (Some ''sandbox'') 1 = (XAIOS_OK, sec)" for sec
    by (simp add: security_authorize_rollback_def reject_credential_spec operation_names_clean)
  show "g_workspace_owner (snd (sandbox_rollback_as s actor i)) = g_workspace_owner s"
    by (simp add: sandbox_rollback_as_def r q Let_def put_sandbox_def)
  show "i < MAX_SANDBOXES \<Longrightarrow> sb_state b = XAIOS_SANDBOX_BUILT \<Longrightarrow> actor = mf_cell_id (sb_manifest b) \<Longrightarrow>
      fst (sandbox_rollback_as s actor i) = XAIOS_OK \<and> g_sandboxes (snd (sandbox_rollback_as s actor i)) =
        (g_sandboxes s)[unat i := b\<lparr>sb_state := XAIOS_SANDBOX_ROLLED_BACK, sb_current_revision := sb_last_good_revision b,
           sb_rollback_generation := sb_rollback_generation b + 1\<rparr>]"
    using r q by (simp add: sandbox_rollback_as_def Let_def put_sandbox_def assms sandbox_at_def not_le)
  show "\<not> (i < MAX_SANDBOXES \<and> sb_state b = XAIOS_SANDBOX_BUILT \<and> actor = mf_cell_id (sb_manifest b)) \<Longrightarrow>
      fst (sandbox_rollback_as s actor i) = XAIOS_ERR_INVALID \<and> g_sandboxes (snd (sandbox_rollback_as s actor i)) = g_sandboxes s"
    using r q by (auto simp: sandbox_rollback_as_def Let_def assms)
qed

lemma sandbox_reach_inv: "sandbox_reach img s \<Longrightarrow> sandbox_inv s"
proof (induction rule: sandbox_reach.induct)
  case (boot s)
  then show ?case by (simp add: sandbox_inv_def sandbox_runtime_init_def sandbox_ok_def owners_ok_def MAX_SANDBOXES_def)
next
  case (create s manifest st s')
  then show ?case using sandbox_create_inv by blast
next
  case (start s actor i)
  let ?b = "sandbox_at s i"
  note r = start_build_as_result [OF refl, where actor = actor]
  show ?case
  proof (cases "i < MAX_SANDBOXES \<and> sb_state ?b = XAIOS_SANDBOX_CREATED \<and> actor = mf_cell_id (sb_manifest ?b)")
    case True
    show ?thesis
      by (rule sandbox_inv_update [OF start.IH r(2) [THEN conjunct2] r(1)]) (use True in \<open>auto simp: sandbox_at_def\<close>)
  next
    case False
    then show ?thesis using r(1,3) by (intro sandbox_inv_same [OF start.IH]) auto
  qed
next
  case (finish s i revision)
  show ?case
  proof (cases "i < MAX_SANDBOXES \<and> sb_state (sandbox_at s i) = XAIOS_SANDBOX_BUILDING \<and> str_nonempty revision")
    case True
    show ?thesis
      by (rule sandbox_inv_update [OF finish.IH, of _ "unat i" "(sandbox_at s i)\<lparr>sb_state := XAIOS_SANDBOX_BUILT, sb_current_revision := revision\<rparr>"])
         (use True in \<open>auto simp: sandbox_finish_build_def Let_def put_sandbox_def sandbox_at_def\<close>)
  next
    case False
    then have "snd (sandbox_finish_build s i revision) = s" by (auto simp: sandbox_finish_build_def)
    then show ?thesis using finish.IH by simp
  qed
next
  case (rollback s actor i)
  let ?b = "sandbox_at s i"
  note r = rollback_as_result [OF refl, where actor = actor]
  show ?case
  proof (cases "i < MAX_SANDBOXES \<and> sb_state ?b = XAIOS_SANDBOX_BUILT \<and> actor = mf_cell_id (sb_manifest ?b)")
    case True
    show ?thesis
      by (rule sandbox_inv_update [OF rollback.IH r(2) [THEN conjunct2] r(1)]) (use True in \<open>auto simp: sandbox_at_def\<close>)
  next
    case False
    then show ?thesis using r(1,3) by (intro sandbox_inv_same [OF rollback.IH]) auto
  qed
next
  case (execute s sandbox_id program n ptr st out s')
  then have "g_sandboxes s' = g_sandboxes s" "g_workspace_owner s' = g_workspace_owner s"
    by (auto simp: sandbox_execute_build_def Let_def split: if_splits option.splits)
  then show ?case by (rule sandbox_inv_same [OF execute.IH])
qed


text \<open>The sandbox of the kernel's self test, on a machine with 64 free pages.\<close>

definition demo_boxes :: sandbox_state where
  "demo_boxes = sandbox_runtime_init \<lparr>sb_arena = demo_arenas, sb_security = sec_boot, sb_memory = (\<lambda>_. 0),
     g_sandboxes = replicate 4 \<lparr>sb_state = XAIOS_SANDBOX_EMPTY, sb_manifest = fill_manifest 0 0 None 0, sb_build_arena_id = 0,
       sb_build_arena_base = 0, sb_build_generation = 0, sb_rollback_generation = 0, sb_last_good_revision = None,
       sb_current_revision = None\<rparr>,
     g_workspace_owner = [], g_transition_count = 0, g_sandbox_active_count = 0, g_vm_exec_count = 0\<rparr>"

lemma demo_manifest_ok: "manifest_ok (fill_manifest 0 1 (Some ''/repo/app'') 0)"
proof -
  have "fst (security_validate_sandbox_path sec (Some p)) = XAIOS_OK"
    if "p \<in> {''/repo/app'', ''/workspace/1/app'', ''/workspace/1/build'', ''/artifacts/1''}" for sec p
    using that by (auto simp: security_validate_sandbox_path_def reject_credential_spec credential_free_eval credential_patterns_def pattern_defs)
  then show ?thesis
    by (simp add: manifest_ok_def manifest_fields_ok_def fill_manifest_def MAX_SANDBOXES_def str_prefix_def str_nonempty_def
        SANDBOX_MAX_ARTIFACT_BYTES_def word_less_nat_alt not_le)
qed

lemma demo_create:
  obtains s where "sandbox_create demo_image demo_boxes (Some (fill_manifest 0 1 (Some ''/repo/app'') 0)) = Some (XAIOS_OK, s)"
    "sb_state (sandbox_at s 0) = XAIOS_SANDBOX_CREATED" "mf_cell_id (sb_manifest (sandbox_at s 0)) = 0"
proof -
  let ?m = "fill_manifest 0 1 (Some ''/repo/app'') 0"
  have pc: "16 = (unat (65536 :: u64) + 4095) div 4096" "(16 :: nat) \<le> 16" by simp_all
  have v16: "arena_validate_create demo_arenas 25 XAIOS_ARENA_BUILD_OUTPUT (Some ''sandbox-build'') 65536 = XAIOS_OK"
    by (simp add: arena_validate_create_def demo_arenas_facts MAX_ARENAS_def str_nonempty_def XAIOS_ARENA_BUILD_OUTPUT_def
        arena_base_def ARENA_VA_BASE_def ARENA_VA_STRIDE_def ARENA_VA_LIMIT_def align_up_def PAGE_SIZE_def)
  obtain ar where ar: "arena_create demo_image demo_arenas 25 XAIOS_ARENA_BUILD_OUTPUT 0 (Some ''sandbox-build'') 65536 0 = Some (XAIOS_OK, ar)"
    using arena_create_spec [OF demo_arena_create(1,2) [OF v16 pc] demo_arenas_facts(2) v16 pc(1) demo_arena_create(3-8) [OF v16 pc], of 0 0]
    by blast
  obtain sec where v: "validate_manifest (sb_security demo_boxes) (Some ?m) = (XAIOS_OK, sec)"
    using validate_manifest_OK [of _ ?m] demo_manifest_ok by (metis prod.collapse)
  have f: "mf_sandbox_id ?m = 0" "mf_workspace_id ?m = 1" "mf_max_artifact_bytes ?m = 65536" "mf_cell_id ?m = 0"
      "sb_arena demo_boxes = demo_arenas" "sb_state (sandbox_at demo_boxes 0) = XAIOS_SANDBOX_EMPTY" "g_workspace_owner demo_boxes ! 1 = 0"
      "length (g_sandboxes demo_boxes) = 4"
    by (simp_all add: fill_manifest_def demo_boxes_def sandbox_runtime_init_def sandbox_at_def MAX_SANDBOXES_def)
  have "\<exists>s. sandbox_create demo_image demo_boxes (Some ?m) = Some (XAIOS_OK, s) \<and>
      sb_state (sandbox_at s 0) = XAIOS_SANDBOX_CREATED \<and> mf_cell_id (sb_manifest (sandbox_at s 0)) = 0"
    using ar v f by (simp add: sandbox_create_def Let_def SANDBOX_BUILD_ARENA_BASE_def put_sandbox_def sandbox_at_def)
  then show ?thesis using that by blast
qed


end
