(* ===== verification/Sha256.thy ===== *)
theory Sha256
  imports Prelude
begin

text \<open>
  \<^verbatim>\<open>kernel/runtime/sha256.c\<close>: the SHA-256 code of the kernel, with its streaming interface. A data pointer with
  its length is the list of the bytes it points to, \<open>None\<close> the null pointer. The padding loop of
  \<^verbatim>\<open>xaios_sha256_final\<close> is a partial function; that it ends is part of what is proved.
\<close>

section \<open>Model\<close>

definition K :: "u32 list" where
  "K = [0x428a2f98, 0x71374491, 0xb5c0fbcf, 0xe9b5dba5, 0x3956c25b, 0x59f111f1, 0x923f82a4, 0xab1c5ed5,
     0xd807aa98, 0x12835b01, 0x243185be, 0x550c7dc3, 0x72be5d74, 0x80deb1fe, 0x9bdc06a7, 0xc19bf174,
     0xe49b69c1, 0xefbe4786, 0x0fc19dc6, 0x240ca1cc, 0x2de92c6f, 0x4a7484aa, 0x5cb0a9dc, 0x76f988da,
     0x983e5152, 0xa831c66d, 0xb00327c8, 0xbf597fc7, 0xc6e00bf3, 0xd5a79147, 0x06ca6351, 0x14292967,
     0x27b70a85, 0x2e1b2138, 0x4d2c6dfc, 0x53380d13, 0x650a7354, 0x766a0abb, 0x81c2c92e, 0x92722c85,
     0xa2bfe8a1, 0xa81a664b, 0xc24b8b70, 0xc76c51a3, 0xd192e819, 0xd6990624, 0xf40e3585, 0x106aa070,
     0x19a4c116, 0x1e376c08, 0x2748774c, 0x34b0bcb5, 0x391c0cb3, 0x4ed8aa4a, 0x5b9cca4f, 0x682e6ff3,
     0x748f82ee, 0x78a5636f, 0x84c87814, 0x8cc70208, 0x90befffa, 0xa4506ceb, 0xbef9a3f7, 0xc67178f2]"

definition rotr :: "u32 \<Rightarrow> nat \<Rightarrow> u32" where
  "rotr x n = drop_bit n x OR push_bit (32 - n) x"

definition ch :: "u32 \<Rightarrow> u32 \<Rightarrow> u32 \<Rightarrow> u32" where
  "ch x y z = (x AND y) XOR (NOT x AND z)"

definition maj :: "u32 \<Rightarrow> u32 \<Rightarrow> u32 \<Rightarrow> u32" where
  "maj x y z = (x AND y) XOR (x AND z) XOR (y AND z)"

definition sigma0 :: "u32 \<Rightarrow> u32" where
  "sigma0 x = rotr x 2 XOR rotr x 13 XOR rotr x 22"

definition sigma1 :: "u32 \<Rightarrow> u32" where
  "sigma1 x = rotr x 6 XOR rotr x 11 XOR rotr x 25"

definition gamma0 :: "u32 \<Rightarrow> u32" where
  "gamma0 x = rotr x 7 XOR rotr x 18 XOR drop_bit 3 x"

definition gamma1 :: "u32 \<Rightarrow> u32" where
  "gamma1 x = rotr x 17 XOR rotr x 19 XOR drop_bit 10 x"

definition load_be32 :: "u8 list \<Rightarrow> u32" where
  "load_be32 p = push_bit 24 (ucast (p ! 0)) OR push_bit 16 (ucast (p ! 1)) OR push_bit 8 (ucast (p ! 2)) OR ucast (p ! 3)"

definition store_be32 :: "u32 \<Rightarrow> u8 list" where
  "store_be32 v = [ucast (drop_bit 24 v), ucast (drop_bit 16 v), ucast (drop_bit 8 v), ucast v]"

text \<open>The message schedule, built word by word.\<close>

fun schedule_loop :: "nat \<Rightarrow> u32 list \<Rightarrow> u32 list" where
  "schedule_loop 0 W = W"
| "schedule_loop (Suc left) W =
     (let i = length W
      in schedule_loop left (W @ [gamma1 (W ! (i - 2)) + W ! (i - 7) + gamma0 (W ! (i - 15)) + W ! (i - 16)]))"

definition schedule :: "u8 list \<Rightarrow> u32 list" where
  "schedule block = schedule_loop 48 (map (\<lambda>i. load_be32 (drop (i * 4) block)) [0 ..< 16])"

fun round_step :: "u32 list \<Rightarrow> u32 \<times> u32 \<Rightarrow> u32 list" where
  "round_step [a, b, c, d, e, f, g, h] (k, w) =
     (let t1 = h + sigma1 e + ch e f g + k + w;
          t2 = sigma0 a + maj a b c
      in [t1 + t2, a, b, c, d + t1, e, f, g])"
| "round_step st kw = st"

definition sha256_compress :: "u32 list \<Rightarrow> u8 list \<Rightarrow> u32 list" where
  "sha256_compress state block = map2 (+) state (foldl round_step state (zip K (schedule block)))"

record xaios_sha256_ctx =
  sha_state :: "u32 list"
  bit_count :: u64
  buffer :: "u8 list"
  buffer_len :: u32

definition xaios_sha256_init :: xaios_sha256_ctx where
  "xaios_sha256_init =
     \<lparr>sha_state = [0x6a09e667, 0xbb67ae85, 0x3c6ef372, 0xa54ff53a, 0x510e527f, 0x9b05688c, 0x1f83d9ab, 0x5be0cd19],
      bit_count = 0, buffer = replicate 64 0, buffer_len = 0\<rparr>"

definition fill_buffer :: "xaios_sha256_ctx \<Rightarrow> u8 list \<Rightarrow> xaios_sha256_ctx \<times> u8 list" where
  "fill_buffer ctx bytes =
     (if buffer_len ctx > 0
      then let space = 64 - buffer_len ctx;
               to_copy = (if length bytes < unat space then length bytes else unat space);
               c1 = ctx\<lparr>buffer := write_at (unat (buffer_len ctx)) (take to_copy bytes) (buffer ctx),
                        buffer_len := buffer_len ctx + of_nat to_copy\<rparr>;
               c2 = (if buffer_len c1 = 64 then c1\<lparr>sha_state := sha256_compress (sha_state c1) (buffer c1), buffer_len := 0\<rparr> else c1)
           in (c2, drop to_copy bytes)
      else (ctx, bytes))"

function block_loop :: "u32 list \<Rightarrow> u8 list \<Rightarrow> u32 list \<times> u8 list" where
  "block_loop state bytes =
     (if length bytes \<ge> 64 then block_loop (sha256_compress state (take 64 bytes)) (drop 64 bytes) else (state, bytes))"
  by auto
termination
  by (relation "measure (\<lambda>(_, bytes). length bytes)") auto

definition xaios_sha256_update :: "xaios_sha256_ctx \<Rightarrow> u8 list option \<Rightarrow> xaios_sha256_ctx" where
  "xaios_sha256_update ctx data =
     (case data of
        None \<Rightarrow> ctx
      | Some bytes \<Rightarrow>
          if bytes = [] then ctx
          else let c0 = ctx\<lparr>bit_count := bit_count ctx + of_nat (length bytes) * 8\<rparr>;
                   (c1, rest) = fill_buffer c0 bytes;
                   (st, rest1) = block_loop (sha_state c1) rest;
                   c2 = c1\<lparr>sha_state := st\<rparr>
               in if length rest1 > 0 then c2\<lparr>buffer := write_at 0 rest1 (buffer c2), buffer_len := of_nat (length rest1)\<rparr> else c2)"

partial_function (option) pad_loop :: "xaios_sha256_ctx \<Rightarrow> xaios_sha256_ctx option" where
  "pad_loop ctx = (if buffer_len ctx \<noteq> 56 then pad_loop (xaios_sha256_update ctx (Some [0])) else Some ctx)"

definition count_bytes :: "u64 \<Rightarrow> u8 list" where
  "count_bytes n = map (\<lambda>i. ucast (drop_bit ((7 - i) * 8) n)) [0 ..< 8]"

definition xaios_sha256_final :: "xaios_sha256_ctx \<Rightarrow> (u8 list \<times> xaios_sha256_ctx) option" where
  "xaios_sha256_final ctx =
     (case pad_loop (xaios_sha256_update ctx (Some [0x80])) of
        None \<Rightarrow> None
      | Some c1 \<Rightarrow>
          let c2 = xaios_sha256_update c1 (Some (count_bytes (bit_count c1)))
          in Some (concat (map store_be32 (sha_state c2)), c2))"

definition xaios_sha256 :: "u8 list option \<Rightarrow> u8 list option" where
  "xaios_sha256 data = map_option fst (xaios_sha256_final (xaios_sha256_update xaios_sha256_init data))"

end
