(* ===== verification/Sha256_Stream.thy ===== *)
theory Sha256_Stream
  imports Sha256
begin

text \<open>
  The streaming interface of SHA-256 against a reference that hashes the whole message at once: buffering
  and block processing never lose, repeat or reorder a byte, however the data is cut into updates, and
  finishing always ends. The reference also shows which length the padding carries.
\<close>

section \<open>Reference\<close>

definition blocks :: "u8 list \<Rightarrow> u8 list list" where
  "blocks m = map (\<lambda>i. take 64 (drop (64 * i) m)) [0 ..< length m div 64]"

abbreviation H0 :: "u32 list" where
  "H0 \<equiv> sha_state xaios_sha256_init"

definition hash_blocks :: "u32 list \<Rightarrow> u8 list \<Rightarrow> u32 list" where
  "hash_blocks st m = foldl sha256_compress st (blocks m)"

definition zeros_for :: "nat \<Rightarrow> nat" where
  "zeros_for n = (119 - n mod 64) mod 64"

text \<open>The message with the padding of the code, and with the padding of FIPS 180-4, section 5.1.1.\<close>

definition padded :: "u8 list \<Rightarrow> u8 list" where
  "padded m = m @ [0x80] @ replicate (zeros_for (length m)) 0 @ count_bytes (of_nat (8 * (length m + 1 + zeros_for (length m))))"

definition fips_padded :: "u8 list \<Rightarrow> u8 list" where
  "fips_padded m = m @ [0x80] @ replicate (zeros_for (length m)) 0 @ count_bytes (of_nat (8 * length m))"

section \<open>Blocks\<close>

lemma blocks_short: "length m < 64 \<Longrightarrow> blocks m = []"
  by (simp add: blocks_def)

lemma blocks_append:
  assumes "64 dvd length m"
  shows "blocks (m @ x) = blocks m @ blocks x"
proof -
  obtain q where q: "length m = 64 * q" using assms ..
  have "[0 ..< length (m @ x) div 64] = [0 ..< q] @ map (\<lambda>i. q + i) [0 ..< length x div 64]"
    by (simp add: q upt_add_eq_append [of 0 q, simplified]) (simp add: map_add_upt [symmetric] add.commute [of q])
  moreover have "64 + 64 * i \<le> 64 * q" if "i < q" for i using that by linarith
  ultimately show ?thesis using q by (auto simp: blocks_def algebra_simps)
qed

lemma hash_blocks_append: "64 dvd length m \<Longrightarrow> hash_blocks st (m @ x) = hash_blocks (hash_blocks st m) x"
  by (simp add: hash_blocks_def blocks_append)

lemma hash_blocks_block: "length b = 64 \<Longrightarrow> hash_blocks st b = sha256_compress st b"
  by (simp add: hash_blocks_def blocks_def)

lemma hash_blocks_short [simp]: "length m < 64 \<Longrightarrow> hash_blocks st m = st"
  by (simp add: hash_blocks_def blocks_short)

lemma block_loop_spec:
  "\<exists>m0 t. m = m0 @ t \<and> 64 dvd length m0 \<and> length t < 64 \<and> block_loop st m = (hash_blocks st m0, t)"
proof (induction st m rule: block_loop.induct)
  case (1 st m)
  show ?case
  proof (cases "64 \<le> length m")
    case True
    then obtain m0 t where r: "drop 64 m = m0 @ t" "64 dvd length m0" "length t < 64"
        "block_loop (sha256_compress st (take 64 m)) (drop 64 m) = (hash_blocks (sha256_compress st (take 64 m)) m0, t)"
      using 1 by blast
    have l: "length (take 64 m) = 64" using True by simp
    then have "64 dvd length (take 64 m)" by simp
    then have "hash_blocks st (take 64 m @ m0) = hash_blocks (sha256_compress st (take 64 m)) m0"
      using hash_blocks_append [of "take 64 m" st m0] hash_blocks_block [OF l] by simp
    then have "m = (take 64 m @ m0) @ t \<and> 64 dvd length (take 64 m @ m0) \<and> length t < 64 \<and> block_loop st m = (hash_blocks st (take 64 m @ m0), t)"
      using r True by (subst block_loop.simps) (simp flip: r(1))
    then show ?thesis by blast
  next
    case False
    then show ?thesis by (intro exI [of _ "[]"] exI [of _ m]) simp
  qed
qed

declare block_loop.simps [simp del]

section \<open>Updates\<close>

text \<open>The context after absorbing the message \<open>m\<close>.\<close>

definition absorbed :: "xaios_sha256_ctx \<Rightarrow> u8 list \<Rightarrow> bool" where
  "absorbed c m \<longleftrightarrow> (\<exists>m0 t. m = m0 @ t \<and> 64 dvd length m0 \<and> length t < 64 \<and> sha_state c = hash_blocks H0 m0 \<and>
     buffer_len c = of_nat (length t) \<and> length (buffer c) = 64 \<and> take (length t) (buffer c) = t \<and>
     bit_count c = of_nat (8 * length m))"

lemma absorbed_init: "absorbed xaios_sha256_init []"
proof -
  have "length (buffer xaios_sha256_init) = 64" "bit_count xaios_sha256_init = 0" "buffer_len xaios_sha256_init = 0"
    by (simp_all add: xaios_sha256_init_def)
  then show ?thesis by (simp add: absorbed_def)
qed

text \<open>Processing the bytes \<open>x\<close> with an empty buffer.\<close>

lemma absorb_rest:
  assumes "64 dvd length m0" "sha_state c = hash_blocks H0 m0" "buffer_len c = 0" "length (buffer c) = 64"
    and "bit_count c = of_nat (8 * length (m0 @ x))" "block_loop (sha_state c) x = (st, t)"
  shows "absorbed (if length t > 0 then c\<lparr>sha_state := st, buffer := write_at 0 t (buffer c), buffer_len := of_nat (length t)\<rparr>
    else c\<lparr>sha_state := st\<rparr>) (m0 @ x)"
proof -
  obtain x0 where x: "x = x0 @ t" "64 dvd length x0" "length t < 64" "st = hash_blocks H0 (m0 @ x0)"
    using block_loop_spec [of x "sha_state c"] assms(1,2,6) hash_blocks_append by auto
  then show ?thesis
    using assms(1,3-5) write_at_facts [of 0 t "buffer c"] unfolding absorbed_def
    by (intro exI [of _ "m0 @ x0"] exI [of _ t]) auto
qed

lemma update_phases:
  assumes "x \<noteq> []" "fill_buffer (c\<lparr>bit_count := bit_count c + of_nat (length x) * 8\<rparr>) x = (c1, r)"
    and "block_loop (sha_state c1) r = (st, t)"
  shows "xaios_sha256_update c (Some x) =
    (if length t > 0 then c1\<lparr>sha_state := st, buffer := write_at 0 t (buffer c1), buffer_len := of_nat (length t)\<rparr>
     else c1\<lparr>sha_state := st\<rparr>)"
  using assms by (simp add: xaios_sha256_update_def Let_def)

lemma absorbed_update:
  assumes "absorbed c m"
  shows "absorbed (xaios_sha256_update c (Some x)) (m @ x)"
proof (cases "x = []")
  case True
  then show ?thesis using assms by (simp add: xaios_sha256_update_def)
next
  case False
  obtain m0 t where m: "m = m0 @ t" "64 dvd length m0" "length t < 64" "sha_state c = hash_blocks H0 m0"
     "buffer_len c = of_nat (length t)" "length (buffer c) = 64" "take (length t) (buffer c) = t"
     "bit_count c = of_nat (8 * length m)"
    using assms unfolding absorbed_def by blast
  define c0 where "c0 = c\<lparr>bit_count := bit_count c + of_nat (length x) * 8\<rparr>"
  have bc: "bit_count c0 = of_nat (8 * length (m @ x))" using m(8) by (simp add: c0_def algebra_simps)
  have ul: "unat (of_nat (length t) :: u32) = length t" by (rule unat_of_nat_small) (use m(3) in simp)
  show ?thesis
  proof (cases "t = []")
    case True
    then have "fill_buffer c0 x = (c0, x)" using m(5) by (simp add: fill_buffer_def c0_def)
    moreover obtain st t' where r: "block_loop (sha_state c0) x = (st, t')" by fastforce
    ultimately show ?thesis
      using absorb_rest [OF m(2) _ _ _ _ r] update_phases [OF False _ r, of c] m True bc by (simp add: c0_def)
  next
    case False
    then have pos: "buffer_len c0 > 0" using m(5) ul by (simp add: c0_def word_less_nat_alt)
    have sp: "unat (64 - buffer_len c0) = 64 - length t"
      using unat_sub_le [of "buffer_len c0" 64] m(3,5) ul by (simp add: c0_def word_le_nat_alt)
    show ?thesis
    proof (cases "length x < 64 - length t")
      case True
      have lt: "length (t @ x) < 64" using True by simp
      define c1 where "c1 = c0\<lparr>buffer := write_at (length t) x (buffer c), buffer_len := of_nat (length (t @ x))\<rparr>"
      have "(of_nat (length (t @ x)) :: u32) \<noteq> 64"
        using unat_of_nat_small [where 'a = 32, of "length (t @ x)"] lt by auto
      then have "fill_buffer c0 x = (c1, [])"
        using pos sp True m(5) ul by (simp add: fill_buffer_def c1_def c0_def Let_def)
      moreover have "block_loop (sha_state c1) [] = (sha_state c1, [])" by (simp add: block_loop.simps)
      ultimately have "xaios_sha256_update c (Some x) = c1"
        using \<open>x \<noteq> []\<close> by (simp add: xaios_sha256_update_def c0_def [symmetric] Let_def)
      moreover have "absorbed c1 (m @ x)"
        unfolding absorbed_def
        by (intro exI [of _ m0] exI [of _ "t @ x"])
           (use m lt bc write_at_facts [of "length t" x "buffer c"] in \<open>simp add: c1_def c0_def\<close>)
      ultimately show ?thesis by simp
    next
      case full: False
      define b where "b = t @ take (64 - length t) x"
      have b: "length b = 64" using full m(3) by (simp add: b_def)
      define c1 where "c1 = c0\<lparr>buffer := b, sha_state := sha256_compress (sha_state c) b, buffer_len := 0\<rparr>"
      have "write_at (length t) (take (64 - length t) x) (buffer c) = b"
        using full m(3,6,7) by (simp add: write_at_def b_def)
      moreover have "of_nat (length t) + of_nat (64 - length t) = (64 :: u32)"
        using m(3) by (simp flip: of_nat_add)
      ultimately have f: "fill_buffer c0 x = (c1, drop (64 - length t) x)"
        using pos sp full m(5) ul by (simp add: fill_buffer_def c1_def c0_def Let_def)
      have "hash_blocks H0 (m0 @ b) = sha256_compress (sha_state c) b"
        using hash_blocks_append [OF m(2)] hash_blocks_block [OF b] m(4) by simp
      moreover have "(m0 @ b) @ drop (64 - length t) x = m @ x" by (simp add: m(1) b_def)
      moreover obtain st t' where r: "block_loop (sha_state c1) (drop (64 - length t) x) = (st, t')" by fastforce
      moreover have "64 dvd length (m0 @ b)" using m(2) b by simp
      ultimately show ?thesis
        using absorb_rest [OF _ _ _ _ _ r, of "m0 @ b"] update_phases [OF \<open>x \<noteq> []\<close> f [unfolded c0_def] r] b bc
        by (simp add: c1_def c0_def)
    qed
  qed
qed

lemma absorbed_updates: "absorbed c m \<Longrightarrow> absorbed (foldl xaios_sha256_update c (map Some parts)) (m @ concat parts)"
proof (induction parts arbitrary: c m)
  case (Cons x parts)
  then show ?case using absorbed_update [OF Cons.prems, of x] Cons.IH [of "xaios_sha256_update c (Some x)" "m @ x"] by simp
qed simp

section \<open>Finishing\<close>

lemma absorbed_buffer_len:
  assumes "absorbed c m"
  shows "unat (buffer_len c) = length m mod 64"
proof -
  obtain m0 t where m: "m = m0 @ t" "64 dvd length m0" "length t < 64" "buffer_len c = of_nat (length t)"
    using assms unfolding absorbed_def by blast
  then have "length m mod 64 = length t" by (auto simp: dvd_def)
  then show ?thesis using m(3,4) by (simp add: unat_of_nat_small)
qed

lemma pad_step_mod:
  assumes z: "Suc z < 64" and p: "(56 + Suc z) mod 64 = (56 :: nat)"
  shows False
proof (cases "Suc z < 8")
  case True
  then have "(56 + Suc z) mod 64 = 56 + Suc z" by (intro mod_less) simp
  then show False using p by simp
next
  case False
  then have "56 + Suc z = 64 + (Suc z - 8)" by simp
  then have "(56 + Suc z) mod 64 = (Suc z - 8) mod 64" by (metis mod_add_self1)
  also have "\<dots> = Suc z - 8" using z by (intro mod_less) simp
  finally show False using p z False by linarith
qed
lemma pad_loop_ends:
  assumes "absorbed c m" "(length m + z) mod 64 = 56" "z < 64"
  shows "\<exists>c'. pad_loop c = Some c' \<and> absorbed c' (m @ replicate z 0)"
  using assms
proof (induction z arbitrary: c m)
  case 0
  then have "unat (buffer_len c) = 56" using absorbed_buffer_len [OF 0(1)] by simp
  then have "buffer_len c = 56" by (simp add: word_eq_unat)
  then show ?case using 0(1) by (subst pad_loop.simps) simp
next
  case (Suc z)
  have "length m mod 64 \<noteq> 56"
  proof
    assume "length m mod 64 = 56"
    then have "(56 + Suc z) mod 64 = 56" using Suc.prems(2) mod_add_left_eq [of "length m" 64 "Suc z"] by simp
    then show False by (rule pad_step_mod [OF Suc.prems(3)])
  qed
  then have "unat (buffer_len c) \<noteq> 56" using absorbed_buffer_len [OF Suc.prems(1)] by simp
  then have "buffer_len c \<noteq> 56" by auto
  moreover have "absorbed (xaios_sha256_update c (Some [0])) (m @ [0])" by (rule absorbed_update [OF Suc.prems(1)])
  then have "\<exists>c'. pad_loop (xaios_sha256_update c (Some [0])) = Some c' \<and> absorbed c' ((m @ [0]) @ replicate z 0)"
    by (rule Suc.IH) (use Suc.prems in simp_all)
  ultimately show ?case by (subst pad_loop.simps) simp
qed

lemma zeros_for_residue:
  assumes "r < 64"
  shows "(r + 1 + (119 - r) mod 64) mod 64 = (56::nat)"
proof (cases "r < 56")
  case True
  then have "119 - r = 64 + (55 - r)" by simp
  then have "(119 - r) mod 64 = (55 - r) mod 64" by (metis mod_add_self1)
  also have "\<dots> = 55 - r" by (intro mod_less) simp
  finally have "r + 1 + (119 - r) mod 64 = 56" using True by linarith
  then show ?thesis by simp
next
  case False
  then have "(119 - r) mod 64 = 119 - r" by (intro mod_less) simp
  then have "r + 1 + (119 - r) mod 64 = 120" using assms by linarith
  then show ?thesis by simp
qed
lemma zeros_for_fills: "(n + 1 + zeros_for n) mod 64 = 56" "zeros_for n < 64"
proof -
  have "n mod 64 < 64" by simp
  from zeros_for_residue [OF this] show "(n + 1 + zeros_for n) mod 64 = 56" unfolding zeros_for_def by (metis mod_add_left_eq)
  show "zeros_for n < 64" by (simp add: zeros_for_def)
qed

lemma absorbed_whole:
  assumes "absorbed c m" "64 dvd length m"
  shows "sha_state c = hash_blocks H0 m"
proof -
  obtain m0 t where m: "m = m0 @ t" "64 dvd length m0" "length t < 64" "sha_state c = hash_blocks H0 m0"
    using assms(1) unfolding absorbed_def by blast
  then have "64 dvd length t" using assms(2) by (simp add: dvd_add_right_iff)
  then have "t = []" using m(3) by (auto dest: dvd_imp_le)
  then show ?thesis using m by simp
qed

lemma final_spec:
  assumes "absorbed c m"
  shows "\<exists>c'. xaios_sha256_final c = Some (concat (map store_be32 (hash_blocks H0 (padded m))), c')"
proof -
  let ?z = "zeros_for (length m)"
  have "absorbed (xaios_sha256_update c (Some [0x80])) (m @ [0x80])" by (rule absorbed_update [OF assms])
  then obtain c1 where c1: "pad_loop (xaios_sha256_update c (Some [0x80])) = Some c1" "absorbed c1 (m @ [0x80] @ replicate ?z 0)"
    using pad_loop_ends [of _ "m @ [0x80]" ?z] zeros_for_fills [of "length m"] by fastforce
  have n: "length (m @ [0x80] @ replicate ?z 0) = length m + 1 + ?z" by simp
  have bc: "bit_count c1 = of_nat (8 * (length m + 1 + ?z))" using c1(2) unfolding absorbed_def n by blast
  define c2 where "c2 = xaios_sha256_update c1 (Some (count_bytes (bit_count c1)))"
  have "absorbed c2 (padded m)" using absorbed_update [OF c1(2)] by (simp add: c2_def padded_def bc)
  moreover have "(length m + 1 + ?z + 8) mod 64 = 0" using zeros_for_fills(1) [of "length m"] mod_add_left_eq [of "length m + 1 + ?z" 64 8] by simp
  then have "64 dvd length (padded m)" by (simp add: padded_def count_bytes_def dvd_eq_mod_eq_0 ac_simps)
  ultimately have "sha_state c2 = hash_blocks H0 (padded m)" by (rule absorbed_whole)
  then show ?thesis using c1(1) by (simp add: xaios_sha256_final_def Let_def flip: c2_def)
qed

lemma count_bytes_inj:
  assumes "count_bytes a = count_bytes b"
  shows "a = b"
proof (rule bit_word_eqI)
  fix n assume "n < LENGTH(64)"
  then have n: "7 - n div 8 < 8" "(7 - (7 - n div 8)) * 8 + n mod 8 = n" by simp_all
  have "count_bytes a ! (7 - n div 8) = count_bytes b ! (7 - n div 8)" using assms by simp
  then have "bit (ucast (drop_bit ((7 - (7 - n div 8)) * 8) a) :: u8) (n mod 8) = bit (ucast (drop_bit ((7 - (7 - n div 8)) * 8) b) :: u8) (n mod 8)"
    using n(1) unfolding count_bytes_def by (simp add: nth_map_upt)
  then show "bit a n = bit b n" unfolding bit_ucast_iff bit_drop_bit_eq o_def using n(2) by simp
qed

text \<open>
  C8: The hash of a stream does not depend on how it is cut into updates. Whatever the parts handed to
  \<^verbatim>\<open>xaios_sha256_update\<close>, empty ones included, \<^verbatim>\<open>xaios_sha256_final\<close> returns, and its digest is the one the reference
  computes from the blocks of the whole padded message. The padding is not the one of the standard, though: its
  length field counts the padding bytes, which were added by updates, so for every message it differs from FIPS 180-4.
\<close>

theorem sha256_stream_digest:
  "map_option fst (xaios_sha256_final (foldl xaios_sha256_update xaios_sha256_init (map Some parts))) =
     Some (concat (map store_be32 (hash_blocks H0 (padded (concat parts))))) \<and>
   xaios_sha256 (Some m) = Some (concat (map store_be32 (hash_blocks H0 (padded m)))) \<and>
   padded m \<noteq> fips_padded m"
proof (intro conjI)
  have "absorbed (foldl xaios_sha256_update xaios_sha256_init (map Some parts)) (concat parts)" for parts
    using absorbed_updates [OF absorbed_init, of parts] by simp
  then have s: "map_option fst (xaios_sha256_final (foldl xaios_sha256_update xaios_sha256_init (map Some parts))) =
     Some (concat (map store_be32 (hash_blocks H0 (padded (concat parts)))))" for parts
    using final_spec by fastforce
  show "map_option fst (xaios_sha256_final (foldl xaios_sha256_update xaios_sha256_init (map Some parts))) =
     Some (concat (map store_be32 (hash_blocks H0 (padded (concat parts)))))" by (rule s)
  show "xaios_sha256 (Some m) = Some (concat (map store_be32 (hash_blocks H0 (padded m))))"
    using s [of "[m]"] by (simp add: xaios_sha256_def)
  let ?z = "zeros_for (length m)"
  have "(of_nat (8 * (1 + ?z)) :: u64) \<noteq> 0"
    using unat_of_nat_small [where 'a = 64, of "8 * (1 + ?z)"] zeros_for_fills(2) [of "length m"] by auto
  then have "(of_nat (8 * (length m + 1 + ?z)) :: u64) \<noteq> of_nat (8 * length m)" by (simp add: algebra_simps)
  then have "count_bytes (of_nat (8 * (length m + 1 + ?z))) \<noteq> count_bytes (of_nat (8 * length m))" by (metis count_bytes_inj)
  then show "padded m \<noteq> fips_padded m" unfolding padded_def fips_padded_def by (simp only: same_append_eq simp_thms)
qed

end
