(* ===== verification/Mfs_Base.thy ===== *)
theory Mfs_Base
  imports Prelude
begin

text \<open>
  \<^verbatim>\<open>kernel/fs/mutable_fs.c\<close>, first part: the constants, structures and pure helpers of the mutable file system:
  paths, text records, checksums and the byte layout of its structures on disk. A character array in a
  structure is the list of its characters, stale ones after the terminating NUL included.
\<close>

section \<open>Constants\<close>

definition MFS_MAGIC :: string where
  "MFS_MAGIC = ''XAIOSMFS2''"

definition MFS_JOURNAL_MAGIC :: string where
  "MFS_JOURNAL_MAGIC = ''XAIOSMFJ1''"

definition MFS_MAGIC_LEN :: nat where
  "MFS_MAGIC_LEN = 8"

definition MFS_VERSION :: u32 where
  "MFS_VERSION = 2"

definition MFS_JOURNAL_VERSION :: u32 where
  "MFS_JOURNAL_VERSION = 1"

definition MFS_SECTOR_SIZE :: u64 where
  "MFS_SECTOR_SIZE = 512"

definition MFS_START_SECTOR :: u64 where
  "MFS_START_SECTOR = 3072"

definition MFS_METADATA_SECTORS :: u32 where
  "MFS_METADATA_SECTORS = 16"

definition MFS_JOURNAL_HEADER_SECTOR :: u64 where
  "MFS_JOURNAL_HEADER_SECTOR = MFS_START_SECTOR + ucast MFS_METADATA_SECTORS"

definition MFS_JOURNAL_DATA_SECTOR :: u64 where
  "MFS_JOURNAL_DATA_SECTOR = MFS_JOURNAL_HEADER_SECTOR + 1"

definition MFS_JOURNAL_SECTORS :: u64 where
  "MFS_JOURNAL_SECTORS = 2"

definition MFS_DATA_START_SECTOR :: u64 where
  "MFS_DATA_START_SECTOR = MFS_START_SECTOR + ucast MFS_METADATA_SECTORS + MFS_JOURNAL_SECTORS"

definition MFS_DATA_SECTORS :: u32 where
  "MFS_DATA_SECTORS = 96"

definition MFS_MAX_NODES :: u32 where
  "MFS_MAX_NODES = 32"

definition MFS_PATH_MAX :: nat where
  "MFS_PATH_MAX = 96"

definition MFS_FILE_MAX_BLOCKS :: u32 where
  "MFS_FILE_MAX_BLOCKS = 16"

definition MFS_MAX_FILE_BYTES :: u64 where
  "MFS_MAX_FILE_BYTES = ucast MFS_FILE_MAX_BLOCKS * MFS_SECTOR_SIZE"

definition MFS_MAX_OPEN_FILES :: u32 where
  "MFS_MAX_OPEN_FILES = 8"

definition MFS_V3_METADATA_SECTORS :: u32 where
  "MFS_V3_METADATA_SECTORS = 32"

definition MFS_V3_DATA_SECTORS :: u32 where
  "MFS_V3_DATA_SECTORS = 256"

definition MFS_V3_MAX_NODES :: u32 where
  "MFS_V3_MAX_NODES = 64"

definition MFS_V3_FILE_MAX_BLOCKS :: u32 where
  "MFS_V3_FILE_MAX_BLOCKS = 16"

definition MFS_V3_MAX_FILE_BYTES :: u64 where
  "MFS_V3_MAX_FILE_BYTES = ucast MFS_V3_FILE_MAX_BLOCKS * MFS_SECTOR_SIZE"

definition MFS_V3_VERSION :: u32 where
  "MFS_V3_VERSION = 3"

definition MFS_NODE_FREE :: u32 where
  "MFS_NODE_FREE = 0"

definition MFS_NODE_DIR :: u32 where
  "MFS_NODE_DIR = 1"

definition MFS_NODE_FILE :: u32 where
  "MFS_NODE_FILE = 2"

definition MFS_MOUNT_READ_WRITE :: u32 where
  "MFS_MOUNT_READ_WRITE = 1"

definition MFS_JOURNAL_EMPTY :: u32 where
  "MFS_JOURNAL_EMPTY = 0"

definition MFS_JOURNAL_PENDING :: u32 where
  "MFS_JOURNAL_PENDING = 1"

definition MFS_JOURNAL_OP_WRITE_FILE :: u32 where
  "MFS_JOURNAL_OP_WRITE_FILE = 1"

definition FNV1A64_OFFSET :: u64 where
  "FNV1A64_OFFSET = 14695981039346656037"

definition FNV1A64_PRIME :: u64 where
  "FNV1A64_PRIME = 1099511628211"

definition XAIOS_MFS_OPEN_READ :: u32 where
  "XAIOS_MFS_OPEN_READ = 1"

definition XAIOS_MFS_OPEN_WRITE :: u32 where
  "XAIOS_MFS_OPEN_WRITE = 2"

definition XAIOS_MFS_OPEN_CREATE :: u32 where
  "XAIOS_MFS_OPEN_CREATE = 4"

definition XAIOS_MFS_OPEN_TRUNCATE :: u32 where
  "XAIOS_MFS_OPEN_TRUNCATE = 8"

lemmas mfs_consts = MFS_MAGIC_LEN_def MFS_VERSION_def MFS_SECTOR_SIZE_def MFS_START_SECTOR_def MFS_METADATA_SECTORS_def
  MFS_JOURNAL_HEADER_SECTOR_def MFS_JOURNAL_DATA_SECTOR_def MFS_JOURNAL_SECTORS_def MFS_DATA_START_SECTOR_def MFS_DATA_SECTORS_def
  MFS_MAX_NODES_def MFS_PATH_MAX_def MFS_FILE_MAX_BLOCKS_def MFS_MAX_FILE_BYTES_def MFS_MAX_OPEN_FILES_def
  MFS_V3_METADATA_SECTORS_def MFS_V3_DATA_SECTORS_def MFS_V3_MAX_NODES_def MFS_V3_FILE_MAX_BLOCKS_def MFS_V3_MAX_FILE_BYTES_def
  MFS_V3_VERSION_def MFS_NODE_FREE_def MFS_NODE_DIR_def MFS_NODE_FILE_def MFS_MOUNT_READ_WRITE_def

section \<open>Structures\<close>

record xaios_mfs_node =
  nd_active :: u32
  nd_snapshot_active :: u32
  nd_type :: u32
  nd_snapshot_type :: u32
  nd_size :: u64
  nd_content_hash :: u64
  nd_generation :: u64
  nd_snapshot_size :: u64
  nd_snapshot_hash :: u64
  nd_snapshot_generation :: u64
  nd_block_count :: u16
  nd_snapshot_block_count :: u16
  nd_blocks :: "u16 list"
  nd_snapshot_blocks :: "u16 list"
  nd_path :: string

record xaios_mfs_state =
  mfs_magic :: string
  mfs_version :: u32
  mfs_sector_size :: u32
  mfs_metadata_sectors :: u32
  mfs_max_nodes :: u32
  mfs_start_sector :: u64
  mfs_journal_header_sector :: u64
  mfs_journal_data_sector :: u64
  mfs_data_start_sector :: u64
  mfs_data_sectors :: u64
  mfs_generation :: u64
  mfs_committed_generation :: u64
  mfs_stored_checksum :: u64
  block_bitmap :: "u8 list"
  mfs_nodes :: "xaios_mfs_node list"

record xaios_mfs_journal =
  jr_magic :: string
  jr_version :: u32
  jr_state :: u32
  jr_op :: u32
  jr_reserved :: u32
  jr_size :: u64
  jr_content_hash :: u64
  jr_checksum :: u64
  jr_path :: string
  jr_padding :: "u8 list"

record xaios_mfs_file_handle =
  fh_in_use :: u32
  fh_flags :: u32
  fh_cursor :: u64
  fh_path :: string

record xaios_mfs_stat =
  st_type :: u32
  st_block_count :: u32
  st_size :: u64
  st_generation :: u64
  st_content_hash :: u64

record xaios_mfs_fsck_result =
  fk_valid :: u32
  fk_version :: u32
  fk_files :: u64
  fk_directories :: u64
  fk_blocks_used :: u64
  fk_errors :: u64

section \<open>Strings and paths\<close>

text \<open>The text in a character array: what precedes the first NUL.\<close>

definition cstr_of :: "string \<Rightarrow> string" where
  "cstr_of a = takeWhile (\<lambda>c. c \<noteq> CHR 0x00) a"

fun str_eq :: "string \<Rightarrow> string \<Rightarrow> bool" where
  "str_eq (a # as) (b # bs) = (if a \<noteq> b then False else str_eq as bs)"
| "str_eq as bs = (as = [] \<and> bs = [])"

definition node_is_visible :: "xaios_mfs_node option \<Rightarrow> bool" where
  "node_is_visible node = (case node of None \<Rightarrow> False | Some n \<Rightarrow> nd_active n \<noteq> 0 \<or> nd_snapshot_active n \<noteq> 0)"

text \<open>
  The text builders. The text written so far stands for the buffer and the offset; the capacity counts the
  terminating NUL. Each builder returns the status and the text.
\<close>

definition append_char :: "nat \<Rightarrow> string \<Rightarrow> char \<Rightarrow> xaios_status \<times> string" where
  "append_char capacity text value =
     (if length text + 1 \<ge> capacity then (XAIOS_ERR_NO_MEMORY, text) else (XAIOS_OK, text @ [value]))"

fun append_chars :: "nat \<Rightarrow> string \<Rightarrow> string \<Rightarrow> xaios_status \<times> string" where
  "append_chars capacity text [] = (XAIOS_OK, text)"
| "append_chars capacity text (c # cs) =
     (let (st, text1) = append_char capacity text c
      in if st \<noteq> XAIOS_OK then (XAIOS_ERR_NO_MEMORY, text1) else append_chars capacity text1 cs)"

definition append_cstr :: "nat \<Rightarrow> string \<Rightarrow> cstr \<Rightarrow> xaios_status \<times> string" where
  "append_cstr capacity text value =
     (case value of None \<Rightarrow> (XAIOS_ERR_INVALID, text) | Some v \<Rightarrow> append_chars capacity text v)"

text \<open>The decimal digits of a number, least significant first; ten are enough for 32 bits.\<close>

fun digit_loop :: "nat \<Rightarrow> u32 \<Rightarrow> string" where
  "digit_loop 0 value = []"
| "digit_loop (Suc left) value = (if value = 0 then [] else char_of (48 + unat (value mod 10)) # digit_loop left (value div 10))"

definition append_u32 :: "nat \<Rightarrow> string \<Rightarrow> u32 \<Rightarrow> xaios_status \<times> string" where
  "append_u32 capacity text value =
     (if value = 0 then append_char capacity text (CHR ''0'') else append_chars capacity text (rev (digit_loop 10 value)))"

definition copy_path :: "string \<Rightarrow> string \<Rightarrow> string" where
  "copy_path dst src = write_at 0 (take (MFS_PATH_MAX - 1) src @ [CHR 0x00]) dst"

fun basename_loop :: "string \<Rightarrow> string \<Rightarrow> string" where
  "basename_loop base [] = base"
| "basename_loop base (c # cs) = basename_loop (if c = CHR ''/'' \<and> cs \<noteq> [] then cs else base) cs"

definition basename_of :: "cstr \<Rightarrow> cstr" where
  "basename_of path = (case path of None \<Rightarrow> None | Some p \<Rightarrow> Some (basename_loop p p))"

definition path_char_ok :: "char \<Rightarrow> bool" where
  "path_char_ok c \<longleftrightarrow> \<not> (of_char c < (33 :: nat) \<or> of_char c > (126 :: nat) \<or> c \<in> {CHR '':'', CHR ''*'', CHR ''?'', CHR 0x22, CHR ''<'', CHR ''>'', CHR ''|''})"

text \<open>The loop over at most 96 characters; the number of characters seen is the loop index.\<close>

fun validate_loop :: "nat \<Rightarrow> nat \<Rightarrow> bool \<Rightarrow> string \<Rightarrow> xaios_status" where
  "validate_loop 0 i last_slash cs = XAIOS_ERR_INVALID"
| "validate_loop (Suc left) i last_slash [] =
     (if i = 0 \<or> (i > 1 \<and> last_slash) then XAIOS_ERR_INVALID else XAIOS_OK)"
| "validate_loop (Suc left) i last_slash (c # cs) =
     (if \<not> path_char_ok c then XAIOS_ERR_INVALID
      else if c = CHR ''/'' \<and> last_slash \<and> i \<noteq> 0 then XAIOS_ERR_INVALID
      else validate_loop left (i + 1) (c = CHR ''/'') cs)"

definition validate_path :: "cstr \<Rightarrow> xaios_status" where
  "validate_path path =
     (case path of
        None \<Rightarrow> XAIOS_ERR_INVALID
      | Some p \<Rightarrow> if p = [] \<or> hd p \<noteq> CHR ''/'' then XAIOS_ERR_INVALID else validate_loop MFS_PATH_MAX 0 True p)"

text \<open>A valid path has fewer than 96 characters, so its copy into the local array is the path itself.\<close>

definition normalize_path :: "cstr \<Rightarrow> string option" where
  "normalize_path path = (if validate_path path \<noteq> XAIOS_OK then None else Some (take (MFS_PATH_MAX - 1) (the path)))"

fun last_slash_loop :: "nat \<Rightarrow> nat \<Rightarrow> nat \<Rightarrow> string \<Rightarrow> nat" where
  "last_slash_loop 0 i seen cs = seen"
| "last_slash_loop (Suc left) i seen [] = seen"
| "last_slash_loop (Suc left) i seen (c # cs) = last_slash_loop left (i + 1) (if c = CHR ''/'' then i else seen) cs"

definition parent_path_of :: "string \<Rightarrow> string" where
  "parent_path_of path =
     (let last_slash = last_slash_loop MFS_PATH_MAX 0 0 path
      in if last_slash = 0 then ''/'' else take last_slash path)"

fun no_slash :: "string \<Rightarrow> bool" where
  "no_slash [] = True"
| "no_slash (c # cs) = (if c = CHR ''/'' then False else no_slash cs)"

text \<open>The name of a direct child, \<open>None\<close> for any other path.\<close>

definition direct_child_of :: "string \<Rightarrow> string \<Rightarrow> string option" where
  "direct_child_of parent child =
     (if str_eq parent ''/''
      then if take 1 child \<noteq> ''/'' \<or> length child < 2 then None
           else if no_slash (drop 1 child) then Some (drop 1 child) else None
      else if take (length parent) child \<noteq> parent \<or> take 1 (drop (length parent) child) \<noteq> ''/'' then None
      else let tail = drop (length parent + 1) child
           in if tail = [] then None else if no_slash tail then Some tail else None)"

section \<open>Checksums\<close>

definition fnv_step :: "u64 \<Rightarrow> u8 \<Rightarrow> u64" where
  "fnv_step hash byte = (hash XOR ucast byte) * FNV1A64_PRIME"

definition fnv1a64 :: "u8 list \<Rightarrow> u64" where
  "fnv1a64 bytes = foldl fnv_step FNV1A64_OFFSET bytes"

text \<open>The copy clears eight bytes at offset 72, as the code does.\<close>

definition mfs_checksum :: "u8 list \<Rightarrow> u64" where
  "mfs_checksum data = fnv1a64 (write_at 72 (replicate 8 0) data)"

section \<open>Layout on disk\<close>

definition le_bytes :: "nat \<Rightarrow> 'a::len word \<Rightarrow> u8 list" where
  "le_bytes n v = map (\<lambda>i. ucast (drop_bit (8 * i) v)) [0 ..< n]"

fun le_word :: "u8 list \<Rightarrow> 'a::len word" where
  "le_word [] = 0"
| "le_word (b # bs) = ucast b OR push_bit 8 (le_word bs)"

definition char_bytes :: "string \<Rightarrow> u8 list" where
  "char_bytes = map of_char"

definition byte_chars :: "u8 list \<Rightarrow> string" where
  "byte_chars = map (\<lambda>b. char_of (unat b))"

definition node_bytes :: "xaios_mfs_node \<Rightarrow> u8 list" where
  "node_bytes n =
     le_bytes 4 (nd_active n) @ le_bytes 4 (nd_snapshot_active n) @ le_bytes 4 (nd_type n) @ le_bytes 4 (nd_snapshot_type n) @
     le_bytes 8 (nd_size n) @ le_bytes 8 (nd_content_hash n) @ le_bytes 8 (nd_generation n) @ le_bytes 8 (nd_snapshot_size n) @
     le_bytes 8 (nd_snapshot_hash n) @ le_bytes 8 (nd_snapshot_generation n) @ le_bytes 2 (nd_block_count n) @
     le_bytes 2 (nd_snapshot_block_count n) @ concat (map (le_bytes 2) (nd_blocks n)) @
     concat (map (le_bytes 2) (nd_snapshot_blocks n)) @ char_bytes (nd_path n) @ replicate 4 0"

fun u16_list :: "nat \<Rightarrow> u8 list \<Rightarrow> u16 list" where
  "u16_list 0 raw = []"
| "u16_list (Suc n) raw = le_word (take 2 raw) # u16_list n (drop 2 raw)"

definition node_of_bytes :: "u8 list \<Rightarrow> xaios_mfs_node" where
  "node_of_bytes r =
     \<lparr>nd_active = le_word (take 4 r), nd_snapshot_active = le_word (take 4 (drop 4 r)), nd_type = le_word (take 4 (drop 8 r)),
      nd_snapshot_type = le_word (take 4 (drop 12 r)), nd_size = le_word (take 8 (drop 16 r)),
      nd_content_hash = le_word (take 8 (drop 24 r)), nd_generation = le_word (take 8 (drop 32 r)),
      nd_snapshot_size = le_word (take 8 (drop 40 r)), nd_snapshot_hash = le_word (take 8 (drop 48 r)),
      nd_snapshot_generation = le_word (take 8 (drop 56 r)), nd_block_count = le_word (take 2 (drop 64 r)),
      nd_snapshot_block_count = le_word (take 2 (drop 66 r)), nd_blocks = u16_list 16 (drop 68 r),
      nd_snapshot_blocks = u16_list 16 (drop 100 r), nd_path = byte_chars (take 96 (drop 132 r))\<rparr>"

definition header_bytes :: "xaios_mfs_state \<Rightarrow> u64 \<Rightarrow> u8 list" where
  "header_bytes m cksum =
     char_bytes (mfs_magic m) @ le_bytes 4 (mfs_version m) @ le_bytes 4 (mfs_sector_size m) @ le_bytes 4 (mfs_metadata_sectors m) @
     le_bytes 4 (mfs_max_nodes m) @ le_bytes 8 (mfs_start_sector m) @ le_bytes 8 (mfs_journal_header_sector m) @
     le_bytes 8 (mfs_journal_data_sector m) @ le_bytes 8 (mfs_data_start_sector m) @ le_bytes 8 (mfs_data_sectors m) @
     le_bytes 8 (mfs_generation m) @ le_bytes 8 (mfs_committed_generation m) @ le_bytes 8 cksum"

definition journal_bytes :: "xaios_mfs_journal \<Rightarrow> u8 list" where
  "journal_bytes j =
     char_bytes (jr_magic j) @ le_bytes 4 (jr_version j) @ le_bytes 4 (jr_state j) @ le_bytes 4 (jr_op j) @ le_bytes 4 (jr_reserved j) @
     le_bytes 8 (jr_size j) @ le_bytes 8 (jr_content_hash j) @ le_bytes 8 (jr_checksum j) @ char_bytes (jr_path j) @ jr_padding j"

definition journal_of_bytes :: "u8 list \<Rightarrow> xaios_mfs_journal" where
  "journal_of_bytes r =
     \<lparr>jr_magic = byte_chars (take 8 r), jr_version = le_word (take 4 (drop 8 r)), jr_state = le_word (take 4 (drop 12 r)),
      jr_op = le_word (take 4 (drop 16 r)), jr_reserved = le_word (take 4 (drop 20 r)), jr_size = le_word (take 8 (drop 24 r)),
      jr_content_hash = le_word (take 8 (drop 32 r)), jr_checksum = le_word (take 8 (drop 40 r)),
      jr_path = byte_chars (take 96 (drop 48 r)), jr_padding = take 368 (drop 144 r)\<rparr>"

definition journal_checksum :: "xaios_mfs_journal \<Rightarrow> u64" where
  "journal_checksum j = fnv1a64 (journal_bytes (j\<lparr>jr_checksum := 0\<rparr>))"

end
