(* ===== verification/Mfs.thy ===== *)
theory Mfs
  imports Mfs_Base
begin

text \<open>
  \<^verbatim>\<open>kernel/fs/mutable_fs.c\<close>, second part: the volume, its metadata and journal, and the operations on files,
  directories and snapshots. The block driver of \<^verbatim>\<open>kernel/dev/virtio\<close> is a parameter: a record of its functions
  over an unspecified device state. A read gives the 512 bytes of a sector or fails, a write gives a status and the new
  device state. Data with its length is a list of bytes; \<open>None\<close> is a null pointer. Nodes are named by their index.
\<close>

section \<open>The block device\<close>

record ('d, 'h) block_driver =
  virtio_block_read_sector :: "'d \<Rightarrow> u64 \<Rightarrow> u8 list option"
  virtio_block_write_sector :: "'d \<Rightarrow> u64 \<Rightarrow> u8 list \<Rightarrow> xaios_status \<times> 'd"
  virtio_block_capacity_sectors :: "'d \<Rightarrow> u64"
  virtio_block_read_sector_h :: "'d \<Rightarrow> 'h \<Rightarrow> u64 \<Rightarrow> u8 list option"
  virtio_block_write_sector_h :: "'d \<Rightarrow> 'h \<Rightarrow> u64 \<Rightarrow> u8 list \<Rightarrow> xaios_status \<times> 'd"
  virtio_block_capacity_sectors_h :: "'d \<Rightarrow> 'h \<Rightarrow> u64"
  virtio_block_open_slot :: "'d \<Rightarrow> u32 \<Rightarrow> xaios_status \<times> 'h \<times> 'd"
  virtio_block_close :: "'d \<Rightarrow> 'h \<Rightarrow> 'd"

section \<open>State\<close>

record mfs_counters =
  g_mount_count :: u64
  g_format_count :: u64
  g_boot_load_count :: u64
  g_write_count :: u64
  g_read_count :: u64
  g_delete_count :: u64
  g_commit_count :: u64
  g_rollback_count :: u64
  g_reject_count :: u64
  g_checksum_error_count :: u64
  g_allocation_count :: u64
  g_free_count :: u64
  g_directory_count :: u64
  g_replay_count :: u64
  g_journal_write_count :: u64
  g_multi_sector_file_count :: u64
  g_state_record_count :: u64
  g_rename_count :: u64
  g_list_count :: u64
  g_stat_count :: u64
  g_open_count :: u64
  g_close_count :: u64
  g_persistent_mount_count :: u64

record ('d, 'h) mfs_system =
  fs_disk :: 'd
  g_mfs :: xaios_mfs_state
  g_open_files :: "xaios_mfs_file_handle list"
  g_mounted :: u32
  g_mount_flags :: u32
  fs_counts :: mfs_counters
  g_metadata_verified_checksum :: u64
  g_active_metadata_sectors :: u32
  g_active_max_nodes :: u32
  g_active_file_max_blocks :: u32
  g_active_max_file_bytes :: u64
  g_active_data_sectors :: u32
  g_active_version :: u32
  g_persistent_handle :: "'h option"

text \<open>Incrementing a counter; the first argument is the update function of its field.\<close>

definition bump :: "((u64 \<Rightarrow> u64) \<Rightarrow> mfs_counters \<Rightarrow> mfs_counters) \<Rightarrow> ('d, 'h) mfs_system \<Rightarrow> ('d, 'h) mfs_system" where
  "bump upd s = s\<lparr>fs_counts := upd (\<lambda>n. n + 1) (fs_counts s)\<rparr>"

definition bump_by :: "nat \<Rightarrow> ((u64 \<Rightarrow> u64) \<Rightarrow> mfs_counters \<Rightarrow> mfs_counters) \<Rightarrow> ('d, 'h) mfs_system \<Rightarrow> ('d, 'h) mfs_system" where
  "bump_by k upd s = s\<lparr>fs_counts := upd (\<lambda>n. n + of_nat k) (fs_counts s)\<rparr>"

abbreviation rejected :: "('d, 'h) mfs_system \<Rightarrow> ('d, 'h) mfs_system" where
  "rejected s \<equiv> bump g_reject_count_update s"

definition inode_at :: "('d, 'h) mfs_system \<Rightarrow> nat \<Rightarrow> xaios_mfs_node" where
  "inode_at s i = mfs_nodes (g_mfs s) ! i"

definition put_inode :: "('d, 'h) mfs_system \<Rightarrow> nat \<Rightarrow> xaios_mfs_node \<Rightarrow> ('d, 'h) mfs_system" where
  "put_inode s i n = s\<lparr>g_mfs := (g_mfs s)\<lparr>mfs_nodes := (mfs_nodes (g_mfs s))[i := n]\<rparr>\<rparr>"

definition set_bitmap :: "('d, 'h) mfs_system \<Rightarrow> u8 list \<Rightarrow> ('d, 'h) mfs_system" where
  "set_bitmap s bm = s\<lparr>g_mfs := (g_mfs s)\<lparr>block_bitmap := bm\<rparr>\<rparr>"

definition next_generation :: "('d, 'h) mfs_system \<Rightarrow> ('d, 'h) mfs_system" where
  "next_generation s = s\<lparr>g_mfs := (g_mfs s)\<lparr>mfs_generation := mfs_generation (g_mfs s) + 1\<rparr>\<rparr>"

definition set_active_v2 :: "('d, 'h) mfs_system \<Rightarrow> ('d, 'h) mfs_system" where
  "set_active_v2 s = s\<lparr>g_active_metadata_sectors := MFS_METADATA_SECTORS, g_active_max_nodes := MFS_MAX_NODES,
     g_active_file_max_blocks := MFS_FILE_MAX_BLOCKS, g_active_max_file_bytes := MFS_MAX_FILE_BYTES,
     g_active_data_sectors := MFS_DATA_SECTORS, g_active_version := MFS_VERSION\<rparr>"

definition set_active_v3 :: "('d, 'h) mfs_system \<Rightarrow> ('d, 'h) mfs_system" where
  "set_active_v3 s = s\<lparr>g_active_metadata_sectors := MFS_V3_METADATA_SECTORS, g_active_max_nodes := MFS_V3_MAX_NODES,
     g_active_file_max_blocks := MFS_V3_FILE_MAX_BLOCKS, g_active_max_file_bytes := MFS_V3_MAX_FILE_BYTES,
     g_active_data_sectors := MFS_V3_DATA_SECTORS, g_active_version := MFS_V3_VERSION\<rparr>"

definition blk_read :: "('d, 'h) block_driver \<Rightarrow> ('d, 'h) mfs_system \<Rightarrow> u64 \<Rightarrow> u8 list option" where
  "blk_read ops s sector =
     (case g_persistent_handle s of
        Some h \<Rightarrow> virtio_block_read_sector_h ops (fs_disk s) h sector
      | None \<Rightarrow> virtio_block_read_sector ops (fs_disk s) sector)"

definition blk_write ::
  "('d, 'h) block_driver \<Rightarrow> ('d, 'h) mfs_system \<Rightarrow> u64 \<Rightarrow> u8 list \<Rightarrow> xaios_status \<times> ('d, 'h) mfs_system" where
  "blk_write ops s sector buf =
     (let (st, d) = (case g_persistent_handle s of
        Some h \<Rightarrow> virtio_block_write_sector_h ops (fs_disk s) h sector buf
      | None \<Rightarrow> virtio_block_write_sector ops (fs_disk s) sector buf)
      in (st, s\<lparr>fs_disk := d\<rparr>))"

definition blk_capacity :: "('d, 'h) block_driver \<Rightarrow> ('d, 'h) mfs_system \<Rightarrow> u64" where
  "blk_capacity ops s =
     (case g_persistent_handle s of
        Some h \<Rightarrow> virtio_block_capacity_sectors_h ops (fs_disk s) h
      | None \<Rightarrow> virtio_block_capacity_sectors ops (fs_disk s))"

definition reset_open_files :: "('d, 'h) mfs_system \<Rightarrow> ('d, 'h) mfs_system" where
  "reset_open_files s = s\<lparr>g_open_files := map (\<lambda>f. f\<lparr>fh_in_use := 0, fh_flags := 0, fh_cursor := 0, fh_path := write_at 0 [CHR 0x00] (fh_path f)\<rparr>)
     (g_open_files s)\<rparr>"

section \<open>Nodes\<close>

definition node_path :: "xaios_mfs_node \<Rightarrow> string" where
  "node_path n = cstr_of (nd_path n)"

definition active_nodes :: "('d, 'h) mfs_system \<Rightarrow> xaios_mfs_node list" where
  "active_nodes s = take (unat (g_active_max_nodes s)) (mfs_nodes (g_mfs s))"

definition node_count_by_type :: "('d, 'h) mfs_system \<Rightarrow> u32 \<Rightarrow> u64" where
  "node_count_by_type s type = of_nat (length (filter (\<lambda>n. nd_active n \<noteq> 0 \<and> nd_type n = type) (active_nodes s)))"

definition block_count_used :: "('d, 'h) mfs_system \<Rightarrow> u64" where
  "block_count_used s = of_nat (length (filter (\<lambda>b. b \<noteq> 0) (take (unat (g_active_data_sectors s)) (block_bitmap (g_mfs s)))))"

definition find_node :: "('d, 'h) mfs_system \<Rightarrow> string \<Rightarrow> bool \<Rightarrow> nat option" where
  "find_node s path include_snapshot =
     find_slot (\<lambda>n. (nd_active n \<noteq> 0 \<or> (include_snapshot \<and> nd_snapshot_active n \<noteq> 0)) \<and> str_eq (node_path n) path) (active_nodes s)"

definition find_free_node :: "('d, 'h) mfs_system \<Rightarrow> nat option" where
  "find_free_node s = find_slot (\<lambda>n. nd_active n = 0 \<and> nd_snapshot_active n = 0) (active_nodes s)"

section \<open>Metadata and journal\<close>

definition zero_node :: xaios_mfs_node where
  "zero_node = \<lparr>nd_active = 0, nd_snapshot_active = 0, nd_type = 0, nd_snapshot_type = 0, nd_size = 0, nd_content_hash = 0,
     nd_generation = 0, nd_snapshot_size = 0, nd_snapshot_hash = 0, nd_snapshot_generation = 0, nd_block_count = 0,
     nd_snapshot_block_count = 0, nd_blocks = replicate 16 0, nd_snapshot_blocks = replicate 16 0, nd_path = replicate 96 (CHR 0x00)\<rparr>"

definition disk_bitmap :: "u32 \<Rightarrow> nat" where
  "disk_bitmap version = unat (if version = MFS_V3_VERSION then MFS_V3_DATA_SECTORS else MFS_DATA_SECTORS)"

definition disk_max_nodes :: "u32 \<Rightarrow> nat" where
  "disk_max_nodes version = unat (if version = MFS_V3_VERSION then MFS_V3_MAX_NODES else MFS_MAX_NODES)"

definition disk_sectors :: "u32 \<Rightarrow> nat" where
  "disk_sectors version = unat (if version = MFS_V3_VERSION then MFS_V3_METADATA_SECTORS else MFS_METADATA_SECTORS)"

text \<open>The 16 KiB buffer with the serialised metadata.\<close>

definition metadata_raw :: "u32 \<Rightarrow> xaios_mfs_state \<Rightarrow> u64 \<Rightarrow> u8 list" where
  "metadata_raw version m cksum =
     write_at 0 (header_bytes m cksum @ take (disk_bitmap version) (block_bitmap m) @
       concat (map node_bytes (take (disk_max_nodes version) (mfs_nodes m)))) (replicate 16384 0)"

definition sector_of :: "u8 list \<Rightarrow> nat \<Rightarrow> u8 list" where
  "sector_of raw i = take 512 (drop (i * 512) raw)"

fun read_sectors :: "('d, 'h) block_driver \<Rightarrow> ('d, 'h) mfs_system \<Rightarrow> nat list \<Rightarrow> u8 list option" where
  "read_sectors ops s [] = Some []"
| "read_sectors ops s (i # is) =
     (case blk_read ops s (MFS_START_SECTOR + of_nat i) of
        None \<Rightarrow> None
      | Some b \<Rightarrow> map_option (\<lambda>bs. b @ bs) (read_sectors ops s is))"

definition state_of_raw :: "u8 list \<Rightarrow> u32 \<Rightarrow> xaios_mfs_state" where
  "state_of_raw r version =
     (let nb = disk_bitmap version; nn = disk_max_nodes version
      in \<lparr>mfs_magic = byte_chars (take 8 r), mfs_version = le_word (take 4 (drop 8 r)), mfs_sector_size = le_word (take 4 (drop 12 r)),
          mfs_metadata_sectors = le_word (take 4 (drop 16 r)), mfs_max_nodes = le_word (take 4 (drop 20 r)),
          mfs_start_sector = le_word (take 8 (drop 24 r)), mfs_journal_header_sector = le_word (take 8 (drop 32 r)),
          mfs_journal_data_sector = le_word (take 8 (drop 40 r)), mfs_data_start_sector = le_word (take 8 (drop 48 r)),
          mfs_data_sectors = le_word (take 8 (drop 56 r)), mfs_generation = le_word (take 8 (drop 64 r)),
          mfs_committed_generation = le_word (take 8 (drop 72 r)), mfs_stored_checksum = le_word (take 8 (drop 80 r)),
          block_bitmap = take nb (drop 88 r) @ replicate (256 - nb) 0,
          mfs_nodes = map (\<lambda>i. node_of_bytes (take 232 (drop (88 + nb + i * 232) r))) [0 ..< nn] @ replicate (64 - nn) zero_node\<rparr>)"

definition read_metadata :: "('d, 'h) block_driver \<Rightarrow> ('d, 'h) mfs_system \<Rightarrow> xaios_status \<times> ('d, 'h) mfs_system" where
  "read_metadata ops s =
     (case blk_read ops s MFS_START_SECTOR of
        None \<Rightarrow> (XAIOS_ERR_IO, s)
      | Some first \<Rightarrow>
          let version = le_word (take 4 (drop MFS_MAGIC_LEN first)); sectors = disk_sectors version
          in case read_sectors ops s [1 ..< sectors] of
               None \<Rightarrow> (XAIOS_ERR_IO, s)
             | Some rest \<Rightarrow>
                 let raw = first @ rest
                 in (XAIOS_OK, s\<lparr>g_metadata_verified_checksum := mfs_checksum raw,
                      g_mfs := state_of_raw (raw @ replicate (16384 - length raw) 0) version\<rparr>))"

fun write_sectors ::
  "('d, 'h) block_driver \<Rightarrow> u8 list \<Rightarrow> nat list \<Rightarrow> ('d, 'h) mfs_system \<Rightarrow> xaios_status \<times> ('d, 'h) mfs_system" where
  "write_sectors ops raw [] s = (XAIOS_OK, s)"
| "write_sectors ops raw (i # is) s =
     (let (st, s1) = blk_write ops s (MFS_START_SECTOR + of_nat i) (sector_of raw i)
      in if st \<noteq> XAIOS_OK then (XAIOS_ERR_IO, rejected s1) else write_sectors ops raw is s1)"

definition write_metadata :: "('d, 'h) block_driver \<Rightarrow> ('d, 'h) mfs_system \<Rightarrow> xaios_status \<times> ('d, 'h) mfs_system" where
  "write_metadata ops s =
     (let total = unat (g_active_metadata_sectors s) * 512;
          cksum = mfs_checksum (take total (metadata_raw (g_active_version s) (g_mfs s) 0));
          s1 = s\<lparr>g_mfs := (g_mfs s)\<lparr>mfs_stored_checksum := cksum\<rparr>\<rparr>
      in write_sectors ops (metadata_raw (g_active_version s) (g_mfs s) cksum) [0 ..< unat (g_active_metadata_sectors s)] s1)"

definition clear_journal :: "('d, 'h) block_driver \<Rightarrow> ('d, 'h) mfs_system \<Rightarrow> xaios_status \<times> ('d, 'h) mfs_system" where
  "clear_journal ops s =
     (let (st, s1) = blk_write ops s MFS_JOURNAL_HEADER_SECTOR (replicate 512 0)
      in if st \<noteq> XAIOS_OK then (XAIOS_ERR_IO, rejected s1)
         else let (st2, s2) = blk_write ops s1 MFS_JOURNAL_DATA_SECTOR (replicate 512 0)
              in if st2 \<noteq> XAIOS_OK then (XAIOS_ERR_IO, rejected s2) else (XAIOS_OK, s2))"

definition read_journal :: "('d, 'h) block_driver \<Rightarrow> ('d, 'h) mfs_system \<Rightarrow> xaios_mfs_journal option" where
  "read_journal ops s = map_option journal_of_bytes (blk_read ops s MFS_JOURNAL_HEADER_SECTOR)"

definition write_journal ::
  "('d, 'h) block_driver \<Rightarrow> ('d, 'h) mfs_system \<Rightarrow> xaios_mfs_journal \<Rightarrow> xaios_status \<times> ('d, 'h) mfs_system" where
  "write_journal ops s journal =
     (let (st, s1) = blk_write ops s MFS_JOURNAL_HEADER_SECTOR (journal_bytes (journal\<lparr>jr_checksum := journal_checksum journal\<rparr>))
      in if st \<noteq> XAIOS_OK then (XAIOS_ERR_IO, rejected s1)
         else (XAIOS_OK, bump g_journal_write_count_update s1))"

section \<open>Blocks\<close>

definition absolute_data_sector :: "u16 \<Rightarrow> u64" where
  "absolute_data_sector block_index = MFS_DATA_START_SECTOR + ucast block_index"

fun alloc_loop :: "nat \<Rightarrow> nat list \<Rightarrow> u8 list \<Rightarrow> u16 list \<Rightarrow> u8 list \<times> u16 list" where
  "alloc_loop count [] bm found = (bm, found)"
| "alloc_loop count (i # is) bm found =
     (if length found < count
      then if bm ! i = 0 then alloc_loop count is (bm[i := 1]) (found @ [of_nat i]) else alloc_loop count is bm found
      else (bm, found))"

text \<open>On success the blocks come back as the array of 16 entries, which the callers have cleared before.\<close>

definition allocate_blocks ::
  "('d, 'h) mfs_system \<Rightarrow> u16 \<Rightarrow> xaios_status \<times> u16 list \<times> ('d, 'h) mfs_system" where
  "allocate_blocks s count =
     (if ucast count > g_active_file_max_blocks s then (XAIOS_ERR_INVALID, replicate 16 0, s)
      else if count = 0 then (XAIOS_OK, replicate 16 0, s)
      else let (bm, found) = alloc_loop (unat count) [0 ..< unat (g_active_data_sectors s)] (block_bitmap (g_mfs s)) [];
               s1 = bump_by (length found) g_allocation_count_update (set_bitmap s bm)
           in if length found \<noteq> unat count
              then (XAIOS_ERR_NO_MEMORY, write_at 0 found (replicate 16 0),
                    rejected (bump_by (length found) g_free_count_update (set_bitmap s1 (foldl (\<lambda>b i. b[unat i := 0]) bm found))))
              else (XAIOS_OK, write_at 0 found (replicate 16 0), s1))"

definition free_block :: "('d, 'h) mfs_system \<Rightarrow> u16 \<Rightarrow> ('d, 'h) mfs_system" where
  "free_block s b =
     (if ucast b < g_active_data_sectors s \<and> block_bitmap (g_mfs s) ! unat b \<noteq> 0
      then bump g_free_count_update (set_bitmap s ((block_bitmap (g_mfs s))[unat b := 0]))
      else s)"

definition free_blocks :: "('d, 'h) mfs_system \<Rightarrow> u16 \<Rightarrow> u16 list \<Rightarrow> ('d, 'h) mfs_system" where
  "free_blocks s count blocks = foldl free_block s (take (unat count) blocks)"

definition block_count_for_size :: "u64 \<Rightarrow> u16" where
  "block_count_for_size sz = ucast ((sz + MFS_SECTOR_SIZE - 1) div MFS_SECTOR_SIZE)"

text \<open>The bytes of block \<open>i\<close>: what remains of the size, at most a sector.\<close>

definition block_bytes :: "u64 \<Rightarrow> nat \<Rightarrow> nat" where
  "block_bytes sz i =
     (let remaining = sz - of_nat i * MFS_SECTOR_SIZE
      in unat (if remaining < MFS_SECTOR_SIZE then remaining else MFS_SECTOR_SIZE))"

fun write_loop ::
  "('d, 'h) block_driver \<Rightarrow> u8 list \<Rightarrow> u64 \<Rightarrow> nat \<Rightarrow> u16 list \<Rightarrow> ('d, 'h) mfs_system \<Rightarrow> xaios_status \<times> ('d, 'h) mfs_system" where
  "write_loop ops data sz i [] s = (XAIOS_OK, s)"
| "write_loop ops data sz i (b # bs) s =
     (let (st, s1) = blk_write ops s (absolute_data_sector b)
            (write_at 0 (take (block_bytes sz i) (drop (i * 512) data)) (replicate 512 0))
      in if st \<noteq> XAIOS_OK then (XAIOS_ERR_IO, rejected s1) else write_loop ops data sz (i + 1) bs s1)"

definition write_blocks ::
  "('d, 'h) block_driver \<Rightarrow> ('d, 'h) mfs_system \<Rightarrow> u16 list \<Rightarrow> u16 \<Rightarrow> u8 list \<Rightarrow> u64 \<Rightarrow> xaios_status \<times> ('d, 'h) mfs_system" where
  "write_blocks ops s blocks block_count data sz = write_loop ops data sz 0 (take (unat block_count) blocks) s"

fun read_loop ::
  "('d, 'h) block_driver \<Rightarrow> ('d, 'h) mfs_system \<Rightarrow> u64 \<Rightarrow> nat \<Rightarrow> u16 list \<Rightarrow> u8 list \<Rightarrow> xaios_status \<times> u8 list" where
  "read_loop ops s sz i [] buf = (XAIOS_OK, buf)"
| "read_loop ops s sz i (b # bs) buf =
     (case blk_read ops s (absolute_data_sector b) of
        None \<Rightarrow> (XAIOS_ERR_IO, buf)
      | Some sector \<Rightarrow> read_loop ops s sz (i + 1) bs (write_at (i * 512) (take (block_bytes sz i) sector) buf))"

definition read_blocks ::
  "('d, 'h) block_driver \<Rightarrow> ('d, 'h) mfs_system \<Rightarrow> u16 list \<Rightarrow> u16 \<Rightarrow> u8 list \<Rightarrow> u64 \<Rightarrow> xaios_status \<times> u8 list \<times> ('d, 'h) mfs_system" where
  "read_blocks ops s blocks block_count buf sz =
     (let (st, buf1) = read_loop ops s sz 0 (take (unat block_count) blocks) buf
      in (st, buf1, if st = XAIOS_OK then s else rejected s))"

end
