(* ===== verification/Mfs_Ops.thy ===== *)
theory Mfs_Ops
  imports Mfs
begin

text \<open>
  \<^verbatim>\<open>kernel/fs/mutable_fs.c\<close>, third part: files, directories, snapshots and the journal. Local buffers, which the code does not
  initialise, start as zeros; what a well-formed node reads overwrites them.
\<close>

section \<open>Files and directories\<close>

abbreviation writable_mount :: "('d, 'h) mfs_system \<Rightarrow> bool" where
  "writable_mount s \<equiv> g_mounted s \<noteq> 0 \<and> g_mount_flags s AND MFS_MOUNT_READ_WRITE \<noteq> 0"

definition node_ok :: "('d, 'h) mfs_system \<Rightarrow> xaios_mfs_node \<Rightarrow> bool" where
  "node_ok s node \<longleftrightarrow>
     \<not> ((nd_active node \<noteq> 0 \<or> nd_snapshot_active node \<noteq> 0) \<and> validate_path (Some (node_path node)) \<noteq> XAIOS_OK) \<and>
     \<not> (nd_active node \<noteq> 0 \<and> nd_type node \<noteq> MFS_NODE_DIR \<and> nd_type node \<noteq> MFS_NODE_FILE) \<and>
     \<not> (nd_snapshot_active node \<noteq> 0 \<and> nd_snapshot_type node \<noteq> MFS_NODE_DIR \<and> nd_snapshot_type node \<noteq> MFS_NODE_FILE) \<and>
     \<not> (ucast (nd_block_count node) > g_active_file_max_blocks s \<or> ucast (nd_snapshot_block_count node) > g_active_file_max_blocks s \<or>
        nd_size node > g_active_max_file_bytes s \<or> nd_snapshot_size node > g_active_max_file_bytes s)"

definition validate_disk :: "('d, 'h) mfs_system \<Rightarrow> u64 \<Rightarrow> xaios_status \<times> ('d, 'h) mfs_system" where
  "validate_disk s expected_checksum =
     (let m = g_mfs s
      in if take MFS_MAGIC_LEN (mfs_magic m) \<noteq> take MFS_MAGIC_LEN MFS_MAGIC \<or> mfs_version m \<noteq> g_active_version s \<or>
            ucast (mfs_sector_size m) \<noteq> MFS_SECTOR_SIZE \<or> mfs_metadata_sectors m \<noteq> g_active_metadata_sectors s \<or>
            mfs_max_nodes m \<noteq> g_active_max_nodes s \<or> mfs_start_sector m \<noteq> MFS_START_SECTOR \<or>
            mfs_journal_header_sector m \<noteq> MFS_JOURNAL_HEADER_SECTOR \<or> mfs_journal_data_sector m \<noteq> MFS_JOURNAL_DATA_SECTOR \<or>
            mfs_data_start_sector m \<noteq> MFS_DATA_START_SECTOR \<or> mfs_data_sectors m \<noteq> ucast (g_active_data_sectors s)
         then (XAIOS_ERR_INVALID, s)
         else if mfs_stored_checksum m \<noteq> expected_checksum then (XAIOS_ERR_INVALID, bump g_checksum_error_count_update s)
         else if \<exists>node \<in> set (active_nodes s). \<not> node_ok s node then (XAIOS_ERR_INVALID, s)
         else (XAIOS_OK, s))"

definition format_volume :: "('d, 'h) block_driver \<Rightarrow> ('d, 'h) mfs_system \<Rightarrow> xaios_status \<times> ('d, 'h) mfs_system" where
  "format_volume ops s =
     (let s1 = bump g_format_count_update (s\<lparr>g_mfs :=
          \<lparr>mfs_magic = take MFS_MAGIC_LEN MFS_MAGIC, mfs_version = g_active_version s, mfs_sector_size = ucast MFS_SECTOR_SIZE,
           mfs_metadata_sectors = g_active_metadata_sectors s, mfs_max_nodes = g_active_max_nodes s, mfs_start_sector = MFS_START_SECTOR,
           mfs_journal_header_sector = MFS_JOURNAL_HEADER_SECTOR, mfs_journal_data_sector = MFS_JOURNAL_DATA_SECTOR,
           mfs_data_start_sector = MFS_DATA_START_SECTOR, mfs_data_sectors = ucast (g_active_data_sectors s), mfs_generation = 1,
           mfs_committed_generation = 0, mfs_stored_checksum = 0, block_bitmap = replicate 256 0, mfs_nodes = replicate 64 zero_node\<rparr>\<rparr>);
         (st, s2) = clear_journal ops s1
      in if st \<noteq> XAIOS_OK then (XAIOS_ERR_IO, s2) else write_metadata ops s2)"

definition parent_exists_for :: "('d, 'h) mfs_system \<Rightarrow> string \<Rightarrow> bool" where
  "parent_exists_for s path =
     (let parent = parent_path_of path
      in if str_eq parent ''/'' then True
         else case find_node s parent False of
                None \<Rightarrow> False
              | Some i \<Rightarrow> nd_active (inode_at s i) \<noteq> 0 \<and> nd_type (inode_at s i) = MFS_NODE_DIR)"

text \<open>Turning node \<open>i\<close> into an active directory and writing the metadata.\<close>

definition make_dir :: "('d, 'h) block_driver \<Rightarrow> ('d, 'h) mfs_system \<Rightarrow> nat \<Rightarrow> string \<Rightarrow> xaios_status \<times> ('d, 'h) mfs_system" where
  "make_dir ops s i path =
     (let n0 = (if nd_snapshot_active (inode_at s i) = 0 then zero_node else inode_at s i);
          n1 = n0\<lparr>nd_active := 1, nd_type := MFS_NODE_DIR, nd_size := 0, nd_content_hash := 0, nd_generation := mfs_generation (g_mfs s),
                  nd_block_count := 0, nd_blocks := replicate 16 0, nd_path := copy_path (nd_path n0) path\<rparr>
      in write_metadata ops (bump g_directory_count_update (next_generation (put_inode s i n1))))"

definition create_dir :: "('d, 'h) block_driver \<Rightarrow> ('d, 'h) mfs_system \<Rightarrow> cstr \<Rightarrow> xaios_status \<times> ('d, 'h) mfs_system" where
  "create_dir ops s path =
     (if \<not> writable_mount s \<or> validate_path path \<noteq> XAIOS_OK \<or> \<not> parent_exists_for s (the path) then (XAIOS_ERR_INVALID, rejected s)
      else case find_node s (the path) True of
             Some i \<Rightarrow>
               if nd_active (inode_at s i) \<noteq> 0
               then (if nd_type (inode_at s i) = MFS_NODE_DIR then XAIOS_OK else XAIOS_ERR_INVALID, s)
               else make_dir ops s i (the path)
           | None \<Rightarrow>
               (case find_free_node s of
                  None \<Rightarrow> (XAIOS_ERR_NO_MEMORY, rejected s)
                | Some i \<Rightarrow> make_dir ops s i (the path)))"

text \<open>Storing the new contents in node \<open>i\<close>: the old blocks are freed, the node points to the new ones.\<close>

definition store_file ::
  "('d, 'h) block_driver \<Rightarrow> ('d, 'h) mfs_system \<Rightarrow> nat \<Rightarrow> string \<Rightarrow> u16 \<Rightarrow> u16 list \<Rightarrow> u8 list \<Rightarrow> u64 \<Rightarrow> xaios_status \<times> ('d, 'h) mfs_system" where
  "store_file ops s i path new_count new_blocks data sz =
     (let n = inode_at s i;
          s1 = (if nd_active n \<noteq> 0 \<and> nd_type n = MFS_NODE_FILE then free_blocks s (nd_block_count n) (nd_blocks n) else s);
          s2 = put_inode s1 i (n\<lparr>nd_active := 1, nd_type := MFS_NODE_FILE, nd_size := sz, nd_content_hash := fnv1a64 data,
                 nd_generation := mfs_generation (g_mfs s1), nd_block_count := new_count, nd_path := copy_path (nd_path n) path,
                 nd_blocks := new_blocks\<rparr>);
          s3 = next_generation s2;
          s4 = (if new_count > 1 then bump g_multi_sector_file_count_update s3 else s3)
      in write_metadata ops (bump g_write_count_update s4))"

definition write_file ::
  "('d, 'h) block_driver \<Rightarrow> ('d, 'h) mfs_system \<Rightarrow> cstr \<Rightarrow> u8 list option \<Rightarrow> u64 \<Rightarrow> xaios_status \<times> ('d, 'h) mfs_system" where
  "write_file ops s path data sz =
     (if \<not> writable_mount s \<or> validate_path path \<noteq> XAIOS_OK \<or> \<not> parent_exists_for s (the path) \<or>
         (data = None \<and> sz \<noteq> 0) \<or> sz > g_active_max_file_bytes s
      then (XAIOS_ERR_INVALID, rejected s)
      else let bytes = (case data of None \<Rightarrow> [] | Some d \<Rightarrow> take (unat sz) d);
               new_count = block_count_for_size sz;
               (st, new_blocks, s1) = allocate_blocks s new_count
      in if st \<noteq> XAIOS_OK then (XAIOS_ERR_NO_MEMORY, s1)
         else let (st2, s2) = write_blocks ops s1 new_blocks new_count bytes sz
         in if st2 \<noteq> XAIOS_OK then (XAIOS_ERR_IO, free_blocks s2 new_count new_blocks)
            else case find_node s2 (the path) True of
                   Some i \<Rightarrow>
                     if nd_active (inode_at s2 i) \<noteq> 0 \<and> nd_type (inode_at s2 i) \<noteq> MFS_NODE_FILE
                     then (XAIOS_ERR_INVALID, rejected (free_blocks s2 new_count new_blocks))
                     else store_file ops s2 i (the path) new_count new_blocks bytes sz
                 | None \<Rightarrow>
                     (case find_free_node s2 of
                        None \<Rightarrow> (XAIOS_ERR_NO_MEMORY, rejected (free_blocks s2 new_count new_blocks))
                      | Some i \<Rightarrow> store_file ops s2 i (the path) new_count new_blocks bytes sz))"

text \<open>
  The result carries the buffer after the call and the value stored in \<^verbatim>\<open>*out_size\<close>, \<open>None\<close> when it is not written;
  \<open>out_ptr\<close> tells whether that pointer is non-null.
\<close>

definition read_file ::
  "('d, 'h) block_driver \<Rightarrow> ('d, 'h) mfs_system \<Rightarrow> cstr \<Rightarrow> u8 list option \<Rightarrow> u64 \<Rightarrow> bool \<Rightarrow>
   xaios_status \<times> u8 list option \<times> u64 option \<times> ('d, 'h) mfs_system" where
  "read_file ops s path buffer buffer_size out_ptr =
     (if g_mounted s = 0 \<or> validate_path path \<noteq> XAIOS_OK \<or> buffer = None \<or> \<not> out_ptr
      then (XAIOS_ERR_INVALID, buffer, None, rejected s)
      else case find_node s (the path) False of
             None \<Rightarrow> (XAIOS_ERR_NOT_FOUND, buffer, None, rejected s)
           | Some i \<Rightarrow>
               let n = inode_at s i
               in if nd_active n = 0 \<or> nd_type n \<noteq> MFS_NODE_FILE \<or> nd_size n > buffer_size
                  then (XAIOS_ERR_NOT_FOUND, buffer, None, rejected s)
                  else let (st, buf, s1) = read_blocks ops s (nd_blocks n) (nd_block_count n) (the buffer) (nd_size n)
                       in if st \<noteq> XAIOS_OK then (XAIOS_ERR_IO, Some buf, None, s1)
                          else if fnv1a64 (take (unat (nd_size n)) buf) \<noteq> nd_content_hash n
                          then (XAIOS_ERR_INVALID, Some buf, None, rejected (bump g_checksum_error_count_update s1))
                          else (XAIOS_OK, Some buf, Some (nd_size n), bump g_read_count_update s1))"

definition has_active_children :: "('d, 'h) mfs_system \<Rightarrow> string \<Rightarrow> bool" where
  "has_active_children s path \<longleftrightarrow>
     (\<exists>n \<in> set (active_nodes s). nd_active n \<noteq> 0 \<and> \<not> str_eq (node_path n) path \<and>
        take (length path) (node_path n) = path \<and> take 1 (drop (length path) (node_path n)) = ''/'')"

definition delete_node :: "('d, 'h) block_driver \<Rightarrow> ('d, 'h) mfs_system \<Rightarrow> cstr \<Rightarrow> xaios_status \<times> ('d, 'h) mfs_system" where
  "delete_node ops s path =
     (if \<not> writable_mount s \<or> validate_path path \<noteq> XAIOS_OK then (XAIOS_ERR_INVALID, rejected s)
      else case find_node s (the path) False of
             None \<Rightarrow> (XAIOS_ERR_NOT_FOUND, rejected s)
           | Some i \<Rightarrow>
               let n = inode_at s i
               in if nd_active n = 0 then (XAIOS_ERR_NOT_FOUND, rejected s)
                  else if nd_type n = MFS_NODE_DIR \<and> has_active_children s (the path) then (XAIOS_ERR_BUSY, rejected s)
                  else let s1 = (if nd_type n = MFS_NODE_FILE then free_blocks s (nd_block_count n) (nd_blocks n) else s);
                           n1 = (if nd_type n = MFS_NODE_FILE then n\<lparr>nd_block_count := 0\<rparr> else n);
                           s2 = put_inode s1 i (n1\<lparr>nd_active := 0, nd_generation := mfs_generation (g_mfs s1)\<rparr>)
                       in write_metadata ops (bump g_delete_count_update (next_generation s2)))"

definition rename_node :: "('d, 'h) block_driver \<Rightarrow> ('d, 'h) mfs_system \<Rightarrow> cstr \<Rightarrow> cstr \<Rightarrow> xaios_status \<times> ('d, 'h) mfs_system" where
  "rename_node ops s old_path new_path =
     (if \<not> writable_mount s \<or> normalize_path old_path = None \<or> normalize_path new_path = None \<or>
         \<not> parent_exists_for s (the (normalize_path new_path))
      then (XAIOS_ERR_INVALID, rejected s)
      else let old = the (normalize_path old_path); new = the (normalize_path new_path)
      in case find_node s old False of
           None \<Rightarrow> (XAIOS_ERR_NOT_FOUND, rejected s)
         | Some i \<Rightarrow>
             let n = inode_at s i
             in if nd_active n = 0 then (XAIOS_ERR_NOT_FOUND, rejected s)
                else if find_node s new False \<noteq> None then (XAIOS_ERR_BUSY, rejected s)
                else if nd_type n = MFS_NODE_DIR \<and> has_active_children s old then (XAIOS_ERR_BUSY, rejected s)
                else let s1 = put_inode s i (n\<lparr>nd_path := copy_path (nd_path n) new, nd_generation := mfs_generation (g_mfs s)\<rparr>)
                     in write_metadata ops (bump g_rename_count_update (next_generation s1)))"

definition stat_node ::
  "('d, 'h) mfs_system \<Rightarrow> cstr \<Rightarrow> bool \<Rightarrow> xaios_status \<times> xaios_mfs_stat option \<times> ('d, 'h) mfs_system" where
  "stat_node s path stat_ptr =
     (if \<not> stat_ptr \<or> normalize_path path = None then (XAIOS_ERR_INVALID, None, rejected s)
      else case find_node s (the (normalize_path path)) True of
             None \<Rightarrow> (XAIOS_ERR_NOT_FOUND, None, rejected s)
           | Some i \<Rightarrow>
               let n = inode_at s i
               in if \<not> node_is_visible (Some n) then (XAIOS_ERR_NOT_FOUND, None, rejected s)
                  else (XAIOS_OK, Some \<lparr>st_type = nd_type n, st_block_count = ucast (nd_block_count n), st_size = nd_size n,
                          st_generation = nd_generation n, st_content_hash = nd_content_hash n\<rparr>, bump g_stat_count_update s))"

fun list_loop :: "nat \<Rightarrow> string \<Rightarrow> xaios_mfs_node list \<Rightarrow> string \<Rightarrow> xaios_status \<times> string" where
  "list_loop capacity dir [] text = (XAIOS_OK, text)"
| "list_loop capacity dir (n # ns) text =
     (if \<not> node_is_visible (Some n) \<or> str_eq (node_path n) dir \<or> direct_child_of dir (node_path n) = None
      then list_loop capacity dir ns text
      else let (st, text1) = append_cstr capacity text (direct_child_of dir (node_path n));
               (st2, text2) = (if st = XAIOS_OK then append_char capacity text1 (CHR 0x0A) else (st, text1))
           in if st2 \<noteq> XAIOS_OK then (st2, text2) else list_loop capacity dir ns text2)"

text \<open>The listing is the text in the buffer; \<open>None\<close> for an untouched buffer.\<close>

definition list_dir ::
  "('d, 'h) mfs_system \<Rightarrow> cstr \<Rightarrow> bool \<Rightarrow> u64 \<Rightarrow> bool \<Rightarrow> xaios_status \<times> string option \<times> u64 option \<times> ('d, 'h) mfs_system" where
  "list_dir s path buffer_ptr buffer_size out_ptr =
     (if \<not> buffer_ptr \<or> \<not> out_ptr \<or> buffer_size = 0 \<or> normalize_path path = None then (XAIOS_ERR_INVALID, None, None, rejected s)
      else let dir = the (normalize_path path);
               found = find_node s dir True;
               is_dir = (case found of None \<Rightarrow> False | Some i \<Rightarrow> node_is_visible (Some (inode_at s i)) \<and> nd_type (inode_at s i) = MFS_NODE_DIR)
      in if \<not> is_dir \<and> \<not> str_eq dir ''/'' then (XAIOS_ERR_NOT_FOUND, None, None, rejected s)
         else let (st, text) = list_loop (unat buffer_size) dir (active_nodes s) []
         in if st \<noteq> XAIOS_OK then (st, Some text, Some (of_nat (length text)), rejected s)
            else if str_eq dir ''/'' \<and> text = [] then (XAIOS_ERR_NOT_FOUND, Some text, None, rejected s)
            else (XAIOS_OK, Some text, Some (of_nat (length text)), bump g_list_count_update s))"

section \<open>Snapshots\<close>

definition clear_snapshot :: "xaios_mfs_node \<Rightarrow> xaios_mfs_node" where
  "clear_snapshot n = n\<lparr>nd_snapshot_active := 0, nd_snapshot_type := MFS_NODE_FREE, nd_snapshot_size := 0, nd_snapshot_hash := 0,
     nd_snapshot_generation := 0, nd_snapshot_block_count := 0, nd_snapshot_blocks := replicate 16 0\<rparr>"

text \<open>Copying the contents of node \<open>i\<close> to newly allocated snapshot blocks.\<close>

definition copy_to_snapshot ::
  "('d, 'h) block_driver \<Rightarrow> ('d, 'h) mfs_system \<Rightarrow> nat \<Rightarrow> xaios_status \<times> ('d, 'h) mfs_system" where
  "copy_to_snapshot ops s i =
     (let n = inode_at s i;
          (st, buf, s1) = read_blocks ops s (nd_blocks n) (nd_block_count n) (replicate 8192 0) (nd_size n)
      in if st \<noteq> XAIOS_OK then (XAIOS_ERR_IO, s1)
         else let (st2, blocks, s2) = allocate_blocks s1 (nd_block_count n)
         in if st2 \<noteq> XAIOS_OK then (XAIOS_ERR_NO_MEMORY, s2)
            else let (st3, s3) = write_blocks ops s2 blocks (nd_block_count n) buf (nd_size n)
            in if st3 \<noteq> XAIOS_OK then (XAIOS_ERR_IO, free_blocks s3 (nd_block_count n) blocks)
               else (XAIOS_OK, put_inode s3 i (n\<lparr>nd_snapshot_block_count := nd_block_count n, nd_snapshot_blocks := blocks\<rparr>)))"

definition commit_node :: "('d, 'h) block_driver \<Rightarrow> ('d, 'h) mfs_system \<Rightarrow> nat \<Rightarrow> xaios_status \<times> ('d, 'h) mfs_system" where
  "commit_node ops s i =
     (let n = inode_at s i;
          s1 = (if nd_snapshot_active n \<noteq> 0 \<and> nd_snapshot_type n = MFS_NODE_FILE
                then free_blocks s (nd_snapshot_block_count n) (nd_snapshot_blocks n) else s);
          n1 = clear_snapshot n
      in if nd_active n = 0 then (XAIOS_OK, put_inode s1 i n1)
         else let n2 = n1\<lparr>nd_snapshot_active := 1, nd_snapshot_type := nd_type n, nd_snapshot_size := nd_size n,
                          nd_snapshot_hash := nd_content_hash n, nd_snapshot_generation := nd_generation n\<rparr>;
                  s2 = put_inode s1 i n2
              in if nd_type n = MFS_NODE_FILE then copy_to_snapshot ops s2 i else (XAIOS_OK, s2))"

fun commit_loop :: "('d, 'h) block_driver \<Rightarrow> nat list \<Rightarrow> ('d, 'h) mfs_system \<Rightarrow> xaios_status \<times> ('d, 'h) mfs_system" where
  "commit_loop ops [] s = (XAIOS_OK, s)"
| "commit_loop ops (i # is) s =
     (let (st, s1) = commit_node ops s i in if st \<noteq> XAIOS_OK then (st, s1) else commit_loop ops is s1)"

definition commit_snapshot :: "('d, 'h) block_driver \<Rightarrow> ('d, 'h) mfs_system \<Rightarrow> xaios_status \<times> ('d, 'h) mfs_system" where
  "commit_snapshot ops s =
     (if \<not> writable_mount s then (XAIOS_ERR_INVALID, rejected s)
      else let (st, s1) = commit_loop ops [0 ..< unat (g_active_max_nodes s)] s
           in if st \<noteq> XAIOS_OK then (st, s1)
              else let s2 = s1\<lparr>g_mfs := (g_mfs s1)\<lparr>mfs_committed_generation := mfs_generation (g_mfs s1)\<rparr>\<rparr>
                   in write_metadata ops (bump g_commit_count_update s2))"

definition restore_snapshot_node ::
  "('d, 'h) block_driver \<Rightarrow> ('d, 'h) mfs_system \<Rightarrow> nat \<Rightarrow> xaios_status \<times> ('d, 'h) mfs_system" where
  "restore_snapshot_node ops s i =
     (let n = inode_at s i
      in if nd_snapshot_active n = 0 then (XAIOS_OK, s)
         else let s1 = (if nd_active n \<noteq> 0 \<and> nd_type n = MFS_NODE_FILE then free_blocks s (nd_block_count n) (nd_blocks n) else s);
                  n1 = n\<lparr>nd_active := 1, nd_type := nd_snapshot_type n, nd_size := nd_snapshot_size n,
                         nd_content_hash := nd_snapshot_hash n, nd_generation := nd_snapshot_generation n,
                         nd_block_count := 0, nd_blocks := replicate 16 0\<rparr>;
                  s2 = put_inode s1 i n1
              in if nd_snapshot_type n \<noteq> MFS_NODE_FILE then (XAIOS_OK, s2)
                 else let (st, buf, s3) = read_blocks ops s2 (nd_snapshot_blocks n) (nd_snapshot_block_count n) (replicate 8192 0) (nd_snapshot_size n)
                 in if st \<noteq> XAIOS_OK then (XAIOS_ERR_IO, s3)
                    else let (st2, blocks, s4) = allocate_blocks s3 (nd_snapshot_block_count n)
                    in if st2 \<noteq> XAIOS_OK then (XAIOS_ERR_NO_MEMORY, s4)
                       else let (st3, s5) = write_blocks ops s4 blocks (nd_snapshot_block_count n) buf (nd_snapshot_size n)
                       in if st3 \<noteq> XAIOS_OK then (XAIOS_ERR_IO, free_blocks s5 (nd_snapshot_block_count n) blocks)
                          else (XAIOS_OK, put_inode s5 i (n1\<lparr>nd_block_count := nd_snapshot_block_count n, nd_blocks := blocks\<rparr>)))"

text \<open>Dropping the nodes created after the commit.\<close>

definition drop_new_node :: "('d, 'h) mfs_system \<Rightarrow> nat \<Rightarrow> ('d, 'h) mfs_system" where
  "drop_new_node s i =
     (let n = inode_at s i
      in if nd_snapshot_active n = 0 \<and> nd_active n \<noteq> 0 \<and> nd_generation n \<ge> mfs_committed_generation (g_mfs s)
         then let s1 = (if nd_type n = MFS_NODE_FILE then free_blocks s (nd_block_count n) (nd_blocks n) else s)
              in put_inode s1 i (n\<lparr>nd_active := 0, nd_block_count := 0, nd_blocks := replicate 16 0\<rparr>)
         else s)"

fun restore_loop :: "('d, 'h) block_driver \<Rightarrow> u32 \<Rightarrow> nat list \<Rightarrow> ('d, 'h) mfs_system \<Rightarrow> xaios_status \<times> ('d, 'h) mfs_system" where
  "restore_loop ops type [] s = (XAIOS_OK, s)"
| "restore_loop ops type (i # is) s =
     (let n = inode_at s i
      in if nd_snapshot_active n \<noteq> 0 \<and> nd_snapshot_type n = type
         then let (st, s1) = restore_snapshot_node ops s i in if st \<noteq> XAIOS_OK then (XAIOS_ERR_IO, s1) else restore_loop ops type is s1
         else restore_loop ops type is s)"

definition rollback_snapshot :: "('d, 'h) block_driver \<Rightarrow> ('d, 'h) mfs_system \<Rightarrow> xaios_status \<times> ('d, 'h) mfs_system" where
  "rollback_snapshot ops s =
     (if \<not> writable_mount s then (XAIOS_ERR_INVALID, rejected s)
      else let idx = [0 ..< unat (g_active_max_nodes s)];
               s1 = foldl drop_new_node s idx;
               (st, s2) = restore_loop ops MFS_NODE_DIR idx s1
           in if st \<noteq> XAIOS_OK then (st, s2)
              else let (st2, s3) = restore_loop ops MFS_NODE_FILE idx s2
                   in if st2 \<noteq> XAIOS_OK then (st2, s3)
                      else write_metadata ops (bump g_rollback_count_update (next_generation s3)))"

section \<open>Mounting\<close>

definition replay_journal :: "('d, 'h) block_driver \<Rightarrow> ('d, 'h) mfs_system \<Rightarrow> xaios_status \<times> ('d, 'h) mfs_system" where
  "replay_journal ops s =
     (case read_journal ops s of
        None \<Rightarrow> (XAIOS_ERR_IO, rejected s)
      | Some j \<Rightarrow>
          if take MFS_MAGIC_LEN (jr_magic j) \<noteq> take MFS_MAGIC_LEN MFS_JOURNAL_MAGIC \<or> jr_state j = MFS_JOURNAL_EMPTY then (XAIOS_OK, s)
          else if jr_version j \<noteq> MFS_JOURNAL_VERSION \<or> jr_state j \<noteq> MFS_JOURNAL_PENDING \<or> jr_op j \<noteq> MFS_JOURNAL_OP_WRITE_FILE \<or>
                  jr_size j = 0 \<or> jr_size j > MFS_SECTOR_SIZE \<or> journal_checksum j \<noteq> jr_checksum j \<or>
                  validate_path (Some (cstr_of (jr_path j))) \<noteq> XAIOS_OK
          then clear_journal ops (rejected (bump g_checksum_error_count_update s))
          else (case blk_read ops s MFS_JOURNAL_DATA_SECTOR of
                 None \<Rightarrow> (XAIOS_ERR_IO, rejected s)
               | Some sector \<Rightarrow>
                   if fnv1a64 (take (unat (jr_size j)) sector) \<noteq> jr_content_hash j
                   then clear_journal ops (rejected (bump g_checksum_error_count_update s))
                   else let (st, s1) = write_file ops s (Some (cstr_of (jr_path j))) (Some sector) (jr_size j)
                        in if st \<noteq> XAIOS_OK then (XAIOS_ERR_IO, s1)
                           else let (st2, s2) = clear_journal ops s1
                                in if st2 \<noteq> XAIOS_OK then (XAIOS_ERR_IO, s2) else (XAIOS_OK, bump g_replay_count_update s2)))"

text \<open>Loading the metadata if it is valid, formatting otherwise.\<close>

definition load_or_format :: "('d, 'h) block_driver \<Rightarrow> ('d, 'h) mfs_system \<Rightarrow> xaios_status \<times> ('d, 'h) mfs_system" where
  "load_or_format ops s =
     (let (st, s1) = validate_disk s (g_metadata_verified_checksum s)
      in if st = XAIOS_OK \<and> mfs_stored_checksum (g_mfs s) = g_metadata_verified_checksum s
         then (XAIOS_OK, bump g_boot_load_count_update s1)
         else let (st2, s2) = format_volume ops s1 in if st2 \<noteq> XAIOS_OK then (XAIOS_ERR_IO, s2) else (XAIOS_OK, s2))"

definition mount_volume :: "('d, 'h) block_driver \<Rightarrow> ('d, 'h) mfs_system \<Rightarrow> u32 \<Rightarrow> xaios_status \<times> ('d, 'h) mfs_system" where
  "mount_volume ops s0 mount_flags =
     (let s = set_active_v2 s0
      in if blk_capacity ops s < MFS_DATA_START_SECTOR + ucast (g_active_data_sectors s) then (XAIOS_ERR_IO, rejected s)
         else let (st, s1) = read_metadata ops (s\<lparr>g_mount_flags := mount_flags\<rparr>)
         in if st \<noteq> XAIOS_OK then (XAIOS_ERR_IO, rejected s1)
            else let (st2, s2) = load_or_format ops s1
            in if st2 \<noteq> XAIOS_OK then (XAIOS_ERR_IO, s2)
               else let (st3, s3) = replay_journal ops (bump g_mount_count_update (s2\<lparr>g_mounted := 1\<rparr>))
               in if st3 \<noteq> XAIOS_OK then (XAIOS_ERR_IO, s3)
                  else if g_mount_flags s3 AND MFS_MOUNT_READ_WRITE = 0 then (XAIOS_OK, s3)
                  else case find_node s3 ''/'' True of
                         None \<Rightarrow> let (st4, s4) = create_dir ops s3 (Some ''/'') in if st4 \<noteq> XAIOS_OK then (XAIOS_ERR_IO, s4) else (XAIOS_OK, s4)
                       | Some i \<Rightarrow>
                           if nd_active (inode_at s3 i) = 0
                           then let (st4, s4) = restore_snapshot_node ops s3 i in if st4 \<noteq> XAIOS_OK then (XAIOS_ERR_IO, s4) else (XAIOS_OK, s4)
                           else if nd_type (inode_at s3 i) \<noteq> MFS_NODE_DIR then (XAIOS_ERR_INVALID, rejected s3)
                           else (XAIOS_OK, s3))"

definition drop_persistent :: "('d, 'h) block_driver \<Rightarrow> ('d, 'h) mfs_system \<Rightarrow> 'h \<Rightarrow> ('d, 'h) mfs_system" where
  "drop_persistent ops s h = (let s1 = set_active_v2 (s\<lparr>g_persistent_handle := None\<rparr>) in s1\<lparr>fs_disk := virtio_block_close ops (fs_disk s1) h\<rparr>)"

definition mutable_fs_mount_persistent ::
  "('d, 'h) block_driver \<Rightarrow> ('d, 'h) mfs_system \<Rightarrow> u32 \<Rightarrow> xaios_status \<times> ('d, 'h) mfs_system" where
  "mutable_fs_mount_persistent ops s slot =
     (let (st, h, d) = virtio_block_open_slot ops (fs_disk s) slot; s0 = s\<lparr>fs_disk := d\<rparr>
      in if st \<noteq> XAIOS_OK then (st, s0)
         else if virtio_block_capacity_sectors_h ops d h < MFS_DATA_START_SECTOR + ucast MFS_V3_DATA_SECTORS
         then (XAIOS_ERR_IO, s0\<lparr>fs_disk := virtio_block_close ops d h\<rparr>)
         else let (st1, s1) = read_metadata ops ((set_active_v3 (s0\<lparr>g_persistent_handle := Some h\<rparr>))\<lparr>g_mounted := 0, g_mount_flags := 0\<rparr>)
         in if st1 \<noteq> XAIOS_OK then (XAIOS_ERR_IO, drop_persistent ops s1 h)
            else let (st2, s2) = load_or_format ops s1
            in if st2 \<noteq> XAIOS_OK then (XAIOS_ERR_IO, drop_persistent ops s2 h)
               else let (st3, s3) = replay_journal ops (bump g_persistent_mount_count_update (bump g_mount_count_update
                          (s2\<lparr>g_mounted := 1, g_mount_flags := MFS_MOUNT_READ_WRITE\<rparr>)))
               in if st3 \<noteq> XAIOS_OK then (XAIOS_ERR_IO, drop_persistent ops s3 h)
                  else case find_node s3 ''/'' True of
                         Some i \<Rightarrow> (XAIOS_OK, s3)
                       | None \<Rightarrow> let (st4, s4) = create_dir ops s3 (Some ''/'')
                                 in if st4 \<noteq> XAIOS_OK then (XAIOS_ERR_IO, drop_persistent ops s4 h) else (XAIOS_OK, s4))"

definition write_pending_journal_file ::
  "('d, 'h) block_driver \<Rightarrow> ('d, 'h) mfs_system \<Rightarrow> cstr \<Rightarrow> u8 list option \<Rightarrow> u64 \<Rightarrow> xaios_status \<times> ('d, 'h) mfs_system" where
  "write_pending_journal_file ops s path data sz =
     (if validate_path path \<noteq> XAIOS_OK \<or> data = None \<or> sz = 0 \<or> sz > MFS_SECTOR_SIZE then (XAIOS_ERR_INVALID, rejected s)
      else let bytes = take (unat sz) (the data);
               (st, s1) = blk_write ops s MFS_JOURNAL_DATA_SECTOR (write_at 0 bytes (replicate 512 0))
           in if st \<noteq> XAIOS_OK then (XAIOS_ERR_IO, rejected s1)
              else write_journal ops s1
                     \<lparr>jr_magic = take MFS_MAGIC_LEN MFS_JOURNAL_MAGIC, jr_version = MFS_JOURNAL_VERSION, jr_state = MFS_JOURNAL_PENDING,
                      jr_op = MFS_JOURNAL_OP_WRITE_FILE, jr_reserved = 0, jr_size = sz, jr_content_hash = fnv1a64 bytes, jr_checksum = 0,
                      jr_path = copy_path (replicate MFS_PATH_MAX (CHR 0x00)) (the path), jr_padding = replicate 368 0\<rparr>)"

definition fsck_referenced :: "('d, 'h) mfs_system \<Rightarrow> nat \<Rightarrow> bool" where
  "fsck_referenced s i \<longleftrightarrow> (\<exists>n \<in> set (active_nodes s). nd_active n \<noteq> 0 \<and> nd_type n = MFS_NODE_FILE \<and>
     (\<exists>b \<in> set (take (unat (nd_block_count n)) (nd_blocks n)). unat b = i))"

definition mutable_fs_fsck :: "('d, 'h) mfs_system \<Rightarrow> xaios_mfs_fsck_result" where
  "mutable_fs_fsck s =
     (let errors = length (filter (\<lambda>i. (block_bitmap (g_mfs s) ! i \<noteq> 0) \<noteq> fsck_referenced s i) [0 ..< unat (g_active_data_sectors s)])
      in \<lparr>fk_valid = (if errors = 0 then 1 else 0), fk_version = g_active_version s, fk_files = node_count_by_type s MFS_NODE_FILE,
          fk_directories = node_count_by_type s MFS_NODE_DIR, fk_blocks_used = block_count_used s, fk_errors = of_nat errors\<rparr>)"

end
