(* ===== verification/Mfs_Api.thy ===== *)
theory Mfs_Api
  imports Mfs_Ops
begin

text \<open>
  \<^verbatim>\<open>kernel/fs/mutable_fs.c\<close>, fourth part: the state records other subsystems store as files, and the interface with
  file descriptors. An \<^verbatim>\<open>int64_t\<close> result is \<open>Inl\<close> of an error status or \<open>Inr\<close> of the non-negative value. The functions
  \<^verbatim>\<open>mutable_fs_mkdir\<close>, \<^verbatim>\<open>mutable_fs_write\<close> and so on only forward to the operations of \<open>Mfs_Ops\<close> and need no definitions
  of their own; the counter functions are the fields of \<open>mfs_counters\<close>.
\<close>

section \<open>State records\<close>

text \<open>A chain of appends, which stops at the first that fails.\<close>

type_synonym text_part = "nat \<Rightarrow> string \<Rightarrow> xaios_status \<times> string"

abbreviation cstr_part :: "cstr \<Rightarrow> text_part" where
  "cstr_part v \<equiv> (\<lambda>capacity text. append_cstr capacity text v)"

abbreviation u32_part :: "u32 \<Rightarrow> text_part" where
  "u32_part v \<equiv> (\<lambda>capacity text. append_u32 capacity text v)"

abbreviation newline_part :: text_part where
  "newline_part \<equiv> (\<lambda>capacity text. append_char capacity text (CHR 0x0A))"

fun append_parts :: "nat \<Rightarrow> text_part list \<Rightarrow> string \<Rightarrow> xaios_status \<times> string" where
  "append_parts capacity [] text = (XAIOS_OK, text)"
| "append_parts capacity (f # fs) text =
     (let (st, text1) = f capacity text in if st \<noteq> XAIOS_OK then (st, text1) else append_parts capacity fs text1)"

text \<open>The record is written with its terminating NUL.\<close>

definition write_record ::
  "('d, 'h) block_driver \<Rightarrow> ('d, 'h) mfs_system \<Rightarrow> string \<Rightarrow> string \<Rightarrow> xaios_status \<times> ('d, 'h) mfs_system" where
  "write_record ops s path record_text =
     (let (st, s1) = write_file ops s (Some path) (Some (char_bytes record_text @ [0])) (of_nat (length record_text) + 1)
      in (st, if st = XAIOS_OK then bump g_state_record_count_update s1 else s1))"

definition mutable_fs_record_service_state ::
  "('d, 'h) block_driver \<Rightarrow> ('d, 'h) mfs_system \<Rightarrow> cstr \<Rightarrow> cstr \<Rightarrow> xaios_status \<times> ('d, 'h) mfs_system" where
  "mutable_fs_record_service_state ops s name state =
     (let base = basename_of name
      in if base = None \<or> base = Some [] \<or> state = None then (XAIOS_ERR_INVALID, rejected s)
         else let (st, path) = append_parts MFS_PATH_MAX [cstr_part (Some ''/state/services/''), cstr_part base, cstr_part (Some ''.state'')] [];
                  (st2, rec) = append_parts 256 [cstr_part (Some ''service=''), cstr_part name, cstr_part (Some (CHR 0x0A # ''state='')),
                                 cstr_part state, newline_part] []
              in if st \<noteq> XAIOS_OK \<or> st2 \<noteq> XAIOS_OK then (XAIOS_ERR_INVALID, rejected s) else write_record ops s path rec)"

definition mutable_fs_record_workspace_state ::
  "('d, 'h) block_driver \<Rightarrow> ('d, 'h) mfs_system \<Rightarrow> u32 \<Rightarrow> cstr \<Rightarrow> xaios_status \<times> ('d, 'h) mfs_system" where
  "mutable_fs_record_workspace_state ops s workspace_id revision =
     (if revision = None then (XAIOS_ERR_INVALID, rejected s)
      else let (st, path) = append_parts MFS_PATH_MAX [cstr_part (Some ''/state/workspaces/workspace-''), u32_part workspace_id,
                              cstr_part (Some ''.state'')] [];
               (st2, rec) = append_parts 256 [cstr_part (Some ''workspace=''), u32_part workspace_id,
                              cstr_part (Some (CHR 0x0A # ''path=/repo/workspaces/source-index'' @ CHR 0x0A # ''revision='')),
                              cstr_part revision, newline_part] []
           in if st \<noteq> XAIOS_OK \<or> st2 \<noteq> XAIOS_OK then (XAIOS_ERR_INVALID, rejected s) else write_record ops s path rec)"

definition mutable_fs_record_update_state ::
  "('d, 'h) block_driver \<Rightarrow> ('d, 'h) mfs_system \<Rightarrow> cstr \<Rightarrow> xaios_status \<times> ('d, 'h) mfs_system" where
  "mutable_fs_record_update_state ops s policy =
     (let (st, rec) = append_parts 256 [cstr_part (Some ''policy=''), cstr_part policy,
                        cstr_part (Some (CHR 0x0A # ''rollback=enabled'' @ [CHR 0x0A]))] []
      in if policy = None \<or> st \<noteq> XAIOS_OK then (XAIOS_ERR_INVALID, rejected s)
         else write_record ops s ''/state/updates/update.state'' rec)"

definition mutable_fs_record_update_transaction ::
  "('d, 'h) block_driver \<Rightarrow> ('d, 'h) mfs_system \<Rightarrow> u32 \<Rightarrow> cstr \<Rightarrow> cstr \<Rightarrow> cstr \<Rightarrow> xaios_status \<times> ('d, 'h) mfs_system" where
  "mutable_fs_record_update_transaction ops s generation state target rollback_label =
     (let (st, rec) = append_parts 256 [cstr_part (Some (''policy=signed-update-required'' @ [CHR 0x0A])),
                        cstr_part (Some ''transaction_generation=''), u32_part generation, cstr_part (Some (CHR 0x0A # ''state='')),
                        cstr_part state, cstr_part (Some (CHR 0x0A # ''target='')), cstr_part target,
                        cstr_part (Some (CHR 0x0A # ''rollback='')), cstr_part rollback_label, newline_part] []
      in if state = None \<or> target = None \<or> rollback_label = None \<or> st \<noteq> XAIOS_OK then (XAIOS_ERR_INVALID, rejected s)
         else write_record ops s ''/state/updates/update.state'' rec)"

definition mutable_fs_record_admin_status ::
  "('d, 'h) block_driver \<Rightarrow> ('d, 'h) mfs_system \<Rightarrow> cstr \<Rightarrow> cstr \<Rightarrow> u32 \<Rightarrow> u32 \<Rightarrow> u32 \<Rightarrow> xaios_status \<times> ('d, 'h) mfs_system" where
  "mutable_fs_record_admin_status ops s service state starts restarts logs =
     (let (st, rec) = append_parts 256 [cstr_part (Some (''admin=ssh-only'' @ CHR 0x0A # ''service='')), cstr_part service,
                        cstr_part (Some (CHR 0x0A # ''state='')), cstr_part state, cstr_part (Some (CHR 0x0A # ''starts='')), u32_part starts,
                        cstr_part (Some (CHR 0x0A # ''restarts='')), u32_part restarts, cstr_part (Some (CHR 0x0A # ''logs='')), u32_part logs,
                        cstr_part (Some (CHR 0x0A # ''remote_safe=allowlist'' @ [CHR 0x0A]))] []
      in if service = None \<or> state = None \<or> st \<noteq> XAIOS_OK then (XAIOS_ERR_INVALID, rejected s)
         else write_record ops s ''/state/services/admin.state'' rec)"

section \<open>File descriptors\<close>

text \<open>The index of the handle of a descriptor in use.\<close>

definition handle_for_fd :: "('d, 'h) mfs_system \<Rightarrow> u32 \<Rightarrow> nat option" where
  "handle_for_fd s fd =
     (if fd = 0 \<or> fd > MFS_MAX_OPEN_FILES then None
      else if fh_in_use (g_open_files s ! unat (fd - 1)) \<noteq> 0 then Some (unat (fd - 1)) else None)"

definition put_handle :: "('d, 'h) mfs_system \<Rightarrow> nat \<Rightarrow> xaios_mfs_file_handle \<Rightarrow> ('d, 'h) mfs_system" where
  "put_handle s i f = s\<lparr>g_open_files := (g_open_files s)[i := f]\<rparr>"

definition claim_handle :: "('d, 'h) mfs_system \<Rightarrow> string \<Rightarrow> u32 \<Rightarrow> (xaios_status + u64) \<times> ('d, 'h) mfs_system" where
  "claim_handle s path flags =
     (case find_slot (\<lambda>f. fh_in_use f = 0) (take (unat MFS_MAX_OPEN_FILES) (g_open_files s)) of
        None \<Rightarrow> (Inl XAIOS_ERR_NO_MEMORY, rejected s)
      | Some i \<Rightarrow>
          let f = g_open_files s ! i
          in (Inr (of_nat i + 1), bump g_open_count_update (put_handle s i
               (f\<lparr>fh_in_use := 1, fh_flags := flags, fh_cursor := 0, fh_path := copy_path (fh_path f) path\<rparr>))))"

text \<open>Writing the file with no contents, to create or truncate it.\<close>

definition touch_file ::
  "('d, 'h) block_driver \<Rightarrow> ('d, 'h) mfs_system \<Rightarrow> string \<Rightarrow> bool \<Rightarrow> xaios_status \<times> ('d, 'h) mfs_system" where
  "touch_file ops s path needed = (if needed then write_file ops s (Some path) None 0 else (XAIOS_OK, s))"

definition mutable_fs_open :: "('d, 'h) block_driver \<Rightarrow> ('d, 'h) mfs_system \<Rightarrow> cstr \<Rightarrow> u32 \<Rightarrow> (xaios_status + u64) \<times> ('d, 'h) mfs_system" where
  "mutable_fs_open ops s path flags =
     (if normalize_path path = None \<or> flags AND (XAIOS_MFS_OPEN_READ OR XAIOS_MFS_OPEN_WRITE) = 0 \<or>
         flags AND NOT (XAIOS_MFS_OPEN_READ OR XAIOS_MFS_OPEN_WRITE OR XAIOS_MFS_OPEN_CREATE OR XAIOS_MFS_OPEN_TRUNCATE) \<noteq> 0
      then (Inl XAIOS_ERR_INVALID, rejected s)
      else let normalized = the (normalize_path path);
               found = find_node s normalized False;
               missing = (case found of None \<Rightarrow> True | Some i \<Rightarrow> nd_active (inode_at s i) = 0)
      in if missing \<and> flags AND XAIOS_MFS_OPEN_CREATE = 0 then (Inl XAIOS_ERR_NOT_FOUND, rejected s)
         else if missing \<and> (flags AND XAIOS_MFS_OPEN_WRITE = 0 \<or> \<not> parent_exists_for s normalized) then (Inl XAIOS_ERR_INVALID, rejected s)
         else if \<not> missing \<and> nd_type (inode_at s (the found)) \<noteq> MFS_NODE_FILE then (Inl XAIOS_ERR_INVALID, rejected s)
         else let create = (flags AND XAIOS_MFS_OPEN_CREATE \<noteq> 0 \<and> found = None);
                  (st, s1) = touch_file ops s normalized create;
                  found1 = (if create then find_node s1 normalized False else found);
                  active = (case found1 of None \<Rightarrow> False | Some i \<Rightarrow> nd_active (inode_at s1 i) \<noteq> 0)
         in if st \<noteq> XAIOS_OK then (Inl XAIOS_ERR_IO, s1)
            else let (st2, s2) = touch_file ops s1 normalized (flags AND XAIOS_MFS_OPEN_TRUNCATE \<noteq> 0 \<and> active)
            in if st2 \<noteq> XAIOS_OK then (Inl XAIOS_ERR_IO, s2) else claim_handle s2 normalized flags)"

text \<open>The second result is the caller's buffer after the call.\<close>

definition mutable_fs_read_fd ::
  "('d, 'h) block_driver \<Rightarrow> ('d, 'h) mfs_system \<Rightarrow> u32 \<Rightarrow> u8 list option \<Rightarrow> u64 \<Rightarrow> (xaios_status + u64) \<times> u8 list option \<times> ('d, 'h) mfs_system" where
  "mutable_fs_read_fd ops s fd buffer sz =
     (case handle_for_fd s fd of
        None \<Rightarrow> (Inl XAIOS_ERR_INVALID, buffer, rejected s)
      | Some i \<Rightarrow>
          let f = g_open_files s ! i
          in if buffer = None \<or> sz = 0 \<or> fh_flags f AND XAIOS_MFS_OPEN_READ = 0 then (Inl XAIOS_ERR_INVALID, buffer, rejected s)
             else let (st, file_buffer, file_size, s1) = read_file ops s (Some (cstr_of (fh_path f))) (Some (replicate 8192 0)) MFS_MAX_FILE_BYTES True
             in if st \<noteq> XAIOS_OK then (Inl XAIOS_ERR_IO, buffer, s1)
                else if fh_cursor f \<ge> the file_size then (Inr 0, buffer, s1)
                else let available = the file_size - fh_cursor f;
                         copy = (if available < sz then available else sz)
                     in (Inr copy, Some (write_at 0 (take (unat copy) (drop (unat (fh_cursor f)) (the file_buffer))) (the buffer)),
                         put_handle s1 i (f\<lparr>fh_cursor := fh_cursor f + copy\<rparr>)))"

definition mutable_fs_write_fd ::
  "('d, 'h) block_driver \<Rightarrow> ('d, 'h) mfs_system \<Rightarrow> u32 \<Rightarrow> u8 list option \<Rightarrow> u64 \<Rightarrow> (xaios_status + u64) \<times> ('d, 'h) mfs_system" where
  "mutable_fs_write_fd ops s fd buffer sz =
     (case handle_for_fd s fd of
        None \<Rightarrow> (Inl XAIOS_ERR_INVALID, rejected s)
      | Some i \<Rightarrow>
          let f = g_open_files s ! i; path = cstr_of (fh_path f)
          in if buffer = None \<or> sz = 0 \<or> fh_flags f AND XAIOS_MFS_OPEN_WRITE = 0 \<or> fh_cursor f > g_active_max_file_bytes s \<or>
                sz > g_active_max_file_bytes s - fh_cursor f
             then (Inl XAIOS_ERR_INVALID, rejected s)
             else let (st, file_buffer, file_size, s1) =
                        (if find_node s path False \<noteq> None then read_file ops s (Some path) (Some (replicate 8192 0)) MFS_MAX_FILE_BYTES True
                         else (XAIOS_OK, Some (replicate 8192 0), Some 0, s))
             in if st \<noteq> XAIOS_OK then (Inl XAIOS_ERR_IO, s1)
                else let new_size = (if fh_cursor f + sz < the file_size then the file_size else fh_cursor f + sz);
                         data = write_at (unat (fh_cursor f)) (take (unat sz) (the buffer)) (the file_buffer);
                         (st2, s2) = write_file ops s1 (Some path) (Some data) new_size
                in if st2 \<noteq> XAIOS_OK then (Inl XAIOS_ERR_IO, s2)
                   else (Inr sz, put_handle s2 i (f\<lparr>fh_cursor := fh_cursor f + sz\<rparr>)))"

definition mutable_fs_close :: "('d, 'h) mfs_system \<Rightarrow> u32 \<Rightarrow> xaios_status \<times> ('d, 'h) mfs_system" where
  "mutable_fs_close s fd =
     (case handle_for_fd s fd of
        None \<Rightarrow> (XAIOS_ERR_INVALID, rejected s)
      | Some i \<Rightarrow>
          let f = g_open_files s ! i
          in (XAIOS_OK, bump g_close_count_update (put_handle s i
               (f\<lparr>fh_in_use := 0, fh_flags := 0, fh_cursor := 0, fh_path := write_at 0 [CHR 0x00] (fh_path f)\<rparr>))))"

end
