(* ===== verification/Mfs_Blocks.thy ===== *)
theory Mfs_Blocks
  imports Mfs_Api "HOL-Library.Multiset"
begin

text \<open>
  The block accounting of the mutable file system: the bitmap marks exactly the blocks that the active files and the
  snapshots own, each of them once, and every operation keeps it so, whatever the driver answers.
\<close>

section \<open>Ownership of blocks\<close>

definition file_count :: "xaios_mfs_node \<Rightarrow> u16" where
  "file_count n = (if nd_active n \<noteq> 0 \<and> nd_type n = MFS_NODE_FILE then nd_block_count n else 0)"

definition snapshot_count :: "xaios_mfs_node \<Rightarrow> u16" where
  "snapshot_count n = (if nd_snapshot_active n \<noteq> 0 \<and> nd_snapshot_type n = MFS_NODE_FILE then nd_snapshot_block_count n else 0)"

definition file_blocks :: "xaios_mfs_node \<Rightarrow> u16 list" where
  "file_blocks n = take (unat (file_count n)) (nd_blocks n)"

definition snapshot_blocks :: "xaios_mfs_node \<Rightarrow> u16 list" where
  "snapshot_blocks n = take (unat (snapshot_count n)) (nd_snapshot_blocks n)"

definition node_blocks :: "xaios_mfs_node \<Rightarrow> u16 multiset" where
  "node_blocks n = mset (file_blocks n) + mset (snapshot_blocks n)"

definition owned_blocks :: "xaios_mfs_node list \<Rightarrow> u16 multiset" where
  "owned_blocks ns = sum_list (map node_blocks ns)"

definition used_of :: "nat \<Rightarrow> u8 list \<Rightarrow> u16 multiset" where
  "used_of d bm = mset (map of_nat (filter (\<lambda>i. bm ! i \<noteq> 0) [0 ..< d]))"

abbreviation used_blocks :: "('d, 'h) mfs_system \<Rightarrow> u16 multiset" where
  "used_blocks s \<equiv> used_of (unat (g_active_data_sectors s)) (block_bitmap (g_mfs s))"

definition node_shape :: "xaios_mfs_node \<Rightarrow> bool" where
  "node_shape n \<longleftrightarrow> length (nd_blocks n) = 16 \<and> length (nd_snapshot_blocks n) = 16 \<and> length (nd_path n) = 96 \<and>
     unat (nd_block_count n) \<le> 16 \<and> unat (nd_snapshot_block_count n) \<le> 16"

definition volume_shape :: "('d, 'h) mfs_system \<Rightarrow> bool" where
  "volume_shape s \<longleftrightarrow> length (mfs_nodes (g_mfs s)) = 64 \<and> length (block_bitmap (g_mfs s)) = 256 \<and> unat (g_active_max_nodes s) \<le> 64 \<and>
     unat (g_active_data_sectors s) \<le> 256 \<and> unat (g_active_file_max_blocks s) \<le> 16 \<and> (\<forall>n \<in> set (active_nodes s). node_shape n)"

text \<open>The blocks \<open>m\<close> are marked in the bitmap and not owned yet.\<close>

definition holding :: "('d, 'h) mfs_system \<Rightarrow> u16 multiset \<Rightarrow> bool" where
  "holding s m \<longleftrightarrow> volume_shape s \<and> used_blocks s = owned_blocks (active_nodes s) + m"

abbreviation blocks_exact :: "('d, 'h) mfs_system \<Rightarrow> bool" where
  "blocks_exact s \<equiv> holding s {#}"

section \<open>States that agree on the volume\<close>

definition same_volume :: "('d, 'h) mfs_system \<Rightarrow> ('d, 'h) mfs_system \<Rightarrow> bool" where
  "same_volume s s' \<longleftrightarrow> mfs_nodes (g_mfs s') = mfs_nodes (g_mfs s) \<and> block_bitmap (g_mfs s') = block_bitmap (g_mfs s) \<and>
     g_active_max_nodes s' = g_active_max_nodes s \<and> g_active_data_sectors s' = g_active_data_sectors s \<and>
     g_active_file_max_blocks s' = g_active_file_max_blocks s"

lemma same_volume_refl [simp]: "same_volume s s"
  by (simp add: same_volume_def)

lemma same_volume_trans: "same_volume s s1 \<Longrightarrow> same_volume s1 s2 \<Longrightarrow> same_volume s s2"
  by (simp add: same_volume_def)

lemma same_volume_holding: "same_volume s s' \<Longrightarrow> holding s' m = holding s m"
  by (simp add: same_volume_def holding_def volume_shape_def active_nodes_def)

lemma same_volume_node: "same_volume s s' \<Longrightarrow> inode_at s' i = inode_at s i \<and> active_nodes s' = active_nodes s"
  by (simp add: same_volume_def inode_at_def active_nodes_def)

lemma bump_volume [simp]: "same_volume s (bump u s)" "same_volume s (bump_by k u s)" "same_volume s (next_generation s)"
  by (simp_all add: same_volume_def bump_def bump_by_def next_generation_def)

lemma blk_write_volume: "same_volume s (snd (blk_write ops s sector buf))"
  by (simp add: blk_write_def same_volume_def split: prod.splits)

lemma same_volume_blk_write [simp]:
  "same_volume (snd (blk_write ops s sector buf)) s' = same_volume s s'"
  "same_volume s (bump u (snd (blk_write ops s sector buf)))"
  using blk_write_volume [of s ops sector buf] by (auto simp: same_volume_def bump_def)

lemma write_sectors_volume: "same_volume s (snd (write_sectors ops raw is s))"
proof (induction "is" arbitrary: s)
  case (Cons i "is")
  show ?case
    using Cons.IH [of "snd (blk_write ops s (MFS_START_SECTOR + of_nat i) (sector_of raw i))"] by (simp add: split_beta Let_def)
qed simp

lemma write_metadata_volume: "same_volume s (snd (write_metadata ops s))"
proof -
  have "same_volume s (s\<lparr>g_mfs := (g_mfs s)\<lparr>mfs_stored_checksum := c\<rparr>\<rparr>)" for c
    by (simp add: same_volume_def)
  then show ?thesis
    unfolding write_metadata_def Let_def using write_sectors_volume same_volume_trans by blast
qed

lemma holding_metadata [simp]: "holding (snd (write_metadata ops s)) m = holding s m"
  by (rule same_volume_holding [OF write_metadata_volume])

lemma holding_bump [simp]: "holding (bump u s) m = holding s m" "holding (bump_by k u s) m = holding s m"
    "holding (next_generation s) m = holding s m"
  by (rule same_volume_holding, simp)+

lemma write_loop_volume: "same_volume s (snd (write_loop ops data sz i bs s))"
proof (induction bs arbitrary: s i)
  case (Cons b bs)
  show ?case
    using Cons.IH [of "snd (blk_write ops s (absolute_data_sector b) (write_at 0 (take (block_bytes sz i) (drop (i * 512) data)) (replicate 512 0)))" "i + 1"]
    by (simp add: split_beta Let_def)
qed simp

lemma write_blocks_volume: "same_volume s (snd (write_blocks ops s blocks c data sz))"
  unfolding write_blocks_def by (rule write_loop_volume)

lemma read_blocks_volume: "read_blocks ops s blocks c buf sz = (st, buf1, s1) \<Longrightarrow> same_volume s s1"
  by (auto simp: read_blocks_def split_beta Let_def split: if_splits)

section \<open>The bitmap\<close>

lemma used_of_alt: "used_of d bm = image_mset of_nat (mset_set {i. i < d \<and> bm ! i \<noteq> 0})"
proof -
  have "mset (filter (\<lambda>i. bm ! i \<noteq> 0) [0 ..< d]) = mset_set {i. i < d \<and> bm ! i \<noteq> 0}"
    by (simp add: mset_set_upto_eq_mset_upto [symmetric] del: mset_upt)
  then show ?thesis by (simp add: used_of_def del: mset_filter)
qed

lemma unat_ucast_u16: "unat (ucast (c :: u16) :: u32) = unat c" "unat (ucast (c :: u16) :: u64) = unat c"
  by (rule unat_ucast_small, rule less_trans [OF unsigned_less], simp)+

lemma of_nat_u16_eq:
  "i < 65536 \<Longrightarrow> j < 65536 \<Longrightarrow> (of_nat i :: u16) = of_nat j \<longleftrightarrow> i = j"
  by (simp add: word_eq_unat unat_of_nat_small)

lemma used_of_memD:
  assumes "b \<in># used_of d bm" and "d \<le> 256"
  shows "unat b < d" "bm ! unat b \<noteq> 0"
  using assms by (auto simp: used_of_def unat_of_nat_small)

lemma used_of_add:
  assumes "distinct new" and "set new \<subseteq> {0 ..< d}" and "\<And>i. i \<in> set new \<Longrightarrow> bm ! i = 0"
    and "\<And>i. i < d \<Longrightarrow> (bm' ! i \<noteq> 0) = (i \<in> set new \<or> bm ! i \<noteq> 0)"
  shows "used_of d bm' = used_of d bm + mset (map of_nat new)"
proof -
  have "{i. i < d \<and> bm' ! i \<noteq> 0} = {i. i < d \<and> bm ! i \<noteq> 0} \<union> set new"
    using assms(2,4) by (auto simp: subset_iff)
  moreover have "{i. i < d \<and> bm ! i \<noteq> 0} \<inter> set new = {}"
    using assms(3) by auto
  ultimately show ?thesis
    using assms(1) by (simp add: used_of_alt mset_set_Union mset_set_set)
qed

lemma used_of_clear:
  assumes "b \<in># used_of d bm" and "d \<le> 256" and "d \<le> length bm"
  shows "used_of d (bm[unat b := 0]) = used_of d bm - {#b#}"
proof -
  note b = used_of_memD [OF assms(1,2)]
  have "used_of d bm = used_of d (bm[unat b := 0]) + mset (map of_nat [unat b])"
    using b assms(3) by (intro used_of_add) (auto simp: nth_list_update)
  then show ?thesis by simp
qed

lemma foldl_set_nth:
  assumes "i < length bm"
  shows "foldl (\<lambda>b k. b[f k := v]) bm ks ! i = (if i \<in> f ` set ks then v else bm ! i)"
  using assms by (induction ks arbitrary: bm) (auto simp: nth_list_update)

lemma length_foldl_set [simp]: "length (foldl (\<lambda>b k. b[f k := v]) bm ks) = length bm"
  by (induction ks arbitrary: bm) simp_all

lemma alloc_loop_spec:
  assumes "alloc_loop cnt is bm found = (bm', found')" and "distinct is" and "set is \<subseteq> {0 ..< length bm}"
    and "length found \<le> cnt"
  shows "\<exists>new. found' = found @ map of_nat new \<and> distinct new \<and> set new \<subseteq> set is \<and> (\<forall>i \<in> set new. bm ! i = 0) \<and>
    bm' = foldl (\<lambda>b k. b[k := 1]) bm new \<and> length found' \<le> cnt"
  using assms
proof (induction "is" arbitrary: bm found)
  case Nil
  then show ?case by simp
next
  case (Cons i "is")
  show ?case
  proof (cases "length found < cnt \<and> bm ! i = 0")
    case True
    then have "alloc_loop cnt is (bm[i := 1]) (found @ [of_nat i]) = (bm', found')"
      using Cons.prems(1) by simp
    moreover have "distinct is" "set is \<subseteq> {0 ..< length (bm[i := 1])}" "length (found @ [of_nat i]) \<le> cnt"
      using Cons.prems(2,3) True by auto
    ultimately obtain new where new: "found' = (found @ [of_nat i]) @ map of_nat new" "distinct new" "set new \<subseteq> set is"
        "\<forall>k \<in> set new. bm[i := 1] ! k = 0" "bm' = foldl (\<lambda>b k. b[k := 1]) (bm[i := 1]) new" "length found' \<le> cnt"
      using Cons.IH by blast
    have "i \<notin> set new" using new(3) Cons.prems(2) by auto
    then have "\<forall>k \<in> set new. bm ! k = 0" using new(4) by (metis nth_list_update_neq)
    then show ?thesis
      using new(1,2,5,6) \<open>i \<notin> set new\<close> True subset_insertI2 [OF new(3)] by (intro exI [of _ "i # new"]) simp
  next
    case False
    show ?thesis
    proof (cases "length found < cnt")
      case False
      then have "found' = found" "bm' = bm" using Cons.prems(1) by simp_all
      then show ?thesis using Cons.prems(4) by (intro exI [of _ "[]"]) simp
    next
      case True
      then have "alloc_loop cnt is bm found = (bm', found')" using Cons.prems(1) False by simp
      moreover have "distinct is" "set is \<subseteq> {0 ..< length bm}"
        using Cons.prems(2,3) by auto
      ultimately obtain new where "found' = found @ map of_nat new" "distinct new" "set new \<subseteq> set is"
          "\<forall>i \<in> set new. bm ! i = 0" "bm' = foldl (\<lambda>b k. b[k := 1]) bm new" "length found' \<le> cnt"
        using Cons.IH [of bm found] Cons.prems(4) by blast
      then show ?thesis by (intro exI [of _ new]) (simp add: subset_insertI2)
    qed
  qed
qed

section \<open>Allocation and release\<close>

lemma holding_shape: "holding s m \<Longrightarrow> volume_shape s"
  by (simp add: holding_def)

lemma set_bitmap_holding:
  assumes "holding s m" and "length bm = 256" and "used_of (unat (g_active_data_sectors s)) bm = owned_blocks (active_nodes s) + m'"
  shows "holding (set_bitmap s bm) m'"
  using assms by (simp add: holding_def volume_shape_def set_bitmap_def active_nodes_def)

lemma active_nodes_set_bitmap [simp]: "active_nodes (set_bitmap s bm) = active_nodes s"
  by (simp add: active_nodes_def set_bitmap_def)

lemma active_nodes_bump [simp]: "active_nodes (bump u s) = active_nodes s" "active_nodes (bump_by k u s) = active_nodes s"
    "active_nodes (next_generation s) = active_nodes s"
  by (simp_all add: active_nodes_def bump_def bump_by_def next_generation_def)

lemma allocate_blocks_spec:
  assumes "holding s m" and "allocate_blocks s cnt = (st, blocks, s1)"
  shows "active_nodes s1 = active_nodes s" "length blocks = 16" "st \<noteq> XAIOS_OK \<Longrightarrow> holding s1 m"
    "st = XAIOS_OK \<Longrightarrow> unat cnt \<le> 16 \<and> holding s1 (m + mset (take (unat cnt) blocks))"
proof -
  let ?d = "unat (g_active_data_sectors s)"
  have shape: "length (block_bitmap (g_mfs s)) = 256" "?d \<le> 256" "unat (g_active_file_max_blocks s) \<le> 16"
    using assms(1) by (auto simp: holding_def volume_shape_def)
  obtain bm found where loop: "alloc_loop (unat cnt) [0 ..< ?d] (block_bitmap (g_mfs s)) [] = (bm, found)"
    by fastforce
  from alloc_loop_spec [OF this] shape obtain new where new: "found = map of_nat new" "distinct new" "set new \<subseteq> {0 ..< ?d}"
      "\<forall>i \<in> set new. block_bitmap (g_mfs s) ! i = 0" "bm = foldl (\<lambda>b k. b[k := 1]) (block_bitmap (g_mfs s)) new"
      "length found \<le> unat cnt"
    by auto
  have bm_len: "length bm = 256" using new(5) shape by simp
  have "used_of ?d bm = used_of ?d (block_bitmap (g_mfs s)) + mset (map of_nat new)"
    using new shape by (intro used_of_add) (auto simp: foldl_set_nth)
  then have used_bm: "used_of ?d bm = owned_blocks (active_nodes s) + (m + mset found)"
    using assms(1) new(1) by (simp add: holding_def ac_simps)
  have small: "unat (of_nat i :: u16) = i" if "i \<in> set new" for i
    using that new(3) shape(2) by (subst unat_of_nat_small) auto
  then have undone: "foldl (\<lambda>b i. b[unat i := 0]) bm found = block_bitmap (g_mfs s)"
    using new shape bm_len by (intro nth_equalityI) (auto simp: foldl_set_nth image_iff)
  have "length found \<le> 16" if "\<not> unat (g_active_file_max_blocks s) < unat cnt"
    using that new(6) shape(3) by simp
  moreover have "(ucast cnt > g_active_file_max_blocks s) = (unat (g_active_file_max_blocks s) < unat cnt)"
    by (simp add: word_less_nat_alt unat_ucast_u16)
  moreover have "holding (set_bitmap s (block_bitmap (g_mfs s))) m"
    using assms(1) shape by (intro set_bitmap_holding) (auto simp: holding_def)
  moreover have "holding (set_bitmap s bm) (m + mset found)"
    using set_bitmap_holding [OF assms(1) bm_len used_bm] .
  ultimately show "active_nodes s1 = active_nodes s" "length blocks = 16" "st \<noteq> XAIOS_OK \<Longrightarrow> holding s1 m"
    "st = XAIOS_OK \<Longrightarrow> unat cnt \<le> 16 \<and> holding s1 (m + mset (take (unat cnt) blocks))"
    using assms loop undone shape by (auto simp: allocate_blocks_def Let_def write_at_def bump_by_def bump_def set_bitmap_def active_nodes_def
        holding_def volume_shape_def split: if_splits)
qed

lemma free_block_used:
  assumes "b \<in># used_blocks s" and "volume_shape s"
  shows "used_blocks (free_block s b) = used_blocks s - {#b#}" "volume_shape (free_block s b)"
  using assms used_of_memD [OF assms(1)] used_of_clear [OF assms(1)]
  by (auto simp: free_block_def volume_shape_def word_less_nat_alt unat_ucast_u16 bump_def set_bitmap_def active_nodes_def)

text \<open>What releasing blocks does not change.\<close>

definition same_nodes :: "('d, 'h) mfs_system \<Rightarrow> ('d, 'h) mfs_system \<Rightarrow> bool" where
  "same_nodes s s' \<longleftrightarrow> mfs_nodes (g_mfs s') = mfs_nodes (g_mfs s) \<and> g_active_max_nodes s' = g_active_max_nodes s"

lemma free_blocks_nodes [simp]: "same_nodes s (free_blocks s c bl)"
proof -
  have "same_nodes s (foldl free_block s bs)" for bs
    by (induction bs rule: rev_induct) (auto simp: same_nodes_def free_block_def bump_def set_bitmap_def)
  then show ?thesis by (simp add: free_blocks_def)
qed

lemma active_nodes_free [simp]: "active_nodes (free_blocks s c bl) = active_nodes s" "inode_at (free_blocks s c bl) i = inode_at s i"
  using free_blocks_nodes [of s c bl] by (simp_all add: same_nodes_def active_nodes_def inode_at_def)

lemma free_blocks_0 [simp]: "free_blocks s 0 bl = s"
  by (simp add: free_blocks_def)

lemma free_blocks_used:
  assumes "mset (take (unat c) bl) \<subseteq># used_blocks s" and "volume_shape s"
  shows "used_blocks (free_blocks s c bl) = used_blocks s - mset (take (unat c) bl)" "volume_shape (free_blocks s c bl)"
proof -
  have "used_blocks (foldl free_block s bs) = used_blocks s - mset bs \<and> volume_shape (foldl free_block s bs)"
    if "mset bs \<subseteq># used_blocks s" for bs
    using that assms(2)
  proof (induction bs arbitrary: s)
    case (Cons b bs)
    then have b: "b \<in># used_blocks s" by (simp add: insert_subset_eq_iff)
    moreover have "mset bs \<subseteq># used_blocks s - {#b#}"
      using Cons.prems(1) by (simp add: insert_subset_eq_iff)
    ultimately show ?case
      using Cons.IH [of "free_block s b"] free_block_used [OF b Cons.prems(2)] by simp
  qed simp
  then show "used_blocks (free_blocks s c bl) = used_blocks s - mset (take (unat c) bl)" "volume_shape (free_blocks s c bl)"
    using assms(1) by (simp_all add: free_blocks_def)
qed

lemma free_blocks_holding:
  assumes "holding s (m + mset (take (unat c) bl))"
  shows "holding (free_blocks s c bl) m"
  using assms free_blocks_used [of c bl s] by (simp add: holding_def)

section \<open>Replacing a node\<close>

lemma owned_blocks_update:
  assumes "i < length ns"
  shows "owned_blocks (ns[i := n]) + node_blocks (ns ! i) = owned_blocks ns + node_blocks n"
  using assms
proof (induction ns arbitrary: i)
  case (Cons x xs)
  then show ?case by (cases i) (auto simp: owned_blocks_def ac_simps)
qed simp

lemma owned_blocks_node: "i < length ns \<Longrightarrow> node_blocks (ns ! i) \<subseteq># owned_blocks ns"
proof (induction ns arbitrary: i)
  case (Cons x xs)
  then show ?case
    by (cases i) (auto simp: owned_blocks_def intro: subset_mset.order_trans [OF _ mset_subset_eq_add_right])
qed simp

lemma active_nodes_put:
  assumes "i < length (active_nodes s)"
  shows "active_nodes (put_inode s i n) = (active_nodes s)[i := n]" "active_nodes s ! i = inode_at s i"
  using assms by (simp_all add: active_nodes_def put_inode_def inode_at_def take_update_swap)

lemma free_and_put:
  assumes hold: "holding s m" and i: "i < length (active_nodes s)" and shape: "node_shape n"
    and old: "node_blocks (inode_at s i) = mset (take (unat c) bl) + kept"
    and new: "m + kept = m' + node_blocks n"
  shows "holding (put_inode (free_blocks s c bl) i n) m'"
proof -
  let ?s = "free_blocks s c bl"
  have nth: "active_nodes s ! i = inode_at s i" using active_nodes_put [OF i] by simp
  have used: "used_blocks s = owned_blocks (active_nodes s) + m" and vs: "volume_shape s"
    using hold by (simp_all add: holding_def)
  have "mset (take (unat c) bl) \<subseteq># owned_blocks (active_nodes s)"
    using owned_blocks_node [OF i] old nth by (metis mset_subset_eq_add_left subset_mset.order_trans)
  then have sub: "mset (take (unat c) bl) \<subseteq># used_blocks s"
    using used by (metis mset_subset_eq_add_left subset_mset.order_trans)
  note fr = free_blocks_used [OF sub vs]
  have put: "active_nodes (put_inode ?s i n) = (active_nodes s)[i := n]"
    using active_nodes_put(1) [of i ?s n] i by simp
  have own: "owned_blocks ((active_nodes s)[i := n]) + (mset (take (unat c) bl) + kept) = owned_blocks (active_nodes s) + node_blocks n"
    using owned_blocks_update [OF i, of n] nth old by simp
  have "used_blocks ?s + mset (take (unat c) bl) = owned_blocks (active_nodes s) + m"
    using fr(1) sub used by (simp add: subset_mset.diff_add)
  then have "used_blocks ?s + mset (take (unat c) bl) + kept = owned_blocks (active_nodes s) + node_blocks n + m'"
    using new by (simp add: ac_simps)
  also have "\<dots> = owned_blocks ((active_nodes s)[i := n]) + m' + mset (take (unat c) bl) + kept"
    using own by (simp add: ac_simps)
  finally have eq: "used_blocks ?s = owned_blocks ((active_nodes s)[i := n]) + m'"
    by simp
  have "used_blocks (put_inode ?s i n) = used_blocks ?s"
    by (simp add: put_inode_def)
  moreover have "volume_shape (put_inode ?s i n)"
    using fr(2) shape put by (auto simp: volume_shape_def put_inode_def dest!: subsetD [OF set_update_subset_insert])
  ultimately show ?thesis
    using eq put by (simp add: holding_def)
qed

lemma put_inode_holding:
  assumes "holding s m" and "i < length (active_nodes s)" and "node_shape n" and "m + node_blocks (inode_at s i) = m' + node_blocks n"
  shows "holding (put_inode s i n) m'"
  using free_and_put [of s m i n 0 "[]" "node_blocks (inode_at s i)" m'] assms by simp

section \<open>The operations keep the accounting\<close>

lemma length_copy_path [simp]: "length dst = 96 \<Longrightarrow> length (copy_path dst src) = 96"
  by (simp add: copy_path_def write_at_def MFS_PATH_MAX_def)

lemma find_node_bound: "find_node s p sn = Some i \<Longrightarrow> i < length (active_nodes s)"
  unfolding find_node_def by (rule find_slot_bound)

lemma find_free_node_bound: "find_free_node s = Some i \<Longrightarrow> i < length (active_nodes s)"
  unfolding find_free_node_def by (rule find_slot_bound)

lemma holding_node_shape:
  assumes "holding s m" and "i < length (active_nodes s)"
  shows "node_shape (inode_at s i)"
  using assms active_nodes_put(2) [OF assms(2)] by (metis holding_def nth_mem volume_shape_def)

lemma free_file_blocks:
  "(if nd_active n \<noteq> 0 \<and> nd_type n = MFS_NODE_FILE then free_blocks s (nd_block_count n) (nd_blocks n) else s) =
   free_blocks s (file_count n) (nd_blocks n)"
  by (simp add: file_count_def)

lemma free_snapshot_blocks:
  "(if nd_snapshot_active n \<noteq> 0 \<and> nd_snapshot_type n = MFS_NODE_FILE then free_blocks s (nd_snapshot_block_count n) (nd_snapshot_blocks n) else s) =
   free_blocks s (snapshot_count n) (nd_snapshot_blocks n)"
  by (simp add: snapshot_count_def)

lemmas node_block_simps = node_blocks_def file_blocks_def snapshot_blocks_def file_count_def snapshot_count_def MFS_NODE_FILE_def
  MFS_NODE_DIR_def MFS_NODE_FREE_def

lemma make_dir_blocks:
  assumes "holding s m" and "i < length (active_nodes s)" and "nd_active (inode_at s i) = 0"
  shows "holding (snd (make_dir ops s i path)) m"
  unfolding make_dir_def Let_def
  using assms holding_node_shape [OF assms(1,2)]
  by (auto intro!: put_inode_holding simp: node_shape_def node_block_simps zero_node_def)

lemma create_dir_blocks:
  assumes "blocks_exact s"
  shows "blocks_exact (snd (create_dir ops s path))"
proof -
  have "nd_active (inode_at s i) = 0" if "find_free_node s = Some i" for i
    using find_slot_holds [OF that [unfolded find_free_node_def]] active_nodes_put(2) [OF find_free_node_bound [OF that]] by simp
  then show ?thesis
    unfolding create_dir_def using assms make_dir_blocks [OF assms] find_node_bound [of s] find_free_node_bound [of s]
    by (simp split: option.splits)
qed

lemma store_file_blocks:
  assumes "holding s (m + mset (take (unat c) bl))" and "i < length (active_nodes s)" and "unat c \<le> 16" and "length bl = 16"
  shows "holding (snd (store_file ops s i path c bl data sz)) m"
proof -
  let ?n = "inode_at s i"
  let ?n' = "\<lambda>s1. ?n\<lparr>nd_active := 1, nd_type := MFS_NODE_FILE, nd_size := sz, nd_content_hash := fnv1a64 data,
     nd_generation := mfs_generation (g_mfs s1), nd_block_count := c, nd_path := copy_path (nd_path ?n) path, nd_blocks := bl\<rparr>"
  have "holding (put_inode (free_blocks s (file_count ?n) (nd_blocks ?n)) i (?n' s1)) m" for s1
    using assms holding_node_shape [OF assms(1,2)]
    by (intro free_and_put [where kept = "mset (snapshot_blocks ?n)"])
      (auto simp: node_shape_def node_block_simps ac_simps)
  then show ?thesis
    unfolding store_file_def Let_def free_file_blocks by simp
qed

lemma write_file_blocks:
  assumes "blocks_exact s"
  shows "blocks_exact (snd (write_file ops s path data sz))"
proof -
  obtain st bl s1 where alloc: "allocate_blocks s (block_count_for_size sz) = (st, bl, s1)"
    by (metis prod_cases3)
  note al = allocate_blocks_spec [OF assms alloc]
  define bytes where "bytes = (case data of None \<Rightarrow> [] | Some d \<Rightarrow> take (unat sz) d)"
  obtain st2 s2 where wr: "write_blocks ops s1 bl (block_count_for_size sz) bytes sz = (st2, s2)"
    by fastforce
  have vol: "same_volume s1 s2"
    using write_blocks_volume [of s1 ops bl "block_count_for_size sz" bytes sz] wr by simp
  have held: "st = XAIOS_OK \<Longrightarrow> unat (block_count_for_size sz) \<le> 16 \<and> holding s2 ({#} + mset (take (unat (block_count_for_size sz)) bl))"
    using al(4) same_volume_holding [OF vol] by simp
  show ?thesis
    unfolding write_file_def Let_def bytes_def [symmetric]
    using assms alloc wr al(2,3) held store_file_blocks [of s2 "{#}" "block_count_for_size sz" bl] free_blocks_holding [of s2 "{#}"]
      find_node_bound [of s2] find_free_node_bound [of s2]
    by (simp split: option.splits)
qed

lemma delete_node_blocks:
  assumes "blocks_exact s"
  shows "blocks_exact (snd (delete_node ops s path))"
proof (cases "find_node s (the path) False")
  case None
  then show ?thesis using assms by (simp add: delete_node_def)
next
  case (Some i)
  let ?n = "inode_at s i"
  note i = find_node_bound [OF Some]
  have "blocks_exact (put_inode (free_blocks s (file_count ?n) (nd_blocks ?n)) i n')"
    if "node_shape n'" "nd_active n' = 0" "snapshot_blocks n' = snapshot_blocks ?n" for n'
    using that assms i by (intro free_and_put [where kept = "mset (snapshot_blocks ?n)"]) (auto simp: node_block_simps)
  moreover have "nd_active ?n \<noteq> 0 \<Longrightarrow> (if nd_type ?n = MFS_NODE_FILE then free_blocks s (nd_block_count ?n) (nd_blocks ?n) else s) =
      free_blocks s (file_count ?n) (nd_blocks ?n)"
    by (simp add: file_count_def)
  ultimately show ?thesis
    using assms Some holding_node_shape [OF assms i]
    by (simp add: delete_node_def Let_def node_shape_def snapshot_blocks_def snapshot_count_def)
qed

lemma rename_node_blocks:
  assumes "blocks_exact s"
  shows "blocks_exact (snd (rename_node ops s old new))"
proof -
  have "blocks_exact (put_inode s i (inode_at s i\<lparr>nd_path := copy_path (nd_path (inode_at s i)) p, nd_generation := g\<rparr>))"
    if "i < length (active_nodes s)" for i p g
    using that assms holding_node_shape [OF assms that]
    by (intro put_inode_holding [OF assms]) (auto simp: node_shape_def node_block_simps)
  then show ?thesis
    using assms find_node_bound [of s] by (simp add: rename_node_def Let_def split: option.splits)
qed

section \<open>Snapshots keep the accounting\<close>

lemma copy_to_snapshot_blocks:
  assumes "holding s m" and "i < length (active_nodes s)" and "nd_snapshot_block_count (inode_at s i) = 0"
    and "nd_snapshot_active (inode_at s i) \<noteq> 0" and "nd_snapshot_type (inode_at s i) = MFS_NODE_FILE"
  shows "holding (snd (copy_to_snapshot ops s i)) m"
proof -
  let ?n = "inode_at s i"
  obtain st buf s1 where rd: "read_blocks ops s (nd_blocks ?n) (nd_block_count ?n) (replicate 8192 0) (nd_size ?n) = (st, buf, s1)"
    by (metis prod_cases3)
  note v1 = read_blocks_volume [OF rd]
  have h1: "holding s1 m" using same_volume_holding [OF v1] assms(1) by simp
  obtain st2 bl s2 where al: "allocate_blocks s1 (nd_block_count ?n) = (st2, bl, s2)"
    by (metis prod_cases3)
  note a = allocate_blocks_spec [OF h1 al]
  obtain st3 s3 where wr: "write_blocks ops s2 bl (nd_block_count ?n) buf (nd_size ?n) = (st3, s3)"
    by fastforce
  have v3: "same_volume s2 s3"
    using write_blocks_volume [of s2 ops bl "nd_block_count ?n" buf "nd_size ?n"] wr by simp
  have h3: "st2 = XAIOS_OK \<Longrightarrow> holding s3 (m + mset (take (unat (nd_block_count ?n)) bl)) \<and> unat (nd_block_count ?n) \<le> 16"
    using a(4) same_volume_holding [OF v3] by simp
  have nodes: "active_nodes s3 = active_nodes s" "active_nodes s2 = active_nodes s" "active_nodes s1 = active_nodes s"
    using a(1) same_volume_node [OF v3] same_volume_node [OF v1] by simp_all
  then have n3: "inode_at s3 i = ?n"
    using active_nodes_put(2) [of i s3] active_nodes_put(2) [of i s] assms(2) by simp
  have "holding (put_inode s3 i (?n\<lparr>nd_snapshot_block_count := nd_block_count ?n, nd_snapshot_blocks := bl\<rparr>)) m" if "st2 = XAIOS_OK"
    using h3 [OF that] holding_node_shape [OF assms(1,2)] a(2) assms n3 nodes
    by (intro put_inode_holding) (auto simp: node_shape_def node_block_simps ac_simps)
  then show ?thesis
    unfolding copy_to_snapshot_def Let_def
    using rd al wr a(3) h1 h3 free_blocks_holding [of s3 m] by simp
qed

text \<open>The mount state and the geometry, which the operations on files keep.\<close>

definition config :: "('d, 'h) mfs_system \<Rightarrow> u32 \<times> u32 \<times> 'h option \<times> u32 \<times> u32 \<times> u64 \<times> u32 \<times> u32 \<times> u32" where
  "config s = (g_mounted s, g_mount_flags s, g_persistent_handle s, g_active_max_nodes s, g_active_file_max_blocks s,
     g_active_max_file_bytes s, g_active_data_sectors s, g_active_version s, g_active_metadata_sectors s)"

lemma config_simps [simp]:
  "config (bump u s) = config s" "config (bump_by k u s) = config s" "config (next_generation s) = config s"
  "config (put_inode s i n) = config s" "config (set_bitmap s bm) = config s" "config (s\<lparr>g_mfs := v\<rparr>) = config s"
  by (simp_all add: config_def bump_def bump_by_def next_generation_def put_inode_def set_bitmap_def)

lemma config_blk_write [simp]: "config (snd (blk_write ops s sector buf)) = config s"
  by (simp add: config_def blk_write_def split_beta)

lemma config_free [simp]: "config (free_blocks s c bl) = config s"
proof -
  have "config (foldl free_block s bs) = config s" for bs
    by (induction bs rule: rev_induct) (auto simp: free_block_def)
  then show ?thesis by (simp add: free_blocks_def)
qed

lemma config_allocate [simp]: "config (snd (snd (allocate_blocks s c))) = config s"
  by (simp add: allocate_blocks_def Let_def split_beta)

lemma config_write_sectors [simp]: "config (snd (write_sectors ops raw is s)) = config s"
  by (induction "is" arbitrary: s) (simp_all add: split_beta Let_def)

lemma config_write_metadata [simp]: "config (snd (write_metadata ops s)) = config s"
  by (simp add: write_metadata_def Let_def)

lemma config_write_blocks [simp]: "config (snd (write_blocks ops s bl c data sz)) = config s"
proof -
  have "config (snd (write_loop ops data sz i bs s)) = config s" for bs i
    by (induction bs arbitrary: s i) (simp_all add: split_beta Let_def)
  then show ?thesis by (simp add: write_blocks_def)
qed

lemma config_read_blocks [simp]: "config (snd (snd (read_blocks ops s bl c buf sz))) = config s"
  by (simp add: read_blocks_def Let_def split_beta)

lemma config_make_dir [simp]: "config (snd (make_dir ops s i path)) = config s"
  by (simp add: make_dir_def Let_def)

lemma config_store_file [simp]: "config (snd (store_file ops s i path c bl data sz)) = config s"
  by (simp add: store_file_def Let_def)

lemma config_create_dir [simp]: "config (snd (create_dir ops s path)) = config s"
  by (simp add: create_dir_def split: option.splits)

lemma config_write_file [simp]: "config (snd (write_file ops s path data sz)) = config s"
  by (simp add: write_file_def Let_def split_beta split: option.splits)

lemma config_delete_node [simp]: "config (snd (delete_node ops s path)) = config s"
  by (simp add: delete_node_def Let_def split: option.splits)

lemma config_rename_node [simp]: "config (snd (rename_node ops s old new)) = config s"
  by (simp add: rename_node_def Let_def split: option.splits)

lemma config_copy_to_snapshot [simp]: "config (snd (copy_to_snapshot ops s i)) = config s"
  by (simp add: copy_to_snapshot_def Let_def split_beta)

lemma config_commit_node [simp]: "config (snd (commit_node ops s i)) = config s"
  by (simp add: commit_node_def Let_def)

lemma config_restore [simp]: "config (snd (restore_snapshot_node ops s i)) = config s"
  by (simp add: restore_snapshot_node_def Let_def split_beta)

lemma config_drop_new_node [simp]: "config (drop_new_node s i) = config s"
  by (simp add: drop_new_node_def Let_def)

lemma config_length: "holding s m \<Longrightarrow> holding s' m' \<Longrightarrow> config s' = config s \<Longrightarrow> length (active_nodes s') = length (active_nodes s)"
  by (simp add: holding_def volume_shape_def active_nodes_def config_def)

lemma inode_at_put [simp]: "i < length (active_nodes s) \<Longrightarrow> inode_at (put_inode s i n) i = n"
  by (simp add: inode_at_def put_inode_def active_nodes_def)

lemma commit_node_blocks:
  assumes "blocks_exact s" and i: "i < length (active_nodes s)"
  shows "blocks_exact (snd (commit_node ops s i))"
proof -
  let ?n = "inode_at s i"
  let ?s = "free_blocks s (snapshot_count ?n) (nd_snapshot_blocks ?n)"
  let ?n2 = "clear_snapshot ?n\<lparr>nd_snapshot_active := 1, nd_snapshot_type := nd_type ?n, nd_snapshot_size := nd_size ?n,
               nd_snapshot_hash := nd_content_hash ?n, nd_snapshot_generation := nd_generation ?n\<rparr>"
  note shape = holding_node_shape [OF assms]
  have put: "blocks_exact (put_inode ?s i n')"
    if "node_shape n'" "snapshot_blocks n' = []" "file_blocks n' = file_blocks ?n" for n'
    using that assms by (intro free_and_put [where kept = "mset (file_blocks ?n)"]) (auto simp: node_blocks_def snapshot_blocks_def)
  have "blocks_exact (put_inode ?s i (clear_snapshot ?n))"
    using shape by (intro put) (auto simp: node_shape_def node_block_simps clear_snapshot_def)
  moreover have "blocks_exact (put_inode ?s i ?n2)"
    using shape by (intro put) (auto simp: node_shape_def node_block_simps clear_snapshot_def)
  moreover have "i < length (active_nodes (put_inode ?s i ?n2))"
    using i active_nodes_put(1) [of i ?s] by simp
  moreover have "nd_type ?n = MFS_NODE_FILE \<Longrightarrow> blocks_exact (snd (copy_to_snapshot ops (put_inode ?s i ?n2) i))"
    using calculation(2,3) i by (intro copy_to_snapshot_blocks) (auto simp: clear_snapshot_def)
  ultimately show ?thesis
    unfolding commit_node_def Let_def free_snapshot_blocks by simp
qed

lemma commit_loop_blocks:
  assumes "blocks_exact s" and "set is \<subseteq> {0 ..< length (active_nodes s)}"
  shows "blocks_exact (snd (commit_loop ops is s)) \<and> config (snd (commit_loop ops is s)) = config s"
  using assms
proof (induction "is" arbitrary: s)
  case (Cons i "is")
  let ?s = "snd (commit_node ops s i)"
  have b: "blocks_exact ?s" using commit_node_blocks [OF Cons.prems(1)] Cons.prems(2) by simp
  then have "length (active_nodes ?s) = length (active_nodes s)"
    using config_length Cons.prems(1) by fastforce
  then show ?case
    using Cons.IH [OF b] b Cons.prems(2) by (simp add: split_beta Let_def)
qed simp

lemma indices_in_range: "blocks_exact s \<Longrightarrow> set [0 ..< unat (g_active_max_nodes s)] \<subseteq> {0 ..< length (active_nodes s)}"
  by (simp add: holding_def volume_shape_def active_nodes_def)

lemma holding_committed [simp]: "holding (s\<lparr>g_mfs := (g_mfs s)\<lparr>mfs_committed_generation := g\<rparr>\<rparr>) m = holding s m"
  by (rule same_volume_holding) (simp add: same_volume_def)

lemma commit_snapshot_blocks:
  assumes "blocks_exact s"
  shows "blocks_exact (snd (commit_snapshot ops s))" "config (snd (commit_snapshot ops s)) = config s"
  using commit_loop_blocks [OF assms indices_in_range [OF assms], of ops] assms
  by (simp_all add: commit_snapshot_def Let_def split_beta)

lemma restore_snapshot_node_blocks:
  assumes "blocks_exact s" and i: "i < length (active_nodes s)"
  shows "blocks_exact (snd (restore_snapshot_node ops s i))"
proof -
  let ?n = "inode_at s i"
  let ?c = "nd_snapshot_block_count ?n"
  let ?n1 = "?n\<lparr>nd_active := 1, nd_type := nd_snapshot_type ?n, nd_size := nd_snapshot_size ?n, nd_content_hash := nd_snapshot_hash ?n,
               nd_generation := nd_snapshot_generation ?n, nd_block_count := 0, nd_blocks := replicate 16 0\<rparr>"
  define s2 where "s2 = put_inode (free_blocks s (file_count ?n) (nd_blocks ?n)) i ?n1"
  note shape = holding_node_shape [OF assms]
  have h2: "blocks_exact s2"
    unfolding s2_def using assms shape
    by (intro free_and_put [where kept = "mset (snapshot_blocks ?n)"]) (auto simp: node_shape_def node_block_simps)
  have i2: "i < length (active_nodes s2)" and n2: "inode_at s2 i = ?n1"
    unfolding s2_def using i active_nodes_put(1) [of i "free_blocks s (file_count ?n) (nd_blocks ?n)"] by simp_all
  obtain st buf s3 where rd: "read_blocks ops s2 (nd_snapshot_blocks ?n) ?c (replicate 8192 0) (nd_snapshot_size ?n) = (st, buf, s3)"
    by (metis prod_cases3)
  note v3 = read_blocks_volume [OF rd]
  have h3: "blocks_exact s3" using same_volume_holding [OF v3] h2 by simp
  obtain st2 bl s4 where al: "allocate_blocks s3 ?c = (st2, bl, s4)"
    by (metis prod_cases3)
  note a = allocate_blocks_spec [OF h3 al]
  obtain st3 s5 where wr: "write_blocks ops s4 bl ?c buf (nd_snapshot_size ?n) = (st3, s5)"
    by fastforce
  have v5: "same_volume s4 s5"
    using write_blocks_volume [of s4 ops bl ?c buf "nd_snapshot_size ?n"] wr by simp
  have h5: "st2 = XAIOS_OK \<Longrightarrow> holding s5 ({#} + mset (take (unat ?c) bl)) \<and> unat ?c \<le> 16"
    using a(4) same_volume_holding [OF v5] by simp
  have nodes: "active_nodes s5 = active_nodes s2"
    using a(1) same_volume_node [OF v5] same_volume_node [OF v3] by simp
  then have n5: "inode_at s5 i = ?n1"
    using active_nodes_put(2) [of i s5] active_nodes_put(2) [of i s2] i2 n2 by simp
  have "blocks_exact (put_inode s5 i (?n1\<lparr>nd_block_count := ?c, nd_blocks := bl\<rparr>))"
    if "st2 = XAIOS_OK" "nd_snapshot_active ?n \<noteq> 0" "nd_snapshot_type ?n = MFS_NODE_FILE"
    using h5 [OF that(1)] shape a(2) that n5 nodes i2
    by (intro put_inode_holding) (auto simp: node_shape_def node_block_simps ac_simps)
  then show ?thesis
    unfolding restore_snapshot_node_def Let_def free_file_blocks s2_def [symmetric]
    using rd al wr a(3) h2 h3 h5 assms(1) free_blocks_holding [of s5 "{#}"] by simp
qed

lemma restore_loop_blocks:
  assumes "blocks_exact s" and "set is \<subseteq> {0 ..< length (active_nodes s)}"
  shows "blocks_exact (snd (restore_loop ops ty is s)) \<and> config (snd (restore_loop ops ty is s)) = config s"
  using assms
proof (induction "is" arbitrary: s)
  case (Cons i "is")
  let ?s = "snd (restore_snapshot_node ops s i)"
  have b: "blocks_exact ?s" using restore_snapshot_node_blocks [OF Cons.prems(1)] Cons.prems(2) by simp
  then have "length (active_nodes ?s) = length (active_nodes s)"
    using config_length Cons.prems(1) by fastforce
  then show ?case
    using Cons.IH [OF b] Cons.IH [OF Cons.prems(1)] b Cons.prems(2) by (simp add: split_beta Let_def)
qed simp

lemma drop_new_node_blocks:
  assumes "blocks_exact s" and i: "i < length (active_nodes s)"
  shows "blocks_exact (drop_new_node s i)"
proof -
  let ?n = "inode_at s i"
  have "blocks_exact (put_inode (free_blocks s (file_count ?n) (nd_blocks ?n)) i (?n\<lparr>nd_active := 0, nd_block_count := 0, nd_blocks := replicate 16 0\<rparr>))"
    using assms holding_node_shape [OF assms]
    by (intro free_and_put [where kept = "mset (snapshot_blocks ?n)"]) (auto simp: node_shape_def node_block_simps)
  then show ?thesis
    using assms(1) by (auto simp: drop_new_node_def Let_def file_count_def)
qed

lemma drop_loop_blocks:
  assumes "blocks_exact s" and "set is \<subseteq> {0 ..< length (active_nodes s)}"
  shows "blocks_exact (foldl drop_new_node s is) \<and> config (foldl drop_new_node s is) = config s"
  using assms
proof (induction "is" arbitrary: s)
  case (Cons i "is")
  have b: "blocks_exact (drop_new_node s i)" using drop_new_node_blocks [OF Cons.prems(1)] Cons.prems(2) by simp
  then have "length (active_nodes (drop_new_node s i)) = length (active_nodes s)"
    using config_length Cons.prems(1) by fastforce
  then show ?case
    using Cons.IH [OF b] Cons.prems(2) by simp
qed simp

lemma rollback_snapshot_blocks:
  assumes "blocks_exact s"
  shows "blocks_exact (snd (rollback_snapshot ops s))" "config (snd (rollback_snapshot ops s)) = config s"
proof -
  let ?is = "[0 ..< unat (g_active_max_nodes s)]"
  let ?s1 = "foldl drop_new_node s ?is"
  let ?s2 = "snd (restore_loop ops MFS_NODE_DIR ?is ?s1)"
  have 1: "blocks_exact ?s1 \<and> config ?s1 = config s"
    by (rule drop_loop_blocks [OF assms indices_in_range [OF assms]])
  then have r1: "set ?is \<subseteq> {0 ..< length (active_nodes ?s1)}"
    using indices_in_range [OF assms] config_length [OF assms, of ?s1 "{#}"] by simp
  then have 2: "blocks_exact ?s2 \<and> config ?s2 = config s"
    using restore_loop_blocks 1 by metis
  then have "set ?is \<subseteq> {0 ..< length (active_nodes ?s2)}"
    using indices_in_range [OF assms] config_length [OF assms, of ?s2 "{#}"] by simp
  then have 3: "blocks_exact (snd (restore_loop ops MFS_NODE_FILE ?is ?s2)) \<and> config (snd (restore_loop ops MFS_NODE_FILE ?is ?s2)) = config s"
    using restore_loop_blocks 2 by metis
  show "blocks_exact (snd (rollback_snapshot ops s))" "config (snd (rollback_snapshot ops s)) = config s"
    using assms 2 3 by (simp_all add: rollback_snapshot_def Let_def split_beta)
qed

section \<open>Runs of the file system\<close>

text \<open>The states that the interface of the mounted file system reaches from a state, whatever each call returns.\<close>

inductive mfs_run :: "('d, 'h) block_driver \<Rightarrow> ('d, 'h) mfs_system \<Rightarrow> ('d, 'h) mfs_system \<Rightarrow> bool"
  for ops :: "('d, 'h) block_driver" and s0 :: "('d, 'h) mfs_system" where
  start: "mfs_run ops s0 s0"
| mkdir: "mfs_run ops s0 s \<Longrightarrow> mfs_run ops s0 (snd (create_dir ops s path))"
| writing: "mfs_run ops s0 s \<Longrightarrow> mfs_run ops s0 (snd (write_file ops s path data sz))"
| reading: "mfs_run ops s0 s \<Longrightarrow> mfs_run ops s0 (snd (snd (snd (read_file ops s path buffer sz out))))"
| delete: "mfs_run ops s0 s \<Longrightarrow> mfs_run ops s0 (snd (delete_node ops s path))"
| rename: "mfs_run ops s0 s \<Longrightarrow> mfs_run ops s0 (snd (rename_node ops s old new))"
| commit: "mfs_run ops s0 s \<Longrightarrow> mfs_run ops s0 (snd (commit_snapshot ops s))"
| rollback: "mfs_run ops s0 s \<Longrightarrow> mfs_run ops s0 (snd (rollback_snapshot ops s))"
| open_fd: "mfs_run ops s0 s \<Longrightarrow> mfs_run ops s0 (snd (mutable_fs_open ops s path flags))"
| read_fd: "mfs_run ops s0 s \<Longrightarrow> mfs_run ops s0 (snd (snd (mutable_fs_read_fd ops s fd buffer sz)))"
| write_fd: "mfs_run ops s0 s \<Longrightarrow> mfs_run ops s0 (snd (mutable_fs_write_fd ops s fd buffer sz))"
| close_fd: "mfs_run ops s0 s \<Longrightarrow> mfs_run ops s0 (snd (mutable_fs_close s fd))"
| service_record: "mfs_run ops s0 s \<Longrightarrow> mfs_run ops s0 (snd (mutable_fs_record_service_state ops s name state))"
| workspace_record: "mfs_run ops s0 s \<Longrightarrow> mfs_run ops s0 (snd (mutable_fs_record_workspace_state ops s wid revision))"
| update_record: "mfs_run ops s0 s \<Longrightarrow> mfs_run ops s0 (snd (mutable_fs_record_update_state ops s policy))"
| transaction_record: "mfs_run ops s0 s \<Longrightarrow> mfs_run ops s0 (snd (mutable_fs_record_update_transaction ops s gen state target label))"
| admin_record: "mfs_run ops s0 s \<Longrightarrow> mfs_run ops s0 (snd (mutable_fs_record_admin_status ops s service state starts restarts logs))"

lemma read_file_volume: "same_volume s (snd (snd (snd (read_file ops s path buffer sz out))))"
  by (simp add: read_file_def Let_def read_blocks_def split_beta split: option.splits)
    (simp add: same_volume_def bump_def)

lemma put_handle_volume [simp]: "same_volume s (put_handle s i f)"
  by (simp add: same_volume_def put_handle_def)

lemma holding_handle [simp]: "holding (put_handle s i f) m = holding s m"
  by (rule same_volume_holding) simp

lemma holding_read_file [simp]: "holding (snd (snd (snd (read_file ops s path buffer sz out)))) m = holding s m"
  by (rule same_volume_holding [OF read_file_volume])

lemma touch_file_blocks: "blocks_exact s \<Longrightarrow> blocks_exact (snd (touch_file ops s path needed))"
  by (simp add: touch_file_def write_file_blocks)

lemma claim_handle_blocks: "blocks_exact s \<Longrightarrow> blocks_exact (snd (claim_handle s path flags))"
  by (simp add: claim_handle_def Let_def split: option.splits)

lemma open_blocks: "blocks_exact s \<Longrightarrow> blocks_exact (snd (mutable_fs_open ops s path flags))"
  unfolding mutable_fs_open_def Let_def by (simp add: split_beta touch_file_blocks claim_handle_blocks)

lemma read_fd_blocks: "blocks_exact s \<Longrightarrow> blocks_exact (snd (snd (mutable_fs_read_fd ops s fd buffer sz)))"
  by (simp add: mutable_fs_read_fd_def Let_def split_beta split: option.splits)

lemma write_fd_blocks: "blocks_exact s \<Longrightarrow> blocks_exact (snd (mutable_fs_write_fd ops s fd buffer sz))"
  by (simp add: mutable_fs_write_fd_def Let_def split_beta write_file_blocks split: option.splits)

lemma close_blocks: "blocks_exact s \<Longrightarrow> blocks_exact (snd (mutable_fs_close s fd))"
  by (simp add: mutable_fs_close_def Let_def split: option.splits)

lemma write_record_blocks: "blocks_exact s \<Longrightarrow> blocks_exact (snd (write_record ops s path text))"
  by (simp add: write_record_def Let_def split_beta write_file_blocks)

lemma record_blocks:
  assumes "blocks_exact s"
  shows "blocks_exact (snd (mutable_fs_record_service_state ops s name state))"
    "blocks_exact (snd (mutable_fs_record_workspace_state ops s wid revision))"
    "blocks_exact (snd (mutable_fs_record_update_state ops s policy))"
    "blocks_exact (snd (mutable_fs_record_update_transaction ops s gen state target label))"
    "blocks_exact (snd (mutable_fs_record_admin_status ops s service state starts restarts logs))"
  using assms unfolding mutable_fs_record_service_state_def mutable_fs_record_workspace_state_def mutable_fs_record_update_state_def
    mutable_fs_record_update_transaction_def mutable_fs_record_admin_status_def Let_def
  by (simp_all add: split_beta write_record_blocks del: append_parts.simps)

lemma mfs_run_blocks: "mfs_run ops s0 s \<Longrightarrow> blocks_exact s0 \<Longrightarrow> blocks_exact s"
  by (induction rule: mfs_run.induct)
    (simp_all add: create_dir_blocks write_file_blocks delete_node_blocks rename_node_blocks commit_snapshot_blocks
      rollback_snapshot_blocks open_blocks read_fd_blocks write_fd_blocks close_blocks record_blocks)

definition geometry_ok :: "('d, 'h) mfs_system \<Rightarrow> bool" where
  "geometry_ok s \<longleftrightarrow> (g_active_max_nodes s = MFS_MAX_NODES \<and> g_active_file_max_blocks s = MFS_FILE_MAX_BLOCKS \<and> g_active_data_sectors s = MFS_DATA_SECTORS) \<or>
     (g_active_max_nodes s = MFS_V3_MAX_NODES \<and> g_active_file_max_blocks s = MFS_V3_FILE_MAX_BLOCKS \<and> g_active_data_sectors s = MFS_V3_DATA_SECTORS)"

lemma clear_journal_volume: "same_volume s (snd (clear_journal ops s))"
proof -
  have "same_volume s (snd (blk_write ops (snd (blk_write ops s x u)) y v))"
    "same_volume s (rejected (snd (blk_write ops (snd (blk_write ops s x u)) y v)))" for x y u v
    by (rule same_volume_trans [OF blk_write_volume], rule blk_write_volume same_volume_blk_write(2))+
  then show ?thesis
    by (simp add: clear_journal_def Let_def split_beta blk_write_volume)
qed

lemma format_volume_blocks:
  assumes "geometry_ok s"
  shows "blocks_exact (snd (format_volume ops s))"
proof -
  have clear: "holding (snd (clear_journal ops x)) m = holding x m" for x :: "('a, 'b) mfs_system" and m
    by (rule same_volume_holding [OF clear_journal_volume])
  have "owned_blocks (replicate k zero_node) = {#}" for k
    by (induction k) (simp_all add: owned_blocks_def zero_node_def node_block_simps)
  moreover have "used_of d (replicate 256 0) = {#}" if "d \<le> 256" for d
    using that by (simp add: used_of_def)
  ultimately show ?thesis
    using assms unfolding format_volume_def Let_def
    by (simp add: split_beta clear)
      (auto simp: holding_def volume_shape_def active_nodes_def geometry_ok_def mfs_consts node_shape_def zero_node_def)
qed

section \<open>What the accounting gives\<close>

lemma count_used_of:
  assumes "d \<le> 256"
  shows "count (used_of d bm) b = (if unat b < d \<and> bm ! unat b \<noteq> 0 then 1 else 0)"
proof -
  let ?A = "{i. i < d \<and> bm ! i \<noteq> 0}"
  have inj: "inj_on (of_nat :: nat \<Rightarrow> u16) ?A"
    using assms by (intro inj_onI) (simp add: of_nat_u16_eq)
  then have "used_of d bm = mset_set (of_nat ` ?A)"
    by (simp add: used_of_alt image_mset_mset_set)
  moreover have "b \<in> of_nat ` ?A \<longleftrightarrow> unat b < d \<and> bm ! unat b \<noteq> 0"
    using assms by (auto simp: unat_of_nat_small intro!: image_eqI [of b of_nat "unat b"])
  ultimately show ?thesis by simp
qed

definition snapshots_of :: "xaios_mfs_node list \<Rightarrow> u16 multiset" where
  "snapshots_of ns = sum_list (map (\<lambda>n. mset (snapshot_blocks n)) ns)"

definition files_of :: "xaios_mfs_node list \<Rightarrow> u16 multiset" where
  "files_of ns = sum_list (map (\<lambda>n. mset (file_blocks n)) ns)"

lemma owned_split: "owned_blocks ns = files_of ns + snapshots_of ns"
  by (induction ns) (simp_all add: owned_blocks_def files_of_def snapshots_of_def node_blocks_def ac_simps)

lemma files_of_mem: "b \<in># files_of ns \<longleftrightarrow> (\<exists>n \<in> set ns. b \<in> set (file_blocks n))"
  by (induction ns) (simp_all add: files_of_def)

lemma fsck_referenced_iff:
  assumes "i < 65536"
  shows "fsck_referenced s i \<longleftrightarrow> of_nat i \<in># files_of (active_nodes s)"
proof -
  have "unat b = i \<longleftrightarrow> b = of_nat i" for b :: u16
    using assms by (auto simp: unat_of_nat_small)
  then show ?thesis
    by (auto simp: fsck_referenced_def files_of_mem file_blocks_def file_count_def)
qed

lemma filter_mset_other:
  assumes "\<And>b. count f b + count g b \<le> 1"
  shows "filter_mset (\<lambda>b. b \<notin># f) (f + g) = g"
proof (rule multiset_eqI)
  fix b
  show "count (filter_mset (\<lambda>b. b \<notin># f) (f + g)) b = count g b"
  proof (cases "b \<in># f")
    case True
    then have "count f b > 0" by simp
    then have "count g b = 0" using assms [of b] by linarith
    with True show ?thesis by simp
  next
    case False
    then have "count f b = 0" by (simp add: not_in_iff)
    with False show ?thesis by simp
  qed
qed

lemma used_of_filter: "filter_mset Q (used_of d bm) = mset (map of_nat (filter (\<lambda>i. bm ! i \<noteq> 0 \<and> Q (of_nat i)) [0 ..< d]))"
  by (induction d) (simp_all add: used_of_def)

lemma fsck_errors:
  assumes "blocks_exact s"
  shows "mutable_fs_fsck s = \<lparr>fk_valid = (if snapshots_of (active_nodes s) = {#} then 1 else 0), fk_version = g_active_version s,
    fk_files = node_count_by_type s MFS_NODE_FILE, fk_directories = node_count_by_type s MFS_NODE_DIR,
    fk_blocks_used = block_count_used s, fk_errors = of_nat (size (snapshots_of (active_nodes s)))\<rparr>"
proof -
  let ?d = "unat (g_active_data_sectors s)" and ?bm = "block_bitmap (g_mfs s)" and ?ns = "active_nodes s"
  have d: "?d \<le> 256" and used: "used_of ?d ?bm = files_of ?ns + snapshots_of ?ns"
    using assms by (auto simp: holding_def volume_shape_def owned_split)
  have le1: "count (files_of ?ns) b + count (snapshots_of ?ns) b \<le> 1" for b
    using count_used_of [OF d, of ?bm b] by (simp only: used count_union) simp
  have marked: "?bm ! i \<noteq> 0" if "i < ?d" "(of_nat i :: u16) \<in># files_of ?ns" for i
    using that used d used_of_memD(2) [of "of_nat i" ?d ?bm] by (simp add: unat_of_nat_small)
  let ?bad = "filter (\<lambda>i. (?bm ! i \<noteq> 0) \<noteq> fsck_referenced s i) [0 ..< ?d]"
  have "?bad = filter (\<lambda>i. ?bm ! i \<noteq> 0 \<and> (of_nat i :: u16) \<notin># files_of ?ns) [0 ..< ?d]"
  proof (rule filter_cong [OF refl])
    fix i assume "i \<in> set [0 ..< ?d]"
    then have "i < ?d" "i < 65536" using d by simp_all
    then show "((?bm ! i \<noteq> 0) \<noteq> fsck_referenced s i) = (?bm ! i \<noteq> 0 \<and> (of_nat i :: u16) \<notin># files_of ?ns)"
      using fsck_referenced_iff [of i s] marked [of i] by blast
  qed
  then have "mset (map of_nat ?bad) = filter_mset (\<lambda>b. b \<notin># files_of ?ns) (used_of ?d ?bm)"
    by (simp only: used_of_filter)
  also have "\<dots> = snapshots_of ?ns"
    unfolding used by (rule filter_mset_other [OF le1])
  finally have "size (mset (map (of_nat :: nat \<Rightarrow> u16) ?bad)) = size (snapshots_of ?ns)"
    by (rule arg_cong)
  then have "length ?bad = size (snapshots_of ?ns)"
    by (simp only: size_mset length_map)
  then show ?thesis
    unfolding mutable_fs_fsck_def Let_def by (simp only: size_eq_0_iff_empty)
qed

section \<open>Properties\<close>

text \<open>A driver over sectors in memory, and a volume on it.\<close>

definition ram_driver :: "(u64 \<Rightarrow> u8 list, unit) block_driver" where
  "ram_driver = \<lparr>virtio_block_read_sector = (\<lambda>d sec. Some (d sec)), virtio_block_write_sector = (\<lambda>d sec buf. (XAIOS_OK, d(sec := buf))),
     virtio_block_capacity_sectors = (\<lambda>d. 4096), virtio_block_read_sector_h = (\<lambda>d h sec. Some (d sec)),
     virtio_block_write_sector_h = (\<lambda>d h sec buf. (XAIOS_OK, d(sec := buf))), virtio_block_capacity_sectors_h = (\<lambda>d h. 4096),
     virtio_block_open_slot = (\<lambda>d slot. (XAIOS_OK, (), d)), virtio_block_close = (\<lambda>d h. d)\<rparr>"

definition demo_volume :: "(u64 \<Rightarrow> u8 list, unit) mfs_system" where
  "demo_volume = set_active_v2 \<lparr>fs_disk = (\<lambda>_. replicate 512 0),
     g_mfs = \<lparr>mfs_magic = [], mfs_version = 0, mfs_sector_size = 0, mfs_metadata_sectors = 0, mfs_max_nodes = 0, mfs_start_sector = 0,
       mfs_journal_header_sector = 0, mfs_journal_data_sector = 0, mfs_data_start_sector = 0, mfs_data_sectors = 0, mfs_generation = 0,
       mfs_committed_generation = 0, mfs_stored_checksum = 0, block_bitmap = [], mfs_nodes = []\<rparr>,
     g_open_files = [], g_mounted = 1, g_mount_flags = 1,
     fs_counts = \<lparr>g_mount_count = 0, g_format_count = 0, g_boot_load_count = 0, g_write_count = 0, g_read_count = 0, g_delete_count = 0,
       g_commit_count = 0, g_rollback_count = 0, g_reject_count = 0, g_checksum_error_count = 0, g_allocation_count = 0, g_free_count = 0,
       g_directory_count = 0, g_replay_count = 0, g_journal_write_count = 0, g_multi_sector_file_count = 0, g_state_record_count = 0,
       g_rename_count = 0, g_list_count = 0, g_stat_count = 0, g_open_count = 0, g_close_count = 0, g_persistent_mount_count = 0\<rparr>,
     g_metadata_verified_checksum = 0, g_active_metadata_sectors = 0, g_active_max_nodes = 0, g_active_file_max_blocks = 0,
     g_active_max_file_bytes = 0, g_active_data_sectors = 0, g_active_version = 0, g_persistent_handle = None\<rparr>"

lemma demo_geometry: "geometry_ok demo_volume"
  by (simp add: geometry_ok_def demo_volume_def set_active_v2_def)

text \<open>
  C2: From a freshly formatted volume, whatever sequence of operations runs and whatever the block driver answers, the
  bitmap marks exactly the blocks that an active file or a snapshot owns, and no block has two owners.
\<close>

theorem bitmap_marks_owned_blocks:
  assumes "geometry_ok s0" and "mfs_run ops (snd (format_volume ops s0)) s"
  shows "count (owned_blocks (active_nodes s)) b =
    (if unat b < unat (g_active_data_sectors s) \<and> block_bitmap (g_mfs s) ! unat b \<noteq> 0 then 1 else 0)"
proof -
  have "blocks_exact s"
    using mfs_run_blocks [OF assms(2) format_volume_blocks [OF assms(1)]] .
  then have "owned_blocks (active_nodes s) = used_blocks s" and "unat (g_active_data_sectors s) \<le> 256"
    by (simp_all add: holding_def volume_shape_def)
  then show ?thesis by (simp add: count_used_of)
qed

theorem bitmap_marks_owned_blocks_witness:
  "let s = snd (commit_snapshot ram_driver (snd (write_file ram_driver (snd (format_volume ram_driver demo_volume)) (Some ''/a'') (Some [1]) 1)))
   in count (owned_blocks (active_nodes s)) 0 = (if 0 < unat (g_active_data_sectors s) \<and> block_bitmap (g_mfs s) ! 0 \<noteq> 0 then 1 else 0)"
  unfolding Let_def
  using bitmap_marks_owned_blocks [OF demo_geometry mfs_run.commit [OF mfs_run.writing [OF mfs_run.start]], of ram_driver "Some ''/a''" "Some [1]" 1 0]
  by simp

text \<open>
  C39: The consistency check counts as errors exactly the blocks that snapshots own, in every state the operations reach:
  it reports a valid volume if and only if no snapshot holds a block, although the bitmap is right.
\<close>

theorem fsck_counts_snapshot_blocks:
  assumes "geometry_ok s0" and "mfs_run ops (snd (format_volume ops s0)) s"
  shows "fk_errors (mutable_fs_fsck s) = of_nat (size (snapshots_of (active_nodes s))) \<and>
    (fk_valid (mutable_fs_fsck s) = 1 \<longleftrightarrow> snapshots_of (active_nodes s) = {#})"
  using fsck_errors [OF mfs_run_blocks [OF assms(2) format_volume_blocks [OF assms(1)]]] by simp

theorem fsck_counts_snapshot_blocks_witness:
  "let s = snd (commit_snapshot ram_driver (snd (write_file ram_driver (snd (format_volume ram_driver demo_volume)) (Some ''/a'') (Some [1]) 1)))
   in fk_errors (mutable_fs_fsck s) = of_nat (size (snapshots_of (active_nodes s)))"
  unfolding Let_def
  using fsck_counts_snapshot_blocks [OF demo_geometry mfs_run.commit [OF mfs_run.writing [OF mfs_run.start]], of ram_driver "Some ''/a''" "Some [1]" 1]
  by simp

end
