(* ===== verification/Mfs_Content.thy ===== *)
theory Mfs_Content
  imports Mfs_Blocks
begin

text \<open>
  What a file of the mutable file system contains: on a driver that stores what it is given, writing a file changes the
  contents of that file and of no other.
\<close>

section \<open>The driver\<close>

text \<open>
  A sector that was written successfully reads back as written; a write, successful or not, changes no other sector.
\<close>

definition faithful_driver :: "('d, 'h) block_driver \<Rightarrow> bool" where
  "faithful_driver ops \<longleftrightarrow>
     (\<forall>d sec buf x. x \<noteq> sec \<longrightarrow> virtio_block_read_sector ops (snd (virtio_block_write_sector ops d sec buf)) x = virtio_block_read_sector ops d x) \<and>
     (\<forall>d sec buf. fst (virtio_block_write_sector ops d sec buf) = XAIOS_OK \<longrightarrow>
        virtio_block_read_sector ops (snd (virtio_block_write_sector ops d sec buf)) sec = Some buf) \<and>
     (\<forall>d h sec buf x. x \<noteq> sec \<longrightarrow> virtio_block_read_sector_h ops (snd (virtio_block_write_sector_h ops d h sec buf)) h x = virtio_block_read_sector_h ops d h x) \<and>
     (\<forall>d h sec buf. fst (virtio_block_write_sector_h ops d h sec buf) = XAIOS_OK \<longrightarrow>
        virtio_block_read_sector_h ops (snd (virtio_block_write_sector_h ops d h sec buf)) h sec = Some buf)"

lemma ram_driver_faithful: "faithful_driver ram_driver"
  by (simp add: faithful_driver_def ram_driver_def)

lemma blk_write_read:
  assumes "faithful_driver ops"
  shows "x \<noteq> sec \<Longrightarrow> blk_read ops (snd (blk_write ops s sec buf)) x = blk_read ops s x"
    "fst (blk_write ops s sec buf) = XAIOS_OK \<Longrightarrow> blk_read ops (snd (blk_write ops s sec buf)) sec = Some buf"
  using assms by (auto simp: faithful_driver_def blk_write_def blk_read_def split_beta split: option.splits)

lemma blk_read_cong: "fs_disk s' = fs_disk s \<Longrightarrow> g_persistent_handle s' = g_persistent_handle s \<Longrightarrow> blk_read ops s' x = blk_read ops s x"
  by (simp add: blk_read_def split: option.splits)

lemma blk_read_simps [simp]:
  "blk_read ops (bump u s) x = blk_read ops s x" "blk_read ops (bump_by k u s) x = blk_read ops s x"
  "blk_read ops (next_generation s) x = blk_read ops s x" "blk_read ops (put_inode s i n) x = blk_read ops s x"
  "blk_read ops (set_bitmap s bm) x = blk_read ops s x" "blk_read ops (s\<lparr>g_mfs := v\<rparr>) x = blk_read ops s x"
  unfolding bump_def bump_by_def next_generation_def put_inode_def set_bitmap_def by (rule blk_read_cong; simp)+

lemma blk_read_free [simp]: "blk_read ops (free_blocks s c bl) x = blk_read ops s x"
proof -
  have "blk_read ops (foldl free_block s bs) x = blk_read ops s x" for bs
    by (induction bs rule: rev_induct) (auto simp: free_block_def)
  then show ?thesis by (simp add: free_blocks_def)
qed

lemma blk_read_allocate [simp]: "blk_read ops (snd (snd (allocate_blocks s c))) x = blk_read ops s x"
  by (simp add: allocate_blocks_def Let_def split_beta)

section \<open>The sectors an operation writes\<close>

lemma write_sectors_read:
  assumes "faithful_driver ops" and "\<And>i. i \<in> set is \<Longrightarrow> x \<noteq> MFS_START_SECTOR + of_nat i"
  shows "blk_read ops (snd (write_sectors ops raw is s)) x = blk_read ops s x"
  using assms(2) by (induction "is" arbitrary: s) (simp_all add: split_beta Let_def blk_write_read(1) [OF assms(1)])

text \<open>The sectors of the data area are out of reach of the sixteen sectors of metadata.\<close>

lemma unat_data_sector: "unat (absolute_data_sector b) = 3090 + unat b"
proof -
  have "unat b < 2 ^ LENGTH(16)" by (rule unsigned_less)
  then show ?thesis
    by (simp add: absolute_data_sector_def mfs_consts unat_word_ariths unat_ucast_u16)
qed

lemma unat_metadata_sector: "i < 64 \<Longrightarrow> unat (MFS_START_SECTOR + of_nat i) = 3072 + i"
  by (simp add: mfs_consts unat_word_ariths unat_of_nat_small)

lemma data_sector_not_metadata: "i < 16 \<Longrightarrow> absolute_data_sector b \<noteq> MFS_START_SECTOR + of_nat i"
  using unat_data_sector [of b] unat_metadata_sector [of i] by auto

lemma data_sector_eq: "absolute_data_sector b = absolute_data_sector b' \<longleftrightarrow> b = b'"
  by (metis add_left_cancel unat_data_sector word_eq_unat)

lemma write_metadata_read:
  assumes "faithful_driver ops" and "g_active_metadata_sectors s = 16"
  shows "blk_read ops (snd (write_metadata ops s)) (absolute_data_sector b) = blk_read ops s (absolute_data_sector b)"
  unfolding write_metadata_def Let_def using assms(2)
  by (subst write_sectors_read [OF assms(1)]) (simp_all add: data_sector_not_metadata)

lemma write_loop_read_other:
  assumes "faithful_driver ops" and "b \<notin> set bs"
  shows "blk_read ops (snd (write_loop ops data sz i bs s)) (absolute_data_sector b) = blk_read ops s (absolute_data_sector b)"
  using assms(2)
  by (induction bs arbitrary: s i) (simp_all add: split_beta Let_def blk_write_read(1) [OF assms(1)] data_sector_eq)

definition sector_data :: "u8 list \<Rightarrow> u64 \<Rightarrow> nat \<Rightarrow> u8 list" where
  "sector_data data sz i = write_at 0 (take (block_bytes sz i) (drop (i * 512) data)) (replicate 512 0)"

lemma write_loop_read:
  assumes "faithful_driver ops" and "fst (write_loop ops data sz i bs s) = XAIOS_OK" and "distinct bs" and "k < length bs"
  shows "blk_read ops (snd (write_loop ops data sz i bs s)) (absolute_data_sector (bs ! k)) = Some (sector_data data sz (i + k))"
  using assms(2-4)
proof (induction bs arbitrary: s i k)
  case (Cons b bs)
  let ?w = "blk_write ops s (absolute_data_sector b) (sector_data data sz i)"
  have ok: "fst ?w = XAIOS_OK" and rest: "fst (write_loop ops data sz (i + 1) bs (snd ?w)) = XAIOS_OK"
    using Cons.prems(1) by (simp_all add: split_beta Let_def sector_data_def split: if_splits)
  have eq: "snd (write_loop ops data sz i (b # bs) s) = snd (write_loop ops data sz (i + 1) bs (snd ?w))"
    using ok by (simp add: split_beta Let_def sector_data_def)
  show ?case
  proof (cases k)
    case 0
    then show ?thesis
      using write_loop_read_other [OF assms(1), of b bs] blk_write_read(2) [OF assms(1) ok] Cons.prems(2) eq by simp
  next
    case (Suc j)
    then show ?thesis
      using Cons.IH [OF rest, of j] Cons.prems(2,3) eq by simp
  qed
qed simp

section \<open>Reading a file back\<close>

text \<open>A size that fits sixteen blocks, and the number of blocks it takes.\<close>

lemma block_count_facts:
  assumes "sz \<le> 8192"
  shows "unat (block_count_for_size sz) = (unat sz + 511) div 512"
    "i < (unat sz + 511) div 512 \<Longrightarrow> block_bytes sz i = min 512 (unat sz - i * 512)"
    "i < (unat sz + 511) div 512 \<Longrightarrow> i * 512 < unat sz"
proof -
  have sz: "unat sz \<le> 8192" using assms by (simp add: word_le_nat_alt)
  have "unat (sz + 512 - 1) = unat sz + 511"
    using sz by (simp add: unat_word_ariths add.commute [of sz] unat_add_le flip: add_diff_eq)
  then show "unat (block_count_for_size sz) = (unat sz + 511) div 512"
    using sz by (simp add: block_count_for_size_def mfs_consts unat_div unat_ucast_small)
  assume i: "i < (unat sz + 511) div 512"
  then show lt: "i * 512 < unat sz" by linarith
  have "unat (sz - of_nat i * 512) = unat sz - i * 512"
    using lt sz by (subst unat_sub) (auto simp: word_le_nat_alt unat_word_ariths unat_of_nat_small)
  then show "block_bytes sz i = min 512 (unat sz - i * 512)"
    by (simp add: block_bytes_def mfs_consts word_less_nat_alt min_def)
qed

lemma take_write_at:
  assumes "pos + length xs \<le> length buf" and "take pos buf = take pos data" and "xs = take k (drop pos data)" and "length xs = k"
  shows "take (pos + k) (write_at pos xs buf) = take (pos + k) data"
  using assms write_at_facts(2) [OF assms(1)] by (simp add: take_add)

lemma read_loop_data:
  assumes "sz \<le> 8192" and "unat sz \<le> length data" and "length buf = 8192"
    and "\<And>k. k < length bs \<Longrightarrow> blk_read ops s (absolute_data_sector (bs ! k)) = Some (sector_data data sz (i + k))"
    and "i + length bs \<le> (unat sz + 511) div 512" and "take (min (unat sz) (i * 512)) buf = take (min (unat sz) (i * 512)) data"
  shows "\<exists>buf'. read_loop ops s sz i bs buf = (XAIOS_OK, buf') \<and> length buf' = 8192 \<and>
    take (min (unat sz) ((i + length bs) * 512)) buf' = take (min (unat sz) ((i + length bs) * 512)) data"
  using assms(3-6)
proof (induction bs arbitrary: i buf)
  case Nil
  then show ?case by simp
next
  case (Cons b bs)
  define bb where "bb = min 512 (unat sz - i * 512)"
  have i: "i < (unat sz + 511) div 512" using Cons.prems(3) by simp
  note facts = block_count_facts(2,3) [OF assms(1) i]
  have sz: "unat sz \<le> 8192" using assms(1) by (simp add: word_le_nat_alt)
  have len: "length (take bb (drop (i * 512) data)) = bb"
    using assms(2) by (simp add: bb_def)
  have sector: "take bb (sector_data data sz i) = take bb (drop (i * 512) data)"
    using len facts by (simp add: sector_data_def write_at_def bb_def)
  define buf1 where "buf1 = write_at (i * 512) (take bb (drop (i * 512) data)) buf"
  have fit: "i * 512 + length (take bb (drop (i * 512) data)) \<le> length buf"
    using facts(2) sz Cons.prems(1) len by (simp add: bb_def)
  have next_len: "i * 512 + bb = min (unat sz) ((i + 1) * 512)"
    using facts(2) by (simp add: bb_def)
  have "take (i * 512) buf = take (i * 512) data"
    using Cons.prems(4) facts(2) by (simp add: min_def split: if_splits)
  then have take1: "take (min (unat sz) ((i + 1) * 512)) buf1 = take (min (unat sz) ((i + 1) * 512)) data"
    using take_write_at [OF fit _ refl len] next_len by (simp add: buf1_def)
  have len1: "length buf1 = 8192"
    using write_at_facts(1) [OF fit] Cons.prems(1) by (simp add: buf1_def)
  have rest: "blk_read ops s (absolute_data_sector (bs ! k)) = Some (sector_data data sz (i + 1 + k))" if "k < length bs" for k
    using Cons.prems(2) [of "Suc k"] that by simp
  have "read_loop ops s sz i (b # bs) buf = read_loop ops s sz (i + 1) bs buf1"
    using Cons.prems(2) [of 0] facts(1) sector by (simp add: buf1_def bb_def)
  then show ?case
    using Cons.IH [of buf1 "i + 1", OF len1 rest _ take1] Cons.prems(3) by simp
qed

lemma read_loop_cong:
  "(\<And>b. b \<in> set bs \<Longrightarrow> blk_read ops s' (absolute_data_sector b) = blk_read ops s (absolute_data_sector b)) \<Longrightarrow>
   read_loop ops s' sz i bs buf = read_loop ops s sz i bs buf"
  by (induction bs arbitrary: i buf) (simp_all split: option.splits)

section \<open>The contents of the files\<close>

text \<open>What reading a path into a buffer of the maximal size gives.\<close>

definition file_contents :: "('d, 'h) block_driver \<Rightarrow> ('d, 'h) mfs_system \<Rightarrow> string \<Rightarrow> u8 list option" where
  "file_contents ops s path =
     (let (st, buf, out_size, s1) = read_file ops s (Some path) (Some (replicate 8192 0)) 8192 True
      in if st = XAIOS_OK then Some (take (unat (the out_size)) (the buf)) else None)"

text \<open>The same value from the node alone.\<close>

definition node_contents :: "('d, 'h) block_driver \<Rightarrow> ('d, 'h) mfs_system \<Rightarrow> xaios_mfs_node \<Rightarrow> u8 list option" where
  "node_contents ops s n =
     (if nd_active n = 0 \<or> nd_type n \<noteq> MFS_NODE_FILE \<or> nd_size n > 8192 then None
      else let (st, buf) = read_loop ops s (nd_size n) 0 (take (unat (nd_block_count n)) (nd_blocks n)) (replicate 8192 0)
           in if st = XAIOS_OK \<and> fnv1a64 (take (unat (nd_size n)) buf) = nd_content_hash n then Some (take (unat (nd_size n)) buf) else None)"

lemma file_contents_node:
  "file_contents ops s path =
     (if g_mounted s = 0 \<or> validate_path (Some path) \<noteq> XAIOS_OK then None
      else case find_node s path False of None \<Rightarrow> None | Some i \<Rightarrow> node_contents ops s (inode_at s i))"
  by (simp add: file_contents_def read_file_def node_contents_def read_blocks_def Let_def split_beta split: option.splits)

lemma node_contents_cong:
  assumes "\<And>b. b \<in> set (file_blocks n) \<Longrightarrow> blk_read ops s' (absolute_data_sector b) = blk_read ops s (absolute_data_sector b)"
  shows "node_contents ops s' n = node_contents ops s n"
proof (cases "nd_active n = 0 \<or> nd_type n \<noteq> MFS_NODE_FILE")
  case False
  then have "read_loop ops s' (nd_size n) 0 (take (unat (nd_block_count n)) (nd_blocks n)) (replicate 8192 0) =
      read_loop ops s (nd_size n) 0 (take (unat (nd_block_count n)) (nd_blocks n)) (replicate 8192 0)"
    using assms by (intro read_loop_cong) (simp add: file_blocks_def file_count_def)
  then show ?thesis by (simp add: node_contents_def)
qed (auto simp: node_contents_def)

lemma str_eq_iff [simp]: "str_eq a b \<longleftrightarrow> a = b"
  by (induction a b rule: str_eq.induct) auto

lemma find_slot_update_other:
  assumes "\<not> P (xs ! i)" and "\<not> P y"
  shows "find_slot P (xs[i := y]) = find_slot P xs"
  using assms
proof (induction xs arbitrary: i)
  case (Cons x xs)
  then show ?case by (cases i) auto
qed simp

text \<open>A valid path has at most 95 characters, none of them NUL, and survives the copy into a node.\<close>

lemma NUL_not_path_char [simp]: "\<not> path_char_ok (CHR 0x00)"
  by (simp add: path_char_ok_def)

lemma validate_loop_ok:
  "validate_loop n i sl cs = XAIOS_OK \<Longrightarrow> length cs < n \<and> CHR 0x00 \<notin> set cs"
  by (induction n i sl cs rule: validate_loop.induct) (auto split: if_splits)

lemma valid_path_copy:
  assumes "validate_path (Some p) = XAIOS_OK"
  shows "cstr_of (copy_path dst p) = p"
proof -
  have p: "length p < 96" "CHR 0x00 \<notin> set p"
    using assms validate_loop_ok [of 96 0 True p] by (auto simp: validate_path_def MFS_PATH_MAX_def split: if_splits)
  then have "takeWhile (\<lambda>c. c \<noteq> CHR 0x00) (p @ CHR 0x00 # rest) = p" for rest
    by (subst takeWhile_append2) auto
  with p show ?thesis
    by (simp add: cstr_of_def copy_path_def write_at_def MFS_PATH_MAX_def)
qed

section \<open>Writing a file\<close>

lemma used_excludes_new:
  assumes "blocks_exact s" and "allocate_blocks s c = (XAIOS_OK, bl, s1)"
  shows "b \<in># used_blocks s \<Longrightarrow> b \<notin> set (take (unat c) bl)" "distinct (take (unat c) bl)"
proof -
  have h: "holding s1 (mset (take (unat c) bl))" and "active_nodes s1 = active_nodes s"
    using allocate_blocks_spec [OF assms] by simp_all
  then have "used_blocks s1 = used_blocks s + mset (take (unat c) bl)"
    using assms(1) by (simp add: holding_def)
  moreover have "unat (g_active_data_sectors s1) \<le> 256"
    using h by (simp add: holding_def volume_shape_def)
  then have "count (used_blocks s1) b \<le> 1" for b
    by (simp only: count_used_of) simp
  ultimately have le: "count (used_blocks s) b + count (mset (take (unat c) bl)) b \<le> 1" for b
    by (metis count_union)
  have pos: "1 \<le> count (mset (take (unat c) bl)) b" if "b \<in> set (take (unat c) bl)" for b
    using that by (simp only: count_greater_eq_one_iff set_mset_mset)
  show "b \<notin> set (take (unat c) bl)" if "b \<in># used_blocks s"
  proof
    assume "b \<in> set (take (unat c) bl)"
    moreover have "1 \<le> count (used_blocks s) b" using that by (simp only: count_greater_eq_one_iff)
    ultimately show False using le [of b] pos [of b] by linarith
  qed
  have "count (mset (take (unat c) bl)) b = (if b \<in> set (take (unat c) bl) then 1 else 0)" for b
  proof (cases "b \<in> set (take (unat c) bl)")
    case True
    have "count (mset (take (unat c) bl)) b = 1" using pos [OF True] le [of b] by linarith
    with True show ?thesis by simp
  next
    case False
    then show ?thesis by (simp only: count_eq_zero_iff set_mset_mset) simp
  qed
  then show "distinct (take (unat c) bl)"
    by (simp only: distinct_count_atmost_1) blast
qed

lemma file_blocks_used:
  assumes "blocks_exact s" and "n \<in> set (active_nodes s)" and "b \<in> set (file_blocks n)"
  shows "b \<in># used_blocks s"
proof -
  have "b \<in># files_of (active_nodes s)" using assms(2,3) files_of_mem by blast
  then show ?thesis using assms(1) by (simp add: holding_def owned_split)
qed

text \<open>States with the same nodes and the same contents of every block in use have the same files.\<close>

lemma file_contents_same_nodes:
  assumes "blocks_exact s" and "active_nodes s' = active_nodes s" and "g_mounted s' = g_mounted s"
    and "\<And>b. b \<in># used_blocks s \<Longrightarrow> blk_read ops s' (absolute_data_sector b) = blk_read ops s (absolute_data_sector b)"
  shows "file_contents ops s' q = file_contents ops s q"
proof (cases "find_node s q False")
  case None
  then show ?thesis using assms(2,3) by (simp add: file_contents_node find_node_def)
next
  case (Some i)
  note i = find_node_bound [OF Some]
  have "inode_at s i \<in> set (active_nodes s)"
    using active_nodes_put(2) [OF i] i by (metis nth_mem)
  then have "node_contents ops s' (inode_at s i) = node_contents ops s (inode_at s i)"
    using assms(1,4) file_blocks_used by (intro node_contents_cong) blast
  moreover have "inode_at s' i = inode_at s i" "find_node s' q False = Some i"
    using active_nodes_put(2) [of i s'] active_nodes_put(2) [of i s] i assms(2) Some by (simp_all add: find_node_def)
  ultimately show ?thesis using Some assms(3) by (simp add: file_contents_node)
qed

lemma write_blocks_read_other:
  assumes "faithful_driver ops" and "b \<notin> set (take (unat c) bl)"
  shows "blk_read ops (snd (write_blocks ops s bl c data sz)) (absolute_data_sector b) = blk_read ops s (absolute_data_sector b)"
  unfolding write_blocks_def by (rule write_loop_read_other [OF assms])

text \<open>The node that a write stores, and the state around it.\<close>

lemma store_file_effect:
  assumes "faithful_driver ops" and "g_active_metadata_sectors s = 16" and "i < length (active_nodes s)"
    and "store_file ops s i path c bl data sz = (st, s')"
  shows "\<exists>n. active_nodes s' = (active_nodes s)[i := n] \<and> nd_active n = 1 \<and> nd_type n = MFS_NODE_FILE \<and> nd_size n = sz \<and>
      nd_content_hash n = fnv1a64 data \<and> nd_block_count n = c \<and> nd_blocks n = bl \<and> nd_path n = copy_path (nd_path (inode_at s i)) path"
    "g_mounted s' = g_mounted s"
    "blk_read ops s' (absolute_data_sector b) = blk_read ops s (absolute_data_sector b)"
proof -
  let ?n = "inode_at s i"
  let ?s1 = "free_blocks s (file_count ?n) (nd_blocks ?n)"
  let ?n' = "?n\<lparr>nd_active := 1, nd_type := MFS_NODE_FILE, nd_size := sz, nd_content_hash := fnv1a64 data,
     nd_generation := mfs_generation (g_mfs ?s1), nd_block_count := c, nd_path := copy_path (nd_path ?n) path, nd_blocks := bl\<rparr>"
  let ?s2 = "next_generation (put_inode ?s1 i ?n')"
  let ?s3 = "bump g_write_count_update (if c > 1 then bump g_multi_sector_file_count_update ?s2 else ?s2)"
  have s': "s' = snd (write_metadata ops ?s3)"
    using assms(4) unfolding store_file_def Let_def free_file_blocks by (metis snd_conv)
  have cfg: "config ?s3 = config s" by simp
  have "active_nodes s' = active_nodes ?s3"
    unfolding s' using same_volume_node [OF write_metadata_volume] by blast
  also have "\<dots> = (active_nodes s)[i := ?n']"
    using active_nodes_put(1) [of i ?s1 ?n'] assms(3) by simp
  finally show "\<exists>n. active_nodes s' = (active_nodes s)[i := n] \<and> nd_active n = 1 \<and> nd_type n = MFS_NODE_FILE \<and> nd_size n = sz \<and>
      nd_content_hash n = fnv1a64 data \<and> nd_block_count n = c \<and> nd_blocks n = bl \<and> nd_path n = copy_path (nd_path (inode_at s i)) path"
    by (intro exI [of _ ?n']) simp
  have "config s' = config s" unfolding s' using cfg by simp
  then show "g_mounted s' = g_mounted s" by (simp add: config_def)
  have "g_active_metadata_sectors ?s3 = 16"
    using cfg assms(2) by (simp add: config_def)
  then show "blk_read ops s' (absolute_data_sector b) = blk_read ops s (absolute_data_sector b)"
    unfolding s' by (subst write_metadata_read [OF assms(1)]) simp_all
qed

lemma node_contents_written:
  assumes "faithful_driver ops" and "sz \<le> 8192" and "unat sz \<le> length data" and "nd_active n = 1" and "nd_type n = MFS_NODE_FILE"
    and "nd_size n = sz" and "nd_content_hash n = fnv1a64 (take (unat sz) data)" and "nd_block_count n = block_count_for_size sz"
    and "length (nd_blocks n) = 16" and "distinct (take (unat (block_count_for_size sz)) (nd_blocks n))"
    and "fst (write_blocks ops s (nd_blocks n) (block_count_for_size sz) (take (unat sz) data) sz) = XAIOS_OK"
    and "\<And>b. blk_read ops s' (absolute_data_sector b) =
        blk_read ops (snd (write_blocks ops s (nd_blocks n) (block_count_for_size sz) (take (unat sz) data) sz)) (absolute_data_sector b)"
  shows "node_contents ops s' n = Some (take (unat sz) data)"
proof -
  let ?d = "take (unat sz) data" and ?c = "unat (block_count_for_size sz)"
  let ?bs = "take ?c (nd_blocks n)"
  note count = block_count_facts(1) [OF assms(2)]
  have sz: "unat sz \<le> 8192" using assms(2) by (simp add: word_le_nat_alt)
  have c: "?c \<le> 16" "unat sz \<le> ?c * 512" using count sz by auto
  have len: "length ?bs = ?c" using c(1) assms(9) by simp
  have rd: "blk_read ops s' (absolute_data_sector (?bs ! k)) = Some (sector_data ?d sz (0 + k))" if "k < length ?bs" for k
    using write_loop_read [OF assms(1) _ assms(10) that, of ?d sz 0 s] assms(11,12) by (simp only: write_blocks_def)
  obtain buf where "read_loop ops s' sz 0 ?bs (replicate 8192 0) = (XAIOS_OK, buf)" "take (min (unat sz) (?c * 512)) buf = take (min (unat sz) (?c * 512)) ?d"
    using read_loop_data [OF assms(2), of ?d "replicate 8192 0" ?bs ops s' 0, OF _ _ rd] assms(3) count len by auto
  then show ?thesis
    using assms(2,4-8) c(2) by (simp add: node_contents_def min_absorb1)
qed

text \<open>The slot a write uses: the first visible node of the path, else a free one.\<close>

definition target_slot :: "('d, 'h) mfs_system \<Rightarrow> string \<Rightarrow> nat option" where
  "target_slot s path = (case find_node s path True of Some i \<Rightarrow> Some i | None \<Rightarrow> find_free_node s)"

lemma target_slotD:
  assumes "target_slot s path = Some i"
  shows "i < length (active_nodes s)" "nd_active (active_nodes s ! i) \<noteq> 0 \<Longrightarrow> node_path (active_nodes s ! i) = path"
    "j < i \<Longrightarrow> nd_active (active_nodes s ! j) = 0 \<or> node_path (active_nodes s ! j) \<noteq> path"
proof -
  consider "find_node s path True = Some i" | "find_node s path True = None" "find_free_node s = Some i"
    using assms by (auto simp: target_slot_def split: option.splits)
  then have "i < length (active_nodes s) \<and> (nd_active (active_nodes s ! i) \<noteq> 0 \<longrightarrow> node_path (active_nodes s ! i) = path) \<and>
    (\<forall>j < i. nd_active (active_nodes s ! j) = 0 \<or> node_path (active_nodes s ! j) \<noteq> path)"
  proof cases
    case 1
    then show ?thesis unfolding find_node_def by (auto dest!: find_slot_SomeD)
  next
    case 2
    then have "i < length (active_nodes s)" "nd_active (active_nodes s ! i) = 0"
      unfolding find_free_node_def by (auto dest!: find_slot_SomeD)
    moreover have "\<forall>j < length (active_nodes s). nd_active (active_nodes s ! j) = 0 \<or> node_path (active_nodes s ! j) \<noteq> path"
      using 2(1) unfolding find_node_def find_slot_None_iff by (auto simp: all_set_conv_all_nth)
    ultimately show ?thesis by simp
  qed
  then show "i < length (active_nodes s)" "nd_active (active_nodes s ! i) \<noteq> 0 \<Longrightarrow> node_path (active_nodes s ! i) = path"
    "j < i \<Longrightarrow> nd_active (active_nodes s ! j) = 0 \<or> node_path (active_nodes s ! j) \<noteq> path"
    by blast+
qed

lemma find_node_store:
  assumes "target_slot s path = Some i" and "active_nodes s' = (active_nodes s)[i := n]" and "nd_active n = 1" and "node_path n = path"
  shows "find_node s' path False = Some i" "q \<noteq> path \<Longrightarrow> find_node s' q False = find_node s q False"
proof -
  note t = target_slotD [OF assms(1)]
  show "find_node s' path False = Some i"
    unfolding find_node_def assms(2) using t assms(3,4)
    by (intro find_slot_SomeI) (auto simp: nth_list_update)
  show "find_node s' q False = find_node s q False" if "q \<noteq> path"
    unfolding find_node_def assms(2) using t(2) assms(3,4) that
    by (intro find_slot_update_other) auto
qed

lemma mounted_bump [simp]: "g_mounted (bump u s) = g_mounted s"
  by (simp add: bump_def)

lemma write_file_cases:
  assumes "faithful_driver ops" and exact: "blocks_exact s" and wr: "write_file ops s (Some p) (Some d) sz = (st, s')"
  obtains (kept) "st \<noteq> XAIOS_OK" "active_nodes s' = active_nodes s" "g_mounted s' = g_mounted s"
      "\<And>b. b \<in># used_blocks s \<Longrightarrow> blk_read ops s' (absolute_data_sector b) = blk_read ops s (absolute_data_sector b)"
    | (stored) bl s1 s2 i where "validate_path (Some p) = XAIOS_OK" "g_mounted s \<noteq> 0" "sz \<le> g_active_max_file_bytes s"
      "allocate_blocks s (block_count_for_size sz) = (XAIOS_OK, bl, s1)"
      "write_blocks ops s1 bl (block_count_for_size sz) (take (unat sz) d) sz = (XAIOS_OK, s2)" "active_nodes s2 = active_nodes s"
      "target_slot s p = Some i" "store_file ops s2 i p (block_count_for_size sz) bl (take (unat sz) d) sz = (st, s')"
proof -
  let ?c = "block_count_for_size sz" and ?d = "take (unat sz) d"
  let ?bad = "\<not> writable_mount s \<or> validate_path (Some p) \<noteq> XAIOS_OK \<or> \<not> parent_exists_for s p \<or> sz > g_active_max_file_bytes s"
  obtain st1 bl s1 where al: "allocate_blocks s ?c = (st1, bl, s1)" by (metis prod_cases3)
  obtain st2 s2 where wb: "write_blocks ops s1 bl ?c ?d sz = (st2, s2)" by fastforce
  have n1: "active_nodes s1 = active_nodes s" using allocate_blocks_spec(1) [OF exact al] .
  have n2: "active_nodes s2 = active_nodes s"
    using same_volume_node [OF write_blocks_volume [of s1 ops bl ?c ?d sz]] wb n1 by simp
  have cfg: "g_mounted s1 = g_mounted s" "g_mounted s2 = g_mounted s"
    using config_allocate [of s ?c] config_write_blocks [of ops s1 bl ?c ?d sz] al wb by (simp_all add: config_def)
  have m1: "g_mounted (free_blocks s2 ?c bl) = g_mounted s"
    using config_free [of s2 ?c bl] cfg by (simp add: config_def)
  have rd: "blk_read ops s2 (absolute_data_sector b) = blk_read ops s (absolute_data_sector b)"
    if "st1 = XAIOS_OK" "b \<in># used_blocks s" for b
    using write_blocks_read_other [OF assms(1), of b ?c bl s1 ?d sz] used_excludes_new(1) [OF exact, of ?c bl s1 b] that al wb
      blk_read_allocate [of ops s ?c] by simp
  have rd1: "blk_read ops s1 x = blk_read ops s x" for x
    using blk_read_allocate [of ops s ?c x] al by simp
  have fn: "find_node s2 p True = find_node s p True" "find_free_node s2 = find_free_node s"
    using n2 by (simp_all add: find_node_def find_free_node_def)
  consider "?bad" | "\<not> ?bad" "st1 \<noteq> XAIOS_OK" | "\<not> ?bad" "st1 = XAIOS_OK" "st2 \<noteq> XAIOS_OK" | "\<not> ?bad" "st1 = XAIOS_OK" "st2 = XAIOS_OK"
    by blast
  then show thesis
  proof cases
    case 1
    then have "st = XAIOS_ERR_INVALID" "s' = rejected s"
      using wr by (auto simp: write_file_def)
    then show thesis by (intro kept) simp_all
  next
    case 2
    then have "st = XAIOS_ERR_NO_MEMORY" "s' = s1"
      using wr al by (simp_all add: write_file_def)
    then show thesis using n1 cfg rd1 by (intro kept) simp_all
  next
    case 3
    then have "st = XAIOS_ERR_IO" "s' = free_blocks s2 ?c bl"
      using wr al wb by (simp_all add: write_file_def)
    then show thesis using n2 m1 rd 3 by (intro kept) simp_all
  next
    case 4
    let ?clash = "\<exists>i. find_node s p True = Some i \<and> nd_active (inode_at s2 i) \<noteq> 0 \<and> nd_type (inode_at s2 i) \<noteq> MFS_NODE_FILE"
    show thesis
    proof (cases "?clash \<or> target_slot s p = None")
      case True
      then have "st \<noteq> XAIOS_OK" "s' = rejected (free_blocks s2 ?c bl)"
        using wr al wb 4 fn by (auto simp: write_file_def target_slot_def split: option.splits if_splits)
      then show thesis using n2 m1 rd 4 by (intro kept) simp_all
    next
      case False
      then obtain i where i: "target_slot s p = Some i" by blast
      then have "store_file ops s2 i p ?c bl ?d sz = (st, s')"
        using wr al wb 4 fn False by (auto simp: write_file_def target_slot_def split: option.splits if_splits)
      then show thesis using i 4 al wb n2 by (intro stored) (auto simp: not_less)
    qed
  qed
qed

lemma write_file_contents:
  assumes "faithful_driver ops" and exact: "blocks_exact s" and "g_active_metadata_sectors s = 16" and "g_active_max_file_bytes s = 8192"
    and "unat sz \<le> length d" and wr: "write_file ops s (Some p) (Some d) sz = (st, s')"
  shows "q \<noteq> p \<Longrightarrow> file_contents ops s' q = file_contents ops s q"
    "st = XAIOS_OK \<Longrightarrow> file_contents ops s' p = Some (take (unat sz) d)"
proof -
  have "(q \<noteq> p \<longrightarrow> file_contents ops s' q = file_contents ops s q) \<and> (st = XAIOS_OK \<longrightarrow> file_contents ops s' p = Some (take (unat sz) d))"
    using assms(1) exact wr
  proof (cases rule: write_file_cases)
    case kept
    then show ?thesis using file_contents_same_nodes [OF exact kept(2,3,4)] by blast
  next
    case (stored bl s1 s2 i)
    let ?c = "block_count_for_size sz" and ?d = "take (unat sz) d"
    have cfg2: "config s2 = config s"
      using config_allocate [of s ?c] config_write_blocks [of ops s1 bl ?c ?d sz] stored(4,5) by simp
    have i: "i < length (active_nodes s2)" using target_slotD(1) [OF stored(7)] stored(6) by simp
    have meta: "g_active_metadata_sectors s2 = 16" using cfg2 assms(3) by (simp add: config_def)
    note eff = store_file_effect [OF assms(1) meta i stored(8)]
    obtain n where n: "active_nodes s' = (active_nodes s)[i := n]" "nd_active n = 1" "nd_type n = MFS_NODE_FILE" "nd_size n = sz"
        "nd_content_hash n = fnv1a64 ?d" "nd_block_count n = ?c" "nd_blocks n = bl" "nd_path n = copy_path (nd_path (inode_at s2 i)) p"
      using eff(1) stored(6) by auto
    have path: "node_path n = p" using valid_path_copy [OF stored(1)] n(8) by (simp add: node_path_def)
    note find = find_node_store [OF stored(7) n(1,2) path]
    have mounted: "g_mounted s' = g_mounted s" using eff(2) cfg2 by (simp add: config_def)
    have at: "inode_at s' j = (active_nodes s)[i := n] ! j" if "j < length (active_nodes s)" for j
      using active_nodes_put(2) [of j s'] that n(1) by simp
    have old: "blk_read ops s' (absolute_data_sector b) = blk_read ops s (absolute_data_sector b)" if "b \<in># used_blocks s" for b
      using eff(3) [of b] write_blocks_read_other [OF assms(1), of b ?c bl s1 ?d sz] used_excludes_new(1) [OF exact stored(4) that] stored(4,5)
        blk_read_allocate [of ops s ?c] by simp
    have "file_contents ops s' q = file_contents ops s q" if q: "q \<noteq> p"
    proof (cases "find_node s q False")
      case None
      then show ?thesis using find(2) [OF q] mounted by (simp add: file_contents_node)
    next
      case (Some j)
      have j: "j < length (active_nodes s)" "nd_active (active_nodes s ! j) \<noteq> 0" "node_path (active_nodes s ! j) = q"
        using find_slot_SomeD [OF Some [unfolded find_node_def]] by auto
      then have "j \<noteq> i" using target_slotD(2) [OF stored(7)] q by auto
      then have same: "inode_at s' j = inode_at s j" "inode_at s j \<in> set (active_nodes s)"
        using at [OF j(1)] active_nodes_put(2) [OF j(1)] j(1) by (simp_all, metis nth_mem)
      have "node_contents ops s' (inode_at s j) = node_contents ops s (inode_at s j)"
        using old file_blocks_used [OF exact same(2)] by (intro node_contents_cong) blast
      then show ?thesis using find(2) [OF q] Some same(1) mounted by (simp add: file_contents_node)
    qed
    moreover have "node_contents ops s' n = Some ?d"
      using stored(3-5) assms(4) n used_excludes_new(2) [OF exact stored(4)] eff(3) allocate_blocks_spec(2) [OF exact stored(4)]
      by (intro node_contents_written [OF assms(1) _ assms(5), where s = s1]) simp_all
    then have "file_contents ops s' p = Some ?d"
      using find(1) at [of i] i stored(1,2,6) mounted by (simp add: file_contents_node)
    ultimately show ?thesis by blast
  qed
  then show "q \<noteq> p \<Longrightarrow> file_contents ops s' q = file_contents ops s q"
    "st = XAIOS_OK \<Longrightarrow> file_contents ops s' p = Some (take (unat sz) d)"
    by blast+
qed

section \<open>Reachable states\<close>

lemma config_handle [simp]: "config (put_handle s i f) = config s"
  by (simp add: config_def put_handle_def)

lemma config_read_file [simp]: "config (snd (snd (snd (read_file ops s path buffer sz out)))) = config s"
  by (simp add: read_file_def Let_def split_beta split: option.splits)

lemma config_touch_file [simp]: "config (snd (touch_file ops s path needed)) = config s"
  by (simp add: touch_file_def)

lemma config_claim_handle [simp]: "config (snd (claim_handle s path flags)) = config s"
  by (simp add: claim_handle_def Let_def split: option.splits)

lemma config_descriptors [simp]:
  "config (snd (mutable_fs_open ops s path flags)) = config s"
  "config (snd (snd (mutable_fs_read_fd ops s fd buffer sz))) = config s"
  "config (snd (mutable_fs_write_fd ops s fd buffer sz)) = config s"
  "config (snd (mutable_fs_close s fd)) = config s"
  unfolding mutable_fs_open_def mutable_fs_read_fd_def mutable_fs_write_fd_def mutable_fs_close_def Let_def
  by (simp_all add: split_beta split: option.splits)

lemma config_write_record [simp]: "config (snd (write_record ops s path text)) = config s"
  by (simp add: write_record_def Let_def split_beta)

lemma config_records [simp]:
  "config (snd (mutable_fs_record_service_state ops s name state)) = config s"
  "config (snd (mutable_fs_record_workspace_state ops s wid revision)) = config s"
  "config (snd (mutable_fs_record_update_state ops s policy)) = config s"
  "config (snd (mutable_fs_record_update_transaction ops s gen state target label)) = config s"
  "config (snd (mutable_fs_record_admin_status ops s service state starts restarts logs)) = config s"
  unfolding mutable_fs_record_service_state_def mutable_fs_record_workspace_state_def mutable_fs_record_update_state_def
    mutable_fs_record_update_transaction_def mutable_fs_record_admin_status_def Let_def
  by (simp_all add: split_beta del: append_parts.simps)

lemma mfs_run_config:
  assumes "mfs_run ops s0 s" and "blocks_exact s0"
  shows "blocks_exact s \<and> config s = config s0"
  using assms
  by (induction rule: mfs_run.induct)
    (simp_all add: create_dir_blocks write_file_blocks delete_node_blocks rename_node_blocks commit_snapshot_blocks
      rollback_snapshot_blocks open_blocks read_fd_blocks write_fd_blocks close_blocks record_blocks)

lemma config_format [simp]: "config (snd (format_volume ops s)) = config s"
  by (simp add: format_volume_def clear_journal_def Let_def split_beta)

lemma geometry_v2: "geometry_ok (set_active_v2 s)"
  by (simp add: geometry_ok_def set_active_v2_def)

lemma reached_volume:
  assumes "mfs_run ops (snd (format_volume ops (set_active_v2 s0))) s"
  shows "blocks_exact s" "g_active_metadata_sectors s = 16" "g_active_max_file_bytes s = 8192" "g_mounted s = g_mounted s0"
proof -
  have "blocks_exact s \<and> config s = config (set_active_v2 s0)"
    using mfs_run_config [OF assms format_volume_blocks [OF geometry_v2]] by simp
  then show "blocks_exact s" "g_active_metadata_sectors s = 16" "g_active_max_file_bytes s = 8192" "g_mounted s = g_mounted s0"
    by (simp_all add: config_def set_active_v2_def mfs_consts)
qed

section \<open>A volume in memory\<close>

lemma ram_write [simp]: "fst (blk_write ram_driver s x buf) = XAIOS_OK"
  by (simp add: blk_write_def ram_driver_def split: option.splits)

lemma ram_write_sectors [simp]: "fst (write_sectors ram_driver raw is s) = XAIOS_OK"
  by (induction "is" arbitrary: s) (simp_all add: split_beta Let_def)

lemma ram_write_metadata [simp]: "fst (write_metadata ram_driver s) = XAIOS_OK"
  by (simp add: write_metadata_def Let_def)

lemma ram_write_blocks [simp]: "fst (write_blocks ram_driver s bl c data sz) = XAIOS_OK"
proof -
  have "fst (write_loop ram_driver data sz i bs s) = XAIOS_OK" for bs i
    by (induction bs arbitrary: s i) (simp_all add: split_beta Let_def)
  then show ?thesis by (simp add: write_blocks_def)
qed

lemma ram_store_file [simp]: "fst (store_file ram_driver s i path c bl data sz) = XAIOS_OK"
  by (simp add: store_file_def Let_def)

definition demo_formatted :: "(u64 \<Rightarrow> u8 list, unit) mfs_system" where
  "demo_formatted = snd (format_volume ram_driver demo_volume)"

lemma demo_formatted_facts:
  "active_nodes demo_formatted = replicate 32 zero_node" "block_bitmap (g_mfs demo_formatted) = replicate 256 0"
  "g_mounted demo_formatted = 1" "g_mount_flags demo_formatted = 1" "g_active_max_file_bytes demo_formatted = 8192"
  "g_active_data_sectors demo_formatted = 96" "g_active_file_max_blocks demo_formatted = 16"
proof -
  define v where "v = bump g_format_count_update (demo_volume\<lparr>g_mfs :=
          \<lparr>mfs_magic = take MFS_MAGIC_LEN MFS_MAGIC, mfs_version = g_active_version demo_volume, mfs_sector_size = ucast MFS_SECTOR_SIZE,
           mfs_metadata_sectors = g_active_metadata_sectors demo_volume, mfs_max_nodes = g_active_max_nodes demo_volume,
           mfs_start_sector = MFS_START_SECTOR,
           mfs_journal_header_sector = MFS_JOURNAL_HEADER_SECTOR, mfs_journal_data_sector = MFS_JOURNAL_DATA_SECTOR,
           mfs_data_start_sector = MFS_DATA_START_SECTOR, mfs_data_sectors = ucast (g_active_data_sectors demo_volume), mfs_generation = 1,
           mfs_committed_generation = 0, mfs_stored_checksum = 0, block_bitmap = replicate 256 0, mfs_nodes = replicate 64 zero_node\<rparr>\<rparr>)"
  have "fst (clear_journal ram_driver v) = XAIOS_OK"
    by (simp add: clear_journal_def Let_def split_beta)
  then have "demo_formatted = snd (write_metadata ram_driver (snd (clear_journal ram_driver v)))"
    by (simp add: demo_formatted_def format_volume_def Let_def split_beta v_def)
  then have sv: "same_volume v demo_formatted"
    using same_volume_trans [OF clear_journal_volume [of v ram_driver] write_metadata_volume [of _ ram_driver]] by simp
  have nodes: "mfs_nodes (g_mfs v) = replicate 64 zero_node" "block_bitmap (g_mfs v) = replicate 256 0" "g_active_max_nodes v = 32"
    by (simp_all add: v_def bump_def demo_volume_def set_active_v2_def mfs_consts)
  show "active_nodes demo_formatted = replicate 32 zero_node" "block_bitmap (g_mfs demo_formatted) = replicate 256 0"
    using sv nodes by (simp_all add: same_volume_def active_nodes_def)
  have "config demo_formatted = config demo_volume" by (simp add: demo_formatted_def)
  then show "g_mounted demo_formatted = 1" "g_mount_flags demo_formatted = 1" "g_active_max_file_bytes demo_formatted = 8192"
    "g_active_data_sectors demo_formatted = 96" "g_active_file_max_blocks demo_formatted = 16"
    by (simp_all add: config_def demo_volume_def set_active_v2_def mfs_consts)
qed

lemma demo_find: "find_node demo_formatted q sn = None" "find_free_node demo_formatted = Some 0"
  by (simp_all add: find_node_def find_free_node_def demo_formatted_facts find_slot_replicate zero_node_def)

lemma demo_path: "validate_path (Some ''/a'') = XAIOS_OK" "parent_path_of ''/a'' = ''/''" "validate_path (Some ''/b'') = XAIOS_OK" "parent_path_of ''/b'' = ''/''"
  by code_simp+

lemma demo_allocate: "fst (allocate_blocks demo_formatted 1) = XAIOS_OK"
proof -
  have "[0 ..< 96] = 0 # [1 ..< 96]" by (simp add: upt_rec)
  moreover have "alloc_loop 1 is bm [b] = (bm, [b])" for "is" bm b by (cases "is") simp_all
  ultimately show ?thesis
    by (simp add: allocate_blocks_def demo_formatted_facts del: upt_rec_numeral)
qed

lemma demo_write_ok: "fst (write_file ram_driver demo_formatted (Some ''/a'') (Some [1, 2]) 2) = XAIOS_OK"
proof -
  obtain bl s1 where al: "allocate_blocks demo_formatted 1 = (XAIOS_OK, bl, s1)"
    using demo_allocate by (metis prod.collapse)
  have "active_nodes s1 = replicate 32 zero_node"
    using allocate_blocks_spec(1) [OF _ al, of "{#}"] demo_formatted_facts(1) format_volume_blocks [OF demo_geometry, of ram_driver]
    by (simp add: demo_formatted_def)
  then have "active_nodes (snd (write_blocks ram_driver s1 bl 1 [1, 2] 2)) = replicate 32 zero_node"
    using same_volume_node [OF write_blocks_volume [of s1 ram_driver bl 1 "[1, 2]" 2]] by simp
  then have "find_node (snd (write_blocks ram_driver s1 bl 1 [1, 2] 2)) ''/a'' True = None"
    "find_free_node (snd (write_blocks ram_driver s1 bl 1 [1, 2] 2)) = Some 0"
    by (simp_all add: find_node_def find_free_node_def find_slot_replicate zero_node_def)
  moreover have "block_count_for_size 2 = 1" by (simp add: block_count_for_size_def MFS_SECTOR_SIZE_def)
  moreover have "parent_exists_for demo_formatted ''/a''" by (simp add: parent_exists_for_def demo_path)
  ultimately show ?thesis
    using al by (simp add: write_file_def demo_formatted_facts demo_path MFS_MOUNT_READ_WRITE_def split_beta Let_def)
qed

section \<open>Properties\<close>



end
