(* ===== verification/Paged_Kv.thy ===== *)
theory Paged_Kv
  imports Kheap_Paging
begin

text \<open>
  The paged key/value cache of \<^verbatim>\<open>kernel/runtime/paged_kv_cache.c\<close>. The block array and
  the sequence table are lists, the index arrays are functions guarded by their C
  bounds; the key and value memory lives in the kernel heap and is written there.
  \<open>None\<close> stands for a failed kernel assertion, an access outside an array, or a heap
  operation that does not return. Log lines are left out.
\<close>

definition XAIOS_KV_MAX_BLOCKS_PER_SEQ :: u32 where
  "XAIOS_KV_MAX_BLOCKS_PER_SEQ = 8192"

definition XAIOS_KV_MAX_SEQUENCES :: nat where
  "XAIOS_KV_MAX_SEQUENCES = 64"

record xaios_kv_block =
  block_id :: u32
  key_cache :: u64
  value_cache :: u64
  ref_count :: u32
  token_count :: u32

record xaios_kv_sequence =
  sq_id :: u32
  num_blocks :: u32
  block_indices :: "u32 \<Rightarrow> u32"
  total_tokens :: u32
  sq_head_dim :: u32
  sq_num_heads :: u32
  kv_bytes_allocated :: u64

record xaios_paged_kv_cache =
  cache_id :: u32
  num_blocks_total :: u32
  num_blocks_free :: u32
  block_size :: u32
  head_dim :: u32
  num_heads :: u32
  bytes_per_block :: u64
  kv_blocks :: "xaios_kv_block list"
  free_block_count :: u32
  free_block_indices :: "u32 \<Rightarrow> u32"
  sequences :: "xaios_kv_sequence list"
  num_sequences :: u32
  allocation_count :: u64
  eviction_count :: u64
  hit_count :: u64
  miss_count :: u64

section \<open>Initialisation\<close>

text \<open>
  The loop over the blocks. The array comes from the heap uninitialised: \<open>raw\<close> is what it
  held. When an allocation fails the pointers of the remaining blocks are cleared.
\<close>

definition kv_zero :: "u64 \<Rightarrow> u64 \<Rightarrow> kheap_state \<Rightarrow> kheap_state" where
  "kv_zero ptr sz h = h\<lparr>kh_bytes := (\<lambda>a. if a - ptr < sz then 0 else kh_bytes h a)\<rparr>"

definition without_caches :: "xaios_kv_block \<Rightarrow> xaios_kv_block" where
  "without_caches b = b\<lparr>key_cache := 0, value_cache := 0\<rparr>"

fun init_blocks :: "kernel_image \<Rightarrow> u64 \<Rightarrow> u32 \<Rightarrow> xaios_kv_block list \<Rightarrow> kheap_state \<Rightarrow>
    (xaios_status \<times> xaios_kv_block list \<times> kheap_state) option" where
  "init_blocks img half_bytes i [] h = Some (XAIOS_OK, [], h)"
| "init_blocks img half_bytes i (b # raw) h =
     (case kheap_alloc img h half_bytes 4096 of
        None \<Rightarrow> None
      | Some (k, h1) \<Rightarrow>
          (case kheap_alloc img h1 half_bytes 4096 of
             None \<Rightarrow> None
           | Some (v, h2) \<Rightarrow>
               let b1 = b\<lparr>block_id := i, ref_count := 0, token_count := 0, key_cache := k, value_cache := v\<rparr>
               in if k = 0 \<or> v = 0
                  then Some (XAIOS_ERR_NO_MEMORY, without_caches b1 # List.map without_caches raw, h2)
                  else case init_blocks img half_bytes (i + 1) raw
                              (kv_zero v half_bytes (kv_zero k half_bytes h2)) of
                         None \<Rightarrow> None
                       | Some (st, bs, h3) \<Rightarrow> Some (st, b1 # bs, h3)))"

definition fresh_sequence :: "u32 \<Rightarrow> u32 \<Rightarrow> u32 \<Rightarrow> xaios_kv_sequence \<Rightarrow> xaios_kv_sequence" where
  "fresh_sequence hdim nh i q = q\<lparr>sq_id := i, num_blocks := 0, total_tokens := 0, sq_head_dim := hdim,
     sq_num_heads := nh, kv_bytes_allocated := 0\<rparr>"

definition kv_bytes :: "u32 \<Rightarrow> u32 \<Rightarrow> u64" where
  "kv_bytes hdim bsize = (2 * ucast hdim * ucast bsize * 4 + 4096 - 1) AND NOT (4096 - 1)"

text \<open>The size of one array element is 32 bytes: two words, two pointers, two words.\<close>

definition paged_kv_cache_init :: "kernel_image \<Rightarrow> (u32 \<Rightarrow> xaios_kv_block) \<Rightarrow> xaios_paged_kv_cache \<Rightarrow> kheap_state \<Rightarrow>
    u32 \<Rightarrow> u32 \<Rightarrow> u32 \<Rightarrow> u32 \<Rightarrow> u32 \<Rightarrow> (xaios_status \<times> xaios_paged_kv_cache \<times> kheap_state) option" where
  "paged_kv_cache_init img raw c0 h cid nblocks hdim nheads bsize =
     (if nblocks = 0 \<or> hdim = 0 then None
      else let c1 = c0\<lparr>cache_id := cid, num_blocks_total := nblocks, num_blocks_free := nblocks,
                       block_size := bsize, head_dim := hdim, num_heads := nheads,
                       bytes_per_block := kv_bytes hdim bsize\<rparr>
      in case kheap_alloc img h (ucast nblocks * 32) 64 of
           None \<Rightarrow> None
         | Some (p, h1) \<Rightarrow>
             if p = 0 then Some (XAIOS_ERR_NO_MEMORY, c1\<lparr>kv_blocks := []\<rparr>, h1)
             else (case init_blocks img (bytes_per_block c1 div 2) 0
                         (List.map (raw \<circ> of_nat) [0..<unat nblocks]) h1 of
                    None \<Rightarrow> None
                  | Some (st, bs, h2) \<Rightarrow>
                      if st \<noteq> XAIOS_OK then Some (st, c1\<lparr>kv_blocks := bs\<rparr>, h2)
                      else if XAIOS_KV_MAX_BLOCKS_PER_SEQ < nblocks then None
                      else Some (XAIOS_OK,
                        c1\<lparr>kv_blocks := bs, free_block_count := nblocks,
                           free_block_indices := (\<lambda>i. if i < nblocks then i else free_block_indices c0 i),
                           num_sequences := 0,
                           sequences := List.map (\<lambda>(i, q). fresh_sequence hdim nheads (of_nat i) q)
                             (List.enumerate 0 (sequences c0)),
                           allocation_count := 0, eviction_count := 0, hit_count := 0, miss_count := 0\<rparr>, h2)))"

definition emptied_sequence :: "xaios_kv_sequence \<Rightarrow> xaios_kv_sequence" where
  "emptied_sequence q = q\<lparr>num_blocks := 0, total_tokens := 0\<rparr>"

definition idle_block :: "xaios_kv_block \<Rightarrow> xaios_kv_block" where
  "idle_block b = b\<lparr>ref_count := 0, token_count := 0\<rparr>"

definition paged_kv_cache_destroy :: "xaios_paged_kv_cache \<Rightarrow> xaios_paged_kv_cache option" where
  "paged_kv_cache_destroy c =
     (if length (sequences c) < unat (num_sequences c) \<or>
         length (kv_blocks c) < unat (num_blocks_total c) \<or>
         XAIOS_KV_MAX_BLOCKS_PER_SEQ < num_blocks_total c then None
      else Some (c\<lparr>
        sequences := List.map emptied_sequence (take (unat (num_sequences c)) (sequences c)) @
                     drop (unat (num_sequences c)) (sequences c),
        num_sequences := 0, free_block_count := num_blocks_total c,
        free_block_indices := (\<lambda>i. if i < num_blocks_total c then i else free_block_indices c i),
        kv_blocks := List.map idle_block (take (unat (num_blocks_total c)) (kv_blocks c)) @
                     drop (unat (num_blocks_total c)) (kv_blocks c)\<rparr>))"

section \<open>Blocks and sequences\<close>

definition find_sequence :: "xaios_paged_kv_cache \<Rightarrow> u32 \<Rightarrow> nat option" where
  "find_sequence c i = find_slot (\<lambda>q. sq_id q = i \<and> 0 < num_blocks q) (sequences c)"

definition update_block :: "u32 \<Rightarrow> (xaios_kv_block \<Rightarrow> xaios_kv_block) \<Rightarrow> xaios_paged_kv_cache \<Rightarrow>
    xaios_paged_kv_cache option" where
  "update_block i f c =
     (if unat i < length (kv_blocks c)
      then Some (c\<lparr>kv_blocks := (kv_blocks c)[unat i := f (kv_blocks c ! unat i)]\<rparr>) else None)"

definition update_sequence :: "nat \<Rightarrow> (xaios_kv_sequence \<Rightarrow> xaios_kv_sequence) \<Rightarrow> xaios_paged_kv_cache \<Rightarrow>
    xaios_paged_kv_cache" where
  "update_sequence i f c = c\<lparr>sequences := (sequences c)[i := f (sequences c ! i)]\<rparr>"

definition allocate_block :: "xaios_paged_kv_cache \<Rightarrow> (u32 \<times> xaios_paged_kv_cache) option" where
  "allocate_block c =
     (if free_block_count c = 0 then Some (UINT32_MAX, c)
      else if XAIOS_KV_MAX_BLOCKS_PER_SEQ < free_block_count c then None
      else let i = free_block_indices c (free_block_count c - 1)
      in case update_block i (ref_count_update (\<lambda>_. 1)) (c\<lparr>free_block_count := free_block_count c - 1\<rparr>) of
           None \<Rightarrow> None
         | Some c1 \<Rightarrow> Some (i, c1\<lparr>allocation_count := allocation_count c + 1\<rparr>))"

definition free_kv_block :: "xaios_paged_kv_cache \<Rightarrow> u32 \<Rightarrow> xaios_paged_kv_cache option" where
  "free_kv_block c i =
     (if \<not> i < num_blocks_total c then None
      else case update_block i idle_block c of
        None \<Rightarrow> None
      | Some c1 \<Rightarrow>
          if \<not> free_block_count c < XAIOS_KV_MAX_BLOCKS_PER_SEQ then None
          else Some (c1\<lparr>free_block_indices := (free_block_indices c)(free_block_count c := i),
                        free_block_count := free_block_count c + 1\<rparr>))"

definition paged_kv_cache_create_sequence :: "xaios_paged_kv_cache \<Rightarrow> xaios_status \<times> u32 option \<times> xaios_paged_kv_cache" where
  "paged_kv_cache_create_sequence c =
     (case find_slot (\<lambda>q. num_blocks q = 0) (sequences c) of
        None \<Rightarrow> (XAIOS_ERR_NO_MEMORY, None, c)
      | Some slot \<Rightarrow>
          (XAIOS_OK, Some (of_nat slot),
           (update_sequence slot (\<lambda>q. q\<lparr>sq_id := of_nat slot, num_blocks := 0, total_tokens := 0,
              kv_bytes_allocated := 0\<rparr>) c)\<lparr>num_sequences := num_sequences c + 1\<rparr>))"

fun drop_references :: "u32 list \<Rightarrow> xaios_paged_kv_cache \<Rightarrow> xaios_paged_kv_cache option" where
  "drop_references [] c = Some c"
| "drop_references (i # rest) c =
     (case update_block i (ref_count_update (\<lambda>n. n - 1)) c of
        None \<Rightarrow> None
      | Some c1 \<Rightarrow>
          (case (if ref_count (kv_blocks c1 ! unat i) = 0 then free_kv_block c1 i else Some c1) of
             None \<Rightarrow> None
           | Some c2 \<Rightarrow> drop_references rest c2))"

definition sequence_blocks :: "xaios_kv_sequence \<Rightarrow> u32 list" where
  "sequence_blocks q = List.map (block_indices q \<circ> of_nat) [0..<unat (num_blocks q)]"

definition paged_kv_cache_destroy_sequence :: "xaios_paged_kv_cache \<Rightarrow> u32 \<Rightarrow>
    (xaios_status \<times> xaios_paged_kv_cache) option" where
  "paged_kv_cache_destroy_sequence c i =
     (case find_sequence c i of
        None \<Rightarrow> Some (XAIOS_ERR_INVALID, c)
      | Some slot \<Rightarrow>
          (case drop_references (sequence_blocks (sequences c ! slot)) c of
             None \<Rightarrow> None
           | Some c1 \<Rightarrow>
               Some (XAIOS_OK,
                 (update_sequence slot (\<lambda>q. q\<lparr>num_blocks := 0, total_tokens := 0, kv_bytes_allocated := 0\<rparr>) c1)
                   \<lparr>num_sequences := num_sequences c1 - 1, eviction_count := eviction_count c1 + 1\<rparr>)))"

section \<open>Appending tokens\<close>

text \<open>The current block of a sequence: its last one while it has room, else a new one.\<close>

definition current_block :: "xaios_paged_kv_cache \<Rightarrow> nat \<Rightarrow> ((xaios_status + u32) \<times> xaios_paged_kv_cache) option" where
  "current_block c slot =
     (let q = sequences c ! slot;
          cur = (if 0 < num_blocks q then block_indices q (num_blocks q - 1) else UINT32_MAX)
      in if cur \<noteq> UINT32_MAX \<and> \<not> unat cur < length (kv_blocks c) then None
         else if cur \<noteq> UINT32_MAX \<and> token_count (kv_blocks c ! unat cur) < block_size c
         then Some (Inr cur, c)
         else case allocate_block c of
           None \<Rightarrow> None
         | Some (i, c1) \<Rightarrow>
             if i = UINT32_MAX then Some (Inl XAIOS_ERR_NO_MEMORY, c1)
             else if XAIOS_KV_MAX_BLOCKS_PER_SEQ \<le> num_blocks q
             then (case free_kv_block c1 i of None \<Rightarrow> None | Some c2 \<Rightarrow> Some (Inl XAIOS_ERR_NO_MEMORY, c2))
             else (case update_block i (token_count_update (\<lambda>_. 0))
                     (update_sequence slot (\<lambda>q. q\<lparr>block_indices := (block_indices q)(num_blocks q := i),
                        num_blocks := num_blocks q + 1\<rparr>) c1) of
                None \<Rightarrow> None | Some c2 \<Rightarrow> Some (Inr i, c2)))"

definition kv_copy :: "u64 \<Rightarrow> u64 \<Rightarrow> (u64 \<Rightarrow> u8) \<Rightarrow> u64 \<Rightarrow> kheap_state \<Rightarrow> kheap_state" where
  "kv_copy dst len src off h =
     h\<lparr>kh_bytes := (\<lambda>a. if a - dst < len then src (off + (a - dst)) else kh_bytes h a)\<rparr>"

text \<open>
  One round of the loop: the number of tokens copied, with the updated cache and heap.
  A round copies at least one token or, when \<open>block_size\<close> is zero, takes a block, so the
  fuel of the caller is the number of tokens plus the number of free blocks and one.
\<close>

definition append_round :: "nat \<Rightarrow> (u64 \<Rightarrow> u8) \<Rightarrow> (u64 \<Rightarrow> u8) \<Rightarrow> u32 \<Rightarrow> u64 \<Rightarrow> xaios_paged_kv_cache \<Rightarrow> kheap_state \<Rightarrow>
    ((xaios_status + u32) \<times> xaios_paged_kv_cache \<times> kheap_state) option" where
  "append_round slot keys vals remaining off c h =
     (case current_block c slot of
        None \<Rightarrow> None
      | Some (Inl e, c1) \<Rightarrow> Some (Inl e, c1, h)
      | Some (Inr i, c1) \<Rightarrow>
          let b = kv_blocks c1 ! unat i;
              space = block_size c1 - token_count b;
              n = (if remaining < space then remaining else space);
              bytes_per_token = ucast (head_dim c1) * 4;
              copy_bytes = ucast n * bytes_per_token;
              at = ucast (token_count b) * bytes_per_token;
              h1 = kv_copy (key_cache b + at) copy_bytes keys off h;
              h2 = kv_copy (value_cache b + at) copy_bytes vals off h1
          in case update_block i (token_count_update (\<lambda>t. t + n)) c1 of
               None \<Rightarrow> None
             | Some c2 \<Rightarrow> Some (Inr n, update_sequence slot (total_tokens_update (\<lambda>t. t + n)) c2, h2))"

fun append_loop :: "nat \<Rightarrow> nat \<Rightarrow> (u64 \<Rightarrow> u8) \<Rightarrow> (u64 \<Rightarrow> u8) \<Rightarrow> u32 \<Rightarrow> u64 \<Rightarrow> xaios_paged_kv_cache \<Rightarrow> kheap_state \<Rightarrow>
    (xaios_status \<times> xaios_paged_kv_cache \<times> kheap_state) option" where
  "append_loop fuel slot keys vals remaining off c h =
     (if remaining = 0 then Some (XAIOS_OK, c, h)
      else case fuel of 0 \<Rightarrow> None
      | Suc fuel' \<Rightarrow>
          (case append_round slot keys vals remaining off c h of
             None \<Rightarrow> None
           | Some (Inl e, c1, h1) \<Rightarrow> Some (e, c1, h1)
           | Some (Inr n, c1, h1) \<Rightarrow>
               append_loop fuel' slot keys vals (remaining - n) (off + ucast n * (ucast (head_dim c1) * 4)) c1 h1))"

definition paged_kv_cache_append_tokens :: "xaios_paged_kv_cache \<Rightarrow> kheap_state \<Rightarrow> u32 \<Rightarrow> (u64 \<Rightarrow> u8) \<Rightarrow> (u64 \<Rightarrow> u8) \<Rightarrow>
    u32 \<Rightarrow> (xaios_status \<times> xaios_paged_kv_cache \<times> kheap_state) option" where
  "paged_kv_cache_append_tokens c h i keys vals n =
     (case find_sequence c i of
        None \<Rightarrow> Some (XAIOS_ERR_INVALID, c, h)
      | Some slot \<Rightarrow>
          (case append_loop (unat n + unat (free_block_count c) + 1) slot keys vals n 0 c h of
             Some (XAIOS_OK, c1, h1) \<Rightarrow>
               Some (XAIOS_OK, update_sequence slot (\<lambda>q. q\<lparr>kv_bytes_allocated :=
                  ucast (num_blocks q) * bytes_per_block c1\<rparr>) c1, h1)
           | r \<Rightarrow> r))"

section \<open>Queries\<close>

definition paged_kv_cache_get_block_table :: "xaios_paged_kv_cache \<Rightarrow> u32 \<Rightarrow> xaios_status + u32 list" where
  "paged_kv_cache_get_block_table c i =
     (case find_sequence c i of None \<Rightarrow> Inl XAIOS_ERR_INVALID
      | Some slot \<Rightarrow> Inr (sequence_blocks (sequences c ! slot)))"

definition paged_kv_cache_get_token_count :: "xaios_paged_kv_cache \<Rightarrow> u32 \<Rightarrow> u32" where
  "paged_kv_cache_get_token_count c i =
     (case find_sequence c i of None \<Rightarrow> 0 | Some slot \<Rightarrow> total_tokens (sequences c ! slot))"

definition paged_kv_cache_get_stats :: "xaios_paged_kv_cache \<Rightarrow> u64 \<times> u64 \<times> u64 \<times> u64 \<times> u32" where
  "paged_kv_cache_get_stats c =
     (allocation_count c, eviction_count c, hit_count c, miss_count c, free_block_count c)"

section \<open>Reachable caches\<close>

text \<open>The caches a client can build: a successful initialisation, then any calls.\<close>

inductive kv_reach :: "kernel_image \<Rightarrow> xaios_paged_kv_cache \<Rightarrow> kheap_state \<Rightarrow> bool" for img where
  kv_start: "length (sequences c0) = XAIOS_KV_MAX_SEQUENCES \<Longrightarrow>
    paged_kv_cache_init img raw c0 h cid n hdim nh bs = Some (XAIOS_OK, c, h') \<Longrightarrow> kv_reach img c h'"
| kv_create: "kv_reach img c h \<Longrightarrow> paged_kv_cache_create_sequence c = (st, i, c') \<Longrightarrow> kv_reach img c' h"
| kv_drop: "kv_reach img c h \<Longrightarrow> paged_kv_cache_destroy_sequence c i = Some (st, c') \<Longrightarrow> kv_reach img c' h"
| kv_append: "kv_reach img c h \<Longrightarrow> paged_kv_cache_append_tokens c h i ks vs n = Some (st, c', h') \<Longrightarrow> kv_reach img c' h'"
| kv_destroy: "kv_reach img c h \<Longrightarrow> paged_kv_cache_destroy c = Some c' \<Longrightarrow> kv_reach img c' h"

definition kv_unused :: "xaios_paged_kv_cache \<Rightarrow> bool" where
  "kv_unused c \<longleftrightarrow> length (sequences c) = XAIOS_KV_MAX_SEQUENCES \<and> (\<forall>q\<in>set (sequences c). num_blocks q = 0) \<and>
     free_block_count c = num_blocks_total c"

lemma find_sequence_unused: "kv_unused c \<Longrightarrow> find_sequence c i = None"
  by (auto simp: find_sequence_def kv_unused_def scan_simps)

lemma append_unused: "kv_unused c \<Longrightarrow> paged_kv_cache_append_tokens c h i keys vals n = Some (XAIOS_ERR_INVALID, c, h)"
  by (simp add: paged_kv_cache_append_tokens_def find_sequence_unused)

lemma destroy_unused: "kv_unused c \<Longrightarrow> paged_kv_cache_destroy_sequence c i = Some (XAIOS_ERR_INVALID, c)"
  by (simp add: paged_kv_cache_destroy_sequence_def find_sequence_unused)

lemma find_empty_slot: "kv_unused c \<Longrightarrow> find_slot (\<lambda>q. num_blocks q = 0) (sequences c) = Some 0"
  by (cases "sequences c") (auto simp: kv_unused_def XAIOS_KV_MAX_SEQUENCES_def)

lemma unused_create: "kv_unused c \<Longrightarrow> paged_kv_cache_create_sequence c = (st, i, c') \<Longrightarrow> kv_unused c' \<and> st = XAIOS_OK \<and> i = Some 0"
  by (auto simp: paged_kv_cache_create_sequence_def find_empty_slot)
     (auto simp: kv_unused_def update_sequence_def XAIOS_KV_MAX_SEQUENCES_def dest!: set_update_subset_insert [THEN subsetD])

lemma unused_init:
  assumes "length (sequences c0) = XAIOS_KV_MAX_SEQUENCES"
    and "paged_kv_cache_init img raw c0 h cid n hdim nh bs = Some (XAIOS_OK, c, h')"
  shows "kv_unused c"
  using assms by (auto simp: paged_kv_cache_init_def kv_unused_def Let_def fresh_sequence_def
      split: if_splits option.splits prod.splits)

lemma unused_destroy: "kv_unused c \<Longrightarrow> paged_kv_cache_destroy c = Some c' \<Longrightarrow> kv_unused c'"
  by (auto simp: paged_kv_cache_destroy_def kv_unused_def emptied_sequence_def split: if_splits) (metis in_set_dropD)

lemma kv_reach_unused: "kv_reach img c h \<Longrightarrow> kv_unused c"
  by (induction rule: kv_reach.induct)
     (auto simp: append_unused destroy_unused dest: unused_init unused_create unused_destroy)

text \<open>
  C40: No cache that a client can build ever stores a token: a new sequence has no block,
  and every other operation looks only at sequences that have one. Appending, the block
  table and destruction answer with the invalid code and change nothing, every creation
  hands out sequence 0 again, and all blocks stay free.
\<close>

theorem kv_cache_never_stores:
  assumes "kv_reach img c h"
  shows "paged_kv_cache_append_tokens c h i keys vals n = Some (XAIOS_ERR_INVALID, c, h) \<and>
    paged_kv_cache_destroy_sequence c i = Some (XAIOS_ERR_INVALID, c) \<and>
    paged_kv_cache_get_block_table c i = Inl XAIOS_ERR_INVALID \<and>
    paged_kv_cache_get_token_count c i = 0 \<and>
    (\<exists>c'. paged_kv_cache_create_sequence c = (XAIOS_OK, Some 0, c') \<and> num_sequences c' = num_sequences c + 1) \<and>
    free_block_count c = num_blocks_total c"
proof -
  have u: "kv_unused c" by (rule kv_reach_unused [OF assms])
  then have "free_block_count c = num_blocks_total c" by (simp add: kv_unused_def)
  then show ?thesis
    by (simp add: append_unused destroy_unused u paged_kv_cache_get_block_table_def paged_kv_cache_get_token_count_def
        find_sequence_unused paged_kv_cache_create_sequence_def find_empty_slot update_sequence_def)
qed

definition demo_cache :: xaios_paged_kv_cache where
  "demo_cache = \<lparr>cache_id = 0, num_blocks_total = 0, num_blocks_free = 0, block_size = 0, head_dim = 0, num_heads = 0,
     bytes_per_block = 0, kv_blocks = [], free_block_count = 0, free_block_indices = (\<lambda>_. 0),
     sequences = replicate 64 \<lparr>sq_id = 0, num_blocks = 0, block_indices = (\<lambda>_. 0), total_tokens = 0,
       sq_head_dim = 0, sq_num_heads = 0, kv_bytes_allocated = 0\<rparr>, num_sequences = 0, allocation_count = 0,
     eviction_count = 0, hit_count = 0, miss_count = 0\<rparr>"

lemma free_scan_end: "free_scan hs sz al prev best 0 = Some best"
  by (subst free_scan.simps) simp

lemma free_scan_take:
  "cur \<noteq> 0 \<Longrightarrow> sz \<le> kh_size (hs cur) \<Longrightarrow> (cur + KHEAP_HEADER_SIZE) AND (al - 1) = 0 \<Longrightarrow>
   free_scan hs sz al prev best cur = free_scan hs sz al (Next_Link cur)
     (case best of None \<Rightarrow> Some (cur, prev)
      | Some (b, l) \<Rightarrow> if kh_size (hs cur) < kh_size (hs b) then Some (cur, prev) else best) (kh_next_free (hs cur))"
  by (subst free_scan.simps) simp

definition demo_free_heap :: kheap_state where
  "demo_free_heap = demo_heap\<lparr>g_free_list := 0x4affeff0,
     kh_headers := (\<lambda>a. if a = 0x4affeff0 then \<lparr>kh_size = 4096, kh_next_free = 0x4affdff0\<rparr>
       else if a = 0x4affdff0 then \<lparr>kh_size = 4096, kh_next_free = 0x4affcff0\<rparr>
       else \<lparr>kh_size = 4096, kh_next_free = 0\<rparr>)\<rparr>"

lemma demo_kv_allocs:
  obtains h1 h2 h3 where "kheap_alloc img demo_free_heap 32 64 = Some (0x4afff000, h1)"
    "kheap_alloc img h1 2048 4096 = Some (0x4affe000, h2)" "kheap_alloc img h2 2048 4096 = Some (0x4affd000, h3)"
  by (simp add: kheap_alloc_def demo_free_heap_def free_scan_end free_scan_take KHEAP_HEADER_SIZE_def take_block_def set_link_def Let_def)

lemma demo_kv_init:
  "\<exists>c h. paged_kv_cache_init img (\<lambda>_. \<lparr>block_id = 0, key_cache = 0, value_cache = 0, ref_count = 0, token_count = 0\<rparr>)
     demo_cache demo_free_heap 1 1 1 1 1 = Some (XAIOS_OK, c, h)"
proof -
  obtain h1 h2 h3 where "kheap_alloc img demo_free_heap 32 64 = Some (0x4afff000, h1)"
    "kheap_alloc img h1 2048 4096 = Some (0x4affe000, h2)" "kheap_alloc img h2 2048 4096 = Some (0x4affd000, h3)"
    by (rule demo_kv_allocs)
  then show ?thesis by (simp add: paged_kv_cache_init_def kv_bytes_def XAIOS_KV_MAX_BLOCKS_PER_SEQ_def)
qed

theorem kv_cache_never_stores_witness:
  "\<exists>c h. kv_reach demo_image c h \<and>
     paged_kv_cache_append_tokens c h 0 (\<lambda>_. 7) (\<lambda>_. 9) 1 = Some (XAIOS_ERR_INVALID, c, h)"
proof -
  obtain c h where "paged_kv_cache_init demo_image
     (\<lambda>_. \<lparr>block_id = 0, key_cache = 0, value_cache = 0, ref_count = 0, token_count = 0\<rparr>)
     demo_cache demo_free_heap 1 1 1 1 1 = Some (XAIOS_OK, c, h)" using demo_kv_init by metis
  then have "kv_reach demo_image c h"
    by (rule kv_start [rotated]) (simp add: demo_cache_def XAIOS_KV_MAX_SEQUENCES_def)
  then show ?thesis using kv_cache_never_stores by blast
qed

end
