(* ===== verification/Ipv4.thy ===== *)
theory Ipv4
  imports Prelude
begin

text \<open>
  \<^verbatim>\<open>kernel/net/ipv4.c\<close>: big-endian fields, the Internet checksum, the header builder, the
  check of incoming frames, fragmentation and reassembly. A frame is the list of its bytes;
  a pointer into it is an offset. \<open>None\<close> stands for an access outside a buffer.
\<close>

section \<open>Fields\<close>

definition put_be16 :: "u16 \<Rightarrow> u8 list" where
  "put_be16 v = [ucast (drop_bit 8 v), ucast v]"

definition put_be32 :: "u32 \<Rightarrow> u8 list" where
  "put_be32 v = [ucast (drop_bit 24 v), ucast (drop_bit 16 v), ucast (drop_bit 8 v), ucast v]"

definition get_be16 :: "u8 list \<Rightarrow> nat \<Rightarrow> u16" where
  "get_be16 f i = push_bit 8 (ucast (f ! i)) OR ucast (f ! (i + 1))"

definition get_be32 :: "u8 list \<Rightarrow> nat \<Rightarrow> u32" where
  "get_be32 f i = push_bit 24 (ucast (f ! i)) OR push_bit 16 (ucast (f ! (i + 1))) OR
     push_bit 8 (ucast (f ! (i + 2))) OR ucast (f ! (i + 3))"

section \<open>The checksum\<close>

fun sum_words :: "u64 \<Rightarrow> u8 list \<Rightarrow> u64" where
  "sum_words acc (a # b # r) = sum_words (acc + (push_bit 8 (ucast a) OR ucast b)) r"
| "sum_words acc [a] = acc + push_bit 8 (ucast a)"
| "sum_words acc [] = acc"

lemma unat_low16: "unat ((s :: u64) AND 0xffff) = unat s mod 65536"
proof -
  have "s AND 0xffff = take_bit 16 s" by (simp add: take_bit_eq_mask mask_eq_exp_minus_1)
  then show ?thesis by (simp add: unsigned_take_bit_eq take_bit_eq_mod [where 'a = nat])
qed

lemma unat_high16: "unat (drop_bit 16 (s :: u64)) = unat s div 65536"
  by (simp add: unat_drop_bit_eq drop_bit_eq_div [where 'a = nat])

lemma unat_fold_step: "unat ((s AND 0xffff) + drop_bit 16 (s :: u64)) = unat s mod 65536 + unat s div 65536"
proof -
  have "unat s < 2 ^ LENGTH(64)" by (rule unsigned_less)
  then have "unat s div 65536 < 2 ^ 48" by (simp add: div_less_iff_less_mult)
  then show ?thesis by (simp add: unat_word_ariths unat_low16 unat_high16)
qed

function fold_sum :: "u64 \<Rightarrow> u64" where
  "fold_sum s = (if drop_bit 16 s \<noteq> 0 then fold_sum ((s AND 0xffff) + drop_bit 16 s) else s)"
  by pat_completeness auto
termination
proof (relation "measure unat")
  fix s :: u64
  assume "drop_bit 16 s \<noteq> 0"
  then have "unat s div 65536 \<noteq> 0" by (metis unat_high16 unat_eq_zero)
  moreover have "unat s = 65536 * (unat s div 65536) + unat s mod 65536" by simp
  ultimately have "unat s mod 65536 + unat s div 65536 < unat s" by linarith
  then show "((s AND 0xffff) + drop_bit 16 s, s) \<in> measure unat"
    by (simp only: in_measure unat_fold_step)
qed simp

declare fold_sum.simps [simp del]

definition complement16 :: "u64 \<Rightarrow> u16" where
  "complement16 acc = ucast (NOT acc AND 0xffff)"

definition ipv4_checksum :: "u8 list \<Rightarrow> u16" where
  "ipv4_checksum data = complement16 (fold_sum (sum_words 0 data))"

definition ipv4_pseudo_checksum :: "u32 \<Rightarrow> u32 \<Rightarrow> u8 \<Rightarrow> u16 \<Rightarrow> u8 list \<Rightarrow> u16" where
  "ipv4_pseudo_checksum src dst protocol plen payload =
     complement16 (fold_sum (sum_words
       (ucast (drop_bit 16 src AND 0xffff) + ucast (src AND 0xffff) + ucast (drop_bit 16 dst AND 0xffff) +
        ucast (dst AND 0xffff) + ucast protocol + ucast plen) payload))"

section \<open>Headers\<close>

definition ipv4_build_header :: "u16 \<Rightarrow> u8 \<Rightarrow> u32 \<Rightarrow> u32 \<Rightarrow> u8 list" where
  "ipv4_build_header total_length protocol src dst =
     (let hdr = [0x45, 0] @ put_be16 total_length @ put_be16 0 @ put_be16 0x4000 @ [64, protocol] @
                put_be16 0 @ put_be32 src @ put_be32 dst
      in write_at 10 (put_be16 (ipv4_checksum hdr)) hdr)"

definition ipv4_validate_incoming :: "u8 list \<Rightarrow> bool" where
  "ipv4_validate_incoming frame =
     (if length frame < 34 then False
      else let ip = drop 14 frame;
               version = drop_bit 4 (ip ! 0);
               ihl = ip ! 0 AND 0x0f;
               hdr_bytes = unat ihl * 4;
               tlen = unat (get_be16 ip 2)
           in if version \<noteq> 4 then False
              else if ihl < 5 then False
              else if tlen < hdr_bytes then False
              else if length frame < 14 + tlen then False
              else if ip ! 8 = 0 then False
              else ipv4_checksum (take hdr_bytes ip) = 0)"

section \<open>Fragmentation\<close>

definition frag_header :: "u16 \<Rightarrow> u16 \<Rightarrow> u16 \<Rightarrow> u8 \<Rightarrow> u32 \<Rightarrow> u32 \<Rightarrow> u8 list" where
  "frag_header tlen ident flags_off protocol src dst =
     (let hdr = [0x45, 0] @ put_be16 tlen @ put_be16 ident @ put_be16 flags_off @ [64, protocol] @
                put_be16 0 @ put_be32 src @ put_be32 dst
      in write_at 10 (put_be16 (ipv4_checksum hdr)) hdr)"

definition fragment_at :: "u8 list \<Rightarrow> u64 \<Rightarrow> u64 \<Rightarrow> u64 \<Rightarrow> u8 list" where
  "fragment_at frame payload_len offset this_frag =
     take 12 frame @ put_be16 0x0800 @
     frag_header (ucast (20 + this_frag)) (get_be16 frame 18)
       ((if offset + this_frag < payload_len then 0x2000 else 0) OR ucast (offset div 8))
       (frame ! 23) (get_be32 frame 12) (get_be32 frame 16) @
     take (unat this_frag) (drop (unat (34 + offset)) frame)"

definition frag_len :: "u64 \<Rightarrow> u64 \<Rightarrow> u64" where
  "frag_len payload_len offset = (if payload_len - offset > 1392 then 1392 else payload_len - offset)"

text \<open>The loop; the output is what has been written to \<^verbatim>\<open>out_buf\<close>, its length \<^verbatim>\<open>*out_len\<close>.\<close>

function frag_loop :: "u8 list \<Rightarrow> u64 \<Rightarrow> u64 \<Rightarrow> u64 \<Rightarrow> u8 list \<Rightarrow> (xaios_status \<times> u8 list) option" where
  "frag_loop frame payload_len cap offset out =
     (if offset < payload_len
      then let this_frag = frag_len payload_len offset
           in if of_nat (length out) + (34 + this_frag) > cap then Some (XAIOS_ERR_NO_MEMORY, out)
              else if length frame < unat (34 + offset) + unat this_frag then None
              else frag_loop frame payload_len cap (offset + this_frag)
                     (out @ fragment_at frame payload_len offset this_frag)
      else Some (XAIOS_OK, out))"
  by pat_completeness auto
termination
proof (relation "measure (\<lambda>(_, p, _, off, _). unat (p - off))")
  fix frame :: "u8 list" and p cap off :: u64 and out x
  assume "off < p" "x = frag_len p off"
  then have "unat x \<le> unat (p - off)" "0 < unat x" "unat (p - off) < 2 ^ 64"
    using unsigned_less [of "p - off"]
    by (auto simp: frag_len_def word_less_nat_alt unat_gt_0 split: if_splits)
  moreover from this have "unat ((p - off) - x) = unat (p - off) - unat x" by (simp add: unat_sub_le word_le_nat_alt del: diff_diff_eq)
  then have "unat (p - (off + x)) = unat (p - off) - unat x" by (simp only: diff_diff_eq)
  ultimately show "((frame, p, cap, off + x, out @ fragment_at frame p off x), frame, p, cap, off, out)
      \<in> measure (\<lambda>(_, p, _, off, _). unat (p - off))"
    by simp
qed simp

declare frag_loop.simps [simp del]

definition ipv4_fragment :: "u8 list \<Rightarrow> u64 \<Rightarrow> (xaios_status \<times> u8 list) option" where
  "ipv4_fragment frame cap =
     (if length frame < 34 then Some (XAIOS_ERR_INVALID, [])
      else let payload_len = ucast (get_be16 frame 16) - 20
           in if payload_len \<le> 1400
              then if cap < of_nat (length frame) then Some (XAIOS_ERR_NO_MEMORY, []) else Some (XAIOS_OK, frame)
              else frag_loop frame payload_len cap 0 [])"

definition ipv4_is_fragment :: "u8 list \<Rightarrow> bool" where
  "ipv4_is_fragment frame \<longleftrightarrow>
     34 \<le> length frame \<and> (get_be16 frame 20 AND 0x2000 \<noteq> 0 \<or> get_be16 frame 20 AND 0x1fff \<noteq> 0)"

section \<open>Reassembly\<close>

text \<open>
  A bucket collects the fragments of one datagram. The parallel arrays of offsets, lengths and
  data are one list of pairs, as long as \<^verbatim>\<open>frag_count\<close>; a fragment is at most 1520 bytes long.
\<close>

record ipv4_frag_bucket =
  fb_active :: u32
  fb_src_ip :: u32
  fb_id :: u16
  first_arrival_ns :: u64
  fb_total_len :: u32
  fb_frags :: "(u16 \<times> u8 list) list"

definition XAIOS_IPV4_MAX_FRAG :: nat where
  "XAIOS_IPV4_MAX_FRAG = 16"

fun oldest_bucket :: "nat \<Rightarrow> u64 \<times> nat \<Rightarrow> ipv4_frag_bucket list \<Rightarrow> nat" where
  "oldest_bucket i best [] = snd best"
| "oldest_bucket i best (b # bs) =
     oldest_bucket (i + 1) (if fb_active b \<noteq> 0 \<and> first_arrival_ns b < fst best then (first_arrival_ns b, i) else best) bs"

definition bucket_for :: "u32 \<Rightarrow> u16 \<Rightarrow> ipv4_frag_bucket list \<Rightarrow> nat \<times> ipv4_frag_bucket list" where
  "bucket_for src ident bs =
     (case find_slot (\<lambda>b. fb_active b \<noteq> 0 \<and> fb_id b = ident \<and> fb_src_ip b = src) bs of
        Some i \<Rightarrow> (i, bs)
      | None \<Rightarrow>
          let i = (case find_slot (\<lambda>b. fb_active b = 0) bs of Some i \<Rightarrow> i | None \<Rightarrow> oldest_bucket 0 (- 1, 0) bs)
          in (i, bs[i := (bs ! i)\<lparr>fb_active := 1, fb_src_ip := src, fb_id := ident, fb_frags := [], fb_total_len := 0\<rparr>]))"

definition frag_end :: "u16 \<times> u8 list \<Rightarrow> nat" where
  "frag_end f = unat (fst f) + length (snd f)"

definition max_frag_end :: "(u16 \<times> u8 list) list \<Rightarrow> nat" where
  "max_frag_end fs = foldl (\<lambda>m f. if m < frag_end f then frag_end f else m) 0 fs"

text \<open>The copy of the collected fragments into the frame buffer, which holds \<open>length buf\<close> bytes.\<close>

fun place_fragments :: "(u16 \<times> u8 list) list \<Rightarrow> u8 list \<Rightarrow> u8 list option" where
  "place_fragments [] buf = Some buf"
| "place_fragments (f # fs) buf =
     (if length buf < 34 + frag_end f then None
      else place_fragments fs (write_at (34 + unat (fst f)) (snd f) buf))"

definition ipv4_reassemble :: "ipv4_frag_bucket list \<Rightarrow> u8 list \<Rightarrow> u64 \<Rightarrow>
    (xaios_status \<times> ipv4_frag_bucket list \<times> u8 list \<times> u64) option" where
  "ipv4_reassemble bs buf frame_len =
     (if frame_len < 34 then Some (XAIOS_ERR_INVALID, bs, buf, frame_len)
      else let ident = get_be16 buf 18;
               hdr = unat (buf ! 14 AND 0x0f) * 4;
               flags_off = get_be16 buf 20;
               offset = flags_off AND 0x1fff;
               len = unat (ucast (frame_len - 14 - of_nat hdr) :: u16);
               (i, bs1) = bucket_for (get_be32 buf 12) ident bs;
               b = bs1 ! i
           in if XAIOS_IPV4_MAX_FRAG \<le> length (fb_frags b) then Some (XAIOS_ERR_NO_MEMORY, bs1, buf, frame_len)
              else if 1520 < len \<or> length buf < 14 + hdr + len then None
              else let frags = fb_frags b @ [(offset, take len (drop (14 + hdr) buf))];
                       tlen = (if flags_off AND 0x2000 = 0 then of_nat (unat offset + len) else fb_total_len b);
                       b1 = b\<lparr>fb_frags := frags, fb_total_len := tlen\<rparr>;
                       bs2 = bs1[i := b1];
                       max_off = max_frag_end frags
              in if 0 < tlen \<and> unat tlen \<le> max_off \<and> max_off \<le> 1500
                 then let reasm_len = (if 1480 < max_off then 1480 else max_off);
                          buf1 = write_at 16 (put_be16 (of_nat (20 + reasm_len)) @ put_be16 ident @ put_be16 0) buf
                      in case place_fragments frags buf1 of
                           None \<Rightarrow> None
                         | Some buf2 \<Rightarrow> Some (XAIOS_OK, bs2[i := b1\<lparr>fb_active := 0\<rparr>], buf2, of_nat (34 + reasm_len))
                 else Some (XAIOS_ERR_INVALID, bs2, buf, frame_len))"

end
