(* ===== verification/Ipv4_Checksum.thy ===== *)
theory Ipv4_Checksum
  imports Ipv4
begin

text \<open>
  The arithmetic of the Internet checksum: the folding loop computes the residue modulo
  65535, a header with its checksum filled in is accepted, and no change of a single byte
  of an accepted header goes unnoticed.
\<close>

section \<open>Sums of words\<close>

fun word_total :: "u8 list \<Rightarrow> nat" where
  "word_total (a # b # r) = 256 * unat a + unat b + word_total r"
| "word_total [a] = 256 * unat a"
| "word_total [] = 0"

lemma word_total_append: "even (length xs) \<Longrightarrow> word_total (xs @ ys) = word_total xs + word_total ys"
  by (induction xs rule: word_total.induct) auto

lemma unat_u8_less: "unat (a :: u8) < 256"
proof -
  have "unat a < 2 ^ LENGTH(8)" by (rule unsigned_less)
  then show ?thesis by simp
qed

lemma word_total_bound: "word_total xs \<le> 65535 * length xs"
proof (induction xs rule: word_total.induct)
  case (1 a b r)
  then show ?case using unat_u8_less [of a] unat_u8_less [of b] by simp
next
  case (2 a)
  then show ?case using unat_u8_less [of a] by simp
qed simp

lemma unat_pair64: "unat (push_bit 8 (ucast (a :: u8)) OR ucast (b :: u8) :: u64) = 256 * unat a + unat b"
proof -
  have "push_bit 8 (ucast a) OR ucast b = (push_bit 8 (ucast a) + ucast b :: u64)"
    by (rule disjunctive_add [symmetric]) (auto simp: bit_simps dest: bit_imp_le_length)
  then show ?thesis using unat_u8_less [of a] unat_u8_less [of b]
    by (simp add: push_bit_eq_mult unat_word_ariths unat_ucast_small)
qed

lemma unat_high64: "unat (push_bit 8 (ucast (a :: u8)) :: u64) = 256 * unat a"
  using unat_pair64 [of a 0] by simp

lemma unat_sum_words: "unat s + word_total d < 2 ^ 64 \<Longrightarrow> unat (sum_words s d) = unat s + word_total d"
proof (induction s d rule: sum_words.induct)
  case (1 s a b r)
  have "unat (s + (push_bit 8 (ucast a) OR ucast b)) = unat s + (256 * unat a + unat b)"
    using 1(2) by (simp add: unat_word_ariths unat_pair64)
  then show ?case using 1 by simp
next
  case (2 s a)
  then show ?case by (simp add: unat_word_ariths unat_high64)
qed simp

section \<open>Folding\<close>

text \<open>The representative of \<open>n\<close> modulo 65535 that is zero for zero only.\<close>

definition residue :: "nat \<Rightarrow> nat" where
  "residue n = (if n = 0 then 0 else (n - 1) mod 65535 + 1)"

lemma residue_small: "n < 65536 \<Longrightarrow> residue n = n"
  by (auto simp: residue_def)

lemma residue_bound: "residue n \<le> 65535"
  by (auto simp: residue_def Suc_le_eq)

lemma residue_mod: "residue n mod 65535 = n mod 65535"
  by (auto simp: residue_def mod_Suc_eq mod_add_left_eq)

lemma residue_full: "residue n = 65535 \<longleftrightarrow> 0 < n \<and> n mod 65535 = 0"
proof
  assume "residue n = 65535"
  then show "0 < n \<and> n mod 65535 = 0" using residue_mod [of n] by (auto simp: residue_def split: if_splits)
next
  assume n: "0 < n \<and> n mod 65535 = 0"
  then have "residue n mod 65535 = 0" using residue_mod [of n] by simp
  moreover have "0 < residue n" using n by (simp add: residue_def)
  ultimately show "residue n = 65535" using residue_bound [of n] by (auto simp: dest!: dvd_imp_le simp flip: dvd_eq_mod_eq_0)
qed

lemma residue_alt: "residue n = (if n = 0 then 0 else if n mod 65535 = 0 then 65535 else n mod 65535)"
proof (cases "residue n = 65535")
  case True
  then show ?thesis by (simp add: residue_full)
next
  case False
  then have "residue n mod 65535 = residue n" using residue_bound [of n] by simp
  then show ?thesis using False by (auto simp: residue_full residue_mod residue_def [of 0])
qed

lemma residue_cong: "m mod 65535 = n mod 65535 \<Longrightarrow> (m = 0 \<longleftrightarrow> n = 0) \<Longrightarrow> residue m = residue n"
  by (simp add: residue_alt)

lemma unat_fold_sum: "unat (fold_sum s) = residue (unat s)"
proof (induction s rule: fold_sum.induct)
  case (1 s)
  show ?case
  proof (cases "drop_bit 16 s = 0")
    case True
    then have "unat s div 65536 = 0" by (metis unat_high16 unat_0)
    then show ?thesis using True by (subst fold_sum.simps) (simp add: residue_small)
  next
    case False
    have s: "unat s = 65536 * (unat s div 65536) + unat s mod 65536" by simp
    have "65535 * q + (q + r) = 65536 * q + r" for q r :: nat by simp
    then have "(unat s mod 65536 + unat s div 65536) mod 65535 = unat s mod 65535"
      by (metis s add.commute mod_mult_self4)
    moreover have "unat s div 65536 \<noteq> 0" using False by (metis unat_high16 unat_eq_zero)
    ultimately have "residue (unat s mod 65536 + unat s div 65536) = residue (unat s)"
      by (intro residue_cong) auto
    then show ?thesis using 1 False by (subst fold_sum.simps) (simp add: unat_fold_step)
  qed
qed

lemma unat_complement16:
  assumes "unat s \<le> 65535"
  shows "unat (complement16 s) = 65535 - unat s"
proof -
  have "NOT s = (- 1) - s" by (simp add: not_eq_complement)
  then have n: "unat (NOT s) = 18446744073709551615 - unat s" by (simp add: unat_sub_le unat_uminus [of 1, simplified])
  have "(18446744073709551615 - u) mod 65536 = 65535 - u" if "u \<le> 65535" for u :: nat
  proof -
    have "18446744073709551615 - u = 65536 * 281474976710655 + (65535 - u)" using that by simp
    then show ?thesis using that by (simp only: mod_mult_self4 mod_less)
  qed
  then have "unat (NOT s AND 0xffff) = 65535 - unat s" using assms by (simp only: unat_low16 n)
  then show ?thesis unfolding complement16_def by (subst unat_ucast_small) simp_all
qed

lemmas checksum_arith = unat_complement16 unat_fold_sum residue_bound

lemma unat_ipv4_checksum:
  assumes "length d < 2 ^ 32"
  shows "unat (ipv4_checksum d) = 65535 - residue (word_total d)"
proof -
  have "word_total d < 2 ^ 64" using word_total_bound [of d] assms by simp
  then show ?thesis by (simp add: ipv4_checksum_def checksum_arith unat_sum_words)
qed

lemma ipv4_checksum_zero:
  assumes "length d < 2 ^ 32"
  shows "ipv4_checksum d = 0 \<longleftrightarrow> 0 < word_total d \<and> word_total d mod 65535 = 0"
  using unat_ipv4_checksum [OF assms] residue_bound [of "word_total d"]
  by (auto simp flip: residue_full simp: word_unat_eq_iff)

section \<open>Headers\<close>

lemma unat_put_be16: "256 * unat (ucast (drop_bit 8 (v :: u16)) :: u8) + unat (ucast v :: u8) = unat v"
proof -
  have "unat v < 2 ^ LENGTH(16)" by (rule unsigned_less)
  then have "unat (ucast (drop_bit 8 v) :: u8) = unat v div 256"
    by (subst unat_ucast_small) (simp_all add: unat_drop_bit_eq drop_bit_eq_div [where 'a = nat] div_less_iff_less_mult)
  moreover have "unat (ucast v :: u8) = unat v mod 256"
    by (simp add: unsigned_ucast_eq take_bit_eq_mod [where 'a = nat])
  ultimately show ?thesis by simp
qed

lemma word_total_be16: "word_total (put_be16 v @ r) = unat v + word_total r"
  by (simp add: put_be16_def unat_put_be16)

text \<open>Filling the checksum into a zeroed field at an even offset makes the whole header sum to zero.\<close>

lemma filled_checksum:
  assumes "even (length a)" "length a + length b < 2 ^ 31" "0 < word_total a + word_total b"
  defines "c \<equiv> ipv4_checksum (a @ put_be16 0 @ b)"
  shows "ipv4_checksum (a @ put_be16 c @ b) = 0"
proof -
  let ?t = "word_total a + word_total b"
  have len: "length (put_be16 v) = 2" for v by (simp add: put_be16_def)
  have t: "word_total (a @ put_be16 v @ b) = ?t + unat v" for v
    using assms(1) by (simp add: word_total_append word_total_be16)
  have c: "unat c = 65535 - residue ?t"
    unfolding c_def using assms(2) by (subst unat_ipv4_checksum) (simp_all add: t len)
  have "(?t + unat c) mod 65535 = (residue ?t + unat c) mod 65535" by (metis residue_mod mod_add_left_eq)
  also have "residue ?t + unat c = 65535" using residue_bound [of ?t] c by simp
  finally have "(?t + unat c) mod 65535 = 0" by simp
  then show ?thesis using assms(2,3) by (subst ipv4_checksum_zero) (simp_all add: t len)
qed

lemma frag_header_shape:
  "\<exists>a b c. frag_header t i fl p s d = a @ put_be16 c @ b \<and> length a = 10 \<and> length b = 8 \<and>
     a = [0x45, 0] @ put_be16 t @ put_be16 i @ put_be16 fl @ [64, p] \<and> b = put_be32 s @ put_be32 d \<and>
     c = ipv4_checksum (a @ put_be16 0 @ b)"
  by (intro exI conjI refl) (simp_all add: frag_header_def Let_def write_at_def put_be16_def put_be32_def)

lemma length_frag_header: "length (frag_header t i fl p s d) = 20"
  by (simp add: frag_header_def Let_def write_at_def put_be16_def put_be32_def)

lemma frag_header_checksum: "ipv4_checksum (frag_header t i fl p s d) = 0"
proof -
  obtain a b c where h: "frag_header t i fl p s d = a @ put_be16 c @ b" "length a = 10" "length b = 8"
    "a = [0x45, 0] @ put_be16 t @ put_be16 i @ put_be16 fl @ [64, p]" "c = ipv4_checksum (a @ put_be16 0 @ b)"
    using frag_header_shape by metis
  have "0 < word_total a" by (simp add: h(4) put_be16_def)
  then show ?thesis unfolding h(1) h(5) by (intro filled_checksum) (simp_all add: h(2,3))
qed

lemma build_header_frag: "ipv4_build_header t p s d = frag_header t 0 0x4000 p s d"
  by (simp add: ipv4_build_header_def frag_header_def)

lemma get_put_be16: "get_be16 (a @ put_be16 v @ b) (length a) = v"
  by (simp add: get_be16_def put_be16_def nth_append) (rule bit_word_eqI, auto simp: bit_simps)

lemma frag_header_fields:
  "frag_header t i fl p s d ! 0 = 0x45" "get_be16 (frag_header t i fl p s d @ r) 2 = t" "frag_header t i fl p s d ! 8 = 64"
proof -
  have g: "get_be16 (x # y # put_be16 t @ r) 2 = t" for x y :: u8 and r
    using get_put_be16 [of "[x, y]" t r] by (simp add: numeral_2_eq_2)
  show "get_be16 (frag_header t i fl p s d @ r) 2 = t"
    by (simp add: frag_header_def Let_def write_at_def put_be16_def put_be32_def)
       (use g in \<open>simp add: put_be16_def\<close>)
qed (simp_all add: frag_header_def Let_def write_at_def put_be16_def put_be32_def)

lemma header_validates:
  assumes "length eth = 14" "20 \<le> unat t" "unat t \<le> 20 + length r"
  shows "ipv4_validate_incoming (eth @ frag_header t i fl p s d @ r)"
proof -
  let ?h = "frag_header t i fl p s d"
  have "(?h @ r) ! 0 = 0x45" "(?h @ r) ! 8 = 64" "take 20 (?h @ r) = ?h"
    by (simp_all add: nth_append length_frag_header frag_header_fields)
  then show ?thesis
    using assms by (simp add: ipv4_validate_incoming_def Let_def length_frag_header frag_header_fields frag_header_checksum)
qed

section \<open>Corrupted headers\<close>

lemma word_total_update:
  "k < length xs \<Longrightarrow> int (word_total (xs[k := b])) =
     int (word_total xs) + (if even k then 256 else 1) * (int (unat b) - int (unat (xs ! k)))"
proof (induction xs arbitrary: k rule: word_total.induct)
  case (1 x y r)
  consider "k = 0" | "k = 1" | j where "k = Suc (Suc j)" by (metis One_nat_def not0_implies_Suc)
  then show ?case using 1 by cases (auto simp: algebra_simps)
qed auto

lemma no_small_multiple: "(65535 :: int) dvd d \<Longrightarrow> \<bar>d\<bar> < 65535 \<Longrightarrow> d = 0"
  by (metis dvd_imp_le_int linorder_not_less abs_numeral)

lemma single_byte_detected:
  assumes "length xs < 2 ^ 32" "ipv4_checksum xs = 0" "k < length xs" "b \<noteq> xs ! k"
  shows "ipv4_checksum (xs[k := b]) \<noteq> 0"
proof
  let ?d = "(if even k then 256 else 1) * (int (unat b) - int (unat (xs ! k)))"
  assume "ipv4_checksum (xs[k := b]) = 0"
  then have "(65535 :: nat) dvd word_total (xs[k := b])" "(65535 :: nat) dvd word_total xs"
    using assms(1,2) by (simp_all add: ipv4_checksum_zero dvd_eq_mod_eq_0)
  then have "(65535 :: int) dvd int (word_total (xs[k := b])) - int (word_total xs)"
    by (intro dvd_diff) (simp_all flip: int_dvd_int_iff)
  then have "65535 dvd ?d" using assms(3) by (simp add: word_total_update)
  moreover have "\<bar>(if even k then 256 else 1) * (int x - int y)\<bar> < 65535" if "x < 256" "y < 256" for x y
    using that by auto
  then have "\<bar>?d\<bar> < 65535" using unat_u8_less by blast
  ultimately have "?d = 0" by (rule no_small_multiple)
  moreover have "(if even k then 256 else 1) * (int x - int y) = 0 \<Longrightarrow> x = y" for x y
    by (simp split: if_splits)
  ultimately have "unat b = unat (xs ! k)" by blast
  then show False using assms(4) by (simp add: word_unat_eq_iff)
qed

text \<open>
  C14: The header check is sound and complete for what the builder produces: a frame whose
  header was built by \<^verbatim>\<open>ipv4_build_header\<close> for a datagram that fits the frame is accepted, and
  in any accepted frame a change of any single header byte other than the version byte is rejected.
\<close>

theorem ipv4_header_check:
  assumes "length eth = 14" "20 \<le> unat t" "unat t \<le> 20 + length payload"
    and "ipv4_validate_incoming f" "15 \<le> k" "k < 14 + 4 * unat (f ! 14 AND 0x0f)" "b \<noteq> f ! k"
  shows "ipv4_validate_incoming (eth @ ipv4_build_header t protocol src dst @ payload) \<and>
    \<not> ipv4_validate_incoming (f[k := b])"
proof
  show "ipv4_validate_incoming (eth @ ipv4_build_header t protocol src dst @ payload)"
    unfolding build_header_frag by (rule header_validates [OF assms(1-3)])
  let ?n = "unat (f ! 14 AND 0x0f) * 4"
  have f: "34 \<le> length f" "unat (get_be16 (drop 14 f) 2) \<ge> ?n" "length f \<ge> 14 + unat (get_be16 (drop 14 f) 2)"
    "ipv4_checksum (take ?n (drop 14 f)) = 0"
    using assms(4) by (auto simp: ipv4_validate_incoming_def Let_def split: if_splits)
  have n: "k - 14 < ?n" "?n \<le> length f - 14" using f assms(5,6) by auto
  have "f ! 14 AND 0x0f \<le> 0x0f" by (rule word_and_le1)
  then have "?n \<le> 60" by (simp add: word_le_nat_alt)
  then have "ipv4_checksum ((take ?n (drop 14 f))[k - 14 := b]) \<noteq> 0"
    using n f assms(5,7) by (intro single_byte_detected) simp_all
  then have "ipv4_checksum (take ?n (drop 14 (f[k := b]))) \<noteq> 0"
    using assms(5) n by (simp add: drop_update_swap take_update_swap)
  then show "\<not> ipv4_validate_incoming (f[k := b])"
    using assms(5) by (auto simp: ipv4_validate_incoming_def Let_def)
qed

theorem ipv4_header_check_witness:
  "ipv4_validate_incoming (replicate 14 0 @ ipv4_build_header 24 17 0x0a00020f 0x0a000202 @ [1, 2, 3, 4]) \<and>
   \<not> ipv4_validate_incoming ((replicate 14 0 @ ipv4_build_header 24 17 0x0a00020f 0x0a000202 @ [1, 2, 3, 4])[22 := 63])"
proof -
  let ?f = "replicate 14 0 @ ipv4_build_header 24 17 0x0a00020f 0x0a000202 @ [1, 2, 3, 4 :: u8]"
  have "ipv4_validate_incoming ?f" unfolding build_header_frag by (rule header_validates) simp_all
  moreover have "?f ! 14 = 0x45" "?f ! 22 = 64"
    by (simp_all add: build_header_frag nth_append length_frag_header frag_header_fields)
  ultimately show ?thesis using ipv4_header_check [of "replicate 14 0" 24 "[1, 2, 3, 4]" ?f 22 63 17 "0x0a00020f" "0x0a000202"] by simp
qed

end
