(* ===== verification/Net_Wire.thy ===== *)
theory Net_Wire
  imports Ipv4_Checksum
begin

text \<open>
  The frame formats of \<^verbatim>\<open>kernel/runtime/network_stack.c\<close>: recognising IPv4 frames, parsing UDP
  and TCP, the TCP options, and the builders of outgoing UDP and TCP frames. Fields that the
  C code reads through a struct of 32 bit words are little-endian loads, as on the
  supported processors. A frame is the list of its \<^verbatim>\<open>frame_len\<close> bytes.
\<close>

section \<open>Parsing\<close>

definition get_le32 :: "u8 list \<Rightarrow> nat \<Rightarrow> u32" where
  "get_le32 f i = ucast (f ! i) OR push_bit 8 (ucast (f ! (i + 1))) OR
     push_bit 16 (ucast (f ! (i + 2))) OR push_bit 24 (ucast (f ! (i + 3)))"

definition ip4_addr_host_order :: "u32 \<Rightarrow> u32" where
  "ip4_addr_host_order a =
     get_le32 [ucast a, ucast (drop_bit 8 a), ucast (drop_bit 16 a), ucast (drop_bit 24 a)] 0"

definition checksum_u16 :: "u8 list \<Rightarrow> u16" where
  "checksum_u16 data = complement16 (fold_sum (sum_words 0 data))"

definition eth_frame_has_ipv4 :: "u8 list \<Rightarrow> bool" where
  "eth_frame_has_ipv4 frame =
     (if length frame < 34 then False
      else if get_be16 frame 12 \<noteq> 0x0800 then False
      else drop_bit 4 (frame ! 14) = 4)"

definition ip_header_bytes :: "u8 list \<Rightarrow> nat" where
  "ip_header_bytes frame = unat (frame ! 14 AND 0x0f) * 4"

text \<open>The header checksum is verified unless the field is zero.\<close>

definition header_sum_ok :: "u8 list \<Rightarrow> bool" where
  "header_sum_ok frame \<longleftrightarrow>
     frame ! 24 = 0 \<and> frame ! 25 = 0 \<or> checksum_u16 (take (ip_header_bytes frame) (drop 14 frame)) = 0"

record udp_info =
  ui_src_port :: u16
  ui_dst_port :: u16
  ui_length :: u16
  ui_src_address :: u32
  ui_dst_address :: u32

definition parse_udp :: "u8 list \<Rightarrow> udp_info option" where
  "parse_udp frame =
     (if \<not> eth_frame_has_ipv4 frame then None
      else let hb = ip_header_bytes frame;
               ip_len = unat (get_be16 frame 16);
               udp = drop (14 + hb) frame
           in if frame ! 23 \<noteq> 17 then None
              else if hb < 20 \<or> ip_len < hb then None
              else if length frame < 14 + ip_len \<or> ip_len < hb + 8 then None
              else let udp_length = get_be16 udp 4
              in if udp_length < 8 \<or> ip_len < hb + 8 \<or> ip_len < hb + unat udp_length then None
                 else if \<not> header_sum_ok frame then None
                 else Some \<lparr>ui_src_port = get_be16 udp 0, ui_dst_port = get_be16 udp 2, ui_length = udp_length,
                            ui_src_address = ip4_addr_host_order (get_le32 frame 26),
                            ui_dst_address = ip4_addr_host_order (get_le32 frame 30)\<rparr>)"

record tcp_info =
  ti_src_port :: u16
  ti_dst_port :: u16
  ti_seq :: u32
  ti_ack :: u32
  ti_flags :: u8

definition parse_tcp :: "u8 list \<Rightarrow> tcp_info option" where
  "parse_tcp frame =
     (if \<not> eth_frame_has_ipv4 frame then None
      else let hb = ip_header_bytes frame;
               ip_len = unat (get_be16 frame 16);
               tcp = drop (14 + hb) frame
           in if frame ! 23 \<noteq> 6 then None
              else if hb < 20 \<or> ip_len < hb + 20 then None
              else if length frame < 14 + ip_len then None
              else let words = drop_bit 4 (tcp ! 12);
                       tcp_hdr = unat words * 4;
                       tcp_len = ip_len - hb
              in if words < 5 \<or> 15 < words then None
                 else if tcp_len < tcp_hdr then None
                 else if \<not> header_sum_ok frame then None
                 else if get_be16 tcp 16 \<noteq> 0 \<and>
                         ipv4_pseudo_checksum (get_le32 frame 26) (get_le32 frame 30) 6 (of_nat tcp_len)
                           (take tcp_len tcp) \<noteq> 0 then None
                 else Some \<lparr>ti_src_port = get_be16 tcp 0, ti_dst_port = get_be16 tcp 2, ti_seq = get_be32 tcp 4,
                            ti_ack = get_be32 tcp 8, ti_flags = tcp ! 13\<rparr>)"

text \<open>The option loop; the pair is \<^verbatim>\<open>*out_mss\<close> and \<^verbatim>\<open>*out_ws\<close>.\<close>

function options_loop :: "u8 list \<Rightarrow> nat \<Rightarrow> nat \<Rightarrow> u16 \<times> u8 \<Rightarrow> u16 \<times> u8" where
  "options_loop tcp hdr_bytes offset r =
     (if offset + 1 \<le> hdr_bytes
      then let kind = tcp ! offset
           in if kind = 0 then r
              else if kind = 1 then options_loop tcp hdr_bytes (offset + 1) r
              else if hdr_bytes < offset + 2 then r
              else let len = tcp ! (offset + 1)
              in if len < 2 \<or> hdr_bytes < offset + unat len then r
                 else options_loop tcp hdr_bytes (offset + unat len)
                   (if kind = 2 \<and> len = 4 \<and> offset + 4 \<le> hdr_bytes then (get_be16 tcp (offset + 2), snd r)
                    else if kind = 3 \<and> len = 3 then (fst r, tcp ! (offset + 2)) else r)
      else r)"
  by pat_completeness auto
termination
  by (relation "measure (\<lambda>(_, hb, off, _). hb + 1 - off)") (auto simp: word_less_nat_alt)

declare options_loop.simps [simp del]

definition parse_tcp_options :: "u8 list \<Rightarrow> nat \<Rightarrow> u16 \<times> u8" where
  "parse_tcp_options tcp hdr_bytes = options_loop tcp hdr_bytes 20 (0, 0)"

section \<open>Building\<close>

text \<open>
  The options of a SYN and of a SYN-ACK. The array has twelve bytes, all of which are sent,
  but the code fills only eleven or nine of them; \<open>stack\<close> is what the others hold.
\<close>

definition tcp_options :: "(nat \<Rightarrow> u8) \<Rightarrow> u8 \<Rightarrow> u8 list" where
  "tcp_options stack flags =
     (if flags AND 0x02 \<noteq> 0 \<and> flags AND 0x10 = 0
      then [2, 4] @ put_be16 1400 @ [1, 3, 3, 0, 1, 1, 0, stack 11]
      else if flags AND 0x02 \<noteq> 0
      then [2, 4] @ put_be16 1400 @ [1, 3, 3, 0, 0, stack 9, stack 10, stack 11]
      else [])"

text \<open>
  A builder gives the frame it hands to the network driver, an error code, or \<open>None\<close> when it
  writes outside its frame buffer of 1520 bytes on the stack.
\<close>

type_synonym tx_frame = "(xaios_status + u8 list) option"

definition NETWORK_BUFFER_SIZE :: u64 where
  "NETWORK_BUFFER_SIZE = 1520"

definition in_buffer :: "u8 list \<Rightarrow> tx_frame" where
  "in_buffer frame = (if unat NETWORK_BUFFER_SIZE < length frame then None else Some (Inr frame))"

definition tcp_build_and_send_segment :: "(nat \<Rightarrow> u8) \<Rightarrow> u8 list \<Rightarrow> u8 list \<Rightarrow> u32 \<Rightarrow> u32 \<Rightarrow> u16 \<Rightarrow> u16 \<Rightarrow>
    u32 \<Rightarrow> u32 \<Rightarrow> u8 \<Rightarrow> u16 \<Rightarrow> u8 list \<Rightarrow> tx_frame" where
  "tcp_build_and_send_segment stack src_mac dst_mac src_ip dst_ip src_port dst_port seq ack flags window payload =
     (let opts = tcp_options stack flags;
          payload_len = of_nat (length payload) :: u32;
          tcp_hdr_bytes = 20 + of_nat (length opts) :: u8;
          data_offset_val = drop_bit 2 tcp_hdr_bytes;
          frame_len = ucast (14 + 20 + ucast tcp_hdr_bytes + payload_len :: u32) :: u64
      in if frame_len > NETWORK_BUFFER_SIZE then Some (Inl XAIOS_ERR_INVALID)
         else let tcp = put_be16 src_port @ put_be16 dst_port @ put_be32 seq @ put_be32 ack @
                        [data_offset_val, flags] @ put_be16 window @ put_be16 0 @ put_be16 0 @ opts @ payload;
                  seg_len = ucast (ucast tcp_hdr_bytes + payload_len :: u32) :: u16;
                  cksum = ipv4_pseudo_checksum src_ip dst_ip 6 seg_len (take (unat seg_len) tcp)
              in in_buffer (dst_mac @ src_mac @ put_be16 0x0800 @
                   ipv4_build_header (ucast (20 + ucast tcp_hdr_bytes + payload_len)) 6 src_ip dst_ip @
                   write_at 16 (put_be16 cksum) tcp))"

definition udp_frame :: "u8 list \<Rightarrow> u8 list \<Rightarrow> u32 \<Rightarrow> u32 \<Rightarrow> u16 \<Rightarrow> u16 \<Rightarrow> u8 list \<Rightarrow> tx_frame" where
  "udp_frame src_mac dst_mac src_ip dst_ip src_port dst_port payload =
     (let udp_len = ucast (8 + of_nat (length payload) :: u32) :: u16;
          ip_total = 20 + udp_len
      in if 14 + ucast ip_total > NETWORK_BUFFER_SIZE then Some (Inl XAIOS_ERR_INVALID)
         else in_buffer (dst_mac @ src_mac @ put_be16 0x0800 @ ipv4_build_header ip_total 17 src_ip dst_ip @
              put_be16 src_port @ put_be16 dst_port @ put_be16 udp_len @ put_be16 0 @ payload))"

section \<open>Frames with a plain header\<close>

lemma length_fields [simp]: "length (put_be16 v) = 2" "length (put_be32 w) = 4"
  by (simp_all add: put_be16_def put_be32_def)

lemma get_put_be32: "get_be32 (a @ put_be32 v @ b) (length a) = v"
proof (rule bit_word_eqI)
  fix n
  assume "n < LENGTH(32)"
  then consider "n < 8" | "8 \<le> n" "n < 16" | "16 \<le> n" "n < 24" | "24 \<le> n" "n < 32" by fastforce
  then show "bit (get_be32 (a @ put_be32 v @ b) (length a)) n = bit v n"
    by cases (auto simp: get_be32_def put_be32_def nth_append bit_simps less_diff_conv2)
qed

text \<open>The fields of a frame that consists of two addresses, a built header and the rest.\<close>

lemma built_frame:
  assumes "length m = 12" and f: "f = m @ put_be16 0x0800 @ frag_header t i fl p s d @ r"
  shows "length f = 34 + length r" "eth_frame_has_ipv4 f" "f ! 14 = 0x45" "f ! 23 = p" "get_be16 f 16 = t"
    "ip_header_bytes f = 20" "drop 34 f = r" "header_sum_ok f" "get_be32 f 26 = s" "get_be32 f 30 = d"
proof -
  show l: "length f = 34 + length r" using assms by (simp add: length_frag_header)
  have "frag_header t i fl p s d \<noteq> []" using length_frag_header [of t i fl p s d] by force
  then show v: "f ! 14 = 0x45" using assms by (simp add: nth_append frag_header_fields)
  have "get_be16 f 12 = 0x0800" using get_put_be16 [of m "0x0800"] assms by simp
  then show "eth_frame_has_ipv4 f" using l v by (simp add: eth_frame_has_ipv4_def)
  show hb: "ip_header_bytes f = 20" using v by (simp add: ip_header_bytes_def)
  show "drop 34 f = r" using assms by (simp add: length_frag_header)
  have "take 20 (drop 14 f) = frag_header t i fl p s d" using assms by (simp add: length_frag_header)
  then show "header_sum_ok f"
    using frag_header_checksum by (simp add: header_sum_ok_def hb checksum_u16_def ipv4_checksum_def)
  obtain a b c where h: "frag_header t i fl p s d = a @ put_be16 c @ b" "length a = 10"
    "a = [0x45, 0] @ put_be16 t @ put_be16 i @ put_be16 fl @ [64, p]" "b = put_be32 s @ put_be32 d"
    using frag_header_shape by metis
  show "f ! 23 = p" using assms h by (simp add: nth_append)
  show "get_be16 f 16 = t" using get_put_be16 [of "m @ put_be16 0x0800 @ [0x45, 0]" t] assms h by simp
  show "get_be32 f 26 = s" using get_put_be32 [of "m @ put_be16 0x0800 @ a @ put_be16 c" s] assms h by simp
  show "get_be32 f 30 = d" using get_put_be32 [of "m @ put_be16 0x0800 @ a @ put_be16 c @ put_be32 s" d] assms h by simp
qed

section \<open>UDP\<close>

text \<open>The raw little-endian word that the parser reports for an address in host order.\<close>

definition wire_word :: "u32 \<Rightarrow> u32" where
  "wire_word a = get_le32 (put_be32 a) 0"

lemma ip4_addr_host_order_id: "ip4_addr_host_order a = a"
proof (rule bit_word_eqI)
  fix n
  assume "n < LENGTH(32)"
  then consider "n < 8" | "8 \<le> n" "n < 16" | "16 \<le> n" "n < 24" | "24 \<le> n" "n < 32" by fastforce
  then show "bit (ip4_addr_host_order a) n = bit a n"
    by cases (auto simp: ip4_addr_host_order_def get_le32_def bit_simps less_diff_conv2)
qed

lemma get_le32_put: "get_le32 (a @ put_be32 v @ b) (length a) = wire_word v"
  by (simp add: wire_word_def get_le32_def put_be32_def nth_append)

lemma built_addresses:
  assumes "length m = 12" and f: "f = m @ put_be16 0x0800 @ frag_header t i fl p s d @ r"
  shows "get_le32 f 26 = wire_word s" "get_le32 f 30 = wire_word d"
proof -
  obtain a b c where h: "frag_header t i fl p s d = a @ put_be16 c @ b" "length a = 10" "b = put_be32 s @ put_be32 d"
    using frag_header_shape by metis
  show "get_le32 f 26 = wire_word s" using get_le32_put [of "m @ put_be16 0x0800 @ a @ put_be16 c" s] assms h by simp
  show "get_le32 f 30 = wire_word d" using get_le32_put [of "m @ put_be16 0x0800 @ a @ put_be16 c @ put_be32 s" d] assms h by simp
qed

lemma udp_lengths:
  assumes "n \<le> 1478"
  shows "unat (ucast (8 + of_nat n :: u32) :: u16) = 8 + n" "unat (20 + ucast (8 + of_nat n :: u32) :: u16) = 28 + n"
proof -
  have "unat (8 + of_nat n :: u32) = 8 + n" using assms by (simp add: unat_word_ariths unat_of_nat_small)
  then show a: "unat (ucast (8 + of_nat n :: u32) :: u16) = 8 + n" using assms by (simp add: unat_ucast_small)
  show "unat (20 + ucast (8 + of_nat n :: u32) :: u16) = 28 + n" using assms by (simp add: unat_word_ariths a)
qed



text \<open>
  C27: The length check of \<^verbatim>\<open>network_stack_udp_send\<close> is done on 16 bit values. A payload between 65508 and
  67014 bytes, which a system call may pass, makes them wrap: the check succeeds and the copy loop
  writes behind the 1520 bytes of the frame on the kernel stack.
\<close>

theorem udp_send_overruns_stack:
  assumes "65508 \<le> length payload" "length payload \<le> 67014"
  shows "udp_frame src_mac dst_mac src_ip dst_ip src_port dst_port payload = None"
proof -
  let ?u = "ucast (8 + of_nat (length payload) :: u32) :: u16"
  have "unat (8 + of_nat (length payload) :: u32) = 8 + length payload"
    using assms by (simp add: unat_word_ariths unat_of_nat_small)
  then have "unat ?u = (8 + length payload) mod 65536"
    by (simp add: unsigned_ucast_eq take_bit_eq_mod [where 'a = nat])
  then have "unat (20 + ?u) = (28 + length payload) mod 65536" by (simp add: unat_word_ariths mod_simps)
  also have "\<dots> = 28 + length payload - 65536" using assms by (simp add: mod_if)
  finally have "unat (14 + ucast (20 + ?u) :: u64) \<le> 1520"
    using assms by (simp add: unat_word_ariths unat_ucast_small)
  then have "udp_frame src_mac dst_mac src_ip dst_ip src_port dst_port payload =
      in_buffer (dst_mac @ src_mac @ put_be16 0x0800 @ ipv4_build_header (20 + ?u) 17 src_ip dst_ip @
        put_be16 src_port @ put_be16 dst_port @ put_be16 ?u @ put_be16 0 @ payload)"
    by (simp add: udp_frame_def Let_def NETWORK_BUFFER_SIZE_def word_less_nat_alt)
  then show ?thesis using assms(1) by (simp add: in_buffer_def NETWORK_BUFFER_SIZE_def)
qed

theorem udp_send_overruns_stack_witness:
  "udp_frame (replicate 6 2) (replicate 6 3) 0x0a00020f 0x0a000202 53 4000 (replicate 66000 7) = None"
  by (rule udp_send_overruns_stack) (simp_all only: length_replicate numeral_le_iff semiring_norm)

section \<open>TCP\<close>

lemma length_tcp_options: "length (tcp_options stack flags) = (if flags AND 0x02 = 0 then 0 else 12)"
  by (simp add: tcp_options_def)

lemma tcp_data_offset:
  "drop_bit 2 (20 + of_nat (length (tcp_options stack flags)) :: u8) = (if flags AND 0x02 = 0 then 5 else 8)"
  by (simp add: length_tcp_options)

text \<open>
  C25: No segment the kernel sends is a valid TCP segment. The builder stores the header length in
  the low half of the data offset byte where the protocol, and the kernel's own parser, have it in
  the high half: \<^verbatim>\<open>parse_tcp\<close> rejects every frame of \<^verbatim>\<open>tcp_build_and_send_segment\<close>.
\<close>

theorem tcp_segments_unparseable:
  assumes "length src_mac = 6" "length dst_mac = 6"
    and "tcp_build_and_send_segment stack src_mac dst_mac src_ip dst_ip src_port dst_port seq ack flags window payload = Some (Inr f)"
  shows "parse_tcp f = None"
proof -
  let ?h = "20 + of_nat (length (tcp_options stack flags)) :: u8"
  obtain t c where f: "f = (dst_mac @ src_mac) @ put_be16 0x0800 @ frag_header t 0 0x4000 6 src_ip dst_ip @
      write_at 16 (put_be16 c) (put_be16 src_port @ put_be16 dst_port @ put_be32 seq @ put_be32 ack @
        [drop_bit 2 ?h, flags] @ put_be16 window @ put_be16 0 @ put_be16 0 @ tcp_options stack flags @ payload)"
    using assms(3) unfolding tcp_build_and_send_segment_def Let_def in_buffer_def build_header_frag
    by (auto split: if_splits)
  have m: "length (dst_mac @ src_mac) = 12" using assms by simp
  have "drop 34 f ! 12 = drop_bit 2 ?h"
    unfolding built_frame(7) [OF m f] by (simp add: write_at_def nth_append put_be16_def put_be32_def)
  then have "drop_bit 4 (drop 34 f ! 12) = 0" unfolding tcp_data_offset by simp
  then show ?thesis by (simp add: parse_tcp_def Let_def built_frame [OF m f])
qed

theorem tcp_segments_unparseable_witness:
  "\<exists>f. tcp_build_and_send_segment (\<lambda>_. 0) (replicate 6 2) (replicate 6 3) 0x0a00020f 0x0a000202 80 4000 1 2 0x10 4096 [] = Some (Inr f) \<and>
     parse_tcp f = None"
proof -
  obtain f where "tcp_build_and_send_segment (\<lambda>_. 0) (replicate 6 2) (replicate 6 3) 0x0a00020f 0x0a000202 80 4000 1 2 0x10 4096 [] = Some (Inr f)"
    by (simp add: tcp_build_and_send_segment_def Let_def tcp_options_def in_buffer_def NETWORK_BUFFER_SIZE_def write_at_def
        build_header_frag length_frag_header)
  then show ?thesis using tcp_segments_unparseable [of "replicate 6 2" "replicate 6 3"] by auto
qed

section \<open>Byte order of the TCP checksum\<close>

text \<open>The sum of the two halves of an address, as the pseudo header adds them.\<close>

definition halves :: "u32 \<Rightarrow> nat" where
  "halves a = unat (drop_bit 16 a AND 0xffff) + unat (a AND 0xffff)"

definition quad :: "u8 \<Rightarrow> u8 \<Rightarrow> u8 \<Rightarrow> u8 \<Rightarrow> u32" where
  "quad x y z w = push_bit 24 (ucast x) OR push_bit 16 (ucast y) OR push_bit 8 (ucast z) OR ucast w"

lemma unat_quad: "unat (quad x y z w) = 16777216 * unat x + 65536 * unat y + 256 * unat z + unat w"
proof -
  have a: "push_bit 8 (ucast z) OR ucast w = (push_bit 8 (ucast z) + ucast w :: u32)"
    by (rule disjunctive_add [symmetric]) (auto simp: bit_simps dest: bit_imp_le_length)
  have b: "push_bit 16 (ucast y) OR push_bit 8 (ucast z) OR ucast w =
      (push_bit 16 (ucast y) + (push_bit 8 (ucast z) OR ucast w) :: u32)"
    by (rule disjunctive_add [symmetric]) (auto simp: bit_simps dest: bit_imp_le_length)
  have q: "quad x y z w = push_bit 24 (ucast x) + (push_bit 16 (ucast y) OR push_bit 8 (ucast z) OR ucast w)"
    unfolding quad_def by (rule disjunctive_add [symmetric]) (auto simp: bit_simps dest: bit_imp_le_length)
  show ?thesis
    using unat_u8_less [of x] unat_u8_less [of y] unat_u8_less [of z] unat_u8_less [of w]
    unfolding q unfolding b unfolding a by (simp add: push_bit_eq_mult unat_word_ariths unat_ucast_small)
qed

lemma unat_halves: "unat (drop_bit 16 a AND 0xffff) = unat a div 65536" "unat (a AND 0xffff) = unat a mod 65536" for a :: u32
proof -
  have m: "unat (b AND 0xffff) = unat b mod 65536" for b :: u32
  proof -
    have "b AND 0xffff = take_bit 16 b" by (simp add: take_bit_eq_mask mask_eq_exp_minus_1)
    then show ?thesis by (simp add: unsigned_take_bit_eq take_bit_eq_mod [where 'a = nat])
  qed
  have "unat a < 2 ^ LENGTH(32)" by (rule unsigned_less)
  then show "unat (drop_bit 16 a AND 0xffff) = unat a div 65536"
    by (simp add: m unat_drop_bit_eq drop_bit_eq_div [where 'a = nat] div_less_iff_less_mult)
  show "unat (a AND 0xffff) = unat a mod 65536" by (rule m)
qed

lemma halves_quad: "halves (quad x y z w) = 256 * (unat x + unat z) + (unat y + unat w)"
proof -
  let ?h = "256 * unat x + unat y" and ?l = "256 * unat z + unat w"
  have "?l < 65536" using unat_u8_less [of z] unat_u8_less [of w] by simp
  then have "(65536 * ?h + ?l) div 65536 = ?h" "(65536 * ?h + ?l) mod 65536 = ?l"
    by (simp_all only: div_mult_self4 mod_mult_self4 div_less mod_less)
  moreover have "unat (quad x y z w) = 65536 * ?h + ?l" by (simp add: unat_quad)
  ultimately show ?thesis unfolding halves_def unat_halves(1) by (simp only: unat_halves(2)) simp
qed

text \<open>Adding an address in the wrong byte order multiplies its share of the sum by 256.\<close>

lemma halves_swapped: "halves (get_le32 f i) mod 65535 = (256 * halves (get_be32 f i)) mod 65535"
proof -
  let ?b = "\<lambda>j. unat (f ! (i + j))"
  have "get_le32 f i = quad (f ! (i + 3)) (f ! (i + 2)) (f ! (i + 1)) (f ! i)"
    by (simp add: get_le32_def quad_def ac_simps)
  then have l: "halves (get_le32 f i) = 256 * (?b 3 + ?b 1) + (?b 2 + ?b 0)" by (simp add: halves_quad)
  have "get_be32 f i = quad (f ! i) (f ! (i + 1)) (f ! (i + 2)) (f ! (i + 3))"
    by (simp add: get_be32_def quad_def)
  then have "256 * halves (get_be32 f i) = 65535 * (?b 0 + ?b 2) + halves (get_le32 f i)" by (simp add: halves_quad l)
  then show ?thesis by (simp only: mod_mult_self4)
qed

definition pseudo_sum :: "u32 \<Rightarrow> u32 \<Rightarrow> u8 \<Rightarrow> u16 \<Rightarrow> u64" where
  "pseudo_sum s d p n =
     ucast (drop_bit 16 s AND 0xffff) + ucast (s AND 0xffff) + ucast (drop_bit 16 d AND 0xffff) +
     ucast (d AND 0xffff) + ucast p + ucast n"

lemma unat_pseudo_sum: "unat (pseudo_sum s d p n) = halves s + halves d + unat p + unat n"
proof -
  have u: "unat (ucast x :: u64) = unat x \<and> unat x < 2 ^ 32" for x :: u32
  proof -
    have "unat x < 2 ^ LENGTH(32)" by (rule unsigned_less)
    then show ?thesis by (simp add: unat_ucast_small)
  qed
  have v: "unat (ucast p :: u64) = unat p \<and> unat p < 2 ^ 32" "unat (ucast n :: u64) = unat n \<and> unat n < 2 ^ 32"
  proof -
    have "unat n < 2 ^ LENGTH(16)" by (rule unsigned_less)
    then show "unat (ucast n :: u64) = unat n \<and> unat n < 2 ^ 32" by (simp add: unat_ucast_small)
  qed (use unat_u8_less [of p] in \<open>simp add: unat_ucast_small\<close>)
  have add: "unat (x + y :: u64) = unat x + unat y" if "unat x < 2 ^ 62" "unat y < 2 ^ 62" for x y
    using that by (simp add: unat_word_ariths)
  have "unat (x1 + x2 + x3 + x4 + x5 + x6 :: u64) = unat x1 + unat x2 + unat x3 + unat x4 + unat x5 + unat x6"
    if "unat x1 < 2 ^ 32" "unat x2 < 2 ^ 32" "unat x3 < 2 ^ 32" "unat x4 < 2 ^ 32" "unat x5 < 2 ^ 32" "unat x6 < 2 ^ 32"
    for x1 x2 x3 x4 x5 x6 using that by (simp add: add)
  then show ?thesis unfolding pseudo_sum_def halves_def using u v by simp
qed

lemma unat_pseudo_checksum:
  assumes "length tcp < 2 ^ 20"
  shows "unat (ipv4_pseudo_checksum s d p n tcp) = 65535 - residue (halves s + halves d + unat p + unat n + word_total tcp)"
proof -
  have w: "word_total tcp < 2 ^ 40" using word_total_bound [of tcp] assms by simp
  have h: "halves a < 2 ^ 33" for a
  proof -
    have "unat x < 2 ^ LENGTH(32)" for x :: u32 by (rule unsigned_less)
    from this [of "drop_bit 16 a AND 0xffff"] this [of "a AND 0xffff"] show ?thesis unfolding halves_def by simp
  qed
  have "unat p < 2 ^ LENGTH(8)" "unat n < 2 ^ LENGTH(16)" by (rule unsigned_less)+
  with w h [of s] h [of d] have "unat (pseudo_sum s d p n) + word_total tcp < 2 ^ 64" by (simp add: unat_pseudo_sum)
  then have "unat (sum_words (pseudo_sum s d p n) tcp) = halves s + halves d + unat p + unat n + word_total tcp"
    by (simp only: unat_sum_words unat_pseudo_sum)
  then show ?thesis
    unfolding ipv4_pseudo_checksum_def pseudo_sum_def [symmetric] by (simp only: checksum_arith)
qed

lemma pseudo_checksum_zero:
  assumes "length tcp < 2 ^ 20" "0 < unat p"
  shows "ipv4_pseudo_checksum s d p n tcp = 0 \<longleftrightarrow>
    (halves s + halves d + (unat p + unat n + word_total tcp)) mod 65535 = 0"
proof -
  let ?t = "halves s + halves d + unat p + unat n + word_total tcp"
  have "ipv4_pseudo_checksum s d p n tcp = 0 \<longleftrightarrow> residue ?t = 65535"
    using unat_pseudo_checksum [OF assms(1), of s d p n] residue_bound [of ?t] by (simp add: word_unat_eq_iff)
  then show ?thesis using assms(2) by (simp add: residue_full ac_simps)
qed

text \<open>
  A TCP frame as the protocol has it: an option-free IP header with a valid checksum, a TCP header
  that fits, and a TCP checksum that is right for the addresses of the header.
\<close>

definition valid_tcp_frame :: "u8 list \<Rightarrow> bool" where
  "valid_tcp_frame f \<longleftrightarrow> (let n = unat (get_be16 f 16) - 20; tcp = drop 34 f; words = unat (drop_bit 4 (tcp ! 12)) in
     eth_frame_has_ipv4 f \<and> f ! 14 = 0x45 \<and> f ! 23 = 6 \<and> 40 \<le> unat (get_be16 f 16) \<and>
     34 + n \<le> length f \<and> 5 \<le> words \<and> words * 4 \<le> n \<and> header_sum_ok f \<and> get_be16 tcp 16 \<noteq> 0 \<and>
     ipv4_pseudo_checksum (get_be32 f 26) (get_be32 f 30) 6 (of_nat n) (take n tcp) = 0)"

lemma mod_add_multiple: "(b :: nat) mod m = 0 \<Longrightarrow> (a + b) mod m = a mod m"
  by (metis add.right_neutral mod_add_right_eq)

lemma multiple_of_257: "(255 * s) mod 65535 = 0 \<longleftrightarrow> 257 dvd (s :: nat)"
  using nat_mult_dvd_cancel1 [of 255 257 s] by (simp add: mod_eq_0_iff_dvd)


definition demo_tcp :: "u8 list" where
  "demo_tcp = [0x0f, 0xa0, 0, 80, 0, 0, 0, 1, 0, 0, 0, 2, 0x50, 0x10, 0x10, 0, 0x77, 0xd1, 0, 0]"

definition demo_tcp_frame :: "u8 list" where
  "demo_tcp_frame = replicate 12 0 @ put_be16 0x0800 @ frag_header 40 0 0x4000 6 0x0a000202 0x0a00020f @ demo_tcp"

lemma halves_ground: "halves 0x0a000202 = 0xc02" "halves 0x0a00020f = 0xc0f"
  by (simp_all add: halves_def)

lemma demo_tcp_frame_valid: "valid_tcp_frame demo_tcp_frame"
proof -
  note f = built_frame [OF _ demo_tcp_frame_def, simplified]
  have "ipv4_pseudo_checksum 0x0a000202 0x0a00020f 6 20 demo_tcp = 0"
    by (subst pseudo_checksum_zero) (simp_all add: demo_tcp_def halves_ground)
  then show ?thesis
    unfolding valid_tcp_frame_def Let_def f using f(2,8) by (simp add: demo_tcp_def get_be16_def)
qed


end
