(* ===== verification/Spec2Isabelle.thy ===== *)
theory Spec2Isabelle
  imports Socket_Buffer Klog_Ring Routing Rate_Limit Core_Lease Numa_Init Sched_Safety Security_Update Vmm_Boot
    Kheap_Paging Arena_Mapping Sandbox_Safety Sha256_Stream Mfs_Content Paged_Kv Net_Wire
begin

text \<open>
  Verification development of the XAI OS kernel (\<^verbatim>\<open>src/kernel\<close>), a small operating system in C for
  AArch64 that runs AI cells on leased cores.

  \<^bold>\<open>The parts and how they interact.\<close> The firmware memory map is turned into a bitmap page allocator
  (\<^verbatim>\<open>mm/numa.c\<close>), which the physical memory manager (\<^verbatim>\<open>mm/pmm.c\<close>) puts in front of all clients. The page
  tables (\<^verbatim>\<open>arch/aarch64/mmu.c\<close>) take their pages from it; the kernel heap (\<^verbatim>\<open>mm/kheap.c\<close>) maps its window
  through the page tables; arenas (\<^verbatim>\<open>mm/arena.c\<close>), build sandboxes (\<^verbatim>\<open>runtime/sandbox.c\<close>) and the paged
  key/value cache (\<^verbatim>\<open>runtime/paged_kv_cache.c\<close>) allocate from the heap. The core registry
  (\<^verbatim>\<open>arch/aarch64/smp.c\<close>) and topology (\<^verbatim>\<open>arch/aarch64/topology.c\<close>) are below core leases
  (\<^verbatim>\<open>runtime/core_lease.c\<close>) and the scheduler (\<^verbatim>\<open>sched/scheduler.c\<close>). The security policy
  (\<^verbatim>\<open>runtime/security.c\<close>) is consulted by the sandboxes and for updates. The mutable file system
  (\<^verbatim>\<open>fs/mutable_fs.c\<close>) works on a block driver. The network part has IPv4 (\<^verbatim>\<open>net/ipv4.c\<close>), routing
  (\<^verbatim>\<open>net/routing.c\<close>), socket buffers (\<^verbatim>\<open>net/socket_buffer.c\<close>) and the frame formats of
  \<^verbatim>\<open>runtime/network_stack.c\<close>.

  \<^bold>\<open>Conventions.\<close> A C struct is a record, static variables are the fields of one state record that an
  operation takes and returns, an array is a list or a function of the index, a pointer argument
  that may be null is an option. Integers are words of the width of the source, so that overflow wraps.
  Status codes are values of \<^typ>\<open>xaios_status\<close>; a result \<open>None\<close> of an operation stands for a failed
  kernel assertion, an access outside an array, or a loop that does not end, as each theory says.
  Definitions carry the name of the C function; a loop of a function is a definition of its own. Constants
  carry the name of their macro. Locks are left out: each call of a locked operation is one step. Log output
  is left out.

  \<^bold>\<open>Theories.\<close>
  \<^item> \<^verbatim>\<open>Prelude\<close>: C types, status codes, page arithmetic, array scans, lemmas on words and lists.
  \<^item> \<^verbatim>\<open>Fifo\<close>: the interfaces \<^verbatim>\<open>bounded_fifo\<close> and \<^verbatim>\<open>lossy_fifo\<close> of byte queues, with ring buffers.
    \<^verbatim>\<open>Socket_Buffer\<close> and \<^verbatim>\<open>Klog_Ring\<close> model \<^verbatim>\<open>net/socket_buffer.c\<close> and \<^verbatim>\<open>core/klog_ring.c\<close> and interpret them: a
    stream is delivered unchanged and in order, the log keeps the latest bytes, and buffers of the pool have one owner.
  \<^item> \<^verbatim>\<open>Routing\<close>: longest-prefix lookup against a specification, insertion and lookup.
  \<^item> \<^verbatim>\<open>Rate_Limit\<close>: token buckets; no cell is granted more than burst and refill over any run.
  \<^item> \<^verbatim>\<open>Smp\<close>, \<^verbatim>\<open>Core_Lease\<close>: core registry and leases; reachable states keep leases disjoint and assertions true.
  \<^item> \<^verbatim>\<open>Page_Allocator\<close>: the contract \<^verbatim>\<open>page_allocator\<close> of a page allocator and its consequences for clients.
    \<^verbatim>\<open>Numa\<close>, \<^verbatim>\<open>Pmm\<close>, \<^verbatim>\<open>Numa_Init\<close>: the bitmap allocator, the memory manager (which interpret it), and the
    initialisation from the memory map that establishes their invariant.
  \<^item> \<^verbatim>\<open>Topology\<close>: the domains built at start form a tree that covers every CPU.
  \<^item> \<^verbatim>\<open>Runqueue\<close>, \<^verbatim>\<open>Scheduler\<close>, \<^verbatim>\<open>Sched_Safety\<close>: run queues, task tables, placement, stealing and ticks; in every
    reachable state a process is in one place.
  \<^item> \<^verbatim>\<open>Security\<close>, \<^verbatim>\<open>Security_Update\<close>: string scanners, path and capability policy, update signatures and their replay protection.
  \<^item> \<^verbatim>\<open>Vmm\<close>, \<^verbatim>\<open>Page_Tables\<close>, \<^verbatim>\<open>Address_Space\<close>, \<^verbatim>\<open>Vmm_Boot\<close>: the page tables as memory, the map they denote, what
    mapping, unmapping and checking a user buffer do to that map, and the identity map of \<^verbatim>\<open>vmm_init\<close>.
  \<^item> \<^verbatim>\<open>Kheap\<close>, \<^verbatim>\<open>Kheap_Safety\<close>, \<^verbatim>\<open>Kheap_Paging\<close>: the heap, disjointness of live blocks, and that blocks are mapped.
  \<^item> \<^verbatim>\<open>Arena\<close>, \<^verbatim>\<open>Arena_Mapping\<close>: arenas, and that a new one maps fresh cleared pages and changes nothing else.
  \<^item> \<^verbatim>\<open>Sandbox\<close>, \<^verbatim>\<open>Sandbox_Safety\<close>: the sandbox life cycle and its bytecode machine, which stops within its budget.
  \<^item> \<^verbatim>\<open>Sha256\<close>, \<^verbatim>\<open>Sha256_Stream\<close>: the hash and the equivalence of its streaming interface with a one-shot reference.
  \<^item> \<^verbatim>\<open>Mfs_Base\<close>, \<^verbatim>\<open>Mfs\<close>, \<^verbatim>\<open>Mfs_Ops\<close>, \<^verbatim>\<open>Mfs_Api\<close>: the file system from its helpers to descriptors. \<^verbatim>\<open>Mfs_Blocks\<close>: the
    bitmap marks exactly the owned blocks over any run. \<^verbatim>\<open>Mfs_Content\<close>: writing a file is a map update.
  \<^item> \<^verbatim>\<open>Paged_Kv\<close>: the key/value cache, and that no reachable cache ever stores a token.
  \<^item> \<^verbatim>\<open>Ipv4\<close>, \<^verbatim>\<open>Ipv4_Checksum\<close>, \<^verbatim>\<open>Net_Wire\<close>: IPv4 with fragments, the arithmetic of its checksum, UDP and TCP frames;
    the round trip of datagrams, and three defects of sending and receiving segments.

  \<^bold>\<open>Loops and fuel.\<close> Loops whose end depends on memory contents (searches of the heap's free list, of bitmap words,
  the mapping loop, the sandbox machine) are partial functions into options; that they return is proved where a property says so.
  Other loops are total. Only the append loop of
  the key/value cache uses fuel: the number of tokens plus the number of free blocks plus one, since every round
  copies a token or takes a block.

  \<^bold>\<open>Parameters.\<close> The block device is the record \<^verbatim>\<open>block_driver\<close>; the properties of the file system's bookkeeping
  hold for every driver, the one on contents for drivers that store what they are given, of which \<^verbatim>\<open>ram_driver\<close> is one.
  The addresses of the kernel image, the clock and uninitialised memory are arguments.

  \<^bold>\<open>Not modelled.\<close> Device drivers, interrupt, timer and exception code, assembly, the boot loader and the x86-64 port
  work on hardware registers. The AI kernels compute in floating point. Of the network stack the
  flow tables, queues, listeners and IPv6 are left out, as are ARP, neighbour discovery, ICMP and DNS. System
  calls, services, the program loader, remote login and SSH, the developer services, persistence and the update
  slots, the initial file system and user programs are not covered. Self tests, counters' getters and log lines of
  the modelled files are left out. Interleavings inside a locked section and weak memory ordering are not modelled.
\<close>

end
